(* ===== verification/Prelude.thy ===== *)
theory Prelude
  imports Main "HOL-Library.Word"
begin

text \<open>
  What the components share: the collections of simplification rules, the sequencing of
  fallible computations, list-backed SQL tables (a table is the list of its rows, a row is
  found by its key), decimal rendering and the prefix of a string.
\<close>

named_theorems table_simps \<open>lookup, update and delete of list-backed tables\<close>
named_theorems const_defs \<open>the named constants of the code\<close>

subsection \<open>Fallible computations\<close>

text \<open>
  \<open>attempt r k\<close> is Go's \<^verbatim>\<open>x, err := r; if err != nil { return err }; k x\<close>: an error of the
  first computation is the result, otherwise the second one runs on its value.
\<close>

definition attempt :: "'e + 'a \<Rightarrow> ('a \<Rightarrow> 'e + 'b) \<Rightarrow> 'e + 'b" where
  "attempt r k = (case r of Inl e \<Rightarrow> Inl e | Inr x \<Rightarrow> k x)"

lemma attempt_simps [simp]:
  "attempt (Inl e) k = Inl e"
  "attempt (Inr x) k = k x"
  by (simp_all add: attempt_def)

lemma attempt_eq_Inr [simp]:
  "attempt r k = Inr y \<longleftrightarrow> (\<exists>x. r = Inr x \<and> k x = Inr y)"
  by (cases r) auto

lemma attempt_eq_Inl:
  "attempt r k = Inl e \<longleftrightarrow> r = Inl e \<or> (\<exists>x. r = Inr x \<and> k x = Inl e)"
  by (cases r) auto

lemma attempt_cong [fundef_cong]:
  "r = r' \<Longrightarrow> (\<And>x. r' = Inr x \<Longrightarrow> k x = k' x) \<Longrightarrow> attempt r k = attempt r' k'"
  by (cases r') auto

definition Inr_val :: "'e + 'a \<Rightarrow> 'a option" where
  "Inr_val r = (case r of Inl e \<Rightarrow> None | Inr x \<Rightarrow> Some x)"

fun is_ok :: "'e + 'a \<Rightarrow> bool" where
  "is_ok (Inl e) = False"
| "is_ok (Inr x) = True"

lemma is_ok_iff: "is_ok r \<longleftrightarrow> (\<exists>x. r = Inr x)"
  by (cases r) auto

text \<open>\<open>each f xs\<close> runs a check over a list and stops at the first error.\<close>

fun each :: "('a \<Rightarrow> 'e + unit) \<Rightarrow> 'a list \<Rightarrow> 'e + unit" where
  "each f [] = Inr ()"
| "each f (x # xs) = attempt (f x) (\<lambda>_. each f xs)"

lemma each_Inr: "each f xs = Inr u \<longleftrightarrow> (\<forall>x \<in> set xs. f x = Inr ())"
  by (induction xs) auto

lemma each_Inl: "each f xs = Inl e \<Longrightarrow> \<exists>x \<in> set xs. f x = Inl e"
  by (induction xs) (auto simp: attempt_eq_Inl)

subsection \<open>Tables\<close>

text \<open>
  A table is a list of rows; \<open>key\<close> reads a row's primary key. \<open>tbl_get\<close> is
  \<^verbatim>\<open>SELECT ... WHERE id = $1\<close>, \<open>tbl_upd\<close> is \<^verbatim>\<open>UPDATE ... WHERE id = $1\<close>, \<open>tbl_del\<close> is
  \<^verbatim>\<open>DELETE ... WHERE id = $1\<close>; new rows go to the end (insertion order).
\<close>

definition tbl_get :: "('r \<Rightarrow> 'k) \<Rightarrow> 'r list \<Rightarrow> 'k \<Rightarrow> 'r option" where
  "tbl_get key t k = find (\<lambda>r. key r = k) t"

definition tbl_upd :: "('r \<Rightarrow> 'k) \<Rightarrow> 'k \<Rightarrow> ('r \<Rightarrow> 'r) \<Rightarrow> 'r list \<Rightarrow> 'r list" where
  "tbl_upd key k f t = map (\<lambda>r. if key r = k then f r else r) t"

definition tbl_del :: "('r \<Rightarrow> 'k) \<Rightarrow> 'k \<Rightarrow> 'r list \<Rightarrow> 'r list" where
  "tbl_del key k t = filter (\<lambda>r. key r \<noteq> k) t"

lemma tbl_get_Nil [simp]: "tbl_get key [] k = None"
  by (simp add: tbl_get_def)

lemma tbl_get_Cons [simp]:
  "tbl_get key (r # t) k = (if key r = k then Some r else tbl_get key t k)"
  by (simp add: tbl_get_def)

lemma tbl_get_Some_in: "tbl_get key t k = Some r \<Longrightarrow> r \<in> set t \<and> key r = k"
  by (induction t) (auto split: if_splits)

lemma tbl_get_key: "tbl_get key t k = Some r \<Longrightarrow> key r = k"
  by (drule tbl_get_Some_in) simp

lemma tbl_get_None: "tbl_get key t k = None \<longleftrightarrow> (\<forall>r \<in> set t. key r \<noteq> k)"
  by (induction t) auto

lemma tbl_get_distinct:
  "distinct (map key t) \<Longrightarrow> tbl_get key t k = Some r \<longleftrightarrow> r \<in> set t \<and> key r = k"
  by (induction t) (auto simp: image_iff)

lemma tbl_get_append [table_simps]:
  "tbl_get key (t @ u) k = (case tbl_get key t k of None \<Rightarrow> tbl_get key u k | Some r \<Rightarrow> Some r)"
  by (induction t) auto

lemma tbl_get_upd [table_simps]:
  "(\<And>r. key r = k \<Longrightarrow> key (f r) = k) \<Longrightarrow>
   tbl_get key (tbl_upd key k f t) j =
     (if j = k then map_option f (tbl_get key t k) else tbl_get key t j)"
  by (induction t) (auto simp: tbl_upd_def)

lemma tbl_get_del [table_simps]:
  "tbl_get key (tbl_del key k t) j = (if j = k then None else tbl_get key t j)"
  by (induction t) (auto simp: tbl_del_def)

lemma tbl_upd_keys:
  "(\<And>r. key r = k \<Longrightarrow> key (f r) = k) \<Longrightarrow> map key (tbl_upd key k f t) = map key t"
  by (simp add: tbl_upd_def)

lemma set_tbl_upd:
  "set (tbl_upd key k f t) = (\<lambda>r. if key r = k then f r else r) ` set t"
  by (simp add: tbl_upd_def)

lemma set_tbl_del [simp]: "set (tbl_del key k t) = {r \<in> set t. key r \<noteq> k}"
  by (simp add: tbl_del_def)

lemma distinct_tbl_del: "distinct (map key t) \<Longrightarrow> distinct (map key (tbl_del key k t))"
  by (simp add: tbl_del_def distinct_map_filter)

lemma tbl_upd_absent: "tbl_get key t k = None \<Longrightarrow> tbl_upd key k f t = t"
  by (induction t) (auto simp: tbl_upd_def split: if_splits)

subsection \<open>Decimal numbers\<close>

text \<open>Rendering of a number in a message (\<^verbatim>\<open>%d\<close>).\<close>

fun show_nat :: "nat \<Rightarrow> string" where
  "show_nat n = (if n < 10 then [char_of (48 + n)]
                 else show_nat (n div 10) @ [char_of (48 + n mod 10)])"

declare show_nat.simps [simp del]

end
