(* ===== verification/Errors.thy ===== *)
theory Errors
  imports Prelude
begin

text \<open>
  Errors as values (\<^verbatim>\<open>internal/domain/errors.go\<close>,
  \<^verbatim>\<open>internal/apps/kacho/api/shared/errmap.go\<close>, \<^verbatim>\<open>shared/mapping.go\<close> and
  \<^verbatim>\<open>internal/repo/kacho/pg/errors.go\<close>). The repository returns a sentinel wrapped with a
  text, the use-cases turn it into a gRPC status with one shared mapping, which never lets the text
  of a database failure reach the client.
\<close>

subsection \<open>Sentinels, codes and errors\<close>

datatype sentinel =
  ErrNotFound | ErrAlreadyExists | ErrFailedPrecondition | ErrInvalidArg | ErrInternal
| ErrUnavailable

text \<open>The gRPC codes that occur in the code.\<close>

datatype code =
  CodeUnknown | CodeInvalidArgument | CodeNotFound | CodeAlreadyExists | CodePermissionDenied
| CodeFailedPrecondition | CodeUnavailable | CodeInternal | CodeDeadlineExceeded
| CodeUnauthenticated | CodeResourceExhausted

text \<open>
  An error of the code is one of these: a bare sentinel; \<^verbatim>\<open>fmt.Errorf("%w: text", sentinel)\<close>;
  a gRPC status; the field violations collected by \<^verbatim>\<open>coreerrors.InvalidArgument()\<close> and combined
  by \<^verbatim>\<open>multierr.Combine\<close> (a gRPC status of code InvalidArgument, a list because several checks
  report together); the authorizer's \<^verbatim>\<open>ErrNoPath\<close>; a cancelled or expired context; a constraint
  violation of PostgreSQL (SQLSTATE and constraint name); \<^verbatim>\<open>pgx.ErrNoRows\<close>; any other error
  with its text.
\<close>

type_synonym violation = "string \<times> string"

datatype err =
  Sentinel sentinel
| Wrapped sentinel string
| Status code string
| Violations "violation list"
| ErrNoPath
| CtxCanceled
| DeadlineExceeded
| PgError string string
| NoRows
| OtherErr string

fun sentinel_text :: "sentinel \<Rightarrow> string" where
  "sentinel_text ErrNotFound = ''not found''"
| "sentinel_text ErrAlreadyExists = ''already exists''"
| "sentinel_text ErrFailedPrecondition = ''failed precondition''"
| "sentinel_text ErrInvalidArg = ''invalid argument''"
| "sentinel_text ErrInternal = ''internal database error''"
| "sentinel_text ErrUnavailable = ''service unavailable''"

text \<open>\<^verbatim>\<open>errors.Is(err, sentinel)\<close>.\<close>

fun is_err :: "err \<Rightarrow> sentinel \<Rightarrow> bool" where
  "is_err (Sentinel s) k = (s = k)"
| "is_err (Wrapped s _) k = (s = k)"
| "is_err _ k = False"

text \<open>
  \<^verbatim>\<open>err.Error()\<close>. The text of the errors that another package renders (a status, a field
  violation, the driver's errors) is only ever used where it is hidden from the client, so their
  rendering is kept short here.
\<close>

fun error_text :: "err \<Rightarrow> string" where
  "error_text (Sentinel s) = sentinel_text s"
| "error_text (Wrapped s m) = sentinel_text s @ '': '' @ m"
| "error_text (Status c m) = m"
| "error_text (Violations vs) = concat (map snd vs)"
| "error_text ErrNoPath = ''no path''"
| "error_text CtxCanceled = ''context canceled''"
| "error_text DeadlineExceeded = ''context deadline exceeded''"
| "error_text (PgError c n) = c @ '' '' @ n"
| "error_text NoRows = ''no rows in result set''"
| "error_text (OtherErr m) = m"

subsection \<open>Field violations\<close>

text \<open>
  A \<^verbatim>\<open>Validate\<close> method is modelled by the list of violations it reports, \<open>[]\<close> for
  \<^verbatim>\<open>nil\<close>; \<^verbatim>\<open>multierr.Combine\<close> is then concatenation.
\<close>

definition multierr_combine :: "violation list list \<Rightarrow> violation list" where
  "multierr_combine = concat"

definition field_violation :: "string \<Rightarrow> string \<Rightarrow> violation list" where
  "field_violation f m = [(f, m)]"

definition validated :: "violation list \<Rightarrow> err + unit" where
  "validated vs = (if vs = [] then Inr () else Inl (Violations vs))"

lemma validated_Inr [simp]: "validated vs = Inr u \<longleftrightarrow> vs = []"
  by (simp add: validated_def)

lemma combine_nil [simp]: "multierr_combine vss = [] \<longleftrightarrow> (\<forall>vs \<in> set vss. vs = [])"
  by (simp add: multierr_combine_def)

subsection \<open>\<^verbatim>\<open>shared.StripSentinel\<close> and \<^verbatim>\<open>shared.MapDomainErr\<close>\<close>

definition sentinel_prefixes :: "string list" where
  "sentinel_prefixes =
     [''not found: '', ''already exists: '', ''failed precondition: '',
      ''invalid argument: '', ''internal database error: '', ''service unavailable: '']"

text \<open>The loop over the prefixes: the first one that is a proper prefix is cut off.\<close>

fun strip_first :: "string list \<Rightarrow> string \<Rightarrow> string option" where
  "strip_first [] msg = None"
| "strip_first (p # ps) msg =
     (if length msg > length p \<and> take (length p) msg = p then Some (drop (length p) msg)
      else strip_first ps msg)"

definition StripSentinel :: "err \<Rightarrow> string \<Rightarrow> string" where
  "StripSentinel e fallback =
     (let msg = error_text e in
      case strip_first sentinel_prefixes msg of
        Some rest \<Rightarrow> rest
      | None \<Rightarrow> if msg = '''' then fallback else msg)"

text \<open>
  \<^verbatim>\<open>status.Code(err) != codes.Unknown\<close> on an error that \<^verbatim>\<open>status.FromError\<close> accepts:
  a status with a code other than Unknown, or field violations.
\<close>

fun grpc_shaped :: "err \<Rightarrow> bool" where
  "grpc_shaped (Status c _) = (c \<noteq> CodeUnknown)"
| "grpc_shaped (Violations _) = True"
| "grpc_shaped _ = False"

definition MapDomainErr :: "err \<Rightarrow> err" where
  "MapDomainErr e =
     (if grpc_shaped e then e
      else if is_err e ErrNotFound then Status CodeNotFound (StripSentinel e ''not found'')
      else if is_err e ErrAlreadyExists
        then Status CodeAlreadyExists (StripSentinel e ''already exists'')
      else if is_err e ErrFailedPrecondition
        then Status CodeFailedPrecondition (StripSentinel e ''failed precondition'')
      else if is_err e ErrInvalidArg
        then Status CodeInvalidArgument (StripSentinel e ''invalid argument'')
      else if is_err e ErrUnavailable
        then Status CodeUnavailable (StripSentinel e ''service unavailable'')
      else if is_err e ErrInternal then Status CodeInternal ''internal database error''
      else Status CodeInternal ''internal error'')"

text \<open>Mapping the error of a result, as in \<^verbatim>\<open>return nil, mapDomainErr(err)\<close>.\<close>

definition mapping_err :: "(err \<Rightarrow> err) \<Rightarrow> err + 'a \<Rightarrow> err + 'a" where
  "mapping_err f r = (case r of Inl e \<Rightarrow> Inl (f e) | Inr x \<Rightarrow> Inr x)"

lemma mapping_err_simps [simp]:
  "mapping_err f (Inl e) = Inl (f e)"
  "mapping_err f (Inr x) = Inr x"
  by (simp_all add: mapping_err_def)

lemma mapping_err_Inr [simp]: "mapping_err f r = Inr x \<longleftrightarrow> r = Inr x"
  by (cases r) auto

lemma mapping_err_Inl: "mapping_err f r = Inl e \<longleftrightarrow> (\<exists>e'. r = Inl e' \<and> e = f e')"
  by (cases r) auto

subsection \<open>\<^verbatim>\<open>shared.ErrInvalidArg\<close> and \<^verbatim>\<open>shared.PeerErrToStatus\<close>\<close>

definition err_invalid_arg :: "string \<Rightarrow> string \<Rightarrow> err" where
  "err_invalid_arg f m = Status CodeInvalidArgument (f @ '': '' @ m)"

fun caser :: "string \<Rightarrow> string" where
  "caser [] = []"
| "caser (c # cs) =
     (if of_char c \<ge> (97::nat) \<and> of_char c \<le> (122::nat) then char_of (of_char c - (32::nat)) # cs
      else c # cs)"

definition PeerErrToStatus :: "err \<Rightarrow> string \<Rightarrow> string \<Rightarrow> err" where
  "PeerErrToStatus e kind i =
     (if is_err e ErrNotFound
        then Status CodeInvalidArgument (caser kind @ '' '' @ i @ '' not found'')
      else if is_err e ErrInvalidArg
        then Status CodeInvalidArgument (kind @ '': '' @ error_text e)
      else if is_err e ErrFailedPrecondition
        then Status CodeFailedPrecondition (kind @ '' '' @ i @ '': '' @ error_text e)
      else if is_err e ErrUnavailable
        then Status CodeUnavailable (kind @ '' lookup unavailable'')
      else Status CodeInternal (kind @ '' lookup failed''))"

subsection \<open>\<^verbatim>\<open>mapPgErr\<close>: SQLSTATE to sentinel\<close>

fun to_lower :: "char \<Rightarrow> char" where
  "to_lower c = (if of_char c \<ge> (65::nat) \<and> of_char c \<le> (90::nat)
                 then char_of (of_char c + (32::nat)) else c)"

definition mapPgErr :: "err \<Rightarrow> string \<Rightarrow> string \<Rightarrow> err" where
  "mapPgErr e kind i =
     (case e of
        NoRows \<Rightarrow>
          (if i \<noteq> '''' then Wrapped ErrNotFound (kind @ '' '' @ i @ '' not found'')
           else Sentinel ErrNotFound)
      | PgError c n \<Rightarrow>
          (if c = ''23505'' then
             (if n = ''listeners_lb_port_proto_uniq'' then
                Wrapped ErrAlreadyExists
                  ''listener with this port and protocol already exists on the load balancer''
              else if n = ''listeners_region_vip_uniq'' then
                Wrapped ErrAlreadyExists
                  ''listener address/port/protocol already in use in this region''
              else if n \<in> {''targets_instance_id_uniq'', ''targets_nic_id_uniq'',
                           ''targets_ip_ref_uniq'', ''targets_external_ip_uniq''} then
                Wrapped ErrAlreadyExists
                  ''target with this identity already exists in the target group''
              else Wrapped ErrAlreadyExists (kind @ '' with name already exists''))
           else if c = ''23503'' then
             (if n = ''listeners_default_tg_attached_fk'' then
                Wrapped ErrFailedPrecondition
                  ''default target group is not attached to this load balancer''
              else Wrapped ErrFailedPrecondition (kind @ '' has dependent resources''))
           else if c = ''23514'' then Wrapped ErrInvalidArg (kind @ '' violates check constraint'')
           else if c = ''23P01'' then Wrapped ErrFailedPrecondition (kind @ '' value conflicts'')
           else if c = ''22P02'' then
             Wrapped ErrInvalidArg (''invalid '' @ map to_lower kind @ '' id '' @ [CHR 0x27] @ i @ [CHR 0x27])
           else Wrapped ErrInternal (error_text e))
      | _ \<Rightarrow> Wrapped ErrInternal (error_text e))"

subsection \<open>Facts\<close>

lemma MapDomainErr_shaped: "grpc_shaped e \<Longrightarrow> MapDomainErr e = e"
  by (simp add: MapDomainErr_def)

lemma MapDomainErr_grpc: "grpc_shaped (MapDomainErr e)"
  by (auto simp: MapDomainErr_def)

lemma MapDomainErr_idem [simp]: "MapDomainErr (MapDomainErr e) = MapDomainErr e"
  by (simp add: MapDomainErr_shaped MapDomainErr_grpc)

text \<open>A wrapped sentinel with a text reaches the client as exactly that text.\<close>

lemma StripSentinel_Wrapped: "m \<noteq> '''' \<Longrightarrow> StripSentinel (Wrapped s m) fb = m"
  by (cases s) (simp_all add: StripSentinel_def sentinel_prefixes_def)

fun code_of_sentinel :: "sentinel \<Rightarrow> code" where
  "code_of_sentinel ErrNotFound = CodeNotFound"
| "code_of_sentinel ErrAlreadyExists = CodeAlreadyExists"
| "code_of_sentinel ErrFailedPrecondition = CodeFailedPrecondition"
| "code_of_sentinel ErrInvalidArg = CodeInvalidArgument"
| "code_of_sentinel ErrUnavailable = CodeUnavailable"
| "code_of_sentinel ErrInternal = CodeInternal"

lemma MapDomainErr_Wrapped:
  "s \<noteq> ErrInternal \<Longrightarrow> m \<noteq> '''' \<Longrightarrow> MapDomainErr (Wrapped s m) = Status (code_of_sentinel s) m"
  by (cases s) (simp_all add: MapDomainErr_def StripSentinel_Wrapped)

text \<open>A failure of the database reaches the client as a constant text.\<close>

theorem db_error_text_hidden:
  assumes "\<forall>n. e \<noteq> PgError ''23505'' n \<and> e \<noteq> PgError ''23503'' n \<and> e \<noteq> PgError ''23514'' n
             \<and> e \<noteq> PgError ''23P01'' n \<and> e \<noteq> PgError ''22P02'' n"
    and "e \<noteq> NoRows"
  shows "MapDomainErr (mapPgErr e kind i) = Status CodeInternal ''internal database error''"
proof -
  have "mapPgErr e kind i = Wrapped ErrInternal (error_text e)"
    using assms by (cases e) (auto simp: mapPgErr_def)
  then show ?thesis by (simp add: MapDomainErr_def)
qed

theorem db_error_text_hidden_witness:
  "MapDomainErr (mapPgErr (PgError ''57014'' '''') ''Listener'' ''lst1'')
     = Status CodeInternal ''internal database error''"
  by (rule db_error_text_hidden) simp_all

end
