(* ===== verification/Domain_Types.thy ===== *)
theory Domain_Types
  imports Errors
begin

text \<open>
  The self-validating newtypes of \<^verbatim>\<open>internal/domain\<close>: names, descriptions, labels, ports,
  protocols, weights (\<^verbatim>\<open>types.go\<close>), the enumerations (\<^verbatim>\<open>status.go\<close>), the limits
  (\<^verbatim>\<open>constants.go\<close>) and the narrowing of wire integers (\<^verbatim>\<open>convert.go\<close>). Go strings are
  byte strings, so \<open>length\<close> is Go's \<^verbatim>\<open>len\<close>; Go's int32 and int64 are words read with \<open>sint\<close>.
\<close>

type_synonym int32 = "32 word"
type_synonym int64 = "64 word"

subsection \<open>Character classes and anchored regular expressions\<close>

definition code_of :: "char \<Rightarrow> nat" where
  "code_of c = of_char c"

definition lower_letter :: "char \<Rightarrow> bool" where
  "lower_letter c \<longleftrightarrow> 97 \<le> code_of c \<and> code_of c \<le> 122"

definition upper_letter :: "char \<Rightarrow> bool" where
  "upper_letter c \<longleftrightarrow> 65 \<le> code_of c \<and> code_of c \<le> 90"

definition digit :: "char \<Rightarrow> bool" where
  "digit c \<longleftrightarrow> 48 \<le> code_of c \<and> code_of c \<le> 57"

definition lower_alnum :: "char \<Rightarrow> bool" where
  "lower_alnum c \<longleftrightarrow> lower_letter c \<or> digit c"

lemmas char_class_defs =
  code_of_def lower_letter_def upper_letter_def digit_def lower_alnum_def

text \<open>
  The two patterns of the code are sequences of character classes with a repetition range,
  anchored at both ends: \<open>Piece c lo hi\<close> stands for \<^verbatim>\<open>[c]{lo,hi}\<close>, and the match tries every
  count, as the language of the expression demands.
\<close>

datatype piece = Piece "char \<Rightarrow> bool" nat nat

fun rx_match :: "piece list \<Rightarrow> string \<Rightarrow> bool" where
  "rx_match [] s \<longleftrightarrow> s = []"
| "rx_match (Piece c lo hi # ps) s \<longleftrightarrow>
     list_ex (\<lambda>k. k \<le> length s \<and> list_all c (take k s) \<and> rx_match ps (drop k s)) [lo..<Suc hi]"

definition lbNameRe :: "piece list" where
  "lbNameRe = [Piece lower_letter 1 1, Piece (\<lambda>c. lower_alnum c \<or> c = CHR ''-'') 1 61,
               Piece lower_alnum 1 1]"

definition label_key_char :: "char \<Rightarrow> bool" where
  "label_key_char c \<longleftrightarrow> lower_alnum c \<or> c \<in> set ''-_./@'' \<or> c = CHR 0x5C"

definition lbLabelKeyRe :: "piece list" where
  "lbLabelKeyRe = [Piece lower_letter 1 1, Piece label_key_char 0 62]"

subsection \<open>The order of strings\<close>

text \<open>Byte-wise order, and sorting by insertion (\<^verbatim>\<open>sort.Strings\<close>, \<^verbatim>\<open>ORDER BY\<close>).\<close>

fun string_less :: "string \<Rightarrow> string \<Rightarrow> bool" where
  "string_less [] [] = False"
| "string_less [] (y # ys) = True"
| "string_less (x # xs) [] = False"
| "string_less (x # xs) (y # ys) =
     (if code_of x < code_of y then True else if code_of y < code_of x then False
      else string_less xs ys)"

fun insert_by :: "('a \<Rightarrow> 'a \<Rightarrow> bool) \<Rightarrow> 'a \<Rightarrow> 'a list \<Rightarrow> 'a list" where
  "insert_by le x [] = [x]"
| "insert_by le x (y # ys) = (if le x y then x # y # ys else y # insert_by le x ys)"

definition isort :: "('a \<Rightarrow> 'a \<Rightarrow> bool) \<Rightarrow> 'a list \<Rightarrow> 'a list" where
  "isort le xs = foldr (insert_by le) xs []"

definition sort_strings :: "string list \<Rightarrow> string list" where
  "sort_strings = isort (\<lambda>a b. \<not> string_less b a)"

lemma set_insert_by [simp]: "set (insert_by le x ys) = insert x (set ys)"
  by (induction ys) auto

lemma set_isort [simp]: "set (isort le xs) = set xs"
  by (induction xs) (auto simp: isort_def)

lemma length_isort [simp]: "length (isort le xs) = length xs"
proof -
  have "length (insert_by le x ys) = Suc (length ys)" for x :: 'a and ys
    by (induction ys) auto
  then show ?thesis by (induction xs) (auto simp: isort_def)
qed

lemma set_sort_strings [simp]: "set (sort_strings xs) = set xs"
  by (simp add: sort_strings_def)

subsection \<open>Limits\<close>

definition ShortIDLen :: nat where [const_defs]: "ShortIDLen = 8"
definition MaxDescriptionLen :: nat where [const_defs]: "MaxDescriptionLen = 256"
definition MaxLabelPairs :: nat where [const_defs]: "MaxLabelPairs = 64"
definition MaxLabelKeyLen :: nat where [const_defs]: "MaxLabelKeyLen = 63"
definition MaxLabelValueLen :: nat where [const_defs]: "MaxLabelValueLen = 63"
definition PortMin :: int32 where [const_defs]: "PortMin = 1"
definition PortMax :: int32 where [const_defs]: "PortMax = 65535"
definition MaxTargetWeight :: int32 where [const_defs]: "MaxTargetWeight = 1000"
definition MaxTargetsPerGroup :: nat where [const_defs]: "MaxTargetsPerGroup = 100"

text \<open>Durations are int64 nanoseconds.\<close>

definition Millisecond :: int64 where [const_defs]: "Millisecond = 1000000"
definition Second :: int64 where [const_defs]: "Second = 1000000000"
definition DefaultHealthInterval :: int64 where [const_defs]: "DefaultHealthInterval = 2 * Second"
definition DefaultHealthTimeout :: int64 where [const_defs]: "DefaultHealthTimeout = 1 * Second"
definition HealthIntervalMin :: int64 where [const_defs]: "HealthIntervalMin = 1 * Second"
definition HealthIntervalMax :: int64 where [const_defs]: "HealthIntervalMax = 600 * Second"
definition HealthTimeoutMin :: int64 where [const_defs]: "HealthTimeoutMin = 1 * Millisecond"
definition HealthThresholdMin :: int32 where [const_defs]: "HealthThresholdMin = 2"
definition HealthThresholdMax :: int32 where [const_defs]: "HealthThresholdMax = 10"
definition DefaultUnhealthyThreshold :: int32 where
  [const_defs]: "DefaultUnhealthyThreshold = 2"
definition DefaultHealthyThreshold :: int32 where [const_defs]: "DefaultHealthyThreshold = 2"
definition DefaultDeregistrationDelay :: int32 where
  [const_defs]: "DefaultDeregistrationDelay = 300"
definition DeregistrationDelayMin :: int32 where [const_defs]: "DeregistrationDelayMin = 0"
definition DeregistrationDelayMax :: int32 where [const_defs]: "DeregistrationDelayMax = 3600"
definition DefaultSlowStart :: int32 where [const_defs]: "DefaultSlowStart = 0"
definition SlowStartMin :: int32 where [const_defs]: "SlowStartMin = 0"
definition SlowStartMax :: int32 where [const_defs]: "SlowStartMax = 900"
definition DefaultTargetWeight :: int32 where [const_defs]: "DefaultTargetWeight = 100"

definition ProtoTCP :: string where [const_defs]: "ProtoTCP = ''TCP''"
definition ProtoUDP :: string where [const_defs]: "ProtoUDP = ''UDP''"
definition IPVersionV4 :: string where [const_defs]: "IPVersionV4 = ''IPV4''"
definition IPVersionV6 :: string where [const_defs]: "IPVersionV6 = ''IPV6''"

subsection \<open>Names and descriptions\<close>

definition LbName_Validate :: "string \<Rightarrow> violation list" where
  "LbName_Validate n =
     (if n = '''' then field_violation ''name'' ''name is required''
      else if \<not> rx_match lbNameRe n then
        field_violation ''name'' (''name must match ^[a-z][-a-z0-9]{1,61}[a-z0-9]$ '' @
          ''(lowercase letters, digits, hyphens; 3..63 chars; starts with letter; '' @
          ''ends with letter or digit)'')
      else [])"

text \<open>
  \<^verbatim>\<open>utf8.RuneCountInString\<close>: the width of the rune at the head of the string (1 for an invalid
  byte), and the number of runes.
\<close>

definition byte_in :: "string \<Rightarrow> nat \<Rightarrow> nat \<Rightarrow> nat \<Rightarrow> bool" where
  "byte_in s i lo hi \<longleftrightarrow> i < length s \<and> lo \<le> code_of (s ! i) \<and> code_of (s ! i) \<le> hi"

definition rune_width :: "string \<Rightarrow> nat" where
  "rune_width s =
     (if byte_in s 0 0xC2 0xDF then (if byte_in s 1 0x80 0xBF then 2 else 1)
      else if byte_in s 0 0xE0 0xEF then
        (if byte_in s 1 (if byte_in s 0 0xE0 0xE0 then 0xA0 else 0x80)
                        (if byte_in s 0 0xED 0xED then 0x9F else 0xBF)
            \<and> byte_in s 2 0x80 0xBF then 3 else 1)
      else if byte_in s 0 0xF0 0xF4 then
        (if byte_in s 1 (if byte_in s 0 0xF0 0xF0 then 0x90 else 0x80)
                        (if byte_in s 0 0xF4 0xF4 then 0x8F else 0xBF)
            \<and> byte_in s 2 0x80 0xBF \<and> byte_in s 3 0x80 0xBF then 4 else 1)
      else 1)"

lemma rune_width_pos [simp]: "0 < rune_width s"
  by (simp add: rune_width_def)

function RuneCount :: "string \<Rightarrow> nat" where
  "RuneCount s = (if s = [] then 0 else Suc (RuneCount (drop (rune_width s) s)))"
  by pat_completeness auto
termination
  by (relation "measure length") auto

declare RuneCount.simps [simp del]

definition LbDescription_Validate :: "string \<Rightarrow> violation list" where
  "LbDescription_Validate d =
     (if RuneCount d > MaxDescriptionLen
      then field_violation ''description'' ''description length exceeds 256 chars'' else [])"

subsection \<open>Labels\<close>

text \<open>
  \<^verbatim>\<open>dict.HDict\<close> is a map; it is modelled by the list of its entries in iteration order, \<open>Put\<close>
  replacing the value of a present key. A Go map is likewise the list of its entries in the order
  \<^verbatim>\<open>range\<close> happens to deliver them.
\<close>

type_synonym labels = "(string \<times> string) list"

fun hdict_put :: "string \<Rightarrow> string \<Rightarrow> labels \<Rightarrow> labels" where
  "hdict_put k v [] = [(k, v)]"
| "hdict_put k v ((k', v') # d) = (if k' = k then (k, v) # d else (k', v') # hdict_put k v d)"

definition LabelsFromMap :: "(string \<times> string) list \<Rightarrow> labels" where
  "LabelsFromMap m = fold (\<lambda>(k, v) d. hdict_put k v d) m []"

definition LabelsToMap :: "labels \<Rightarrow> (string \<times> string) list option" where
  "LabelsToMap d = (if length d = 0 then None else Some d)"

definition LbLabelKey_Validate :: "string \<Rightarrow> violation list" where
  "LbLabelKey_Validate s =
     (if length s = 0 \<or> length s > MaxLabelKeyLen \<or> \<not> rx_match lbLabelKeyRe s
      then field_violation (''labels.'' @ s)
        (''invalid label key (1..63 chars, lowercase letters, digits, _-./'' @ [CHR 0x5C] @
         ''@; must start with letter)'')
      else [])"

definition LbLabelVal_Validate :: "string \<Rightarrow> violation list" where
  "LbLabelVal_Validate v =
     (if length v > MaxLabelValueLen
      then field_violation ''labels'' ''label value exceeds 63 chars'' else [])"

text \<open>The iteration stops at the first entry that fails.\<close>

fun first_label_err :: "labels \<Rightarrow> violation list" where
  "first_label_err [] = []"
| "first_label_err ((k, v) # d) =
     (if LbLabelKey_Validate k \<noteq> [] then LbLabelKey_Validate k
      else if LbLabelVal_Validate v \<noteq> [] then LbLabelVal_Validate v
      else first_label_err d)"

definition ValidateLabels :: "labels \<Rightarrow> violation list" where
  "ValidateLabels d =
     (if length d > MaxLabelPairs then field_violation ''labels'' ''too many labels (max 64)''
      else first_label_err d)"

fun labels_agree :: "labels \<Rightarrow> labels \<Rightarrow> bool" where
  "labels_agree [] b = True"
| "labels_agree ((k, v) # a) b = (if map_of b k \<noteq> Some v then False else labels_agree a b)"

definition LabelsEqual :: "labels \<Rightarrow> labels \<Rightarrow> bool" where
  "LabelsEqual a b = (if length a \<noteq> length b then False else labels_agree a b)"

fun stringsEqualOrdered :: "string list \<Rightarrow> string list \<Rightarrow> bool" where
  "stringsEqualOrdered [] [] = True"
| "stringsEqualOrdered (x # xs) (y # ys) = (x = y \<and> stringsEqualOrdered xs ys)"
| "stringsEqualOrdered _ _ = False"

subsection \<open>Numbers\<close>

definition LbPort_Validate :: "int32 \<Rightarrow> violation list" where
  "LbPort_Validate p =
     (if sint p < sint PortMin \<or> sint p > sint PortMax
      then field_violation ''port'' ''port must be in range [1, 65535]'' else [])"

definition LbWeight_Validate :: "int32 \<Rightarrow> violation list" where
  "LbWeight_Validate w =
     (if sint w < 0 \<or> sint w > sint MaxTargetWeight
      then field_violation ''weight'' ''weight must be in range [0, 1000]'' else [])"

definition MinInt32 :: int where "MinInt32 = - 2147483648"
definition MaxInt32 :: int where "MaxInt32 = 2147483647"

definition LbPortFromProto :: "int64 \<Rightarrow> err + int32" where
  "LbPortFromProto v =
     (if sint v < MinInt32 \<or> sint v > MaxInt32
      then Inl (Violations (field_violation ''port'' ''port must be in range [1, 65535]''))
      else Inr (ucast v))"

definition HealthThresholdFromProto :: "string \<Rightarrow> int64 \<Rightarrow> err + int32" where
  "HealthThresholdFromProto f v =
     (if sint v < MinInt32 \<or> sint v > MaxInt32
      then Inl (Violations (field_violation (''health_check.'' @ f)
                              (f @ '' must be in range [2, 10]'')))
      else Inr (ucast v))"

subsection \<open>Protocols, families and enumerations\<close>

definition LbProto_Validate :: "string \<Rightarrow> violation list" where
  "LbProto_Validate p =
     (if p = ProtoTCP \<or> p = ProtoUDP then []
      else field_violation ''protocol'' ''protocol must be one of: TCP, UDP'')"

definition IPVersion_Validate :: "string \<Rightarrow> violation list" where
  "IPVersion_Validate v =
     (if v = IPVersionV4 \<or> v = IPVersionV6 then []
      else field_violation ''ip_version'' ''ip_version must be one of: IPV4, IPV6'')"

definition SessionAffinity5Tuple :: string where
  [const_defs]: "SessionAffinity5Tuple = ''FIVE_TUPLE''"
definition SessionAffinityClientIPOnly :: string where
  [const_defs]: "SessionAffinityClientIPOnly = ''CLIENT_IP_ONLY''"

definition SessionAffinity_Validate :: "string \<Rightarrow> violation list" where
  "SessionAffinity_Validate a =
     (if a = SessionAffinity5Tuple \<or> a = SessionAffinityClientIPOnly then []
      else field_violation ''session_affinity''
             ''session_affinity must be one of: FIVE_TUPLE, CLIENT_IP_ONLY'')"

text \<open>
  The enumerations whose values only ever come from the named constants of the code (and are
  restricted by a CHECK constraint of the table) are datatypes; \<open>_string\<close> is the Go constant.
\<close>

datatype lb_type = LBTypeExternal | LBTypeInternal
datatype lb_status =
  LBStatusCreating | LBStatusStarting | LBStatusActive | LBStatusStopping | LBStatusStopped
| LBStatusDeleting | LBStatusInactive
datatype placement_type = PlacementUnspecified | PlacementZonal | PlacementRegional
datatype listener_status =
  ListenerStatusCreating | ListenerStatusActive | ListenerStatusUpdating | ListenerStatusDeleting
datatype vip_origin = VipOriginUnset | VipOriginAuto | VipOriginLinked | VipOriginBYO
datatype tg_status = TargetGroupStatusActive | TargetGroupStatusDeleting
datatype health_status =
  TargetHealthInitial | TargetHealthHealthy | TargetHealthUnhealthy | TargetHealthDraining
| TargetHealthInactive

fun lb_type_string :: "lb_type \<Rightarrow> string" where
  "lb_type_string LBTypeExternal = ''EXTERNAL''"
| "lb_type_string LBTypeInternal = ''INTERNAL''"

fun lb_status_string :: "lb_status \<Rightarrow> string" where
  "lb_status_string LBStatusCreating = ''CREATING''"
| "lb_status_string LBStatusStarting = ''STARTING''"
| "lb_status_string LBStatusActive = ''ACTIVE''"
| "lb_status_string LBStatusStopping = ''STOPPING''"
| "lb_status_string LBStatusStopped = ''STOPPED''"
| "lb_status_string LBStatusDeleting = ''DELETING''"
| "lb_status_string LBStatusInactive = ''INACTIVE''"

fun placement_string :: "placement_type \<Rightarrow> string" where
  "placement_string PlacementUnspecified = ''''"
| "placement_string PlacementZonal = ''ZONAL''"
| "placement_string PlacementRegional = ''REGIONAL''"

fun listener_status_string :: "listener_status \<Rightarrow> string" where
  "listener_status_string ListenerStatusCreating = ''CREATING''"
| "listener_status_string ListenerStatusActive = ''ACTIVE''"
| "listener_status_string ListenerStatusUpdating = ''UPDATING''"
| "listener_status_string ListenerStatusDeleting = ''DELETING''"

fun vip_origin_string :: "vip_origin \<Rightarrow> string" where
  "vip_origin_string VipOriginUnset = ''''"
| "vip_origin_string VipOriginAuto = ''auto''"
| "vip_origin_string VipOriginLinked = ''linked''"
| "vip_origin_string VipOriginBYO = ''byo''"

fun tg_status_string :: "tg_status \<Rightarrow> string" where
  "tg_status_string TargetGroupStatusActive = ''ACTIVE''"
| "tg_status_string TargetGroupStatusDeleting = ''DELETING''"

fun health_status_string :: "health_status \<Rightarrow> string" where
  "health_status_string TargetHealthInitial = ''INITIAL''"
| "health_status_string TargetHealthHealthy = ''HEALTHY''"
| "health_status_string TargetHealthUnhealthy = ''UNHEALTHY''"
| "health_status_string TargetHealthDraining = ''DRAINING''"
| "health_status_string TargetHealthInactive = ''INACTIVE''"

definition LBType_Validate :: "string \<Rightarrow> violation list" where
  "LBType_Validate t =
     (if t \<in> lb_type_string ` {LBTypeExternal, LBTypeInternal} then []
      else field_violation ''type'' ''type must be one of: EXTERNAL, INTERNAL'')"

definition LBStatus_Validate :: "string \<Rightarrow> violation list" where
  "LBStatus_Validate s =
     (if s \<in> lb_status_string `
        {LBStatusCreating, LBStatusStarting, LBStatusActive, LBStatusStopping, LBStatusStopped,
         LBStatusDeleting, LBStatusInactive} then []
      else field_violation ''status'' ''invalid LoadBalancer status'')"

definition PlacementType_Validate :: "string \<Rightarrow> violation list" where
  "PlacementType_Validate p =
     (if p \<in> placement_string ` {PlacementUnspecified, PlacementZonal, PlacementRegional} then []
      else field_violation ''placement_type'' ''placement_type must be one of: ZONAL, REGIONAL'')"

definition ListenerStatus_Validate :: "string \<Rightarrow> violation list" where
  "ListenerStatus_Validate s =
     (if s \<in> listener_status_string `
        {ListenerStatusCreating, ListenerStatusActive, ListenerStatusUpdating,
         ListenerStatusDeleting} then []
      else field_violation ''status'' ''invalid Listener status'')"

definition VipOrigin_Validate :: "string \<Rightarrow> violation list" where
  "VipOrigin_Validate s =
     (if s \<in> vip_origin_string ` {VipOriginAuto, VipOriginLinked, VipOriginBYO} then []
      else field_violation ''vip_origin'' ''vip_origin must be one of: auto, linked, byo'')"

definition TargetGroupStatus_Validate :: "string \<Rightarrow> violation list" where
  "TargetGroupStatus_Validate s =
     (if s \<in> tg_status_string ` {TargetGroupStatusActive, TargetGroupStatusDeleting} then []
      else field_violation ''status'' ''invalid TargetGroup status'')"

definition TargetHealthStatus_Validate :: "string \<Rightarrow> violation list" where
  "TargetHealthStatus_Validate s =
     (if s \<in> health_status_string `
        {TargetHealthInitial, TargetHealthHealthy, TargetHealthUnhealthy, TargetHealthDraining,
         TargetHealthInactive} then []
      else field_violation ''status'' ''invalid Target health status'')"

subsection \<open>Facts\<close>

lemma rx_single: "rx_match [Piece c 1 1] s \<longleftrightarrow> (\<exists>x. s = [x] \<and> c x)"
  by (cases s) (auto simp: length_Suc_conv)

lemma rx_head:
  "rx_match (Piece c 1 1 # ps) s \<longleftrightarrow> (\<exists>x t. s = x # t \<and> c x \<and> rx_match ps t)"
  by (cases s) auto

declare rx_match.simps(2) [simp del]

lemma rx_mid_last:
  "rx_match [Piece c lo hi, Piece d 1 1] t \<longleftrightarrow>
     t \<noteq> [] \<and> lo \<le> length (butlast t) \<and> length (butlast t) \<le> hi \<and> list_all c (butlast t) \<and> d (last t)"
proof -
  have "k \<le> length t \<and> list_all c (take k t) \<and> rx_match [Piece d 1 1] (drop k t)
          \<longleftrightarrow> t \<noteq> [] \<and> k = length (butlast t) \<and> list_all c (butlast t) \<and> d (last t)" for k
  proof (cases "k < length t \<and> Suc k = length t")
    case True
    then have k: "k = length t - 1" and ne: "t \<noteq> []" by auto
    have "drop k t = [last t]" using ne unfolding k
      by (metis append_butlast_last_id append_eq_conv_conj length_butlast)
    moreover have "take k t = butlast t" unfolding k by (simp add: butlast_conv_take)
    ultimately show ?thesis unfolding rx_single using ne k by auto
  next
    case False
    then have "length (drop k t) \<noteq> 1" and "t = [] \<or> k \<noteq> length (butlast t)" by auto
    then have "\<nexists>x. drop k t = [x]" and "\<not> (t \<noteq> [] \<and> k = length (butlast t))" by (metis One_nat_def length_Cons list.size(3), blast)
    then show ?thesis unfolding rx_single by blast
  qed
  then have "rx_match [Piece c lo hi, Piece d 1 1] t \<longleftrightarrow>
      (\<exists>k \<in> {lo..<Suc hi}. t \<noteq> [] \<and> k = length (butlast t) \<and> list_all c (butlast t) \<and> d (last t))"
    by (subst rx_match.simps(2)) (simp only: list_ex_iff set_upt)
  then show ?thesis by auto
qed

text \<open>The strict-name contract, without the regular expression.\<close>

definition strict_name :: "string \<Rightarrow> bool" where
  "strict_name n \<longleftrightarrow> 3 \<le> length n \<and> length n \<le> 63 \<and> lower_letter (hd n) \<and> lower_alnum (last n)
     \<and> list_all (\<lambda>c. lower_alnum c \<or> c = CHR ''-'') n"

lemma rx_name: "rx_match lbNameRe n \<longleftrightarrow> strict_name n"
proof (cases n)
  case Nil
  then show ?thesis unfolding lbNameRe_def rx_head by (simp add: strict_name_def)
next
  case (Cons x t)
  show ?thesis
  proof (cases "t = []")
    case True
    with Cons show ?thesis
      unfolding lbNameRe_def rx_head rx_mid_last by (auto simp: strict_name_def)
  next
    case False
    then have t: "list_all P t \<longleftrightarrow> list_all P (butlast t) \<and> P (last t)" for P
      by (metis append_butlast_last_id list_all_append list.pred_inject)
    from False have len: "length (butlast t) = length t - 1" "0 < length t" by auto
    show ?thesis
      unfolding lbNameRe_def rx_head rx_mid_last strict_name_def Cons
      using False len by (auto simp: t lower_alnum_def)
  qed
qed

text \<open>\<^verbatim>\<open>LbName.Validate\<close> accepts exactly the strict names (3 to 63 bytes, first a lower-case
  letter, last a letter or digit, in between letters, digits and hyphens), and reports exactly one
  violation of the field \<^verbatim>\<open>name\<close> for any other string.\<close>

theorem LbName_Validate_correct:
  "(LbName_Validate n = [] \<longleftrightarrow> strict_name n)
   \<and> (\<not> strict_name n \<longleftrightarrow> (\<exists>m. LbName_Validate n = [(''name'', m)]))"
proof (cases "n = ''''")
  case True
  then show ?thesis by (simp add: LbName_Validate_def field_violation_def strict_name_def)
next
  case False
  then show ?thesis by (auto simp: LbName_Validate_def field_violation_def rx_name)
qed

lemma sint_ucast_32:
  assumes "MinInt32 \<le> sint (v :: int64)" and "sint v \<le> MaxInt32"
  shows "sint (ucast v :: int32) = sint v"
proof -
  have "sint (ucast v :: int32) = signed_take_bit 31 (sint v)"
    by transfer (simp add: signed_take_bit_take_bit)
  then show ?thesis
    using assms by (simp add: signed_take_bit_int_eq_self MinInt32_def MaxInt32_def)
qed

lemma LbPortFromProto_value: "LbPortFromProto v = Inr p \<Longrightarrow> sint p = sint v"
  using sint_ucast_32 [of v] by (auto simp: LbPortFromProto_def split: if_splits)

lemma LbPort_Validate_nil: "LbPort_Validate p = [] \<longleftrightarrow> 1 \<le> sint p \<and> sint p \<le> 65535"
  by (auto simp: LbPort_Validate_def PortMin_def PortMax_def field_violation_def)

text \<open>Narrowing a wire port (int64) to int32 and validating it accepts exactly the values 1 to
  65535 and keeps the value; in particular a value such as \<open>2 ^ 32 + 443\<close>, whose low 32 bits are a
  valid port, is rejected.\<close>

theorem LbPortFromProto_lossless:
  "(\<exists>p. LbPortFromProto v = Inr p \<and> LbPort_Validate p = [] \<and> sint p = sint v)
     \<longleftrightarrow> 1 \<le> sint v \<and> sint v \<le> 65535"
proof
  assume "\<exists>p. LbPortFromProto v = Inr p \<and> LbPort_Validate p = [] \<and> sint p = sint v"
  then show "1 \<le> sint v \<and> sint v \<le> 65535" by (auto simp: LbPort_Validate_nil)
next
  assume r: "1 \<le> sint v \<and> sint v \<le> 65535"
  then have "LbPortFromProto v = Inr (ucast v)"
    by (simp add: LbPortFromProto_def MinInt32_def MaxInt32_def)
  with r show "\<exists>p. LbPortFromProto v = Inr p \<and> LbPort_Validate p = [] \<and> sint p = sint v"
    using LbPortFromProto_value by (auto simp: LbPort_Validate_nil)
qed

lemma labels_agree_iff: "labels_agree a b \<longleftrightarrow> (\<forall>(k, v) \<in> set a. map_of b k = Some v)"
  by (induction a b rule: labels_agree.induct) auto

text \<open>On label sets without repeated keys, \<^verbatim>\<open>LabelsEqual\<close> is equality of the two maps,
  whatever the iteration orders are.\<close>

theorem LabelsEqual_iff:
  assumes "distinct (map fst a)" and "distinct (map fst b)"
  shows "LabelsEqual a b \<longleftrightarrow> map_of a = map_of b"
proof -
  have sub: "labels_agree a b \<longleftrightarrow> map_of a \<subseteq>\<^sub>m map_of b"
    using assms(1) by (auto simp: labels_agree_iff map_le_def dom_map_of_conv_image_fst)
  have len: "length c = card (dom (map_of c))" if "distinct (map fst c)" for c :: labels
    using distinct_card [OF that] by (simp add: dom_map_of_conv_image_fst)
  have "map_of a = map_of b" if le: "map_of a \<subseteq>\<^sub>m map_of b" and l: "length a = length b"
  proof -
    have "dom (map_of a) = dom (map_of b)"
      using map_le_implies_dom_le [OF le] len assms l
      by (simp add: card_subset_eq finite_dom_map_of)
    with le show ?thesis by (intro map_le_antisym) (auto simp: map_le_def)
  qed
  then show ?thesis using sub len assms by (auto simp: LabelsEqual_def)
qed

theorem LabelsEqual_iff_witness:
  "LabelsEqual [(''a'', ''1''), (''b'', ''2'')] [(''b'', ''2''), (''a'', ''1'')]"
  by (subst LabelsEqual_iff) (auto simp: fun_eq_iff)

lemma stringsEqualOrdered_eq [simp]: "stringsEqualOrdered a b \<longleftrightarrow> a = b"
  by (induction a b rule: stringsEqualOrdered.induct) auto

lemma enum_validate [simp]:
  "LBType_Validate (lb_type_string t) = []"
  "LBStatus_Validate (lb_status_string s) = []"
  "PlacementType_Validate (placement_string p) = []"
  "ListenerStatus_Validate (listener_status_string l) = []"
  "TargetGroupStatus_Validate (tg_status_string g) = []"
  by (cases t; simp add: LBType_Validate_def)
     ((cases s; simp add: LBStatus_Validate_def),
      (cases p; simp add: PlacementType_Validate_def),
      (cases l; simp add: ListenerStatus_Validate_def),
      (cases g; simp add: TargetGroupStatus_Validate_def))

lemma hdict_put_keys: "set (map fst (hdict_put k v d)) = insert k (set (map fst d))"
  by (induction k v d rule: hdict_put.induct) auto

lemma hdict_put_distinct: "distinct (map fst d) \<Longrightarrow> distinct (map fst (hdict_put k v d))"
proof (induction k v d rule: hdict_put.induct)
  case (2 k v k' v' d)
  then show ?case using hdict_put_keys [of k v d] by auto
qed simp

lemma hdict_put_map: "map_of (hdict_put k v d) = (map_of d)(k \<mapsto> v)"
  by (induction k v d rule: hdict_put.induct) auto

lemma LabelsFromMap_distinct: "distinct (map fst (LabelsFromMap m))"
proof -
  have "distinct (map fst d) \<Longrightarrow> distinct (map fst (fold (\<lambda>(k, v) d. hdict_put k v d) m d))" for d
    by (induction m arbitrary: d) (auto simp: hdict_put_distinct)
  then show ?thesis by (simp add: LabelsFromMap_def)
qed

end
