(* ===== verification/Net_Addr.thy ===== *)
theory Net_Addr
  imports Domain_Types
begin

text \<open>
  What the code uses of Go's standard package \<^verbatim>\<open>net/netip\<close>: parsing of textual IPv4 and IPv6
  addresses, the classification predicates, \<^verbatim>\<open>Unmap\<close> and \<^verbatim>\<open>String\<close>. Bytes are numbers below
  256; an IPv4 address has four of them, an IPv6 address sixteen and a zone (empty for none).
\<close>

datatype addr = Addr4 "nat list" | Addr6 "nat list" string

subsection \<open>\<^verbatim>\<open>netip.ParseAddr\<close>\<close>

definition digit_val :: "char \<Rightarrow> nat" where
  "digit_val c = code_of c - 48"

definition hex_val :: "char \<Rightarrow> nat option" where
  "hex_val c =
     (if digit c then Some (code_of c - 48)
      else if 97 \<le> code_of c \<and> code_of c \<le> 102 then Some (code_of c - 87)
      else if 65 \<le> code_of c \<and> code_of c \<le> 70 then Some (code_of c - 55)
      else None)"

text \<open>
  \<^verbatim>\<open>parseIPv4Fields\<close>: \<open>fs\<close> are the finished octets, \<open>v\<close> and \<open>n\<close> the value and the number
  of digits of the current one. No digits means a dot at the start or after another dot.
\<close>

fun v4_scan :: "nat list \<Rightarrow> nat \<Rightarrow> nat \<Rightarrow> string \<Rightarrow> nat list option" where
  "v4_scan fs v n [] = (if length fs < 3 then None else Some (fs @ [v]))"
| "v4_scan fs v n (c # cs) =
     (if digit c then
        (if n = 1 \<and> v = 0 then None
         else if v * 10 + digit_val c > 255 then None
         else v4_scan fs (v * 10 + digit_val c) (Suc n) cs)
      else if c = CHR ''.'' then
        (if n = 0 \<or> cs = [] then None
         else if length fs = 3 then None
         else v4_scan (fs @ [v]) 0 0 cs)
      else None)"

definition parseIPv4 :: "string \<Rightarrow> addr option" where
  "parseIPv4 s = map_option Addr4 (v4_scan [] 0 0 s)"

text \<open>
  One hexadecimal group: its value, its number of digits and the rest; \<^verbatim>\<open>None\<close> when it has more
  than four digits.
\<close>

fun hex_scan :: "nat \<Rightarrow> nat \<Rightarrow> string \<Rightarrow> (nat \<times> nat \<times> string) option" where
  "hex_scan acc n [] = Some (acc, n, [])"
| "hex_scan acc n (c # cs) =
     (case hex_val c of
        None \<Rightarrow> Some (acc, n, c # cs)
      | Some d \<Rightarrow> if n > 3 then None else hex_scan (acc * 16 + d) (Suc n) cs)"

lemma hex_scan_length:
  "hex_scan acc n s = Some (a, m, r) \<Longrightarrow> length r + m = length s + n"
  by (induction acc n s rule: hex_scan.induct) (auto split: option.splits if_splits)

text \<open>
  The loop of \<^verbatim>\<open>parseIPv6\<close>: \<open>bs\<close> are the bytes so far (\<^verbatim>\<open>i\<close> is their number), \<open>ell\<close> the
  position of the ellipsis. The result is the bytes, the ellipsis and the unread rest.
\<close>

function v6_scan :: "nat list \<Rightarrow> nat option \<Rightarrow> string \<Rightarrow> (nat list \<times> nat option \<times> string) option" where
  "v6_scan bs ell s =
     (if length bs \<ge> 16 then Some (bs, ell, s)
      else case hex_scan 0 0 s of
        None \<Rightarrow> None
      | Some (acc, n, r) \<Rightarrow>
          if n = 0 then None
          else (case r of
            [] \<Rightarrow> Some (bs @ [acc div 256, acc mod 256], ell, [])
          | c # r' \<Rightarrow>
              if c = CHR ''.'' then
                (if ell = None \<and> length bs \<noteq> 12 then None
                 else if length bs + 4 > 16 then None
                 else map_option (\<lambda>q. (bs @ q, ell, [])) (v4_scan [] 0 0 s))
              else if c \<noteq> CHR '':'' then None
              else if r' = [] then None
              else if hd r' = CHR '':'' then
                (if ell \<noteq> None then None
                 else if tl r' = [] then
                   Some (bs @ [acc div 256, acc mod 256], Some (length bs + 2), [])
                 else v6_scan (bs @ [acc div 256, acc mod 256]) (Some (length bs + 2)) (tl r'))
              else v6_scan (bs @ [acc div 256, acc mod 256]) ell r'))"
  by pat_completeness auto
termination
  by (relation "measure (\<lambda>(bs, ell, s). 16 - length bs)") auto

declare v6_scan.simps [simp del]

fun v6_expand :: "nat list \<times> nat option \<times> string \<Rightarrow> nat list option" where
  "v6_expand (bs, ell, rest) =
     (if rest \<noteq> [] then None
      else if length bs < 16 then
        (case ell of None \<Rightarrow> None
         | Some e \<Rightarrow> Some (take e bs @ replicate (16 - length bs) 0 @ drop e bs))
      else if ell \<noteq> None then None else Some bs)"

fun split_zone :: "string \<Rightarrow> string \<times> string option" where
  "split_zone [] = ([], None)"
| "split_zone (c # cs) =
     (if c = CHR ''%'' then ([], Some cs) else (case split_zone cs of (a, z) \<Rightarrow> (c # a, z)))"

definition parseIPv6 :: "string \<Rightarrow> addr option" where
  "parseIPv6 s0 =
     (case split_zone s0 of (s, zo) \<Rightarrow>
        if zo = Some [] then None
        else
          let z = (case zo of None \<Rightarrow> [] | Some x \<Rightarrow> x) in
          if take 2 s = ''::'' then
            (if drop 2 s = [] then Some (Addr6 (replicate 16 0) z)
             else map_option (\<lambda>bs. Addr6 bs z)
                    (Option.bind (v6_scan [] (Some 0) (drop 2 s)) v6_expand))
          else map_option (\<lambda>bs. Addr6 bs z) (Option.bind (v6_scan [] None s) v6_expand))"

text \<open>The first dot, colon or percent sign decides.\<close>

fun ParseAddr_from :: "string \<Rightarrow> string \<Rightarrow> addr option" where
  "ParseAddr_from s [] = None"
| "ParseAddr_from s (c # cs) =
     (if c = CHR ''.'' then parseIPv4 s
      else if c = CHR '':'' then parseIPv6 s
      else if c = CHR ''%'' then None
      else ParseAddr_from s cs)"

definition ParseAddr :: "string \<Rightarrow> addr option" where
  "ParseAddr s = ParseAddr_from s s"

subsection \<open>Classification\<close>

fun Is4In6 :: "addr \<Rightarrow> bool" where
  "Is4In6 (Addr4 b) = False"
| "Is4In6 (Addr6 b z) \<longleftrightarrow> take 12 b = replicate 10 0 @ [255, 255]"

definition Unmap :: "addr \<Rightarrow> addr" where
  "Unmap a = (case a of Addr4 b \<Rightarrow> a
              | Addr6 b z \<Rightarrow> if Is4In6 a then Addr4 (drop 12 b) else a)"

fun IsUnspecified :: "addr \<Rightarrow> bool" where
  "IsUnspecified (Addr4 b) \<longleftrightarrow> b = [0, 0, 0, 0]"
| "IsUnspecified (Addr6 b z) \<longleftrightarrow> b = replicate 16 0 \<and> z = []"

fun IsLoopback :: "addr \<Rightarrow> bool" where
  "IsLoopback (Addr4 b) \<longleftrightarrow> b ! 0 = 127"
| "IsLoopback (Addr6 b z) \<longleftrightarrow> b = replicate 15 0 @ [1]"

fun IsLinkLocalUnicast :: "addr \<Rightarrow> bool" where
  "IsLinkLocalUnicast (Addr4 b) \<longleftrightarrow> b ! 0 = 169 \<and> b ! 1 = 254"
| "IsLinkLocalUnicast (Addr6 b z) \<longleftrightarrow> b ! 0 = 254 \<and> b ! 1 div 64 = 2"

fun IsLinkLocalMulticast :: "addr \<Rightarrow> bool" where
  "IsLinkLocalMulticast (Addr4 b) \<longleftrightarrow> b ! 0 = 224 \<and> b ! 1 = 0 \<and> b ! 2 = 0"
| "IsLinkLocalMulticast (Addr6 b z) \<longleftrightarrow> b ! 0 = 255 \<and> b ! 1 mod 16 = 2"

fun IsMulticast :: "addr \<Rightarrow> bool" where
  "IsMulticast (Addr4 b) \<longleftrightarrow> b ! 0 div 16 = 14"
| "IsMulticast (Addr6 b z) \<longleftrightarrow> b ! 0 = 255"

subsection \<open>\<^verbatim>\<open>String\<close>\<close>

definition hex_char :: "nat \<Rightarrow> char" where
  "hex_char d = char_of (if d < 10 then 48 + d else 87 + d)"

fun show_hex :: "nat \<Rightarrow> string" where
  "show_hex n = (if n < 16 then [hex_char n] else show_hex (n div 16) @ [hex_char (n mod 16)])"

declare show_hex.simps [simp del]

definition show4 :: "nat list \<Rightarrow> string" where
  "show4 b = show_nat (b ! 0) @ ''.'' @ show_nat (b ! 1) @ ''.'' @ show_nat (b ! 2) @ ''.'' @ show_nat (b ! 3)"

definition groups :: "nat list \<Rightarrow> nat list" where
  "groups b = map (\<lambda>i. b ! (2 * i) * 256 + b ! (2 * i + 1)) [0..<8]"

text \<open>The first longest run of at least two zero groups, as its start and end.\<close>

definition zero_run :: "nat list \<Rightarrow> nat \<times> nat" where
  "zero_run g = fold (\<lambda>i (st, en).
       let j = i + length (takeWhile (\<lambda>x. x = 0) (drop i g)) in
       if j - i \<ge> 2 \<and> j - i > en - st then (i, j) else (st, en)) [0..<8] (255, 255)"

definition show6 :: "nat list \<Rightarrow> string" where
  "show6 b =
     (let g = groups b; (st, en) = zero_run g;
          grp = (\<lambda>first i. (if first then [] else '':'') @ show_hex (g ! i)) in
      if st = 255 then concat (map (\<lambda>i. grp (i = 0) i) [0..<8])
      else concat (map (\<lambda>i. grp (i = 0) i) [0..<st]) @ ''::'' @
           concat (map (\<lambda>i. grp (i = en) i) [en..<8]))"

fun addr_String :: "addr \<Rightarrow> string" where
  "addr_String (Addr4 b) = show4 b"
| "addr_String (Addr6 b z) =
     (if Is4In6 (Addr6 b z) then ''::ffff:'' @ show4 (drop 12 b) else show6 b) @
     (if z = [] then [] else CHR ''%'' # z)"

subsection \<open>Facts\<close>

definition byte_list :: "nat list \<Rightarrow> bool" where
  "byte_list b \<longleftrightarrow> (\<forall>x \<in> set b. x < 256)"

fun wf_addr :: "addr \<Rightarrow> bool" where
  "wf_addr (Addr4 b) \<longleftrightarrow> length b = 4 \<and> byte_list b"
| "wf_addr (Addr6 b z) \<longleftrightarrow> length b = 16 \<and> byte_list b"

lemma v4_scan_wf:
  "v4_scan fs v n s = Some b \<Longrightarrow> byte_list fs \<Longrightarrow> v < 256 \<Longrightarrow> length fs \<le> 3 \<Longrightarrow>
   length b = 4 \<and> byte_list b"
  by (induction fs v n s rule: v4_scan.induct)
     (auto simp: byte_list_def split: if_splits)

lemma hex_scan_bound:
  "hex_scan acc n s = Some (a, m, r) \<Longrightarrow> acc < 16 ^ n \<Longrightarrow> n \<le> 4 \<Longrightarrow> a < 16 ^ m \<and> m \<le> 4"
proof (induction acc n s rule: hex_scan.induct)
  case (2 acc n c cs)
  show ?case
  proof (cases "hex_val c")
    case None
    with "2.prems" show ?thesis by auto
  next
    case (Some d)
    then have "d < 16" by (auto simp: hex_val_def digit_def code_of_def split: if_splits)
    with "2.prems"(2) have "acc * 16 + d < 16 ^ Suc n" by simp
    with Some "2.prems" "2.IH" show ?thesis by (auto split: if_splits)
  qed
qed auto

lemma hex_group_bytes: "hex_scan 0 0 s = Some (a, m, r) \<Longrightarrow> a div 256 < 256"
proof -
  assume "hex_scan 0 0 s = Some (a, m, r)"
  then have "a < 16 ^ m" and "m \<le> 4" using hex_scan_bound [of 0 0 s a m r] by auto
  then have "a < 16 ^ 4" using power_increasing [of m 4 "16 :: nat"] by linarith
  then show ?thesis by simp
qed

lemma v6_scan_wf:
  "v6_scan bs ell s = Some (bs', ell', r) \<Longrightarrow> byte_list bs \<Longrightarrow> even (length bs) \<Longrightarrow>
   length bs \<le> 16 \<Longrightarrow> byte_list bs' \<and> length bs' \<le> 16"
proof (induction bs ell s rule: v6_scan.induct)
  case (1 bs ell s)
  show ?case
  proof (cases "length bs \<ge> 16")
    case True
    with "1.prems" show ?thesis by (simp add: v6_scan.simps [of bs])
  next
    case False
    with "1.prems"(1) obtain a n rst where h: "hex_scan 0 0 s = Some (a, n, rst)" "n \<noteq> 0"
      by (auto simp: v6_scan.simps [of bs] split: option.splits if_splits)
    have len: "length bs + 2 \<le> 16" using False "1.prems"(3) by presburger
    have bl: "byte_list (bs @ [a div 256, a mod 256])"
      using "1.prems"(2) hex_group_bytes [OF h(1)] by (auto simp: byte_list_def)
    show ?thesis
    proof (cases rst)
      case Nil
      with "1.prems"(1) h False bl len show ?thesis by (auto simp: v6_scan.simps [of bs])
    next
      case (Cons c r')
      consider "c = CHR ''.''" | "c = CHR '':''" "r' \<noteq> []" "hd r' = CHR '':''"
        | "c = CHR '':''" "r' \<noteq> []" "hd r' \<noteq> CHR '':''"
        using "1.prems"(1) h False Cons by (auto simp: v6_scan.simps [of bs] split: if_splits)
      then show ?thesis
      proof cases
        case 1
        then show ?thesis
          using "1.prems" h False Cons v4_scan_wf [of "[]" 0 0 s]
          by (auto simp: v6_scan.simps [of bs] byte_list_def split: if_splits)
      next
        case 2
        then show ?thesis
          using "1.prems" "1.IH"(1) [OF False h(1) refl refl h(2) Cons] h False Cons bl len
          by (auto simp: v6_scan.simps [of bs] split: if_splits)
      next
        case 3
        then show ?thesis
          using "1.prems" "1.IH"(2) [OF False h(1) refl refl h(2) Cons] h False Cons bl len
          by (auto simp: v6_scan.simps [of bs] split: if_splits)
      qed
    qed
  qed
qed

lemma v6_expand_wf:
  assumes "Option.bind (v6_scan [] ell s) v6_expand = Some b"
  shows "byte_list b \<and> length b = 16"
proof -
  from assms obtain bs e r where s: "v6_scan [] ell s = Some (bs, e, r)" and "v6_expand (bs, e, r) = Some b"
    by (cases "v6_scan [] ell s") auto
  moreover have "byte_list bs \<and> length bs \<le> 16"
    using v6_scan_wf [OF s] by (simp add: byte_list_def)
  moreover have "byte_list (take n bs)" "byte_list (drop n bs)" if "byte_list bs" for n
    using that set_take_subset [of n bs] set_drop_subset [of n bs] unfolding byte_list_def by blast+
  ultimately show ?thesis
    by (auto simp: byte_list_def ball_Un split: if_splits option.splits)
qed

lemma parseIPv6_wf: "parseIPv6 s = Some a \<Longrightarrow> wf_addr a"
  by (auto simp: parseIPv6_def Let_def split: prod.splits if_splits dest: v6_expand_wf)
     (auto simp: byte_list_def)

lemma ParseAddr_wf: "ParseAddr s = Some a \<Longrightarrow> wf_addr a"
proof -
  have "ParseAddr_from s t = Some a \<Longrightarrow> wf_addr a" for t
    by (induction t)
       (auto simp: parseIPv4_def byte_list_def split: if_splits dest: parseIPv6_wf
             dest!: v4_scan_wf)
  then show "ParseAddr s = Some a \<Longrightarrow> wf_addr a" by (simp add: ParseAddr_def)
qed

lemma Unmap_wf: "wf_addr a \<Longrightarrow> wf_addr (Unmap a)"
  by (cases a) (auto simp: Unmap_def byte_list_def dest: in_set_dropD)

lemma Unmap_idem [simp]: "Unmap (Unmap a) = Unmap a"
  by (cases a) (auto simp: Unmap_def)

end
