(* ===== verification/Domain_Entities.thy ===== *)
theory Domain_Entities
  imports Net_Addr
begin

text \<open>
  The entities of \<^verbatim>\<open>internal/domain\<close>: targets (\<^verbatim>\<open>target.go\<close>), health checks
  (\<^verbatim>\<open>health_check.go\<close>), target groups, load balancers and listeners with their \<^verbatim>\<open>Validate\<close>
  and \<^verbatim>\<open>Equal\<close> methods, and the factory builders (\<^verbatim>\<open>builders.go\<close>). Identifiers are strings;
  the generated identifier of a new entity is an argument of its builder.
\<close>

subsection \<open>Targets\<close>

record target_ip_ref =
  ipr_subnet :: string
  ipr_address :: string

record target_external_ip =
  ext_address :: string
  ext_zone :: "string option"

record target =
  t_instance :: "string option"
  t_nic :: "string option"
  t_ip_ref :: "target_ip_ref option"
  t_external :: "target_external_ip option"
  t_weight :: int32

definition IPAddress_Validate :: "string \<Rightarrow> violation list" where
  "IPAddress_Validate a =
     (if a = '''' then field_violation ''address'' ''address is required''
      else if ParseAddr a = None then field_violation ''address'' ''invalid IP address''
      else [])"

definition classifyBogon :: "addr \<Rightarrow> string option" where
  "classifyBogon addr =
     (let a = Unmap addr in
      if IsUnspecified a then Some ''unspecified''
      else if IsLoopback a then Some ''loopback''
      else if IsLinkLocalUnicast a \<or> IsLinkLocalMulticast a then Some ''link-local''
      else if IsMulticast a then Some ''multicast''
      else if a = Addr4 [255, 255, 255, 255] then Some ''broadcast''
      else None)"

definition TargetIPRef_Validate :: "target_ip_ref \<Rightarrow> violation list" where
  "TargetIPRef_Validate r = multierr_combine
     [if ipr_subnet r = ''''
      then field_violation ''target.ip_ref.subnet_id'' ''ip_ref.subnet_id is required'' else [],
      IPAddress_Validate (ipr_address r)]"

definition TargetExternalIP_Validate :: "target_external_ip \<Rightarrow> violation list" where
  "TargetExternalIP_Validate e =
     (if IPAddress_Validate (ext_address e) \<noteq> [] then IPAddress_Validate (ext_address e)
      else case ParseAddr (ext_address e) of
        None \<Rightarrow> field_violation ''target.external_ip'' ''invalid IP address''
      | Some a \<Rightarrow>
          (case classifyBogon a of
             Some reason \<Rightarrow> field_violation ''target.external_ip''
               (''external_ip '' @ addr_String a @ '' is a bogon ('' @ reason @
                '') and is not allowed as a target'')
           | None \<Rightarrow> []))"

definition identity_count :: "target \<Rightarrow> nat" where
  "identity_count t =
     (if t_instance t \<noteq> None then 1 else 0) + (if t_nic t \<noteq> None then 1 else 0) +
     (if t_ip_ref t \<noteq> None then 1 else 0) + (if t_external t \<noteq> None then 1 else 0)"

definition validateIdentityOneOf :: "target \<Rightarrow> violation list" where
  "validateIdentityOneOf t =
     (if identity_count t \<noteq> 1 then
        field_violation ''target''
          ''target must specify exactly one of: instance_id, nic_id, ip_ref, external_ip''
      else [])"

definition Target_Validate :: "target \<Rightarrow> violation list" where
  "Target_Validate t = multierr_combine
     [validateIdentityOneOf t,
      LbWeight_Validate (t_weight t),
      (case t_ip_ref t of
         Some r \<Rightarrow> TargetIPRef_Validate r
       | None \<Rightarrow> (case t_external t of Some e \<Rightarrow> TargetExternalIP_Validate e | None \<Rightarrow> []))]"

subsection \<open>Health checks\<close>

text \<open>The four probe kinds are four nullable pointers in the code; here four options.\<close>

record hc_tcp =
  tcp_port :: int32

record hc_http =
  http_port :: int32
  http_path :: string
  http_statuses :: "int32 list"

record hc_grpc =
  grpc_port :: int32
  grpc_service :: string

record health_check =
  hc_name :: string
  hc_interval :: int64
  hc_timeout :: int64
  hc_unhealthy :: int32
  hc_healthy :: int32
  hc_TCP :: "hc_tcp option"
  hc_HTTP :: "hc_http option"
  hc_HTTPS :: "hc_http option"
  hc_GRPC :: "hc_grpc option"

definition probe_count :: "health_check \<Rightarrow> nat" where
  "probe_count h =
     (if hc_TCP h \<noteq> None then 1 else 0) + (if hc_HTTP h \<noteq> None then 1 else 0) +
     (if hc_HTTPS h \<noteq> None then 1 else 0) + (if hc_GRPC h \<noteq> None then 1 else 0)"

definition validateProbeOneOf :: "health_check \<Rightarrow> violation list" where
  "validateProbeOneOf h =
     (if probe_count h \<noteq> 1 then
        field_violation ''health_check''
          ''health_check must specify exactly one of: tcp, http, https, grpc''
      else case hc_TCP h of Some p \<Rightarrow> LbPort_Validate (tcp_port p)
      | None \<Rightarrow> (case hc_HTTP h of Some p \<Rightarrow> LbPort_Validate (http_port p)
      | None \<Rightarrow> (case hc_HTTPS h of Some p \<Rightarrow> LbPort_Validate (http_port p)
      | None \<Rightarrow> (case hc_GRPC h of Some p \<Rightarrow> LbPort_Validate (grpc_port p)
      | None \<Rightarrow> []))))"

definition HealthCheck_Validate :: "health_check \<Rightarrow> violation list" where
  "HealthCheck_Validate h =
     (let iv = sint (hc_interval h); tmo = sint (hc_timeout h) in
      multierr_combine
        [LbName_Validate (hc_name h),
         validateProbeOneOf h,
         if iv < sint HealthIntervalMin \<or> iv > sint HealthIntervalMax
         then field_violation ''health_check.interval''
                ''health_check.interval must be in range [1s, 600s]'' else [],
         if tmo < sint HealthTimeoutMin
         then field_violation ''health_check.timeout''
                ''health_check.timeout must be positive (>= 1ms)''
         else if iv > 0 \<and> tmo > iv
         then field_violation ''health_check.timeout''
                ''health_check.timeout must be <= health_check.interval''
         else [],
         if sint (hc_unhealthy h) < sint HealthThresholdMin
            \<or> sint (hc_unhealthy h) > sint HealthThresholdMax
         then field_violation ''health_check.unhealthy_threshold''
                ''unhealthy_threshold must be in range [2, 10]'' else [],
         if sint (hc_healthy h) < sint HealthThresholdMin
            \<or> sint (hc_healthy h) > sint HealthThresholdMax
         then field_violation ''health_check.healthy_threshold''
                ''healthy_threshold must be in range [2, 10]'' else []])"

subsection \<open>Target groups\<close>

record target_group =
  tg_id :: string
  tg_project :: string
  tg_region :: string
  tg_name :: string
  tg_description :: string
  tg_labels :: labels
  tg_targets :: "target list"
  tg_health :: health_check
  tg_dereg :: int32
  tg_slow :: int32
  tg_status :: tg_status

text \<open>The per-target loop stops at the first target that fails.\<close>

fun first_target_err :: "target list \<Rightarrow> violation list" where
  "first_target_err [] = []"
| "first_target_err (t # ts) = (if Target_Validate t \<noteq> [] then Target_Validate t else first_target_err ts)"

definition TargetGroup_Validate :: "'a target_group_scheme \<Rightarrow> violation list" where
  "TargetGroup_Validate g = multierr_combine
     [LbName_Validate (tg_name g),
      LbDescription_Validate (tg_description g),
      ValidateLabels (tg_labels g),
      TargetGroupStatus_Validate (tg_status_string (tg_status g)),
      HealthCheck_Validate (tg_health g),
      if sint (tg_dereg g) < sint DeregistrationDelayMin \<or> sint (tg_dereg g) > sint DeregistrationDelayMax
      then field_violation ''deregistration_delay_seconds''
             ''deregistration_delay_seconds must be in range [0, 3600]'' else [],
      if sint (tg_slow g) < sint SlowStartMin \<or> sint (tg_slow g) > sint SlowStartMax
      then field_violation ''slow_start_seconds''
             ''slow_start_seconds must be in range [0, 900]'' else [],
      if length (tg_targets g) > MaxTargetsPerGroup
      then field_violation ''targets'' ''too many targets (max 100)'' else [],
      first_target_err (tg_targets g)]"

subsection \<open>Load balancers\<close>

record load_balancer =
  lb_id :: string
  lb_project :: string
  lb_region :: string
  lb_placement :: placement_type
  lb_disabled_zones :: "string list"
  lb_families :: "string list"
  lb_addr_v4 :: string
  lb_addr_v6 :: string
  lb_addr_id_v4 :: string
  lb_addr_id_v6 :: string
  lb_origin_v4 :: vip_origin
  lb_origin_v6 :: vip_origin
  lb_name :: string
  lb_description :: string
  lb_labels :: labels
  lb_type :: lb_type
  lb_status :: lb_status
  lb_affinity :: string
  lb_protection :: bool

definition LoadBalancer_Validate :: "'a load_balancer_scheme \<Rightarrow> violation list" where
  "LoadBalancer_Validate lb = multierr_combine
     [LbName_Validate (lb_name lb),
      LbDescription_Validate (lb_description lb),
      ValidateLabels (lb_labels lb),
      LBType_Validate (lb_type_string (lb_type lb)),
      LBStatus_Validate (lb_status_string (lb_status lb)),
      SessionAffinity_Validate (lb_affinity lb),
      PlacementType_Validate (placement_string (lb_placement lb))]"

definition ipVersionsEqual :: "string list \<Rightarrow> string list \<Rightarrow> bool" where
  "ipVersionsEqual a b =
     (if length a \<noteq> length b then False else list_all (\<lambda>x. list_ex (\<lambda>y. x = y) b) a)"

definition LoadBalancer_Equal :: "'a load_balancer_scheme \<Rightarrow> 'b load_balancer_scheme \<Rightarrow> bool" where
  "LoadBalancer_Equal a b \<longleftrightarrow>
     lb_id a = lb_id b \<and> lb_project a = lb_project b \<and> lb_region a = lb_region b \<and>
     lb_placement a = lb_placement b \<and>
     stringsEqualOrdered (lb_disabled_zones a) (lb_disabled_zones b) \<and>
     ipVersionsEqual (lb_families a) (lb_families b) \<and>
     lb_addr_v4 a = lb_addr_v4 b \<and> lb_addr_v6 a = lb_addr_v6 b \<and>
     lb_addr_id_v4 a = lb_addr_id_v4 b \<and> lb_addr_id_v6 a = lb_addr_id_v6 b \<and>
     lb_origin_v4 a = lb_origin_v4 b \<and> lb_origin_v6 a = lb_origin_v6 b \<and>
     lb_name a = lb_name b \<and> lb_description a = lb_description b \<and>
     LabelsEqual (lb_labels a) (lb_labels b) \<and>
     lb_type a = lb_type b \<and> lb_status a = lb_status b \<and>
     lb_affinity a = lb_affinity b \<and> lb_protection a = lb_protection b"

subsection \<open>Listeners\<close>

record listener =
  ls_id :: string
  ls_project :: string
  ls_lb :: string
  ls_region :: string
  ls_name :: string
  ls_description :: string
  ls_labels :: labels
  ls_protocol :: string
  ls_port :: int32
  ls_target_port :: int32
  ls_ip_version :: string
  ls_address_id :: "string option"
  ls_allocated :: string
  ls_subnet :: "string option"
  ls_proxy_v2 :: bool
  ls_default_tg :: "string option"
  ls_status :: listener_status
  ls_origin :: vip_origin

definition Listener_Validate :: "'a listener_scheme \<Rightarrow> violation list" where
  "Listener_Validate l = multierr_combine
     [LbName_Validate (ls_name l),
      LbDescription_Validate (ls_description l),
      ValidateLabels (ls_labels l),
      LbProto_Validate (ls_protocol l),
      LbPort_Validate (ls_port l),
      LbPort_Validate (ls_target_port l),
      IPVersion_Validate (ls_ip_version l),
      if ls_allocated l \<noteq> '''' then IPAddress_Validate (ls_allocated l) else [],
      ListenerStatus_Validate (listener_status_string (ls_status l)),
      if ls_origin l \<noteq> VipOriginUnset then VipOrigin_Validate (vip_origin_string (ls_origin l))
      else []]"

definition optEqual :: "'t option \<Rightarrow> 't option \<Rightarrow> bool" where
  "optEqual a b =
     (if (a \<noteq> None) \<noteq> (b \<noteq> None) then False else if a = None then True else the a = the b)"

definition Listener_Equal :: "'a listener_scheme \<Rightarrow> 'b listener_scheme \<Rightarrow> bool" where
  "Listener_Equal a b \<longleftrightarrow>
     ls_id a = ls_id b \<and> ls_project a = ls_project b \<and> ls_lb a = ls_lb b \<and>
     ls_region a = ls_region b \<and> ls_name a = ls_name b \<and>
     ls_description a = ls_description b \<and> LabelsEqual (ls_labels a) (ls_labels b) \<and>
     ls_protocol a = ls_protocol b \<and> ls_port a = ls_port b \<and>
     ls_target_port a = ls_target_port b \<and> ls_ip_version a = ls_ip_version b \<and>
     optEqual (ls_address_id a) (ls_address_id b) \<and> ls_allocated a = ls_allocated b \<and>
     optEqual (ls_subnet a) (ls_subnet b) \<and> ls_proxy_v2 a = ls_proxy_v2 b \<and>
     optEqual (ls_default_tg a) (ls_default_tg b) \<and> ls_status a = ls_status b \<and>
     ls_origin a = ls_origin b"

subsection \<open>Builders\<close>

definition NewLoadBalancer ::
  "string \<Rightarrow> string \<Rightarrow> string \<Rightarrow> string \<Rightarrow> string \<Rightarrow> labels \<Rightarrow> lb_type \<Rightarrow> load_balancer" where
  "NewLoadBalancer new_id project region name description labels ty =
     \<lparr> lb_id = new_id, lb_project = project, lb_region = region,
       lb_placement = PlacementUnspecified, lb_disabled_zones = [], lb_families = [],
       lb_addr_v4 = '''', lb_addr_v6 = '''', lb_addr_id_v4 = '''', lb_addr_id_v6 = '''',
       lb_origin_v4 = VipOriginUnset, lb_origin_v6 = VipOriginUnset,
       lb_name = name, lb_description = description, lb_labels = labels, lb_type = ty,
       lb_status = LBStatusCreating, lb_affinity = SessionAffinity5Tuple,
       lb_protection = False \<rparr>"

definition NewListener ::
  "string \<Rightarrow> 'a load_balancer_scheme \<Rightarrow> string \<Rightarrow> string \<Rightarrow> int32 \<Rightarrow> int32 \<Rightarrow> string \<Rightarrow> listener" where
  "NewListener new_id lb name protocol port target_port ip_version =
     \<lparr> ls_id = new_id, ls_project = lb_project lb, ls_lb = lb_id lb, ls_region = lb_region lb,
       ls_name = name, ls_description = '''', ls_labels = [], ls_protocol = protocol,
       ls_port = port, ls_target_port = target_port, ls_ip_version = ip_version,
       ls_address_id = None, ls_allocated = '''', ls_subnet = None, ls_proxy_v2 = False,
       ls_default_tg = None, ls_status = ListenerStatusCreating, ls_origin = VipOriginAuto \<rparr>"

text \<open>The health check of a new group is the zero value; the caller sets it.\<close>

definition zero_health_check :: health_check where
  "zero_health_check =
     \<lparr> hc_name = '''', hc_interval = 0, hc_timeout = 0, hc_unhealthy = 0, hc_healthy = 0,
       hc_TCP = None, hc_HTTP = None, hc_HTTPS = None, hc_GRPC = None \<rparr>"

definition NewTargetGroup ::
  "string \<Rightarrow> string \<Rightarrow> string \<Rightarrow> string \<Rightarrow> string \<Rightarrow> labels \<Rightarrow> target_group" where
  "NewTargetGroup new_id project region name description labels =
     \<lparr> tg_id = new_id, tg_project = project, tg_region = region, tg_name = name,
       tg_description = description, tg_labels = labels, tg_targets = [],
       tg_health = zero_health_check, tg_dereg = DefaultDeregistrationDelay,
       tg_slow = DefaultSlowStart, tg_status = TargetGroupStatusActive \<rparr>"

definition TruncateID :: "string \<Rightarrow> string" where
  "TruncateID s = (if length s > ShortIDLen then take ShortIDLen s else s)"

definition ListenerAutoAddressName :: "string \<Rightarrow> string" where
  "ListenerAutoAddressName i = ''nlb-listener-'' @ TruncateID i"

definition LBAnycastAddressName :: "string \<Rightarrow> string \<Rightarrow> string" where
  "LBAnycastAddressName i family =
     ''nlb-lb-'' @ TruncateID i @ ''-'' @ (if family = IPVersionV6 then ''v6'' else ''v4'')"

subsection \<open>Facts\<close>

lemma duration_values [simp]:
  "sint HealthIntervalMin = 1000000000" "sint HealthIntervalMax = 600000000000"
  "sint HealthTimeoutMin = 1000000"
  by (simp_all add: HealthIntervalMin_def HealthIntervalMax_def HealthTimeoutMin_def Second_def
      Millisecond_def)

lemma bound_values [simp]:
  "sint HealthThresholdMin = 2" "sint HealthThresholdMax = 10"
  "sint DeregistrationDelayMin = 0" "sint DeregistrationDelayMax = 3600"
  "sint SlowStartMin = 0" "sint SlowStartMax = 900" "sint MaxTargetWeight = 1000"
  by (simp_all add: const_defs)

lemma field_violation_ne [simp]: "field_violation f m \<noteq> []"
  by (simp add: field_violation_def)

lemma if_nil [simp]:
  "((if b then field_violation f m else vs) = []) \<longleftrightarrow> \<not> b \<and> vs = []"
  by simp

lemma LbName_Validate_nil: "LbName_Validate n = [] \<longleftrightarrow> strict_name n"
  by (simp add: LbName_Validate_def rx_name) (auto simp: strict_name_def)

lemma LbWeight_Validate_nil: "LbWeight_Validate w = [] \<longleftrightarrow> 0 \<le> sint w \<and> sint w \<le> 1000"
  by (auto simp: LbWeight_Validate_def)

definition probe_ports :: "health_check \<Rightarrow> int32 list" where
  "probe_ports h =
     (case hc_TCP h of None \<Rightarrow> [] | Some p \<Rightarrow> [tcp_port p]) @
     (case hc_HTTP h of None \<Rightarrow> [] | Some p \<Rightarrow> [http_port p]) @
     (case hc_HTTPS h of None \<Rightarrow> [] | Some p \<Rightarrow> [http_port p]) @
     (case hc_GRPC h of None \<Rightarrow> [] | Some p \<Rightarrow> [grpc_port p])"

lemma validateProbeOneOf_nil:
  "validateProbeOneOf h = [] \<longleftrightarrow> (\<exists>p. probe_ports h = [p] \<and> 1 \<le> sint p \<and> sint p \<le> 65535)"
  by (cases "hc_TCP h"; cases "hc_HTTP h"; cases "hc_HTTPS h"; cases "hc_GRPC h")
     (simp_all add: validateProbeOneOf_def probe_count_def probe_ports_def LbPort_Validate_nil)

text \<open>\<^verbatim>\<open>HealthCheck.Validate\<close> accepts a health check iff its name is a strict name, exactly one
  of the four probes is set and its port is in 1..65535, the interval is between 1 s and 600 s,
  the timeout is between 1 ms and the interval, and both thresholds are between 2 and 10.\<close>

theorem HealthCheck_Validate_correct:
  "HealthCheck_Validate h = [] \<longleftrightarrow>
     strict_name (hc_name h)
     \<and> (\<exists>p. probe_ports h = [p] \<and> 1 \<le> sint p \<and> sint p \<le> 65535)
     \<and> 10 ^ 9 \<le> sint (hc_interval h) \<and> sint (hc_interval h) \<le> 600 * 10 ^ 9
     \<and> 10 ^ 6 \<le> sint (hc_timeout h) \<and> sint (hc_timeout h) \<le> sint (hc_interval h)
     \<and> 2 \<le> sint (hc_unhealthy h) \<and> sint (hc_unhealthy h) \<le> 10
     \<and> 2 \<le> sint (hc_healthy h) \<and> sint (hc_healthy h) \<le> 10"
  by (simp add: HealthCheck_Validate_def Let_def LbName_Validate_nil validateProbeOneOf_nil not_less)
     auto

text \<open>The addresses a target may not have, octet by octet.\<close>

fun bogon4 :: "nat list \<Rightarrow> bool" where
  "bogon4 [a, b, c, d] \<longleftrightarrow>
     [a, b, c, d] = [0, 0, 0, 0] \<or> a = 127 \<or> a = 169 \<and> b = 254 \<or> 224 \<le> a \<and> a \<le> 239
     \<or> [a, b, c, d] = [255, 255, 255, 255]"
| "bogon4 _ \<longleftrightarrow> False"

lemma length4: "length b = 4 \<longleftrightarrow> (\<exists>w x y z. b = [w, x, y, z])"
  by (auto simp: numeral_eq_Suc length_Suc_conv)

lemma div16_14: "(a :: nat) div 16 = 14 \<longleftrightarrow> 224 \<le> a \<and> a \<le> 239"
  by linarith

lemma classifyBogon_Addr4:
  assumes "length b = 4"
  shows "classifyBogon (Addr4 b) \<noteq> None \<longleftrightarrow> bogon4 b"
proof -
  from assms obtain w x y z where b: "b = [w, x, y, z]" unfolding length4 by blast
  show ?thesis
    unfolding b classifyBogon_def Unmap_def Let_def addr.case
    by (simp add: div16_14 split: if_splits)
qed

lemma mapped_Unmap:
  "Unmap (Addr6 (replicate 10 0 @ [255, 255] @ b) z) = Addr4 b"
  by (simp add: Unmap_def numeral_eq_Suc)

text \<open>\<^verbatim>\<open>classifyBogon\<close> rejects an IPv4 address iff it is 0.0.0.0, in 127/8, in 169.254/16, in
  224/4 or 255.255.255.255; so the private ranges 10/8, 172.16/12 and 192.168/16 are allowed. An
  IPv4-mapped IPv6 address gets the verdict of the embedded IPv4 address.\<close>

theorem classifyBogon_v4:
  assumes "length b = 4"
  shows "(classifyBogon (Addr4 b) \<noteq> None \<longleftrightarrow> bogon4 b)
    \<and> classifyBogon (Addr6 (replicate 10 0 @ [255, 255] @ b) z) = classifyBogon (Addr4 b)
    \<and> (b ! 0 = 10 \<or> b ! 0 = 172 \<and> b ! 1 div 16 = 1 \<or> b ! 0 = 192 \<and> b ! 1 = 168
         \<longrightarrow> classifyBogon (Addr4 b) = None)"
proof -
  have un: "Unmap (Addr4 b) = Addr4 b" by (simp add: Unmap_def)
  have "classifyBogon (Addr6 (replicate 10 0 @ [255, 255] @ b) z) = classifyBogon (Addr4 b)"
    unfolding classifyBogon_def mapped_Unmap un ..
  moreover have "b ! 0 = 10 \<or> b ! 0 = 172 \<and> b ! 1 div 16 = 1 \<or> b ! 0 = 192 \<and> b ! 1 = 168
      \<Longrightarrow> \<not> bogon4 b"
    using assms unfolding length4 by auto
  ultimately show ?thesis using classifyBogon_Addr4 [OF assms] by blast
qed

theorem classifyBogon_v4_witness:
  "classifyBogon (Addr4 [10, 1, 2, 3]) = None \<and> classifyBogon (Addr4 [127, 0, 0, 1]) \<noteq> None"
  using classifyBogon_v4 [of "[10, 1, 2, 3]"] classifyBogon_v4 [of "[127, 0, 0, 1]"] by simp

lemma IPAddress_Validate_nil: "IPAddress_Validate a = [] \<longleftrightarrow> (\<exists>x. ParseAddr a = Some x)"
  by (auto simp: IPAddress_Validate_def ParseAddr_def)

lemma TargetExternalIP_nil:
  "TargetExternalIP_Validate e = [] \<longleftrightarrow>
     (\<exists>a. ParseAddr (ext_address e) = Some a \<and> classifyBogon a = None)"
  by (auto simp: TargetExternalIP_Validate_def IPAddress_Validate_nil split: option.splits)

text \<open>The identity of a target as a value; \<^verbatim>\<open>None\<close> when none or several are given.\<close>

datatype identity = ByInstance string | ByNic string | ByIPRef string string
  | ByExternal string "string option"

definition identities :: "target \<Rightarrow> identity list" where
  "identities t =
     (case t_instance t of None \<Rightarrow> [] | Some i \<Rightarrow> [ByInstance i]) @
     (case t_nic t of None \<Rightarrow> [] | Some i \<Rightarrow> [ByNic i]) @
     (case t_ip_ref t of None \<Rightarrow> [] | Some r \<Rightarrow> [ByIPRef (ipr_subnet r) (ipr_address r)]) @
     (case t_external t of None \<Rightarrow> [] | Some e \<Rightarrow> [ByExternal (ext_address e) (ext_zone e)])"

lemma identity_count_length: "identity_count t = length (identities t)"
  by (simp add: identity_count_def identities_def split: option.splits)

fun identity_ok :: "identity \<Rightarrow> bool" where
  "identity_ok (ByInstance _) = True"
| "identity_ok (ByNic _) = True"
| "identity_ok (ByIPRef s a) \<longleftrightarrow> s \<noteq> '''' \<and> ParseAddr a \<noteq> None"
| "identity_ok (ByExternal a _) \<longleftrightarrow> (\<exists>x. ParseAddr a = Some x \<and> classifyBogon x = None)"

text \<open>\<^verbatim>\<open>Target.Validate\<close> accepts a target iff it names exactly one identity, its weight is in
  0..1000, an IP in a subnet names the subnet and a parseable address, and an external IP is a
  parseable address of no bogon class.\<close>

theorem Target_Validate_correct:
  "Target_Validate t = [] \<longleftrightarrow>
     0 \<le> sint (t_weight t) \<and> sint (t_weight t) \<le> 1000
     \<and> (\<exists>i. identities t = [i] \<and> identity_ok i)"
  by (cases "t_instance t"; cases "t_nic t"; cases "t_ip_ref t"; cases "t_external t")
     (auto simp: Target_Validate_def validateIdentityOneOf_def identity_count_def identities_def
        LbWeight_Validate_nil TargetIPRef_Validate_def IPAddress_Validate_nil TargetExternalIP_nil)

lemma first_target_err_nil: "first_target_err ts = [] \<longleftrightarrow> (\<forall>t \<in> set ts. Target_Validate t = [])"
  by (induction ts) auto

lemma ipVersionsEqual_refl: "ipVersionsEqual a a"
  by (auto simp: ipVersionsEqual_def list_all_iff list_ex_iff)

lemma optEqual_eq [simp]: "optEqual a b \<longleftrightarrow> a = b"
  by (cases a; cases b) (auto simp: optEqual_def)

end
