(* ===== verification/Intents.thy ===== *)
theory Intents
  imports Domain_Entities
begin

text \<open>
  What a committed change tells the outside world: the owner-hierarchy tuples for the
  authorization service (\<^verbatim>\<open>domain/fga_intent.go\<close> and the builders of the use-cases), the applier
  that relays them (\<^verbatim>\<open>clients/iam/register_applier.go\<close>), and the life-cycle payload of the event
  outbox (\<^verbatim>\<open>repo/kacho/outbox_payload.go\<close>). A JSON document is kept as the value it encodes.
\<close>

subsection \<open>Tuples and intents\<close>

record fga_tuple =
  ft_subject :: string
  ft_relation :: string
  ft_object :: string

record fga_intent =
  fi_kind :: string
  fi_resource :: string
  fi_tuples :: "fga_tuple list"
  fi_labels :: "labels option"
  fi_parent_project :: string
  fi_parent_account :: string
  fi_source_version :: "int option"

datatype fga_event = FGAEventRegister | FGAEventUnregister

definition FGAObjectTypeLoadBalancer :: string where
  "FGAObjectTypeLoadBalancer = ''lb_network_load_balancer''"
definition FGAObjectTypeListener :: string where
  "FGAObjectTypeListener = ''lb_listener''"
definition FGAObjectTypeTargetGroup :: string where
  "FGAObjectTypeTargetGroup = ''lb_target_group''"
definition FGARelationAdmin :: string where "FGARelationAdmin = ''admin''"
definition FGARelationProject :: string where "FGARelationProject = ''project''"
definition FGARelationLoadBalancer :: string where "FGARelationLoadBalancer = ''load_balancer''"

definition FGATuple_Valid :: "fga_tuple \<Rightarrow> bool" where
  "FGATuple_Valid t \<longleftrightarrow> ft_subject t \<noteq> '''' \<and> ft_relation t \<noteq> '''' \<and> ft_object t \<noteq> ''''"

definition FGAObjectRef :: "string \<Rightarrow> string \<Rightarrow> string" where
  "FGAObjectRef ty i = ty @ '':'' @ i"

definition FGAProjectTuple :: "string \<Rightarrow> string \<Rightarrow> string \<Rightarrow> fga_tuple" where
  "FGAProjectTuple ty i project =
     \<lparr> ft_subject = ''project:'' @ project, ft_relation = FGARelationProject,
       ft_object = FGAObjectRef ty i \<rparr>"

definition FGACreatorTuple :: "string \<Rightarrow> string \<Rightarrow> string \<Rightarrow> fga_tuple" where
  "FGACreatorTuple subject ty i =
     \<lparr> ft_subject = subject, ft_relation = FGARelationAdmin, ft_object = FGAObjectRef ty i \<rparr>"

definition FGAParentLinkTuple ::
  "string \<Rightarrow> string \<Rightarrow> string \<Rightarrow> string \<Rightarrow> string \<Rightarrow> fga_tuple" where
  "FGAParentLinkTuple parent_ty parent_id relation child_ty child_id =
     \<lparr> ft_subject = FGAObjectRef parent_ty parent_id, ft_relation = relation,
       ft_object = FGAObjectRef child_ty child_id \<rparr>"

definition FGASubjectFromPrincipal :: "string \<Rightarrow> string \<Rightarrow> string" where
  "FGASubjectFromPrincipal ty i =
     (if ty = '''' \<or> i = '''' \<or> ty = ''system'' then '''' else ty @ '':'' @ i)"

record principal =
  pr_type :: string
  pr_id :: string

text \<open>An intent without labels and parent, as the unregister builders leave it.\<close>

definition bare_intent :: "string \<Rightarrow> string \<Rightarrow> fga_tuple list \<Rightarrow> fga_intent" where
  "bare_intent kind i ts =
     \<lparr> fi_kind = kind, fi_resource = i, fi_tuples = ts, fi_labels = None,
       fi_parent_project = '''', fi_parent_account = '''', fi_source_version = None \<rparr>"

definition lbRegisterIntent :: "'a load_balancer_scheme \<Rightarrow> principal \<Rightarrow> fga_intent" where
  "lbRegisterIntent lb p =
     (let i = lb_id lb; subject = FGASubjectFromPrincipal (pr_type p) (pr_id p);
          ts = [FGAProjectTuple FGAObjectTypeLoadBalancer i (lb_project lb)] @
               (if subject \<noteq> '''' then [FGACreatorTuple subject FGAObjectTypeLoadBalancer i] else [])
      in (bare_intent ''NetworkLoadBalancer'' i ts)
           \<lparr> fi_labels := LabelsToMap (lb_labels lb), fi_parent_project := lb_project lb \<rparr>)"

definition lbMirrorIntent :: "'a load_balancer_scheme \<Rightarrow> fga_intent" where
  "lbMirrorIntent lb =
     (bare_intent ''NetworkLoadBalancer'' (lb_id lb)
        [FGAProjectTuple FGAObjectTypeLoadBalancer (lb_id lb) (lb_project lb)])
       \<lparr> fi_labels := LabelsToMap (lb_labels lb), fi_parent_project := lb_project lb \<rparr>"

definition lbUnregisterIntent :: "string \<Rightarrow> string \<Rightarrow> fga_intent" where
  "lbUnregisterIntent i project =
     bare_intent ''NetworkLoadBalancer'' i [FGAProjectTuple FGAObjectTypeLoadBalancer i project]"

definition listener_parent_tuple :: "string \<Rightarrow> string \<Rightarrow> fga_tuple" where
  "listener_parent_tuple lid lb =
     FGAParentLinkTuple FGAObjectTypeLoadBalancer lb FGARelationLoadBalancer FGAObjectTypeListener lid"

definition listenerRegisterIntent :: "'a listener_scheme \<Rightarrow> string \<Rightarrow> fga_intent" where
  "listenerRegisterIntent l subject =
     (let i = ls_id l;
          ts = [FGAProjectTuple FGAObjectTypeListener i (ls_project l)] @
               (if subject \<noteq> '''' then [FGACreatorTuple subject FGAObjectTypeListener i] else []) @
               [listener_parent_tuple i (ls_lb l)]
      in (bare_intent ''Listener'' i ts)
           \<lparr> fi_labels := LabelsToMap (ls_labels l), fi_parent_project := ls_project l \<rparr>)"

definition listenerMirrorIntent :: "'a listener_scheme \<Rightarrow> fga_intent" where
  "listenerMirrorIntent l =
     (bare_intent ''Listener'' (ls_id l) [listener_parent_tuple (ls_id l) (ls_lb l)])
       \<lparr> fi_labels := LabelsToMap (ls_labels l), fi_parent_project := ls_project l \<rparr>"

definition listenerUnregisterIntent :: "string \<Rightarrow> string \<Rightarrow> fga_intent" where
  "listenerUnregisterIntent lid lb = bare_intent ''Listener'' lid [listener_parent_tuple lid lb]"

definition tgRegisterIntent :: "'a target_group_scheme \<Rightarrow> principal \<Rightarrow> fga_intent" where
  "tgRegisterIntent g p =
     (let i = tg_id g; subject = FGASubjectFromPrincipal (pr_type p) (pr_id p);
          ts = [FGAProjectTuple FGAObjectTypeTargetGroup i (tg_project g)] @
               (if subject \<noteq> '''' then [FGACreatorTuple subject FGAObjectTypeTargetGroup i] else [])
      in (bare_intent ''TargetGroup'' i ts)
           \<lparr> fi_labels := LabelsToMap (tg_labels g), fi_parent_project := tg_project g \<rparr>)"

definition tgMirrorIntent :: "'a target_group_scheme \<Rightarrow> fga_intent" where
  "tgMirrorIntent g =
     (bare_intent ''TargetGroup'' (tg_id g)
        [FGAProjectTuple FGAObjectTypeTargetGroup (tg_id g) (tg_project g)])
       \<lparr> fi_labels := LabelsToMap (tg_labels g), fi_parent_project := tg_project g \<rparr>"

definition tgUnregisterIntent :: "string \<Rightarrow> string \<Rightarrow> fga_intent" where
  "tgUnregisterIntent i project =
     bare_intent ''TargetGroup'' i [FGAProjectTuple FGAObjectTypeTargetGroup i project]"

subsection \<open>The relay\<close>

text \<open>
  The decoder rejects an empty tuple set and an incomplete tuple for good. \<open>Sent\<close> is a nil
  error of the applier; the drainer marks the row as sent on \<open>Sent\<close> and \<open>AlreadyApplied\<close>, poisons
  it on \<open>Permanent\<close> and retries on \<open>Transient\<close>.
\<close>

datatype drain = Sent | AlreadyApplied string | Permanent string | Transient err

definition DecodeFGARegisterIntent :: "fga_intent \<Rightarrow> string + fga_intent" where
  "DecodeFGARegisterIntent i =
     (if fi_tuples i = [] then Inl ''fga_register_outbox: empty tuple set''
      else if \<not> list_all FGATuple_Valid (fi_tuples i)
        then Inl ''fga_register_outbox: incomplete tuple''
      else Inr i)"

definition classifyRegisterErr :: "err option \<Rightarrow> drain" where
  "classifyRegisterErr e =
     (case e of
        None \<Rightarrow> Sent
      | Some (Status CodeAlreadyExists m) \<Rightarrow>
          AlreadyApplied (''iam register reports duplicate: '' @ m)
      | Some (Status CodeInvalidArgument m) \<Rightarrow>
          Permanent (''iam register rejected (no retry): '' @ m)
      | Some e \<Rightarrow> Transient e)"

text \<open>
  The request of one tuple, and the two remote procedures of the authorization service as
  functions that answer and change its state.
\<close>

record register_request =
  rq_tuple :: fga_tuple
  rq_trace :: string
  rq_labels :: "labels option"
  rq_project :: string
  rq_account :: string
  rq_version :: "int option"

record 'w register_client =
  RegisterResource :: "register_request \<Rightarrow> 'w \<Rightarrow> err option \<times> 'w"
  UnregisterResource :: "register_request \<Rightarrow> 'w \<Rightarrow> err option \<times> 'w"

definition register_request_of :: "fga_intent \<Rightarrow> fga_tuple \<Rightarrow> register_request" where
  "register_request_of i t =
     \<lparr> rq_tuple = t, rq_trace = fi_resource i, rq_labels = fi_labels i,
       rq_project = fi_parent_project i, rq_account = fi_parent_account i,
       rq_version = fi_source_version i \<rparr>"

fun apply_tuples ::
  "(register_request \<Rightarrow> 'w \<Rightarrow> err option \<times> 'w) \<Rightarrow> fga_intent \<Rightarrow> fga_tuple list \<Rightarrow> 'w \<Rightarrow> drain \<times> 'w" where
  "apply_tuples call i [] w = (Sent, w)"
| "apply_tuples call i (t # ts) w =
     (case call (register_request_of i t) w of (e, w') \<Rightarrow>
        (case classifyRegisterErr e of
           Sent \<Rightarrow> apply_tuples call i ts w'
         | d \<Rightarrow> (d, w')))"

definition register_applier ::
  "'w register_client option \<Rightarrow> fga_event \<Rightarrow> fga_intent \<Rightarrow> 'w \<Rightarrow> drain \<times> 'w" where
  "register_applier cli ev i w =
     (case cli of
        None \<Rightarrow> (Transient (Wrapped ErrUnavailable ''iam register client not configured''), w)
      | Some c \<Rightarrow>
          (case ev of
             FGAEventRegister \<Rightarrow> apply_tuples (RegisterResource c) i (fi_tuples i) w
           | FGAEventUnregister \<Rightarrow> apply_tuples (UnregisterResource c) i (fi_tuples i) w))"

subsection \<open>The life-cycle payload\<close>

text \<open>
  A JSON object is the list of its members; the values are those a decoder distinguishes. A Go map
  has each key once.
\<close>

datatype json = JNull | JString string | JNumber int | JBool bool | JArray "json list"
  | JObject "(string \<times> json) list"

type_synonym payload = "(string \<times> json) list"

record lifecycle_payload =
  lp_id :: string
  lp_parent :: string
  lp_project :: string
  lp_region :: string
  lp_name :: string
  lp_status :: string
  lp_type :: string
  lp_protocol :: string
  lp_port :: int32
  lp_trigger :: string
  lp_old_project :: string
  lp_new_project :: string

definition empty_lifecycle :: lifecycle_payload where
  "empty_lifecycle =
     \<lparr> lp_id = '''', lp_parent = '''', lp_project = '''', lp_region = '''', lp_name = '''',
       lp_status = '''', lp_type = '''', lp_protocol = '''', lp_port = 0, lp_trigger = '''',
       lp_old_project = '''', lp_new_project = '''' \<rparr>"

definition putNonEmpty :: "string \<Rightarrow> string \<Rightarrow> payload \<Rightarrow> payload" where
  "putNonEmpty key v m = (if v \<noteq> '''' then m @ [(key, JString v)] else m)"

definition LifecyclePayload_Map :: "lifecycle_payload \<Rightarrow> payload" where
  "LifecyclePayload_Map p =
     (let m = putNonEmpty ''id'' (lp_id p) [];
          m = putNonEmpty ''parent_resource_id'' (lp_parent p) m;
          m = putNonEmpty ''project_id'' (lp_project p) m;
          m = putNonEmpty ''region_id'' (lp_region p) m;
          m = putNonEmpty ''name'' (lp_name p) m;
          m = putNonEmpty ''status'' (lp_status p) m;
          m = putNonEmpty ''type'' (lp_type p) m;
          m = putNonEmpty ''protocol'' (lp_protocol p) m;
          m = putNonEmpty ''trigger'' (lp_trigger p) m;
          m = putNonEmpty ''old_project_id'' (lp_old_project p) m;
          m = putNonEmpty ''new_project_id'' (lp_new_project p) m
      in if lp_port p \<noteq> 0 then m @ [(''port'', JNumber (sint (lp_port p)))] else m)"

definition get_string :: "payload \<Rightarrow> string \<Rightarrow> string" where
  "get_string m k = (case map_of m k of Some (JString s) \<Rightarrow> s | _ \<Rightarrow> '''')"

definition get_port :: "payload \<Rightarrow> int32" where
  "get_port m = (case map_of m ''port'' of Some (JNumber n) \<Rightarrow> word_of_int n | _ \<Rightarrow> 0)"

text \<open>The parser works on the decoded document; \<^verbatim>\<open>None\<close> stands for invalid JSON.\<close>

definition ParseLifecyclePayload :: "payload option \<Rightarrow> lifecycle_payload option" where
  "ParseLifecyclePayload raw =
     (case raw of None \<Rightarrow> None | Some m \<Rightarrow> Some
       \<lparr> lp_id = get_string m ''id'', lp_parent = get_string m ''parent_resource_id'',
         lp_project = get_string m ''project_id'', lp_region = get_string m ''region_id'',
         lp_name = get_string m ''name'', lp_status = get_string m ''status'',
         lp_type = get_string m ''type'', lp_protocol = get_string m ''protocol'',
         lp_port = get_port m, lp_trigger = get_string m ''trigger'',
         lp_old_project = get_string m ''old_project_id'',
         lp_new_project = get_string m ''new_project_id'' \<rparr>)"

text \<open>The payloads of the use-cases.\<close>

definition lbOutboxPayload :: "'a load_balancer_scheme \<Rightarrow> payload" where
  "lbOutboxPayload lb = LifecyclePayload_Map (empty_lifecycle
     \<lparr> lp_id := lb_id lb, lp_project := lb_project lb, lp_region := lb_region lb,
       lp_name := lb_name lb, lp_status := lb_status_string (lb_status lb),
       lp_type := lb_type_string (lb_type lb) \<rparr>)"

definition movedPayload :: "string \<Rightarrow> string \<Rightarrow> string \<Rightarrow> payload" where
  "movedPayload i src dst = LifecyclePayload_Map (empty_lifecycle
     \<lparr> lp_id := i, lp_old_project := src, lp_new_project := dst \<rparr>)"

definition listenerPayloadMap :: "'a listener_scheme \<Rightarrow> payload" where
  "listenerPayloadMap l = LifecyclePayload_Map (empty_lifecycle
     \<lparr> lp_id := ls_id l, lp_parent := ls_lb l, lp_project := ls_project l,
       lp_region := ls_region l, lp_name := ls_name l, lp_protocol := ls_protocol l,
       lp_port := ls_port l, lp_status := listener_status_string (ls_status l) \<rparr>)"

definition lbUpdatedPayloadMap :: "string \<Rightarrow> string \<Rightarrow> string \<Rightarrow> string \<Rightarrow> payload" where
  "lbUpdatedPayloadMap i project region trigger = LifecyclePayload_Map (empty_lifecycle
     \<lparr> lp_id := i, lp_project := project, lp_region := region, lp_trigger := trigger \<rparr>)"

definition tgOutboxPayload :: "'a target_group_scheme \<Rightarrow> payload" where
  "tgOutboxPayload g = LifecyclePayload_Map (empty_lifecycle
     \<lparr> lp_id := tg_id g, lp_project := tg_project g, lp_region := tg_region g,
       lp_name := tg_name g, lp_status := tg_status_string (tg_status g) \<rparr>)"

subsection \<open>Facts\<close>

lemma put_other: "j \<noteq> k \<Longrightarrow> map_of (putNonEmpty k v m) j = map_of m j"
  by (auto simp: putNonEmpty_def map_add_def split: option.splits)

lemma get_string_other: "j \<noteq> k \<Longrightarrow> get_string (putNonEmpty k v m) j = get_string m j"
  by (simp add: get_string_def put_other)

lemma get_string_here: "map_of m k = None \<Longrightarrow> get_string (putNonEmpty k v m) k = v"
  by (simp add: get_string_def putNonEmpty_def map_add_def)

lemma get_string_port:
  "j \<noteq> ''port'' \<Longrightarrow> get_string (m @ [(''port'', x)]) j = get_string m j"
  by (simp add: get_string_def map_add_def split: option.splits)

lemma get_string_Nil [simp]: "get_string [] j = ''''"
  by (simp add: get_string_def)

lemma get_port_port:
  "map_of m ''port'' = None \<Longrightarrow> get_port (m @ [(''port'', JNumber n)]) = word_of_int n"
  by (simp add: get_port_def map_add_def)

lemma get_port_absent: "map_of m ''port'' = None \<Longrightarrow> get_port m = 0"
  by (simp add: get_port_def)

text \<open>The life-cycle payload survives the trip through the outbox: parsing what \<^verbatim>\<open>Map\<close> wrote
  gives back every field, the empty ones (which are not written) included, and the port at its
  signed 32-bit value.\<close>

theorem LifecyclePayload_roundtrip:
  "ParseLifecyclePayload (Some (LifecyclePayload_Map p)) = Some p"
proof -
  let ?m = "LifecyclePayload_Map p"
  have "get_port ?m = lp_port p"
    by (simp add: LifecyclePayload_Map_def Let_def get_port_port get_port_absent put_other)
  moreover have "get_string ?m ''id'' = lp_id p" "get_string ?m ''parent_resource_id'' = lp_parent p"
    "get_string ?m ''project_id'' = lp_project p" "get_string ?m ''region_id'' = lp_region p"
    "get_string ?m ''name'' = lp_name p" "get_string ?m ''status'' = lp_status p"
    "get_string ?m ''type'' = lp_type p" "get_string ?m ''protocol'' = lp_protocol p"
    "get_string ?m ''trigger'' = lp_trigger p" "get_string ?m ''old_project_id'' = lp_old_project p"
    "get_string ?m ''new_project_id'' = lp_new_project p"
    by (simp_all add: LifecyclePayload_Map_def Let_def get_string_port get_string_other
        get_string_here put_other)
  ultimately show ?thesis by (simp add: ParseLifecyclePayload_def)
qed

text \<open>
  A client that records every request in its state and answers from a script: what the relay
  sends is then a list.
\<close>

definition logging ::
  "(register_request \<Rightarrow> err option) \<Rightarrow> register_request \<Rightarrow> register_request list \<Rightarrow>
   err option \<times> register_request list" where
  "logging ans rq w = (ans rq, w @ [rq])"

definition logged_relay ::
  "(register_request \<Rightarrow> err option) \<Rightarrow> fga_event \<Rightarrow> fga_intent \<Rightarrow> drain \<times> register_request list" where
  "logged_relay ans ev i = register_applier
     (Some \<lparr> RegisterResource = logging ans, UnregisterResource = logging ans \<rparr>) ev i []"

lemma apply_tuples_sent:
  "fst (apply_tuples (logging ans) i ts w) = Sent \<Longrightarrow>
   snd (apply_tuples (logging ans) i ts w) = w @ map (register_request_of i) ts
   \<and> (\<forall>t \<in> set ts. ans (register_request_of i t) = None)"
  by (induction ts arbitrary: w)
     (auto simp: logging_def classifyRegisterErr_def
        split: drain.splits option.splits err.splits code.splits)

lemma apply_tuples_prefix:
  "\<exists>n. snd (apply_tuples (logging ans) i ts w) = w @ map (register_request_of i) (take n ts)"
proof (induction ts arbitrary: w)
  case (Cons t ts)
  let ?r = "register_request_of i t"
  show ?case
  proof (cases "classifyRegisterErr (ans ?r)")
    case Sent
    obtain n where "snd (apply_tuples (logging ans) i ts (w @ [?r])) =
        (w @ [?r]) @ map (register_request_of i) (take n ts)"
      using Cons.IH [of "w @ [?r]"] by blast
    then have "snd (apply_tuples (logging ans) i (t # ts) w) =
        w @ map (register_request_of i) (take (Suc n) (t # ts))"
      using Sent by (simp add: logging_def)
    then show ?thesis by blast
  qed (rule exI [of _ 1], simp add: logging_def)+
qed simp

text \<open>The relay reports an intent as delivered only when every one of its tuples was sent, in
  order, and accepted; whatever happens, the tuples sent are a prefix of the intent's tuples.\<close>

theorem register_applier_complete:
  "(fst (logged_relay ans ev i) = Sent \<longrightarrow>
      snd (logged_relay ans ev i) = map (register_request_of i) (fi_tuples i)
      \<and> (\<forall>t \<in> set (fi_tuples i). ans (register_request_of i t) = None))
    \<and> (\<exists>n. snd (logged_relay ans ev i) = map (register_request_of i) (take n (fi_tuples i)))"
  using apply_tuples_sent [of ans i "fi_tuples i" "[]"] apply_tuples_prefix [of ans i "fi_tuples i" "[]"]
  unfolding logged_relay_def register_applier_def by (cases ev) auto

theorem register_applier_complete_witness:
  "fst (logged_relay (\<lambda>_. None) FGAEventUnregister (lbUnregisterIntent ''nlb1'' ''p1'')) = Sent
   \<and> snd (logged_relay (\<lambda>_. None) FGAEventUnregister (lbUnregisterIntent ''nlb1'' ''p1''))
       = map (register_request_of (lbUnregisterIntent ''nlb1'' ''p1''))
             (fi_tuples (lbUnregisterIntent ''nlb1'' ''p1''))"
proof -
  have "fst (logged_relay (\<lambda>_. None) FGAEventUnregister (lbUnregisterIntent ''nlb1'' ''p1'')) = Sent"
    by (simp add: logged_relay_def register_applier_def lbUnregisterIntent_def bare_intent_def
        logging_def classifyRegisterErr_def)
  then show ?thesis
    using register_applier_complete [of "\<lambda>_. None" FGAEventUnregister] by blast
qed

text \<open>An answer \<^verbatim>\<open>AlreadyExists\<close> for the first tuple ends the delivery as a success (the row is
  marked as sent) although the other tuples of the intent were never sent.\<close>

theorem duplicate_reply_drops_rest:
  assumes "fi_tuples i = t # ts" and "ans (register_request_of i t) = Some (Status CodeAlreadyExists m)"
  shows "\<exists>m'. logged_relay ans FGAEventRegister i = (AlreadyApplied m', [register_request_of i t])"
  using assms by (simp add: logged_relay_def register_applier_def classifyRegisterErr_def logging_def)

definition example_lb_intent :: fga_intent where
  "example_lb_intent =
     lbRegisterIntent (NewLoadBalancer ''nlb1'' ''p1'' ''r1'' ''web'' '''' [] LBTypeExternal)
       \<lparr> pr_type = ''user'', pr_id = ''u1'' \<rparr>"

theorem duplicate_reply_drops_rest_witness:
  "length (fi_tuples example_lb_intent) = 2
   \<and> (\<exists>m. logged_relay (\<lambda>_. Some (Status CodeAlreadyExists '''')) FGAEventRegister example_lb_intent =
        (AlreadyApplied m, [register_request_of example_lb_intent (hd (fi_tuples example_lb_intent))]))"
proof -
  have len: "length (fi_tuples example_lb_intent) = 2"
    by (simp add: example_lb_intent_def lbRegisterIntent_def FGASubjectFromPrincipal_def
        bare_intent_def Let_def)
  then obtain t ts where "fi_tuples example_lb_intent = t # ts"
    by (cases "fi_tuples example_lb_intent") auto
  with len show ?thesis
    using duplicate_reply_drops_rest [of example_lb_intent t ts] by simp
qed

text \<open>The intent written when a listener is deleted does not withdraw all the tuples the creation
  registered: the listener's project tuple stays behind, whoever created it.\<close>

theorem listener_project_tuple_stays:
  "FGAProjectTuple FGAObjectTypeListener (ls_id l) (ls_project l)
     \<in> set (fi_tuples (listenerRegisterIntent l subject))
         - set (fi_tuples (listenerUnregisterIntent (ls_id l) (ls_lb l)))"
  by (simp add: listenerRegisterIntent_def listenerUnregisterIntent_def bare_intent_def
      FGAProjectTuple_def listener_parent_tuple_def FGAParentLinkTuple_def Let_def
      FGARelationProject_def FGARelationLoadBalancer_def)

text \<open>No builder makes an empty intent, which the emitter would drop.\<close>

lemma intent_tuples_nonempty [simp]:
  "fi_tuples (lbRegisterIntent lb p) \<noteq> []" "fi_tuples (lbMirrorIntent lb) \<noteq> []"
  "fi_tuples (lbUnregisterIntent i project) \<noteq> []" "fi_tuples (listenerRegisterIntent l subject) \<noteq> []"
  "fi_tuples (listenerMirrorIntent l) \<noteq> []" "fi_tuples (listenerUnregisterIntent i j) \<noteq> []"
  "fi_tuples (tgRegisterIntent g p) \<noteq> []" "fi_tuples (tgMirrorIntent g) \<noteq> []"
  "fi_tuples (tgUnregisterIntent i project) \<noteq> []"
  by (simp_all add: lbRegisterIntent_def lbMirrorIntent_def lbUnregisterIntent_def
      listenerRegisterIntent_def listenerMirrorIntent_def listenerUnregisterIntent_def
      tgRegisterIntent_def tgMirrorIntent_def tgUnregisterIntent_def bare_intent_def Let_def)

lemma intent_version [simp]:
  "fi_source_version (lbRegisterIntent lb p) = None" "fi_source_version (lbMirrorIntent lb) = None"
  "fi_source_version (lbUnregisterIntent i project) = None"
  "fi_source_version (listenerRegisterIntent l subject) = None"
  "fi_source_version (listenerMirrorIntent l) = None"
  "fi_source_version (listenerUnregisterIntent i j) = None"
  "fi_source_version (tgRegisterIntent g p) = None" "fi_source_version (tgMirrorIntent g) = None"
  "fi_source_version (tgUnregisterIntent i project) = None"
  by (simp_all add: lbRegisterIntent_def lbMirrorIntent_def lbUnregisterIntent_def
      listenerRegisterIntent_def listenerMirrorIntent_def listenerUnregisterIntent_def
      tgRegisterIntent_def tgMirrorIntent_def tgUnregisterIntent_def bare_intent_def Let_def)

end
