(* ===== verification/Schema.thy ===== *)
theory Schema
  imports Intents
begin

text \<open>
  The database (\<^verbatim>\<open>internal/migrations\<close>): the tables as lists of rows, the CHECK, UNIQUE and
  FOREIGN KEY constraints as executable tests that refuse a statement with the SQLSTATE and the
  constraint's name, the trigger that recomputes a load balancer's status, the two outboxes, and
  transactions. \<open>d_now\<close> is \<^verbatim>\<open>now()\<close> (constant inside a transaction), \<open>d_tx\<close> the identifier of
  the running transaction, which a written row carries as its \<^verbatim>\<open>xmin\<close>.
\<close>

subsection \<open>Rows\<close>

record lb_row = load_balancer +
  lb_created :: int
  lb_updated :: int
  lb_xmin :: nat

record listener_row = listener +
  ls_created :: int
  ls_updated :: int
  ls_xmin :: nat

text \<open>The targets of a group live in a table of their own; the list of a stored group is empty.\<close>

record tg_row = target_group +
  tg_created :: int
  tg_updated :: int
  tg_xmin :: nat

datatype target_status = TargetActive | TargetDraining

record target_row =
  tr_id :: string
  tr_group :: string
  tr_created :: int
  tr_updated :: int
  tr_instance :: "string option"
  tr_nic :: "string option"
  tr_subnet :: "string option"
  tr_address :: "string option"
  tr_ext :: "string option"
  tr_zone :: "string option"
  tr_weight :: int32
  tr_status :: target_status
  tr_drain :: "int option"

record attached_row =
  at_lb :: string
  at_tg :: string
  at_priority :: int32
  at_since :: int

definition at_key :: "attached_row \<Rightarrow> string \<times> string" where
  "at_key a = (at_lb a, at_tg a)"

datatype resource_kind = OutboxLoadBalancer | OutboxListener | OutboxTargetGroup
datatype outbox_action = ActionCreated | ActionUpdated | ActionDeleted | ActionMoved | ActionFailed

record outbox_row =
  ob_seq :: nat
  ob_kind :: resource_kind
  ob_resource :: string
  ob_project :: string
  ob_action :: outbox_action
  ob_payload :: payload
  ob_at :: int

record fga_row =
  fg_seq :: nat
  fg_event :: fga_event
  fg_intent :: fga_intent
  fg_at :: int

record db =
  d_lbs :: "lb_row list"
  d_listeners :: "listener_row list"
  d_tgs :: "tg_row list"
  d_targets :: "target_row list"
  d_attached :: "attached_row list"
  d_outbox :: "outbox_row list"
  d_fga :: "fga_row list"
  d_outbox_seq :: nat
  d_fga_seq :: nat
  d_now :: int
  d_tx :: nat

definition empty_db :: db where
  "empty_db = \<lparr> d_lbs = [], d_listeners = [], d_tgs = [], d_targets = [], d_attached = [],
     d_outbox = [], d_fga = [], d_outbox_seq = 1, d_fga_seq = 1, d_now = 0, d_tx = 0 \<rparr>"

subsection \<open>Checks on a row\<close>

definition db_name_re :: "piece list" where
  "db_name_re = [Piece lower_letter 1 1, Piece (\<lambda>c. lower_alnum c \<or> c = CHR ''-'') 1 61,
                 Piece lower_alnum 1 1]"

definition name_check :: "string \<Rightarrow> bool" where
  "name_check n \<longleftrightarrow> n = '''' \<or> rx_match db_name_re n"

definition db_label_key_char :: "char \<Rightarrow> bool" where
  "db_label_key_char c \<longleftrightarrow> lower_alnum c \<or> c \<in> set ''-_./@''"

definition db_label_val_char :: "char \<Rightarrow> bool" where
  "db_label_val_char c \<longleftrightarrow> lower_alnum c \<or> upper_letter c \<or> c \<in> set ''-_./@''"

definition kacho_labels_valid :: "labels \<Rightarrow> bool" where
  "kacho_labels_valid ls \<longleftrightarrow>
     (if length ls > 64 then False
      else list_all (\<lambda>(k, v).
             rx_match [Piece lower_letter 1 1, Piece db_label_key_char 0 62] k \<and>
             rx_match [Piece db_label_val_char 0 63] v) ls)"

text \<open>The first violated constraint of a list of named tests.\<close>

fun first_violation :: "(string \<times> bool) list \<Rightarrow> string option" where
  "first_violation [] = None"
| "first_violation ((n, ok) # cs) = (if ok then first_violation cs else Some n)"

lemma first_violation_None: "first_violation cs = None \<longleftrightarrow> (\<forall>(n, ok) \<in> set cs. ok)"
  by (induction cs rule: first_violation.induct) auto

definition lb_checks :: "'a load_balancer_scheme \<Rightarrow> (string \<times> bool) list" where
  "lb_checks r =
     [(''load_balancers_name_check'', name_check (lb_name r)),
      (''load_balancers_description_check'', RuneCount (lb_description r) \<le> 256),
      (''load_balancers_labels_valid'', kacho_labels_valid (lb_labels r)),
      (''load_balancers_session_affinity_check'',
         lb_affinity r \<in> {''FIVE_TUPLE'', ''CLIENT_IP_ONLY''}),
      (''load_balancers_placement_type_check'',
         lb_type r = LBTypeInternal \<and> lb_placement r \<in> {PlacementZonal, PlacementRegional}
         \<or> lb_type r \<noteq> LBTypeInternal \<and> lb_placement r = PlacementUnspecified),
      (''load_balancers_disabled_announce_zones_check'',
         length (lb_disabled_zones r) = 0 \<or> lb_placement r = PlacementRegional),
      (''load_balancers_address_v4_family_check'',
         lb_addr_v4 r = '''' \<or> ''IPV4'' \<in> set (lb_families r)),
      (''load_balancers_address_v6_family_check'',
         lb_addr_v6 r = '''' \<or> ''IPV6'' \<in> set (lb_families r)),
      (''load_balancers_vip_origin_v4_check'',
         lb_origin_v4 r \<in> {VipOriginUnset, VipOriginAuto, VipOriginLinked}),
      (''load_balancers_vip_origin_v6_check'',
         lb_origin_v6 r \<in> {VipOriginUnset, VipOriginAuto, VipOriginLinked})]"

definition listener_checks :: "'a listener_scheme \<Rightarrow> (string \<times> bool) list" where
  "listener_checks r =
     [(''listeners_name_check'', name_check (ls_name r)),
      (''listeners_description_check'', RuneCount (ls_description r) \<le> 256),
      (''listeners_labels_valid'', kacho_labels_valid (ls_labels r)),
      (''listeners_protocol_check'', ls_protocol r \<in> {''TCP'', ''UDP''}),
      (''listeners_port_check'', 1 \<le> sint (ls_port r) \<and> sint (ls_port r) \<le> 65535),
      (''listeners_target_port_check'',
         1 \<le> sint (ls_target_port r) \<and> sint (ls_target_port r) \<le> 65535),
      (''listeners_ip_version_check'', ls_ip_version r \<in> {''IPV4'', ''IPV6''}),
      (''listeners_vip_origin_check'', ls_origin r \<in> {VipOriginBYO, VipOriginAuto})]"

definition tg_checks :: "'a target_group_scheme \<Rightarrow> (string \<times> bool) list" where
  "tg_checks r =
     [(''target_groups_name_check'', name_check (tg_name r)),
      (''target_groups_description_check'', RuneCount (tg_description r) \<le> 256),
      (''target_groups_labels_valid'', kacho_labels_valid (tg_labels r)),
      (''target_groups_dereg_delay_check'', 0 \<le> sint (tg_dereg r) \<and> sint (tg_dereg r) \<le> 3600),
      (''target_groups_slow_start_check'', 0 \<le> sint (tg_slow r) \<and> sint (tg_slow r) \<le> 900)]"

definition target_checks :: "target_row \<Rightarrow> (string \<times> bool) list" where
  "target_checks r =
     [(''targets_weight_check'', 0 \<le> sint (tr_weight r) \<and> sint (tr_weight r) \<le> 1000),
      (''targets_identity_exactly_one'',
         (if tr_instance r \<noteq> None then 1 else 0) + (if tr_nic r \<noteq> None then 1 else 0) +
         (if tr_subnet r \<noteq> None \<or> tr_address r \<noteq> None then 1 else 0) +
         (if tr_ext r \<noteq> None \<or> tr_zone r \<noteq> None then 1 else 0) = (1 :: nat)),
      (''targets_ip_ref_both_or_neither'', (tr_subnet r = None) = (tr_address r = None)),
      (''targets_external_ip_address_present'', tr_zone r = None \<or> tr_ext r \<noteq> None),
      (''targets_drain_consistency'',
         tr_status r = TargetActive \<and> tr_drain r = None
         \<or> tr_status r = TargetDraining \<and> tr_drain r \<noteq> None)]"

definition attached_checks :: "attached_row \<Rightarrow> (string \<times> bool) list" where
  "attached_checks r =
     [(''attached_target_groups_priority_check'',
         0 \<le> sint (at_priority r) \<and> sint (at_priority r) \<le> 1000)]"

subsection \<open>Unique indexes\<close>

text \<open>
  Each test lists a unique index and says that no other row of the table has the same key; \<open>t\<close>
  is the table without the row that is written.
\<close>

definition lb_uniques :: "lb_row list \<Rightarrow> 'a load_balancer_scheme \<Rightarrow> (string \<times> bool) list" where
  "lb_uniques t r =
     [(''load_balancers_pkey'', \<forall>s \<in> set t. lb_id s \<noteq> lb_id r),
      (''load_balancers_project_name_uniq'',
         \<forall>s \<in> set t. lb_name r \<noteq> '''' \<longrightarrow> \<not> (lb_project s = lb_project r \<and> lb_name s = lb_name r)),
      (''load_balancers_region_v4_uniq'',
         \<forall>s \<in> set t. lb_addr_v4 r \<noteq> '''' \<longrightarrow>
            \<not> (lb_region s = lb_region r \<and> lb_addr_v4 s = lb_addr_v4 r)),
      (''load_balancers_region_v6_uniq'',
         \<forall>s \<in> set t. lb_addr_v6 r \<noteq> '''' \<longrightarrow>
            \<not> (lb_region s = lb_region r \<and> lb_addr_v6 s = lb_addr_v6 r))]"

definition listener_uniques ::
  "listener_row list \<Rightarrow> 'a listener_scheme \<Rightarrow> (string \<times> bool) list" where
  "listener_uniques t r =
     [(''listeners_pkey'', \<forall>s \<in> set t. ls_id s \<noteq> ls_id r),
      (''listeners_lb_port_proto_uniq'',
         \<forall>s \<in> set t. \<not> (ls_lb s = ls_lb r \<and> ls_port s = ls_port r \<and> ls_protocol s = ls_protocol r)),
      (''listeners_lb_name_uniq'',
         \<forall>s \<in> set t. ls_name r \<noteq> '''' \<longrightarrow> \<not> (ls_lb s = ls_lb r \<and> ls_name s = ls_name r))]"

definition tg_uniques :: "tg_row list \<Rightarrow> 'a target_group_scheme \<Rightarrow> (string \<times> bool) list" where
  "tg_uniques t r =
     [(''target_groups_pkey'', \<forall>s \<in> set t. tg_id s \<noteq> tg_id r),
      (''target_groups_project_name_uniq'',
         \<forall>s \<in> set t. tg_name r \<noteq> '''' \<longrightarrow> \<not> (tg_project s = tg_project r \<and> tg_name s = tg_name r))]"

definition target_uniques :: "target_row list \<Rightarrow> target_row \<Rightarrow> (string \<times> bool) list" where
  "target_uniques t r =
     [(''targets_pkey'', \<forall>s \<in> set t. tr_id s \<noteq> tr_id r),
      (''targets_instance_id_uniq'', \<forall>s \<in> set t. tr_instance r \<noteq> None \<longrightarrow>
          \<not> (tr_group s = tr_group r \<and> tr_instance s = tr_instance r)),
      (''targets_nic_id_uniq'', \<forall>s \<in> set t. tr_nic r \<noteq> None \<longrightarrow>
          \<not> (tr_group s = tr_group r \<and> tr_nic s = tr_nic r)),
      (''targets_ip_ref_uniq'', \<forall>s \<in> set t. tr_subnet r \<noteq> None \<and> tr_address r \<noteq> None \<longrightarrow>
          \<not> (tr_group s = tr_group r \<and> tr_subnet s = tr_subnet r \<and> tr_address s = tr_address r)),
      (''targets_external_ip_uniq'', \<forall>s \<in> set t. tr_ext r \<noteq> None \<longrightarrow>
          \<not> (tr_group s = tr_group r \<and> tr_ext s = tr_ext r))]"

subsection \<open>Statements\<close>

definition sql_guard :: "string \<Rightarrow> (string \<times> bool) list \<Rightarrow> err + unit" where
  "sql_guard sqlstate cs =
     (case first_violation cs of None \<Rightarrow> Inr () | Some n \<Rightarrow> Inl (PgError sqlstate n))"

lemma sql_guard_Inr [simp]: "sql_guard c cs = Inr u \<longleftrightarrow> (\<forall>(n, ok) \<in> set cs. ok)"
  by (auto simp: sql_guard_def first_violation_None split: option.splits)
     (metis first_violation_None option.distinct(1) case_prodD)+

definition insert_lb :: "lb_row \<Rightarrow> db \<Rightarrow> err + db" where
  "insert_lb r d =
     attempt (sql_guard ''23514'' (lb_checks r)) (\<lambda>_.
     attempt (sql_guard ''23505'' (lb_uniques (d_lbs d) r)) (\<lambda>_.
       Inr (d \<lparr> d_lbs := d_lbs d @ [r] \<rparr>)))"

text \<open>\<open>update_lb i f\<close> is an \<^verbatim>\<open>UPDATE\<close> of the row with key \<open>i\<close>, which gets the transaction's
  identifier; the row must exist.\<close>

definition update_lb :: "string \<Rightarrow> (lb_row \<Rightarrow> lb_row) \<Rightarrow> db \<Rightarrow> err + db" where
  "update_lb i f d =
     (let g = (\<lambda>r. (f r) \<lparr> lb_xmin := d_tx d \<rparr>) in
      case tbl_get lb_id (d_lbs d) i of
        None \<Rightarrow> Inr d
      | Some r \<Rightarrow>
          attempt (sql_guard ''23514'' (lb_checks (g r))) (\<lambda>_.
          attempt (sql_guard ''23505'' (lb_uniques (tbl_del lb_id i (d_lbs d)) (g r))) (\<lambda>_.
            Inr (d \<lparr> d_lbs := tbl_upd lb_id i g (d_lbs d) \<rparr>))))"

definition has_listener :: "db \<Rightarrow> string \<Rightarrow> bool" where
  "has_listener d i \<longleftrightarrow> list_ex (\<lambda>l. ls_lb l = i) (d_listeners d)"

definition has_attached :: "db \<Rightarrow> string \<Rightarrow> bool" where
  "has_attached d i \<longleftrightarrow> list_ex (\<lambda>a. at_lb a = i) (d_attached d)"

definition delete_lb :: "string \<Rightarrow> db \<Rightarrow> err + db" where
  "delete_lb i d =
     attempt (sql_guard ''23503''
        [(''listeners_load_balancer_id_fkey'', \<not> has_listener d i),
         (''attached_target_groups_load_balancer_id_fkey'', \<not> has_attached d i)]) (\<lambda>_.
       Inr (d \<lparr> d_lbs := tbl_del lb_id i (d_lbs d) \<rparr>))"

text \<open>The two outboxes; the sequence numbers come from the tables' sequences.\<close>

definition emit_outbox ::
  "resource_kind \<Rightarrow> string \<Rightarrow> string \<Rightarrow> outbox_action \<Rightarrow> payload \<Rightarrow> db \<Rightarrow> db" where
  "emit_outbox kind i project action p d =
     d \<lparr> d_outbox := d_outbox d @
           [\<lparr> ob_seq = d_outbox_seq d, ob_kind = kind, ob_resource = i, ob_project = project,
              ob_action = action, ob_payload = p, ob_at = d_now d \<rparr>],
         d_outbox_seq := Suc (d_outbox_seq d) \<rparr>"

definition emit_fga :: "fga_event \<Rightarrow> fga_intent \<Rightarrow> db \<Rightarrow> db" where
  "emit_fga ev intent d =
     (if fi_tuples intent = [] then d
      else d \<lparr> d_fga := d_fga d @
                 [\<lparr> fg_seq = d_fga_seq d, fg_event = ev,
                    fg_intent = intent \<lparr> fi_source_version := Some (d_now d) \<rparr>, fg_at = d_now d \<rparr>],
               d_fga_seq := Suc (d_fga_seq d) \<rparr>)"

text \<open>
  The trigger on \<^verbatim>\<open>listeners\<close> (insert, change of status, delete) and on
  \<^verbatim>\<open>attached_target_groups\<close> (insert, delete), as migration 0013 leaves it. Its update changes
  only the status, which no constraint reads.
\<close>

definition recomputed_status :: "db \<Rightarrow> string \<Rightarrow> lb_status" where
  "recomputed_status d i =
     (if list_ex (\<lambda>l. ls_lb l = i \<and> ls_status l \<noteq> ListenerStatusDeleting) (d_listeners d) \<and> has_attached d i
      then LBStatusActive else LBStatusInactive)"

definition lb_status_recompute :: "string \<Rightarrow> db \<Rightarrow> db" where
  "lb_status_recompute i d =
     (case tbl_get lb_id (d_lbs d) i of
        None \<Rightarrow> d
      | Some lb \<Rightarrow>
          if lb_status lb \<notin> {LBStatusInactive, LBStatusActive} then d
          else let new = recomputed_status d i in
            if new = lb_status lb then d
            else emit_outbox OutboxLoadBalancer i (lb_project lb) ActionUpdated
                   [(''id'', JString i), (''status'', JString (lb_status_string new)),
                    (''recomputed'', JBool True)]
                   (d \<lparr> d_lbs := tbl_upd lb_id i
                          (\<lambda>r. r \<lparr> lb_status := new, lb_xmin := d_tx d \<rparr>) (d_lbs d) \<rparr>))"

text \<open>The composite foreign key of a listener's default target group.\<close>

definition default_tg_ok :: "db \<Rightarrow> 'a listener_scheme \<Rightarrow> bool" where
  "default_tg_ok d l \<longleftrightarrow>
     (case ls_default_tg l of None \<Rightarrow> True
      | Some g \<Rightarrow> list_ex (\<lambda>a. at_lb a = ls_lb l \<and> at_tg a = g) (d_attached d))"

definition insert_listener :: "listener_row \<Rightarrow> db \<Rightarrow> err + db" where
  "insert_listener r d =
     attempt (sql_guard ''23514'' (listener_checks r)) (\<lambda>_.
     attempt (sql_guard ''23505'' (listener_uniques (d_listeners d) r)) (\<lambda>_.
     attempt (sql_guard ''23503''
        [(''listeners_load_balancer_id_fkey'', tbl_get lb_id (d_lbs d) (ls_lb r) \<noteq> None),
         (''listeners_default_tg_attached_fk'', default_tg_ok d r)]) (\<lambda>_.
       Inr (lb_status_recompute (ls_lb r) (d \<lparr> d_listeners := d_listeners d @ [r] \<rparr>)))))"

text \<open>An update fires the trigger when it changes the status.\<close>

definition update_listener :: "string \<Rightarrow> (listener_row \<Rightarrow> listener_row) \<Rightarrow> db \<Rightarrow> err + db" where
  "update_listener i f d =
     (let g = (\<lambda>r. (f r) \<lparr> ls_xmin := d_tx d \<rparr>) in
      case tbl_get ls_id (d_listeners d) i of
        None \<Rightarrow> Inr d
      | Some r \<Rightarrow>
          attempt (sql_guard ''23514'' (listener_checks (g r))) (\<lambda>_.
          attempt (sql_guard ''23505'' (listener_uniques (tbl_del ls_id i (d_listeners d)) (g r))) (\<lambda>_.
          attempt (sql_guard ''23503'' [(''listeners_default_tg_attached_fk'', default_tg_ok d (g r))])
            (\<lambda>_. let d' = d \<lparr> d_listeners := tbl_upd ls_id i g (d_listeners d) \<rparr> in
              Inr (if ls_status (g r) \<noteq> ls_status r then lb_status_recompute (ls_lb r) d' else d')))))"

definition delete_listener :: "string \<Rightarrow> db \<Rightarrow> db" where
  "delete_listener i d =
     (case tbl_get ls_id (d_listeners d) i of
        None \<Rightarrow> d
      | Some r \<Rightarrow> lb_status_recompute (ls_lb r) (d \<lparr> d_listeners := tbl_del ls_id i (d_listeners d) \<rparr>))"

definition insert_attached :: "attached_row \<Rightarrow> db \<Rightarrow> err + db" where
  "insert_attached a d =
     attempt (sql_guard ''23514'' (attached_checks a)) (\<lambda>_.
     attempt (sql_guard ''23503''
        [(''attached_target_groups_load_balancer_id_fkey'', tbl_get lb_id (d_lbs d) (at_lb a) \<noteq> None),
         (''attached_target_groups_target_group_id_fkey'', tbl_get tg_id (d_tgs d) (at_tg a) \<noteq> None)])
       (\<lambda>_. Inr (lb_status_recompute (at_lb a) (d \<lparr> d_attached := d_attached d @ [a] \<rparr>))))"

definition delete_attached :: "string \<Rightarrow> string \<Rightarrow> db \<Rightarrow> err + db" where
  "delete_attached i g d =
     (case tbl_get at_key (d_attached d) (i, g) of
        None \<Rightarrow> Inr d
      | Some a \<Rightarrow>
          attempt (sql_guard ''23503'' [(''listeners_default_tg_attached_fk'',
             \<not> list_ex (\<lambda>l. ls_lb l = i \<and> ls_default_tg l = Some g) (d_listeners d))])
            (\<lambda>_. Inr (lb_status_recompute i (d \<lparr> d_attached := tbl_del at_key (i, g) (d_attached d) \<rparr>))))"

definition insert_tg :: "tg_row \<Rightarrow> db \<Rightarrow> err + db" where
  "insert_tg r d =
     attempt (sql_guard ''23514'' (tg_checks r)) (\<lambda>_.
     attempt (sql_guard ''23505'' (tg_uniques (d_tgs d) r)) (\<lambda>_.
       Inr (d \<lparr> d_tgs := d_tgs d @ [r] \<rparr>)))"

definition update_tg :: "string \<Rightarrow> (tg_row \<Rightarrow> tg_row) \<Rightarrow> db \<Rightarrow> err + db" where
  "update_tg i f d =
     (let g = (\<lambda>r. (f r) \<lparr> tg_xmin := d_tx d \<rparr>) in
      case tbl_get tg_id (d_tgs d) i of
        None \<Rightarrow> Inr d
      | Some r \<Rightarrow>
          attempt (sql_guard ''23514'' (tg_checks (g r))) (\<lambda>_.
          attempt (sql_guard ''23505'' (tg_uniques (tbl_del tg_id i (d_tgs d)) (g r))) (\<lambda>_.
            Inr (d \<lparr> d_tgs := tbl_upd tg_id i g (d_tgs d) \<rparr>))))"

definition delete_tg :: "string \<Rightarrow> db \<Rightarrow> err + db" where
  "delete_tg i d =
     attempt (sql_guard ''23503''
        [(''targets_target_group_id_fkey'', \<not> list_ex (\<lambda>t. tr_group t = i) (d_targets d)),
         (''attached_target_groups_target_group_id_fkey'',
            \<not> list_ex (\<lambda>a. at_tg a = i) (d_attached d))]) (\<lambda>_.
       Inr (d \<lparr> d_tgs := tbl_del tg_id i (d_tgs d) \<rparr>))"

text \<open>\<^verbatim>\<open>INSERT ... ON CONFLICT DO NOTHING\<close>: \<^verbatim>\<open>False\<close> when a unique index already has the key.\<close>

definition insert_target_nothing :: "target_row \<Rightarrow> db \<Rightarrow> err + bool \<times> db" where
  "insert_target_nothing r d =
     attempt (sql_guard ''23514'' (target_checks r)) (\<lambda>_.
       if first_violation (target_uniques (d_targets d) r) \<noteq> None then Inr (False, d)
       else attempt (sql_guard ''23503''
              [(''targets_target_group_id_fkey'', tbl_get tg_id (d_tgs d) (tr_group r) \<noteq> None)])
              (\<lambda>_. Inr (True, d \<lparr> d_targets := d_targets d @ [r] \<rparr>)))"

subsection \<open>Transactions\<close>

type_synonym 'a tx = "db \<Rightarrow> err + 'a \<times> db"

definition tx_return :: "'a \<Rightarrow> 'a tx" where
  "tx_return x d = Inr (x, d)"

definition tx_fail :: "err \<Rightarrow> 'a tx" where
  "tx_fail e d = Inl e"

definition tx_bind :: "'a tx \<Rightarrow> ('a \<Rightarrow> 'b tx) \<Rightarrow> 'b tx" where
  "tx_bind m k d = attempt (m d) (\<lambda>(x, d'). k x d')"

definition tx_stmt :: "(db \<Rightarrow> err + db) \<Rightarrow> unit tx" where
  "tx_stmt f d = attempt (f d) (\<lambda>d'. Inr ((), d'))"

definition tx_emit :: "(db \<Rightarrow> db) \<Rightarrow> unit tx" where
  "tx_emit f d = Inr ((), f d)"

definition tx_map_err :: "(err \<Rightarrow> err) \<Rightarrow> 'a tx \<Rightarrow> 'a tx" where
  "tx_map_err f m d = mapping_err f (m d)"

lemmas tx_defs = tx_return_def tx_fail_def tx_bind_def tx_stmt_def tx_emit_def tx_map_err_def

end
