(* ===== verification/Row_Contracts.thy ===== *)
theory Row_Contracts
  imports Schema
begin

text \<open>
  The two contracts the repositories of load balancers, listeners and target groups share, as
  locales: a compare-and-swap on the status of a row, and an update guarded by the row's version
  (optimistic concurrency on \<^verbatim>\<open>xmin\<close>). The use-cases rely on the laws only; each repository
  discharges them for its own table.
\<close>

locale status_cas =
  fixes get :: "'d \<Rightarrow> string \<Rightarrow> 'r option"
    and status :: "'r \<Rightarrow> 's"
    and cas :: "string \<Rightarrow> 's \<Rightarrow> 's \<Rightarrow> 'd \<Rightarrow> 'e + 'r \<times> 'd"
  assumes hit: "cas i a b d = Inr (r, d') \<Longrightarrow>
      (\<exists>r0. get d i = Some r0 \<and> status r0 = a) \<and> get d' i = Some r \<and> status r = b"
    and miss: "(\<forall>r. get d i = Some r \<longrightarrow> status r \<noteq> a) \<Longrightarrow> \<exists>e. cas i a b d = Inl e"
    and frame: "cas i a b d = Inr (r, d') \<Longrightarrow> j \<noteq> i \<Longrightarrow> get d' j = get d j"
begin

text \<open>Of two swaps from the same status only the first succeeds, unless it keeps the status.\<close>

lemma single_winner:
  assumes "cas i a b d = Inr (r, d')" and "b \<noteq> a"
  shows "\<exists>e. cas i a c d' = Inl e"
  using hit [OF assms(1)] assms(2) by (intro miss) auto

lemma moves_status:
  "cas i a b d = Inr (r, d') \<Longrightarrow> map_option status (get d i) = Some a \<and> map_option status (get d' i) = Some b"
  using hit by fastforce

lemma steps_chain:
  assumes "cas i a b d = Inr (r, d1)" and "cas i b c d1 = Inr (r', d2)"
  shows "map_option status (get d i) = Some a \<and> map_option status (get d2 i) = Some c"
  using moves_status [OF assms(1)] moves_status [OF assms(2)] by simp

lemma other_rows: "cas i a b d = Inr (r, d') \<Longrightarrow> j \<noteq> i \<Longrightarrow> map_option status (get d' j) = map_option status (get d j)"
  by (simp add: frame)

end

text \<open>
  \<open>now_tx\<close> is the identifier of the running transaction. It grows from one transaction to the next,
  so that no stored row has the identifier of a later transaction: \<open>fresh\<close>.
\<close>

locale version_guard =
  fixes get :: "'d \<Rightarrow> string \<Rightarrow> 'r option"
    and version :: "'r \<Rightarrow> nat"
    and now_tx :: "'d \<Rightarrow> nat"
    and key :: "'u \<Rightarrow> string"
    and upd :: "'u \<Rightarrow> nat \<Rightarrow> 'd \<Rightarrow> 'e + 'r \<times> 'd"
  assumes upd_hit: "upd u v d = Inr (r, d') \<Longrightarrow>
      (\<exists>r0. get d (key u) = Some r0 \<and> version r0 = v)
      \<and> get d' (key u) = Some r \<and> version r = now_tx d"
    and upd_stale: "get d (key u) = Some r0 \<Longrightarrow> version r0 \<noteq> v \<Longrightarrow> \<exists>e. upd u v d = Inl e"
begin

text \<open>
  No lost update: once an update with version \<open>v\<close> went through, any later update of the same
  row that was prepared from version \<open>v\<close> is refused, in whatever state \<open>e\<close> the row still is as the
  first update left it.
\<close>

lemma no_lost_update:
  assumes "upd u v d = Inr (r, d')" and "v < now_tx d"
    and "key u' = key u" and "get e (key u) = get d' (key u)"
  shows "\<exists>x. upd u' v e = Inl x"
  using upd_hit [OF assms(1)] assms(2-4) by (intro upd_stale [of e u' r]) auto

lemma needs_row: "get d (key u) = None \<Longrightarrow> upd u v d \<noteq> Inr p"
  using upd_hit [of u v d "fst p" "snd p"] by auto

end

end
