(* ===== verification/Repo_Load_Balancers.thy ===== *)
theory Repo_Load_Balancers
  imports Row_Contracts
begin

text \<open>
  The repository of load balancers (\<^verbatim>\<open>internal/repo/kacho/pg/load_balancer_repo.go\<close>): one
  definition per method, over the database of \<^verbatim>\<open>Schema\<close>. The text of an \<^verbatim>\<open>xmin\<close> is its
  number.
\<close>

subsection \<open>Reading\<close>

definition LB_Get :: "string \<Rightarrow> db \<Rightarrow> err + lb_row" where
  "LB_Get i d =
     (case tbl_get lb_id (d_lbs d) i of
        None \<Rightarrow> Inl (mapPgErr NoRows ''NetworkLoadBalancer'' i)
      | Some r \<Rightarrow> Inr r)"

definition LB_HasListeners :: "string \<Rightarrow> db \<Rightarrow> err + bool" where
  "LB_HasListeners i d = Inr (has_listener d i)"

definition LB_HasAttachedTargetGroups :: "string \<Rightarrow> db \<Rightarrow> err + bool" where
  "LB_HasAttachedTargetGroups i d = Inr (has_attached d i)"

subsection \<open>Writing\<close>

text \<open>The row of a new entity; \<^verbatim>\<open>created_at\<close> and \<^verbatim>\<open>updated_at\<close> default to \<^verbatim>\<open>now()\<close>.\<close>

definition new_lb_row :: "db \<Rightarrow> load_balancer \<Rightarrow> lb_row" where
  "new_lb_row d lb = load_balancer.extend lb
     (lb_row.fields (d_now d) (d_now d) (d_tx d))"

definition LB_Insert :: "load_balancer \<Rightarrow> lb_row tx" where
  "LB_Insert lb d =
     mapping_err (\<lambda>e. mapPgErr e ''NetworkLoadBalancer'' (lb_id lb))
       (attempt (insert_lb (new_lb_row d lb) d) (\<lambda>d'. Inr (new_lb_row d lb, d')))"

definition mapAttachVIPErr :: "err \<Rightarrow> err" where
  "mapAttachVIPErr e =
     (case e of
        PgError c n \<Rightarrow>
          if c = ''23505'' then
            Wrapped ErrFailedPrecondition ''could not assign address to load balancer''
          else if c = ''23514'' then
            Wrapped ErrInvalidArg ''load balancer violates address constraint''
          else mapPgErr e ''NetworkLoadBalancer'' ''''
      | _ \<Rightarrow> mapPgErr e ''NetworkLoadBalancer'' '''')"

text \<open>The columns of a family: address, identifier of the address, origin.\<close>

definition vip_of :: "string \<Rightarrow> 'a load_balancer_scheme \<Rightarrow> string \<times> string \<times> vip_origin" where
  "vip_of family r =
     (if family = IPVersionV6 then (lb_addr_v6 r, lb_addr_id_v6 r, lb_origin_v6 r)
      else (lb_addr_v4 r, lb_addr_id_v4 r, lb_origin_v4 r))"

definition set_vip ::
  "string \<Rightarrow> string \<Rightarrow> string \<Rightarrow> vip_origin \<Rightarrow> lb_row \<Rightarrow> lb_row" where
  "set_vip family address address_id origin r =
     (if family = IPVersionV6
      then r \<lparr> lb_addr_v6 := address, lb_addr_id_v6 := address_id, lb_origin_v6 := origin \<rparr>
      else r \<lparr> lb_addr_v4 := address, lb_addr_id_v4 := address_id, lb_origin_v4 := origin \<rparr>)"

definition vipColumnsForFamily :: "string \<Rightarrow> err + unit" where
  "vipColumnsForFamily family =
     (if family = IPVersionV4 \<or> family = IPVersionV6 then Inr ()
      else Inl (Wrapped ErrInvalidArg (''unsupported ip family '' @ family)))"

text \<open>An update and the row it returns.\<close>

definition update_lb_returning ::
  "(err \<Rightarrow> err) \<Rightarrow> string \<Rightarrow> (lb_row \<Rightarrow> lb_row) \<Rightarrow> lb_row tx" where
  "update_lb_returning me i f d =
     mapping_err me
       (attempt (update_lb i f d) (\<lambda>d'.
          case tbl_get lb_id (d_lbs d') i of None \<Rightarrow> Inl NoRows | Some r \<Rightarrow> Inr (r, d')))"

definition LB_AttachVIP ::
  "string \<Rightarrow> string \<Rightarrow> string \<Rightarrow> string \<Rightarrow> vip_origin \<Rightarrow> lb_row tx" where
  "LB_AttachVIP i family address address_id origin d =
     attempt (vipColumnsForFamily family) (\<lambda>_.
       case tbl_get lb_id (d_lbs d) i of
         Some r \<Rightarrow>
           if fst (vip_of family r) = '''' \<or> fst (vip_of family r) = address then
             update_lb_returning mapAttachVIPErr i
               (\<lambda>r. (set_vip family address address_id origin r) \<lparr> lb_updated := d_now d \<rparr>) d
           else Inl (Wrapped ErrFailedPrecondition
                  ''load balancer already has an address for this family'')
       | None \<Rightarrow> Inl (Wrapped ErrFailedPrecondition
                  ''load balancer already has an address for this family''))"

definition modified_concurrently :: "string \<Rightarrow> string \<Rightarrow> err" where
  "modified_concurrently kind i =
     Wrapped ErrFailedPrecondition (kind @ '' '' @ i @ '' was modified concurrently'')"

definition LB_Update :: "load_balancer \<Rightarrow> nat \<Rightarrow> lb_row tx" where
  "LB_Update lb expected d =
     (case tbl_get lb_id (d_lbs d) (lb_id lb) of
        None \<Rightarrow> Inl (modified_concurrently ''NetworkLoadBalancer'' (lb_id lb))
      | Some r \<Rightarrow>
          if lb_xmin r \<noteq> expected
          then Inl (modified_concurrently ''NetworkLoadBalancer'' (lb_id lb))
          else update_lb_returning (\<lambda>e. mapPgErr e ''NetworkLoadBalancer'' (lb_id lb)) (lb_id lb)
                 (\<lambda>r. r \<lparr> lb_name := lb_name lb, lb_description := lb_description lb,
                          lb_labels := lb_labels lb, lb_affinity := lb_affinity lb,
                          lb_protection := lb_protection lb,
                          lb_disabled_zones := lb_disabled_zones lb,
                          lb_updated := d_now d \<rparr>) d)"

definition LB_SetStatusCAS :: "string \<Rightarrow> lb_status \<Rightarrow> lb_status \<Rightarrow> lb_row tx" where
  "LB_SetStatusCAS i expected new d =
     (let miss = Wrapped ErrFailedPrecondition
                   (''LoadBalancer '' @ i @ '' status is not '' @ lb_status_string expected) in
      case tbl_get lb_id (d_lbs d) i of
        None \<Rightarrow> Inl miss
      | Some r \<Rightarrow>
          if lb_status r \<noteq> expected then Inl miss
          else update_lb_returning (\<lambda>e. mapPgErr e ''NetworkLoadBalancer'' i) i
                 (\<lambda>r. r \<lparr> lb_status := new, lb_updated := d_now d \<rparr>) d)"

definition lb_not_found :: "string \<Rightarrow> err" where
  "lb_not_found i = Wrapped ErrNotFound (''NetworkLoadBalancer '' @ i @ '' not found'')"

definition lb_protected :: "string \<Rightarrow> err" where
  "lb_protected i = Wrapped ErrFailedPrecondition
     (''NetworkLoadBalancer '' @ i @ '' has deletion protection enabled'')"

definition markDeletingBlockReason :: "string \<Rightarrow> db \<Rightarrow> err" where
  "markDeletingBlockReason i d =
     (case tbl_get lb_id (d_lbs d) i of
        None \<Rightarrow> lb_not_found i
      | Some r \<Rightarrow>
          if lb_protection r then lb_protected i
          else if has_listener d i then Wrapped ErrFailedPrecondition
                 (''NetworkLoadBalancer '' @ i @ '' has listener(s); delete first'')
          else if has_attached d i then Wrapped ErrFailedPrecondition
                 (''NetworkLoadBalancer '' @ i @ '' has attached target group(s); detach first'')
          else Wrapped ErrFailedPrecondition
                 (''NetworkLoadBalancer '' @ i @ '' could not be marked for deletion''))"

text \<open>The lock of the row is implicit: a transaction of the model runs alone.\<close>

definition LB_MarkDeleting :: "string \<Rightarrow> lb_row tx" where
  "LB_MarkDeleting i d =
     (case tbl_get lb_id (d_lbs d) i of
        None \<Rightarrow> Inl (lb_not_found i)
      | Some r \<Rightarrow>
          if \<not> lb_protection r \<and> \<not> has_listener d i \<and> \<not> has_attached d i then
            update_lb_returning (\<lambda>e. mapPgErr e ''NetworkLoadBalancer'' i) i
              (\<lambda>r. r \<lparr> lb_status := LBStatusDeleting, lb_updated := d_now d \<rparr>) d
          else Inl (markDeletingBlockReason i d))"

text \<open>The project of the load balancer, and of its listeners (which mirror it).\<close>

definition LB_MoveProject :: "string \<Rightarrow> string \<Rightarrow> lb_row tx" where
  "LB_MoveProject i project d =
     (case tbl_get lb_id (d_lbs d) i of
        None \<Rightarrow> Inl (lb_not_found i)
      | Some r \<Rightarrow>
          if has_attached d i then Inl (Wrapped ErrFailedPrecondition
               (''NetworkLoadBalancer '' @ i @ '' has attached target group(s); detach before Move''))
          else attempt (update_lb_returning (\<lambda>e. mapPgErr e ''NetworkLoadBalancer'' i) i
                 (\<lambda>r. r \<lparr> lb_project := project, lb_updated := d_now d \<rparr>) d)
               (\<lambda>(rec, d'). Inr (rec, d' \<lparr> d_listeners := map (\<lambda>l. if ls_lb l = i
                   then l \<lparr> ls_project := project, ls_updated := d_now d, ls_xmin := d_tx d \<rparr> else l)
                   (d_listeners d') \<rparr>)))"

definition LB_Delete :: "string \<Rightarrow> unit tx" where
  "LB_Delete i d =
     (case tbl_get lb_id (d_lbs d) i of
        None \<Rightarrow> Inl (lb_not_found i)
      | Some r \<Rightarrow> mapping_err (\<lambda>e. mapPgErr e ''NetworkLoadBalancer'' i)
                    (attempt (delete_lb i d) (\<lambda>d'. Inr ((), d'))))"

definition LB_DeleteIfUnprotected :: "string \<Rightarrow> unit tx" where
  "LB_DeleteIfUnprotected i d =
     (case tbl_get lb_id (d_lbs d) i of
        None \<Rightarrow> Inl (lb_not_found i)
      | Some r \<Rightarrow>
          if lb_protection r then Inl (lb_protected i)
          else mapping_err (\<lambda>e. mapPgErr e ''NetworkLoadBalancer'' i)
                 (attempt (delete_lb i d) (\<lambda>d'. Inr ((), d'))))"

subsection \<open>Facts\<close>

lemma set_vip_simps [simp]:
  "lb_id (set_vip fam a ai o1 r) = lb_id r" "lb_status (set_vip fam a ai o1 r) = lb_status r"
  "lb_region (set_vip fam a ai o1 r) = lb_region r" "lb_project (set_vip fam a ai o1 r) = lb_project r"
  "lb_protection (set_vip fam a ai o1 r) = lb_protection r"
  "vip_of fam (set_vip fam a ai o1 r) = (a, ai, o1)"
  by (simp_all add: set_vip_def vip_of_def)

lemma vip_of_update [simp]:
  "vip_of fam (r \<lparr> lb_updated := t \<rparr>) = vip_of fam r" "vip_of fam (r \<lparr> lb_xmin := n \<rparr>) = vip_of fam r"
  "vip_of fam (r \<lparr> lb_status := s \<rparr>) = vip_of fam r"
  by (simp_all add: vip_of_def)

lemma LB_Get_Inr: "LB_Get i d = Inr r \<longleftrightarrow> tbl_get lb_id (d_lbs d) i = Some r"
  by (auto simp: LB_Get_def split: option.splits)

lemma get_upd_lb:
  "(\<And>r. lb_id (f r) = lb_id r) \<Longrightarrow>
   tbl_get lb_id (tbl_upd lb_id i f t) j =
     (if j = i then map_option f (tbl_get lb_id t i) else tbl_get lb_id t j)"
  by (simp add: tbl_get_upd)

text \<open>What a successful update of a present row does.\<close>

lemma update_lb_returning_Inr:
  assumes "update_lb_returning me i f d = Inr (r', d')" and "tbl_get lb_id (d_lbs d) i = Some r"
    and "\<And>r. lb_id (f r) = lb_id r"
  shows "r' = (f r) \<lparr> lb_xmin := d_tx d \<rparr>"
    and "d' = d \<lparr> d_lbs := tbl_upd lb_id i (\<lambda>r. (f r) \<lparr> lb_xmin := d_tx d \<rparr>) (d_lbs d) \<rparr>"
  using assms by (auto simp: update_lb_returning_def update_lb_def Let_def tbl_get_upd
      split: option.splits)

lemma update_lb_returning_checks:
  assumes "update_lb_returning me i f d = Inr (r', d')" and "tbl_get lb_id (d_lbs d) i = Some r"
  shows "\<forall>(n, ok) \<in> set (lb_checks ((f r) \<lparr> lb_xmin := d_tx d \<rparr>)). ok"
    and "\<forall>(n, ok) \<in> set (lb_uniques (tbl_del lb_id i (d_lbs d)) ((f r) \<lparr> lb_xmin := d_tx d \<rparr>)). ok"
  using assms by (auto simp: update_lb_returning_def update_lb_def Let_def)

text \<open>The effect of each writer of an existing row, in one form.\<close>

definition lb_written :: "string \<Rightarrow> (lb_row \<Rightarrow> lb_row) \<Rightarrow> db \<Rightarrow> lb_row \<Rightarrow> db \<Rightarrow> bool" where
  "lb_written i f d r' d' \<longleftrightarrow>
     (\<exists>r. tbl_get lb_id (d_lbs d) i = Some r \<and> r' = f r)
     \<and> d' = d \<lparr> d_lbs := tbl_upd lb_id i f (d_lbs d) \<rparr>"

lemma lb_written_get:
  assumes "lb_written i f d r' d'" and "\<And>r. lb_id (f r) = lb_id r"
  shows "tbl_get lb_id (d_lbs d') i = Some r'"
    and "j \<noteq> i \<Longrightarrow> tbl_get lb_id (d_lbs d') j = tbl_get lb_id (d_lbs d) j"
  using assms by (auto simp: lb_written_def tbl_get_upd)

lemma LB_SetStatusCAS_Inr:
  assumes "LB_SetStatusCAS i a b d = Inr (r', d')"
  shows "lb_written i (\<lambda>r. r \<lparr> lb_status := b, lb_updated := d_now d, lb_xmin := d_tx d \<rparr>) d r' d'
    \<and> map_option lb_status (tbl_get lb_id (d_lbs d) i) = Some a"
proof -
  obtain r where r: "tbl_get lb_id (d_lbs d) i = Some r" "lb_status r = a"
    and u: "update_lb_returning (\<lambda>e. mapPgErr e ''NetworkLoadBalancer'' i) i
      (\<lambda>r. r \<lparr> lb_status := b, lb_updated := d_now d \<rparr>) d = Inr (r', d')"
    using assms by (auto simp: LB_SetStatusCAS_def Let_def split: option.splits if_splits)
  show ?thesis
    using update_lb_returning_Inr [OF u r(1)] r by (simp add: lb_written_def)
qed

lemma LB_AttachVIP_Inr:
  assumes "LB_AttachVIP i fam a ai o1 d = Inr (r', d')"
  shows "lb_written i (\<lambda>r. (set_vip fam a ai o1 r) \<lparr> lb_updated := d_now d, lb_xmin := d_tx d \<rparr>) d r' d'
    \<and> (fam = IPVersionV4 \<or> fam = IPVersionV6)
    \<and> (\<exists>r. tbl_get lb_id (d_lbs d) i = Some r \<and> fst (vip_of fam r) \<in> {'''', a})"
proof -
  obtain r where r: "tbl_get lb_id (d_lbs d) i = Some r" "fst (vip_of fam r) \<in> {'''', a}"
    "fam = IPVersionV4 \<or> fam = IPVersionV6"
    and u: "update_lb_returning mapAttachVIPErr i
      (\<lambda>r. (set_vip fam a ai o1 r) \<lparr> lb_updated := d_now d \<rparr>) d = Inr (r', d')"
    using assms by (auto simp: LB_AttachVIP_def vipColumnsForFamily_def split: option.splits if_splits)
  show ?thesis
    using update_lb_returning_Inr [OF u r(1)] r by (simp add: lb_written_def)
qed

lemma LB_MarkDeleting_Inr:
  assumes "LB_MarkDeleting i d = Inr (r', d')"
  shows "lb_written i
      (\<lambda>r. r \<lparr> lb_status := LBStatusDeleting, lb_updated := d_now d, lb_xmin := d_tx d \<rparr>) d r' d'
    \<and> \<not> lb_protection r' \<and> \<not> has_listener d i \<and> \<not> has_attached d i"
proof -
  obtain r where r: "tbl_get lb_id (d_lbs d) i = Some r" "\<not> lb_protection r" "\<not> has_listener d i"
    "\<not> has_attached d i"
    and u: "update_lb_returning (\<lambda>e. mapPgErr e ''NetworkLoadBalancer'' i) i
      (\<lambda>r. r \<lparr> lb_status := LBStatusDeleting, lb_updated := d_now d \<rparr>) d = Inr (r', d')"
    using assms by (auto simp: LB_MarkDeleting_def split: option.splits if_splits)
  show ?thesis
    using update_lb_returning_Inr [OF u r(1)] r by (simp add: lb_written_def)
qed

lemma LB_Update_Inr:
  assumes "LB_Update lb v d = Inr (r', d')"
  shows "lb_written (lb_id lb) (\<lambda>r. r \<lparr> lb_name := lb_name lb, lb_description := lb_description lb,
       lb_labels := lb_labels lb, lb_affinity := lb_affinity lb, lb_protection := lb_protection lb,
       lb_disabled_zones := lb_disabled_zones lb, lb_updated := d_now d, lb_xmin := d_tx d \<rparr>) d r' d'
    \<and> map_option lb_xmin (tbl_get lb_id (d_lbs d) (lb_id lb)) = Some v"
proof -
  let ?f = "\<lambda>r. r \<lparr> lb_name := lb_name lb, lb_description := lb_description lb,
       lb_labels := lb_labels lb, lb_affinity := lb_affinity lb, lb_protection := lb_protection lb,
       lb_disabled_zones := lb_disabled_zones lb, lb_updated := d_now d \<rparr>"
  obtain r where r: "tbl_get lb_id (d_lbs d) (lb_id lb) = Some r" "lb_xmin r = v"
    and u: "update_lb_returning (\<lambda>e. mapPgErr e ''NetworkLoadBalancer'' (lb_id lb)) (lb_id lb) ?f d
      = Inr (r', d')"
    using assms by (auto simp: LB_Update_def split: option.splits if_splits)
  show ?thesis
    using update_lb_returning_Inr [OF u r(1)] r by (simp add: lb_written_def)
qed

interpretation lb_cas: status_cas "\<lambda>d :: db. tbl_get lb_id (d_lbs d)" lb_status LB_SetStatusCAS
proof
  fix i a b r and d d' :: db
  assume h: "LB_SetStatusCAS i a b d = Inr (r, d')"
  show "(\<exists>r0. tbl_get lb_id (d_lbs d) i = Some r0 \<and> lb_status r0 = a)
      \<and> tbl_get lb_id (d_lbs d') i = Some r \<and> lb_status r = b"
    using LB_SetStatusCAS_Inr [OF h] lb_written_get(1) [of i _ d r d'] by (auto simp: lb_written_def)
  show "j \<noteq> i \<Longrightarrow> tbl_get lb_id (d_lbs d') j = tbl_get lb_id (d_lbs d) j" for j
    using LB_SetStatusCAS_Inr [OF h] lb_written_get(2) [of i _ d r d'] by auto
next
  fix i a b and d :: db
  assume "\<forall>r. tbl_get lb_id (d_lbs d) i = Some r \<longrightarrow> lb_status r \<noteq> a"
  then show "\<exists>e. LB_SetStatusCAS i a b d = Inl e"
    by (auto simp: LB_SetStatusCAS_def Let_def split: option.splits)
qed

interpretation lb_occ: version_guard "\<lambda>d :: db. tbl_get lb_id (d_lbs d)" lb_xmin d_tx
  "lb_id :: load_balancer \<Rightarrow> string" LB_Update
proof
  fix u :: load_balancer and v r and d d' :: db
  assume h: "LB_Update u v d = Inr (r, d')"
  show "(\<exists>r0. tbl_get lb_id (d_lbs d) (lb_id u) = Some r0 \<and> lb_xmin r0 = v)
      \<and> tbl_get lb_id (d_lbs d') (lb_id u) = Some r \<and> lb_xmin r = d_tx d"
    using LB_Update_Inr [OF h] lb_written_get(1) [of "lb_id u" _ d r d'] by (auto simp: lb_written_def)
next
  fix d :: db and u :: load_balancer and r0 v
  assume "tbl_get lb_id (d_lbs d) (lb_id u) = Some r0" and "lb_xmin r0 \<noteq> v"
  then show "\<exists>e. LB_Update u v d = Inl e" by (auto simp: LB_Update_def)
qed

subsection \<open>Properties\<close>

text \<open>A concrete load balancer and database for the witnesses.\<close>

definition sample_lb :: load_balancer where
  "sample_lb = (NewLoadBalancer ''nlb1'' ''p1'' ''r1'' ''web'' '''' [] LBTypeInternal)
     \<lparr> lb_placement := PlacementRegional, lb_families := [''IPV4''] \<rparr>"

definition sample_db :: db where
  "sample_db = (case LB_Insert sample_lb (empty_db \<lparr> d_tx := 1 \<rparr>) of Inr (r, d) \<Rightarrow> d \<lparr> d_tx := 2 \<rparr> | Inl e \<Rightarrow> empty_db)"

lemma sample_db_eval:
  "sample_db = empty_db \<lparr> d_tx := 2, d_lbs := [new_lb_row (empty_db \<lparr> d_tx := 1 \<rparr>) sample_lb] \<rparr>"
  by code_simp

text \<open>Of two compare-and-swaps from the same status of a load balancer only the first goes
  through; it moves exactly that row from the expected to the new status.\<close>

theorem lb_status_single_winner:
  assumes "LB_SetStatusCAS i a b d = Inr (r, d')" and "b \<noteq> a"
  shows "map_option lb_status (tbl_get lb_id (d_lbs d) i) = Some a
    \<and> map_option lb_status (tbl_get lb_id (d_lbs d') i) = Some b
    \<and> (\<forall>j. j \<noteq> i \<longrightarrow> tbl_get lb_id (d_lbs d') j = tbl_get lb_id (d_lbs d) j)
    \<and> (\<exists>e. LB_SetStatusCAS i a c d' = Inl e)"
  using lb_cas.moves_status [OF assms(1)] lb_cas.frame [OF assms(1)]
    lb_cas.single_winner [OF assms] by blast

theorem lb_status_single_winner_witness:
  "\<exists>r d'. LB_SetStatusCAS ''nlb1'' LBStatusCreating LBStatusInactive sample_db = Inr (r, d')
     \<and> (\<exists>e. LB_SetStatusCAS ''nlb1'' LBStatusCreating LBStatusDeleting d' = Inl e)"
proof -
  have "is_ok (LB_SetStatusCAS ''nlb1'' LBStatusCreating LBStatusInactive sample_db)"
    unfolding sample_db_eval by code_simp
  then show ?thesis
    using lb_status_single_winner [where c = LBStatusDeleting and b = LBStatusInactive] by (auto simp: is_ok_iff)
qed

text \<open>C34: a full-row update prepared from an old version of a load balancer never overwrites a newer
  one: after an update committed by transaction \<open>d_tx d\<close>, a second update prepared from the same
  version is refused in every later state in which the row is still as the first one left it.\<close>

theorem lb_no_lost_update:
  assumes "LB_Update u v d = Inr (r, d')" and "v < d_tx d"
    and "lb_id u' = lb_id u" and "tbl_get lb_id (d_lbs e) (lb_id u) = tbl_get lb_id (d_lbs d') (lb_id u)"
  shows "\<exists>x. LB_Update u' v e = Inl x"
  using lb_occ.no_lost_update [OF assms] .

theorem lb_no_lost_update_witness:
  "\<exists>r d'. LB_Update (sample_lb \<lparr> lb_protection := True \<rparr>) 1 sample_db = Inr (r, d')
     \<and> (\<exists>x. LB_Update (sample_lb \<lparr> lb_description := ''x'' \<rparr>) 1 d' = Inl x)"
proof -
  have "is_ok (LB_Update (sample_lb \<lparr> lb_protection := True \<rparr>) 1 sample_db)"
    unfolding sample_db_eval by code_simp
  moreover have "1 < d_tx sample_db" unfolding sample_db_eval by simp
  ultimately show ?thesis
    using lb_no_lost_update [of "sample_lb \<lparr> lb_protection := True \<rparr>" 1 sample_db _ _
        "sample_lb \<lparr> lb_description := ''x'' \<rparr>"]
    by (fastforce simp: is_ok_iff)
qed

definition other_family :: "string \<Rightarrow> string" where
  "other_family fam = (if fam = IPVersionV6 then IPVersionV4 else IPVersionV6)"

lemma vip_of_other: "vip_of (other_family fam) (set_vip fam a ai o1 r) = vip_of (other_family fam) r"
  by (simp add: vip_of_def set_vip_def other_family_def IPVersionV4_def IPVersionV6_def)

lemma AttachVIP_region_unique:
  assumes "LB_AttachVIP i fam a ai o1 d = Inr (r', d')" and "a \<noteq> ''''"
    and "s \<in> set (d_lbs d')" and "lb_id s \<noteq> i" and "lb_region s = lb_region r'"
  shows "fst (vip_of fam s) \<noteq> a"
proof -
  obtain r where r: "tbl_get lb_id (d_lbs d) i = Some r" "fam = IPVersionV4 \<or> fam = IPVersionV6"
    and u: "update_lb_returning mapAttachVIPErr i
      (\<lambda>r. (set_vip fam a ai o1 r) \<lparr> lb_updated := d_now d \<rparr>) d = Inr (r', d')"
    using assms(1) by (auto simp: LB_AttachVIP_def vipColumnsForFamily_def split: option.splits if_splits)
  have w: "lb_written i (\<lambda>r. (set_vip fam a ai o1 r) \<lparr> lb_updated := d_now d, lb_xmin := d_tx d \<rparr>) d r' d'"
    using LB_AttachVIP_Inr [OF assms(1)] by blast
  have s: "s \<in> set (tbl_del lb_id i (d_lbs d))"
    using w assms(3,4) by (auto simp: lb_written_def set_tbl_upd split: if_splits)
  have r': "r' = (set_vip fam a ai o1 r) \<lparr> lb_updated := d_now d, lb_xmin := d_tx d \<rparr>"
    using w r by (auto simp: lb_written_def)
  show ?thesis
    using update_lb_returning_checks(2) [OF u r(1)] s r(2) assms(2,5) r'
    by (auto simp: lb_uniques_def vip_of_def set_vip_def IPVersionV4_def IPVersionV6_def)
qed

text \<open>C33: attaching a VIP writes exactly the three columns of its family (the other family keeps its
  VIP), only over an empty column or the same address, and leaves no two load balancers of a
  region with the same address; afterwards any other address is refused for the family.\<close>

theorem AttachVIP_contract:
  assumes "LB_AttachVIP i fam a ai o1 d = Inr (r', d')" and "a \<noteq> ''''"
  shows "vip_of fam r' = (a, ai, o1)
    \<and> tbl_get lb_id (d_lbs d') i = Some r'
    \<and> (\<exists>r. tbl_get lb_id (d_lbs d) i = Some r \<and> fst (vip_of fam r) \<in> {'''', a}
          \<and> vip_of (other_family fam) r' = vip_of (other_family fam) r)
    \<and> (\<forall>s \<in> set (d_lbs d'). lb_id s \<noteq> i \<and> lb_region s = lb_region r' \<longrightarrow> fst (vip_of fam s) \<noteq> a)
    \<and> (\<forall>a' ai' o2. a' \<noteq> a \<longrightarrow> (\<exists>m. LB_AttachVIP i fam a' ai' o2 d' = Inl (Wrapped ErrFailedPrecondition m)))"
proof -
  let ?f = "\<lambda>r. (set_vip fam a ai o1 r) \<lparr> lb_updated := d_now d, lb_xmin := d_tx d \<rparr>"
  have w: "lb_written i ?f d r' d'" and fam: "fam = IPVersionV4 \<or> fam = IPVersionV6"
    and old: "\<exists>r. tbl_get lb_id (d_lbs d) i = Some r \<and> fst (vip_of fam r) \<in> {'''', a}"
    using LB_AttachVIP_Inr [OF assms(1)] by blast+
  have get: "tbl_get lb_id (d_lbs d') i = Some r'" by (rule lb_written_get(1) [OF w]) simp
  have vip: "vip_of fam r' = (a, ai, o1)" using w by (auto simp: lb_written_def)
  have "\<exists>r. tbl_get lb_id (d_lbs d) i = Some r \<and> fst (vip_of fam r) \<in> {'''', a}
          \<and> vip_of (other_family fam) r' = vip_of (other_family fam) r"
    using old w by (auto simp: lb_written_def vip_of_other)
  moreover have "\<exists>m. LB_AttachVIP i fam a' ai' o2 d' = Inl (Wrapped ErrFailedPrecondition m)"
    if "a' \<noteq> a" for a' ai' o2
    using that get vip fam assms(2) by (auto simp: LB_AttachVIP_def vipColumnsForFamily_def)
  ultimately show ?thesis
    using get vip AttachVIP_region_unique [OF assms] by blast
qed

theorem AttachVIP_contract_witness:
  "\<exists>r d'. LB_AttachVIP ''nlb1'' ''IPV4'' ''10.0.0.1'' ''adr1'' VipOriginAuto sample_db = Inr (r, d')
     \<and> vip_of ''IPV4'' r = (''10.0.0.1'', ''adr1'', VipOriginAuto)"
proof -
  have "is_ok (LB_AttachVIP ''nlb1'' ''IPV4'' ''10.0.0.1'' ''adr1'' VipOriginAuto sample_db)"
    unfolding sample_db_eval by code_simp
  then show ?thesis
    using AttachVIP_contract [of "''nlb1''" "''IPV4''" "''10.0.0.1''" "''adr1''" VipOriginAuto sample_db]
    by (auto simp: is_ok_iff)
qed

text \<open>Attaching the same VIP again changes nothing but is accepted.\<close>

lemma lb_row_touch:
  "lb_checks (r \<lparr> lb_updated := t, lb_xmin := n \<rparr>) = lb_checks r"
  "lb_uniques u (r \<lparr> lb_updated := t, lb_xmin := n \<rparr>) = lb_uniques u r"
  by (simp_all add: lb_checks_def lb_uniques_def)

lemma set_vip_twice [simp]:
  "set_vip fam a ai o1 ((set_vip fam a ai o1 r) \<lparr> lb_updated := t, lb_xmin := n \<rparr>) =
   (set_vip fam a ai o1 r) \<lparr> lb_updated := t, lb_xmin := n \<rparr>"
  by (simp add: set_vip_def)

lemma tbl_del_upd [simp]: "tbl_del lb_id i (tbl_upd lb_id i f t) = tbl_del lb_id i t"
  if "\<And>r. lb_id (f r) = lb_id r"
  using that by (induction t) (auto simp: tbl_del_def tbl_upd_def)

text \<open>The retry of a VIP attachment in the same state is accepted and gives the same row.\<close>

theorem AttachVIP_retry:
  assumes "LB_AttachVIP i fam a ai o1 d = Inr (r', d')"
  shows "\<exists>d''. LB_AttachVIP i fam a ai o1 d' = Inr (r', d'')
    \<and> tbl_get lb_id (d_lbs d'') = tbl_get lb_id (d_lbs d')"
proof -
  let ?f = "\<lambda>r. (set_vip fam a ai o1 r) \<lparr> lb_updated := d_now d, lb_xmin := d_tx d \<rparr>"
  have w: "lb_written i ?f d r' d'" and fam: "fam = IPVersionV4 \<or> fam = IPVersionV6"
    using LB_AttachVIP_Inr [OF assms] by blast+
  obtain r where r: "tbl_get lb_id (d_lbs d) i = Some r" and r': "r' = ?f r"
    and d': "d' = d \<lparr> d_lbs := tbl_upd lb_id i ?f (d_lbs d) \<rparr>"
    using w by (auto simp: lb_written_def)
  have get: "tbl_get lb_id (d_lbs d') i = Some r'" by (rule lb_written_get(1) [OF w]) simp
  have u: "update_lb_returning mapAttachVIPErr i
      (\<lambda>r. (set_vip fam a ai o1 r) \<lparr> lb_updated := d_now d \<rparr>) d = Inr (r', d')"
    using assms r fam by (auto simp: LB_AttachVIP_def vipColumnsForFamily_def split: if_splits)
  have chk: "\<forall>(n, ok) \<in> set (lb_checks r'). ok" "\<forall>(n, ok) \<in> set (lb_uniques (tbl_del lb_id i (d_lbs d)) r'). ok"
    using update_lb_returning_checks [OF u r] r' by (simp_all add: lb_row_touch)
  have nd: "d_now d' = d_now d" "d_tx d' = d_tx d"
    "tbl_del lb_id i (d_lbs d') = tbl_del lb_id i (d_lbs d)"
    using d' by simp_all
  have "?f r' = r'" using r' by simp
  then have "update_lb_returning mapAttachVIPErr i
      (\<lambda>r. (set_vip fam a ai o1 r) \<lparr> lb_updated := d_now d' \<rparr>) d' =
      Inr (r', d' \<lparr> d_lbs := tbl_upd lb_id i ?f (d_lbs d') \<rparr>)"
    using get chk unfolding update_lb_returning_def update_lb_def Let_def nd
    by (simp add: tbl_get_upd)
  moreover have "fst (vip_of fam r') = a" using r' by simp
  ultimately have "LB_AttachVIP i fam a ai o1 d' =
      Inr (r', d' \<lparr> d_lbs := tbl_upd lb_id i ?f (d_lbs d') \<rparr>)"
    using get fam by (auto simp: LB_AttachVIP_def vipColumnsForFamily_def)
  then show ?thesis using get \<open>?f r' = r'\<close> by (auto simp: tbl_get_upd fun_eq_iff)
qed

theorem AttachVIP_retry_witness:
  "\<exists>r d' d''. LB_AttachVIP ''nlb1'' ''IPV4'' ''10.0.0.1'' ''adr1'' VipOriginAuto sample_db = Inr (r, d')
     \<and> LB_AttachVIP ''nlb1'' ''IPV4'' ''10.0.0.1'' ''adr1'' VipOriginAuto d' = Inr (r, d'')"
proof -
  have "is_ok (LB_AttachVIP ''nlb1'' ''IPV4'' ''10.0.0.1'' ''adr1'' VipOriginAuto sample_db)"
    unfolding sample_db_eval by code_simp
  then show ?thesis using AttachVIP_retry by (fastforce simp: is_ok_iff)
qed

end
