(* ===== verification/Repo_Listeners.thy ===== *)
theory Repo_Listeners
  imports Repo_Load_Balancers
begin

text \<open>
  The repository of listeners (\<^verbatim>\<open>repo/kacho/pg/listener_repo.go\<close>) and of the pivot between load
  balancers and target groups (\<^verbatim>\<open>attached_tg_repo.go\<close>). An insert of a listener takes the
  project and the region from the parent's row; an attachment re-checks both in the statement.
\<close>

subsection \<open>Listeners\<close>

definition Listener_Get :: "string \<Rightarrow> db \<Rightarrow> err + listener_row" where
  "Listener_Get i d =
     (case tbl_get ls_id (d_listeners d) i of
        None \<Rightarrow> Inl (mapPgErr NoRows ''Listener'' i)
      | Some r \<Rightarrow> Inr r)"

text \<open>\<^verbatim>\<open>OptString\<close> followed by \<^verbatim>\<open>OptFromStr\<close>: an empty text is no value.\<close>

definition opt_text :: "string option \<Rightarrow> string option" where
  "opt_text o1 = (if o1 = Some '''' then None else o1)"

definition new_listener_row :: "db \<Rightarrow> 'a load_balancer_scheme \<Rightarrow> listener \<Rightarrow> listener_row" where
  "new_listener_row d lb l =
     listener.extend
       (l \<lparr> ls_lb := lb_id lb, ls_project := lb_project lb, ls_region := lb_region lb,
            ls_address_id := opt_text (ls_address_id l), ls_subnet := opt_text (ls_subnet l),
            ls_default_tg := opt_text (ls_default_tg l),
            ls_origin := (if ls_origin l = VipOriginUnset then VipOriginAuto else ls_origin l) \<rparr>)
       (listener_row.fields (d_now d) (d_now d) (d_tx d))"

definition Listener_Insert :: "listener \<Rightarrow> listener_row tx" where
  "Listener_Insert l d =
     (let gone = Wrapped ErrFailedPrecondition
                   (''parent load balancer '' @ ls_lb l @ '' not found (concurrently deleted)'') in
      case tbl_get lb_id (d_lbs d) (ls_lb l) of
        None \<Rightarrow> Inl gone
      | Some lb \<Rightarrow>
          if lb_status lb = LBStatusDeleting then Inl gone
          else mapping_err (\<lambda>e. mapPgErr e ''Listener'' (ls_id l))
                 (attempt (insert_listener (new_listener_row d lb l) d)
                   (\<lambda>d'. Inr (new_listener_row d lb l, d'))))"

definition update_listener_returning ::
  "(err \<Rightarrow> err) \<Rightarrow> string \<Rightarrow> (listener_row \<Rightarrow> listener_row) \<Rightarrow> listener_row tx" where
  "update_listener_returning me i f d =
     mapping_err me
       (attempt (update_listener i f d) (\<lambda>d'.
          case tbl_get ls_id (d_listeners d') i of None \<Rightarrow> Inl NoRows | Some r \<Rightarrow> Inr (r, d')))"

definition Listener_Update :: "listener \<Rightarrow> nat \<Rightarrow> listener_row tx" where
  "Listener_Update l expected d =
     (case tbl_get ls_id (d_listeners d) (ls_id l) of
        None \<Rightarrow> Inl (modified_concurrently ''Listener'' (ls_id l))
      | Some r \<Rightarrow>
          if ls_xmin r \<noteq> expected then Inl (modified_concurrently ''Listener'' (ls_id l))
          else update_listener_returning (\<lambda>e. mapPgErr e ''Listener'' (ls_id l)) (ls_id l)
                 (\<lambda>r. r \<lparr> ls_name := ls_name l, ls_description := ls_description l,
                          ls_labels := ls_labels l, ls_proxy_v2 := ls_proxy_v2 l,
                          ls_default_tg := opt_text (ls_default_tg l),
                          ls_updated := d_now d \<rparr>) d)"

definition Listener_SetStatusCAS ::
  "string \<Rightarrow> listener_status \<Rightarrow> listener_status \<Rightarrow> listener_row tx" where
  "Listener_SetStatusCAS i expected new d =
     (let miss = Wrapped ErrFailedPrecondition
                   (''Listener '' @ i @ '' status is not '' @ listener_status_string expected) in
      case tbl_get ls_id (d_listeners d) i of
        None \<Rightarrow> Inl miss
      | Some r \<Rightarrow>
          if ls_status r \<noteq> expected then Inl miss
          else update_listener_returning (\<lambda>e. mapPgErr e ''Listener'' i) i
                 (\<lambda>r. r \<lparr> ls_status := new, ls_updated := d_now d \<rparr>) d)"

definition Listener_SetAllocatedAddress :: "string \<Rightarrow> string \<Rightarrow> listener_row tx" where
  "Listener_SetAllocatedAddress i address d =
     update_listener_returning (\<lambda>e. mapPgErr e ''Listener'' i) i
       (\<lambda>r. r \<lparr> ls_allocated := address, ls_updated := d_now d \<rparr>) d"

definition Listener_SetVIP :: "string \<Rightarrow> string \<Rightarrow> string \<Rightarrow> listener_row tx" where
  "Listener_SetVIP i address_id allocated d =
     update_listener_returning (\<lambda>e. mapPgErr e ''Listener'' i) i
       (\<lambda>r. r \<lparr> ls_address_id := opt_text (Some address_id), ls_allocated := allocated,
                ls_updated := d_now d \<rparr>) d"

definition Listener_MoveProject :: "string \<Rightarrow> string \<Rightarrow> nat tx" where
  "Listener_MoveProject lb project d =
     Inr (length (filter (\<lambda>l. ls_lb l = lb) (d_listeners d)),
          d \<lparr> d_listeners := map (\<lambda>l. if ls_lb l = lb
                then l \<lparr> ls_project := project, ls_updated := d_now d, ls_xmin := d_tx d \<rparr> else l)
              (d_listeners d) \<rparr>)"

definition Listener_Delete :: "string \<Rightarrow> unit tx" where
  "Listener_Delete i d =
     (case tbl_get ls_id (d_listeners d) i of
        None \<Rightarrow> Inl (Wrapped ErrNotFound (''Listener '' @ i @ '' not found''))
      | Some r \<Rightarrow> Inr ((), delete_listener i d))"

subsection \<open>Attachments\<close>

definition Attached_Get :: "string \<Rightarrow> string \<Rightarrow> db \<Rightarrow> err + attached_row" where
  "Attached_Get lb g d =
     (case tbl_get at_key (d_attached d) (lb, g) of
        None \<Rightarrow> Inl (mapPgErr NoRows ''AttachedTargetGroup'' (lb @ ''/'' @ g))
      | Some a \<Rightarrow> Inr a)"

text \<open>\<^verbatim>\<open>ORDER BY attached_at ASC, target_group_id ASC\<close>.\<close>

definition attached_before :: "attached_row \<Rightarrow> attached_row \<Rightarrow> bool" where
  "attached_before a b \<longleftrightarrow>
     at_since a < at_since b \<or> at_since a = at_since b \<and> \<not> string_less (at_tg b) (at_tg a)"

definition Attached_ListByLB :: "string \<Rightarrow> db \<Rightarrow> err + attached_row list" where
  "Attached_ListByLB lb d =
     Inr (isort attached_before (filter (\<lambda>a. at_lb a = lb) (d_attached d)))"

definition Attached_ListByTG :: "string \<Rightarrow> db \<Rightarrow> err + attached_row list" where
  "Attached_ListByTG g d =
     Inr (isort (\<lambda>a b. at_since a < at_since b \<or>
                   at_since a = at_since b \<and> \<not> string_less (at_lb b) (at_lb a))
            (filter (\<lambda>a. at_tg a = g) (d_attached d)))"

text \<open>
  The join of the statement, the answer to zero inserted rows (the pair exists, or the guard did
  not hold), and the statement itself.
\<close>

definition attach_joined :: "string \<Rightarrow> string \<Rightarrow> db \<Rightarrow> bool" where
  "attach_joined lb g d =
     (case tbl_get lb_id (d_lbs d) lb of None \<Rightarrow> False
      | Some l \<Rightarrow> (case tbl_get tg_id (d_tgs d) g of None \<Rightarrow> False
          | Some t \<Rightarrow> tg_project t = lb_project l \<and> tg_region t = lb_region l
                     \<and> lb_status l \<noteq> LBStatusDeleting))"

definition attach_zero_rows :: "string \<Rightarrow> string \<Rightarrow> (attached_row \<times> bool) tx" where
  "attach_zero_rows lb g d =
     (case Attached_Get lb g d of
        Inr existing \<Rightarrow> Inr ((existing, False), d)
      | Inl e \<Rightarrow> if \<not> is_err e ErrNotFound then Inl e
                 else Inl (Wrapped ErrFailedPrecondition
                   ''load balancer and target group must be in the same project and region''))"

definition Attached_Attach :: "string \<Rightarrow> string \<Rightarrow> int32 \<Rightarrow> (attached_row \<times> bool) tx" where
  "Attached_Attach lb g priority d =
     (let row = \<lparr> at_lb = lb, at_tg = g, at_priority = priority, at_since = d_now d \<rparr>;
          pgerr = (\<lambda>e. mapPgErr e ''AttachedTargetGroup'' (lb @ ''/'' @ g)) in
      if \<not> attach_joined lb g d then attach_zero_rows lb g d
      else attempt (mapping_err pgerr (sql_guard ''23514'' (attached_checks row)))
             (\<lambda>_. if tbl_get at_key (d_attached d) (lb, g) \<noteq> None then attach_zero_rows lb g d
                  else mapping_err pgerr
                         (attempt (insert_attached row d) (\<lambda>d'. Inr ((row, True), d')))))"

definition Attached_Detach :: "string \<Rightarrow> string \<Rightarrow> unit tx" where
  "Attached_Detach lb g d =
     mapping_err (\<lambda>e. mapPgErr e ''AttachedTargetGroup'' (lb @ ''/'' @ g))
       (attempt (delete_attached lb g d) (\<lambda>d'. Inr ((), d')))"

subsection \<open>Facts\<close>

lemma Listener_Get_Inr: "Listener_Get i d = Inr r \<longleftrightarrow> tbl_get ls_id (d_listeners d) i = Some r"
  by (auto simp: Listener_Get_def split: option.splits)

lemma emit_outbox_tables [simp]:
  "d_lbs (emit_outbox k i p a m d) = d_lbs d" "d_listeners (emit_outbox k i p a m d) = d_listeners d"
  "d_tgs (emit_outbox k i p a m d) = d_tgs d" "d_targets (emit_outbox k i p a m d) = d_targets d"
  "d_attached (emit_outbox k i p a m d) = d_attached d" "d_fga (emit_outbox k i p a m d) = d_fga d"
  "d_now (emit_outbox k i p a m d) = d_now d" "d_tx (emit_outbox k i p a m d) = d_tx d"
  by (simp_all add: emit_outbox_def)

lemma emit_fga_tables [simp]:
  "d_lbs (emit_fga ev x d) = d_lbs d" "d_listeners (emit_fga ev x d) = d_listeners d"
  "d_tgs (emit_fga ev x d) = d_tgs d" "d_targets (emit_fga ev x d) = d_targets d"
  "d_attached (emit_fga ev x d) = d_attached d" "d_outbox (emit_fga ev x d) = d_outbox d"
  "d_now (emit_fga ev x d) = d_now d" "d_tx (emit_fga ev x d) = d_tx d"
  by (simp_all add: emit_fga_def)

lemma recompute_tables [simp]:
  "d_listeners (lb_status_recompute i d) = d_listeners d" "d_tgs (lb_status_recompute i d) = d_tgs d"
  "d_targets (lb_status_recompute i d) = d_targets d"
  "d_attached (lb_status_recompute i d) = d_attached d" "d_fga (lb_status_recompute i d) = d_fga d"
  "d_now (lb_status_recompute i d) = d_now d" "d_tx (lb_status_recompute i d) = d_tx d"
  by (simp_all add: lb_status_recompute_def Let_def split: option.split)

lemma update_listener_returning_Inr:
  assumes "update_listener_returning me i f d = Inr (r', d')"
    and "\<And>r. ls_id (f r) = ls_id r"
  shows "\<exists>r. tbl_get ls_id (d_listeners d) i = Some r \<and> r' = (f r) \<lparr> ls_xmin := d_tx d \<rparr>"
    and "d_listeners d' = tbl_upd ls_id i (\<lambda>r. (f r) \<lparr> ls_xmin := d_tx d \<rparr>) (d_listeners d)"
  using assms by (auto simp: update_listener_returning_def update_listener_def Let_def tbl_get_upd
      split: option.splits if_splits)

lemma Listener_SetStatusCAS_Inr:
  assumes "Listener_SetStatusCAS i a b d = Inr (r', d')"
  shows "\<exists>r. tbl_get ls_id (d_listeners d) i = Some r \<and> ls_status r = a
      \<and> r' = r \<lparr> ls_status := b, ls_updated := d_now d, ls_xmin := d_tx d \<rparr>"
    and "d_listeners d' =
      tbl_upd ls_id i (\<lambda>r. r \<lparr> ls_status := b, ls_updated := d_now d, ls_xmin := d_tx d \<rparr>) (d_listeners d)"
proof -
  obtain r where r: "tbl_get ls_id (d_listeners d) i = Some r" "ls_status r = a"
    and u: "update_listener_returning (\<lambda>e. mapPgErr e ''Listener'' i) i
       (\<lambda>r. r \<lparr> ls_status := b, ls_updated := d_now d \<rparr>) d = Inr (r', d')"
    using assms by (auto simp: Listener_SetStatusCAS_def Let_def split: option.splits if_splits)
  show "\<exists>r. tbl_get ls_id (d_listeners d) i = Some r \<and> ls_status r = a
      \<and> r' = r \<lparr> ls_status := b, ls_updated := d_now d, ls_xmin := d_tx d \<rparr>"
    using update_listener_returning_Inr(1) [OF u] r by auto
  show "d_listeners d' =
      tbl_upd ls_id i (\<lambda>r. r \<lparr> ls_status := b, ls_updated := d_now d, ls_xmin := d_tx d \<rparr>) (d_listeners d)"
    using update_listener_returning_Inr(2) [OF u] by simp
qed

lemma Listener_Update_Inr:
  assumes "Listener_Update l v d = Inr (r', d')"
  shows "\<exists>r. tbl_get ls_id (d_listeners d) (ls_id l) = Some r \<and> ls_xmin r = v \<and> ls_xmin r' = d_tx d
      \<and> ls_lb r' = ls_lb r \<and> ls_project r' = ls_project r \<and> ls_region r' = ls_region r
      \<and> ls_status r' = ls_status r \<and> ls_port r' = ls_port r \<and> ls_protocol r' = ls_protocol r"
    and "tbl_get ls_id (d_listeners d') (ls_id l) = Some r'"
    and "j \<noteq> ls_id l \<Longrightarrow> tbl_get ls_id (d_listeners d') j = tbl_get ls_id (d_listeners d) j"
proof -
  let ?f = "\<lambda>r. r \<lparr> ls_name := ls_name l, ls_description := ls_description l,
      ls_labels := ls_labels l, ls_proxy_v2 := ls_proxy_v2 l,
      ls_default_tg := opt_text (ls_default_tg l), ls_updated := d_now d \<rparr>"
  obtain r where r: "tbl_get ls_id (d_listeners d) (ls_id l) = Some r" "ls_xmin r = v"
    and u: "update_listener_returning (\<lambda>e. mapPgErr e ''Listener'' (ls_id l)) (ls_id l) ?f d = Inr (r', d')"
    using assms by (auto simp: Listener_Update_def split: option.splits if_splits)
  note upd = update_listener_returning_Inr [OF u]
  show "\<exists>r. tbl_get ls_id (d_listeners d) (ls_id l) = Some r \<and> ls_xmin r = v \<and> ls_xmin r' = d_tx d
      \<and> ls_lb r' = ls_lb r \<and> ls_project r' = ls_project r \<and> ls_region r' = ls_region r
      \<and> ls_status r' = ls_status r \<and> ls_port r' = ls_port r \<and> ls_protocol r' = ls_protocol r"
    using upd(1) r by auto
  show "tbl_get ls_id (d_listeners d') (ls_id l) = Some r'"
    and "j \<noteq> ls_id l \<Longrightarrow> tbl_get ls_id (d_listeners d') j = tbl_get ls_id (d_listeners d) j"
    using upd r by (auto simp: tbl_get_upd)
qed

interpretation listener_cas: status_cas "\<lambda>d :: db. tbl_get ls_id (d_listeners d)" ls_status
  Listener_SetStatusCAS
proof
  fix i a b r and d d' :: db
  assume h: "Listener_SetStatusCAS i a b d = Inr (r, d')"
  note s = Listener_SetStatusCAS_Inr [OF h]
  show "(\<exists>r0. tbl_get ls_id (d_listeners d) i = Some r0 \<and> ls_status r0 = a)
      \<and> tbl_get ls_id (d_listeners d') i = Some r \<and> ls_status r = b"
    using s by (auto simp: tbl_get_upd)
  show "j \<noteq> i \<Longrightarrow> tbl_get ls_id (d_listeners d') j = tbl_get ls_id (d_listeners d) j" for j
    using s by (auto simp: tbl_get_upd)
next
  fix i a b and d :: db
  assume "\<forall>r. tbl_get ls_id (d_listeners d) i = Some r \<longrightarrow> ls_status r \<noteq> a"
  then show "\<exists>e. Listener_SetStatusCAS i a b d = Inl e"
    by (auto simp: Listener_SetStatusCAS_def Let_def split: option.splits)
qed

interpretation listener_occ: version_guard "\<lambda>d :: db. tbl_get ls_id (d_listeners d)" ls_xmin d_tx
  "ls_id :: listener \<Rightarrow> string" Listener_Update
proof
  fix u :: listener and v r and d d' :: db
  assume h: "Listener_Update u v d = Inr (r, d')"
  show "(\<exists>r0. tbl_get ls_id (d_listeners d) (ls_id u) = Some r0 \<and> ls_xmin r0 = v)
      \<and> tbl_get ls_id (d_listeners d') (ls_id u) = Some r \<and> ls_xmin r = d_tx d"
    using Listener_Update_Inr(1,2) [OF h] by auto
next
  fix d :: db and u :: listener and r0 v
  assume "tbl_get ls_id (d_listeners d) (ls_id u) = Some r0" and "ls_xmin r0 \<noteq> v"
  then show "\<exists>e. Listener_Update u v d = Inl e" by (auto simp: Listener_Update_def)
qed

lemma Listener_Insert_Inr:
  assumes "Listener_Insert l d = Inr (r, d')"
  shows "\<exists>lb. tbl_get lb_id (d_lbs d) (ls_lb l) = Some lb \<and> lb_status lb \<noteq> LBStatusDeleting
      \<and> r = new_listener_row d lb l"
    and "d' = lb_status_recompute (ls_lb l) (d \<lparr> d_listeners := d_listeners d @ [r] \<rparr>)"
    and "\<forall>(n, ok) \<in> set (listener_checks r). ok"
    and "\<forall>(n, ok) \<in> set (listener_uniques (d_listeners d) r). ok" and "default_tg_ok d r"
proof -
  obtain lb where lb: "tbl_get lb_id (d_lbs d) (ls_lb l) = Some lb" "lb_status lb \<noteq> LBStatusDeleting"
    and m: "mapping_err (\<lambda>e. mapPgErr e ''Listener'' (ls_id l))
                 (attempt (insert_listener (new_listener_row d lb l) d)
                   (\<lambda>d'. Inr (new_listener_row d lb l, d'))) = Inr (r, d')"
    using assms unfolding Listener_Insert_def Let_def
    by (cases "tbl_get lb_id (d_lbs d) (ls_lb l)") (auto split: if_splits)
  then have i: "insert_listener (new_listener_row d lb l) d = Inr d'" and r: "r = new_listener_row d lb l"
    by auto
  have "ls_lb r = ls_lb l"
    using tbl_get_key [OF lb(1)] r by (simp add: new_listener_row_def listener.defs)
  then show "d' = lb_status_recompute (ls_lb l) (d \<lparr> d_listeners := d_listeners d @ [r] \<rparr>)"
    and "\<forall>(n, ok) \<in> set (listener_checks r). ok"
    and "\<forall>(n, ok) \<in> set (listener_uniques (d_listeners d) r). ok" and "default_tg_ok d r"
    using i r by (auto simp: insert_listener_def)
  show "\<exists>lb. tbl_get lb_id (d_lbs d) (ls_lb l) = Some lb \<and> lb_status lb \<noteq> LBStatusDeleting
      \<and> r = new_listener_row d lb l"
    using lb r by blast
qed

lemma attach_zero_rows_Inr:
  "attach_zero_rows lb g d = Inr ((a, f), d') \<Longrightarrow>
   \<not> f \<and> d' = d \<and> tbl_get at_key (d_attached d) (lb, g) = Some a"
  by (cases "tbl_get at_key (d_attached d) (lb, g)")
     (simp_all add: attach_zero_rows_def Attached_Get_def split: if_splits)

lemma attach_joined_iff:
  "attach_joined lb g d \<longleftrightarrow>
     (\<exists>l t. tbl_get lb_id (d_lbs d) lb = Some l \<and> tbl_get tg_id (d_tgs d) g = Some t
      \<and> tg_project t = lb_project l \<and> tg_region t = lb_region l \<and> lb_status l \<noteq> LBStatusDeleting)"
  by (cases "tbl_get lb_id (d_lbs d) lb"; cases "tbl_get tg_id (d_tgs d) g")
     (simp_all add: attach_joined_def)

lemma Attached_Attach_Inr:
  assumes "Attached_Attach lb g p d = Inr ((a, f), d')"
  shows "\<not> f \<and> d' = d \<and> tbl_get at_key (d_attached d) (lb, g) = Some a
    \<or> f \<and> a = \<lparr> at_lb = lb, at_tg = g, at_priority = p, at_since = d_now d \<rparr>
       \<and> attach_joined lb g d \<and> tbl_get at_key (d_attached d) (lb, g) = None
       \<and> d' = lb_status_recompute lb (d \<lparr> d_attached := d_attached d @ [a] \<rparr>)"
proof (cases "attach_joined lb g d \<and> tbl_get at_key (d_attached d) (lb, g) = None")
  case True
  with assms show ?thesis
    by (auto simp: Attached_Attach_def Let_def insert_attached_def)
next
  case False
  with assms have "attach_zero_rows lb g d = Inr ((a, f), d')"
    by (auto simp: Attached_Attach_def Let_def split: if_splits)
  then show ?thesis using attach_zero_rows_Inr by blast
qed

end
