(* ===== verification/Repo_Target_Groups.thy ===== *)
theory Repo_Target_Groups
  imports Repo_Listeners
begin

text \<open>
  The repository of target groups and their targets (\<^verbatim>\<open>repo/kacho/pg/target_group_repo.go\<close>):
  group rows, the capped and idempotent addition of targets with the reactivation of a draining
  one, the two-phase removal (mark as draining, delete when the delay is over).
\<close>

subsection \<open>Targets of a group\<close>

text \<open>\<^verbatim>\<open>scanTarget\<close>: the identity columns of a row back to a target.\<close>

definition scanTarget :: "target_row \<Rightarrow> target" where
  "scanTarget r =
     (let none = \<lparr> t_instance = None, t_nic = None, t_ip_ref = None, t_external = None,
                   t_weight = tr_weight r \<rparr> in
      case tr_instance r of Some i \<Rightarrow> none \<lparr> t_instance := Some i \<rparr>
      | None \<Rightarrow> (case tr_nic r of Some i \<Rightarrow> none \<lparr> t_nic := Some i \<rparr>
      | None \<Rightarrow> (case (tr_subnet r, tr_address r) of
          (Some s, Some a) \<Rightarrow> none \<lparr> t_ip_ref := Some \<lparr> ipr_subnet = s, ipr_address = a \<rparr> \<rparr>
        | _ \<Rightarrow> (case tr_ext r of
            Some a \<Rightarrow> none \<lparr> t_external := Some \<lparr> ext_address = a, ext_zone = opt_text (tr_zone r) \<rparr> \<rparr>
          | None \<Rightarrow> none))))"

definition target_before :: "target_row \<Rightarrow> target_row \<Rightarrow> bool" where
  "target_before a b \<longleftrightarrow>
     tr_created a < tr_created b \<or> tr_created a = tr_created b \<and> \<not> string_less (tr_id b) (tr_id a)"

definition group_targets :: "db \<Rightarrow> string \<Rightarrow> target_row list" where
  "group_targets d g = filter (\<lambda>t. tr_group t = g) (d_targets d)"

definition TG_ListTargets :: "string \<Rightarrow> db \<Rightarrow> err + target_row list" where
  "TG_ListTargets g d = Inr (take MaxTargetsPerGroup (isort target_before (group_targets d g)))"

definition TG_Get :: "string \<Rightarrow> db \<Rightarrow> err + tg_row" where
  "TG_Get i d =
     (case tbl_get tg_id (d_tgs d) i of
        None \<Rightarrow> Inl (mapPgErr NoRows ''TargetGroup'' i)
      | Some r \<Rightarrow> attempt (TG_ListTargets i d) (\<lambda>ts.
          Inr (r \<lparr> tg_targets := map scanTarget ts \<rparr>)))"

definition TG_HasAttachedLB :: "string \<Rightarrow> db \<Rightarrow> err + bool" where
  "TG_HasAttachedLB g d = Inr (list_ex (\<lambda>a. at_tg a = g) (d_attached d))"

text \<open>
  \<^verbatim>\<open>status = 'DRAINING' AND drain_started_at < now() - delay\<close>; the database's clock counts
  microseconds, the delay is in seconds.
\<close>

definition drained :: "int \<Rightarrow> int \<Rightarrow> target_row \<Rightarrow> bool" where
  "drained now delay t \<longleftrightarrow>
     (tr_status t = TargetDraining \<and>
      (case tr_drain t of None \<Rightarrow> False | Some s \<Rightarrow> s < now - delay * 1000000))"

definition TG_ListDrainingExpired :: "string \<Rightarrow> int32 \<Rightarrow> db \<Rightarrow> err + target_row list" where
  "TG_ListDrainingExpired g delay d =
     Inr (filter (drained (d_now d) (sint delay)) (group_targets d g))"

subsection \<open>Adding targets\<close>

definition nullableStr :: "string \<Rightarrow> string option" where
  "nullableStr s = (if s = '''' then None else Some s)"

definition opt_string :: "string option \<Rightarrow> string" where
  "opt_string o1 = (case o1 of None \<Rightarrow> '''' | Some s \<Rightarrow> s)"

text \<open>
  \<^verbatim>\<open>splitTargetIdentity\<close> followed by \<^verbatim>\<open>nullableStr\<close> on every part, as a row; the remaining columns
  are those of the insert.
\<close>

definition splitTargetIdentity ::
  "target \<Rightarrow> string \<times> string \<times> string \<times> string \<times> string \<times> string" where
  "splitTargetIdentity t =
     (opt_string (t_instance t), opt_string (t_nic t),
      (case t_ip_ref t of None \<Rightarrow> '''' | Some r \<Rightarrow> ipr_subnet r),
      (case t_ip_ref t of None \<Rightarrow> '''' | Some r \<Rightarrow> ipr_address r),
      (case t_external t of None \<Rightarrow> '''' | Some e \<Rightarrow> ext_address e),
      (case t_external t of None \<Rightarrow> '''' | Some e \<Rightarrow> opt_string (ext_zone e)))"

definition new_target_row :: "string \<Rightarrow> int \<Rightarrow> string \<Rightarrow> target \<Rightarrow> target_row" where
  "new_target_row g now i t =
     (case splitTargetIdentity t of (inst, nic, subnet, addr, ext, zone) \<Rightarrow>
       \<lparr> tr_id = i, tr_group = g, tr_created = now, tr_updated = now,
         tr_instance = nullableStr inst, tr_nic = nullableStr nic, tr_subnet = nullableStr subnet,
         tr_address = nullableStr addr, tr_ext = nullableStr ext, tr_zone = nullableStr zone,
         tr_weight = t_weight t, tr_status = TargetActive, tr_drain = None \<rparr>)"

text \<open>The identity columns, all six of them (\<^verbatim>\<open>IS NOT DISTINCT FROM\<close> on each).\<close>

definition same_columns :: "target_row \<Rightarrow> target_row \<Rightarrow> bool" where
  "same_columns a b \<longleftrightarrow>
     tr_instance a = tr_instance b \<and> tr_nic a = tr_nic b \<and> tr_subnet a = tr_subnet b \<and>
     tr_address a = tr_address b \<and> tr_ext a = tr_ext b \<and> tr_zone a = tr_zone b"

definition reactivates :: "target_row \<Rightarrow> target_row \<Rightarrow> bool" where
  "reactivates n r \<longleftrightarrow>
     tr_group r = tr_group n \<and> tr_status r = TargetDraining \<and> same_columns r n"

definition reactivate_row :: "target_row \<Rightarrow> target_row \<Rightarrow> target_row" where
  "reactivate_row n r =
     r \<lparr> tr_status := TargetActive, tr_drain := None, tr_weight := tr_weight n,
         tr_updated := tr_updated n \<rparr>"

text \<open>One target: reactivate a draining row of the same columns, else insert or leave.\<close>

definition add_one_target :: "target_row \<Rightarrow> bool tx" where
  "add_one_target n d =
     mapping_err (\<lambda>e. mapPgErr e ''Target'' '''')
     (if list_ex (reactivates n) (d_targets d) then
        attempt (sql_guard ''23514'' (concat (map (\<lambda>r. if reactivates n r
                   then target_checks (reactivate_row n r) else []) (d_targets d)))) (\<lambda>_.
          Inr (True, d \<lparr> d_targets :=
            map (\<lambda>r. if reactivates n r then reactivate_row n r else r) (d_targets d) \<rparr>))
      else insert_target_nothing n d)"

text \<open>The loop, with the generated identifiers of the rows; the number of added targets.\<close>

fun add_targets_loop :: "string \<Rightarrow> (string \<times> target) list \<Rightarrow> nat \<Rightarrow> nat tx" where
  "add_targets_loop g [] n d = Inr (n, d)"
| "add_targets_loop g ((i, t) # ts) n d =
     attempt (add_one_target (new_target_row g (d_now d) i t) d) (\<lambda>(added, d').
       add_targets_loop g ts (if added then Suc n else n) d')"

definition TG_AddTargets :: "string \<Rightarrow> (string \<times> target) list \<Rightarrow> nat tx" where
  "TG_AddTargets g ts d =
     (if ts = [] then Inr (0, d)
      else case tbl_get tg_id (d_tgs d) g of
        None \<Rightarrow> Inl (Wrapped ErrNotFound (''TargetGroup '' @ g @ '' not found''))
      | Some r \<Rightarrow>
          if length (group_targets d g) + length ts > MaxTargetsPerGroup then
            Inl (Wrapped ErrFailedPrecondition
              (''target group would exceed the maximum of 100 targets (current '' @
               show_nat (length (group_targets d g)) @ '', adding '' @ show_nat (length ts) @ '')''))
          else add_targets_loop g ts 0 d)"

subsection \<open>Removing targets\<close>

definition marks_draining :: "string \<Rightarrow> string list \<Rightarrow> target_row \<Rightarrow> bool" where
  "marks_draining g ids r \<longleftrightarrow> tr_group r = g \<and> tr_id r \<in> set ids \<and> tr_status r = TargetActive"

definition TG_RemoveTargetsMarkDraining :: "string \<Rightarrow> string list \<Rightarrow> nat tx" where
  "TG_RemoveTargetsMarkDraining g ids d =
     (if ids = [] then Inr (0, d)
      else Inr (length (filter (marks_draining g ids) (d_targets d)),
        d \<lparr> d_targets := map (\<lambda>r. if marks_draining g ids r
              then r \<lparr> tr_status := TargetDraining, tr_drain := Some (d_now d), tr_updated := d_now d \<rparr>
              else r) (d_targets d) \<rparr>))"

definition TG_DeleteTargetsDrained :: "string \<Rightarrow> int32 \<Rightarrow> nat tx" where
  "TG_DeleteTargetsDrained g delay d =
     (let gone = (\<lambda>t. tr_group t = g \<and> drained (d_now d) (sint delay) t) in
      Inr (length (filter gone (d_targets d)),
           d \<lparr> d_targets := filter (\<lambda>t. \<not> gone t) (d_targets d) \<rparr>))"

subsection \<open>Groups\<close>

definition new_tg_row :: "db \<Rightarrow> target_group \<Rightarrow> tg_row" where
  "new_tg_row d g = target_group.extend (g \<lparr> tg_targets := [] \<rparr>)
     (tg_row.fields (d_now d) (d_now d) (d_tx d))"

text \<open>\<open>ids\<close> are the generated identifiers of the inline targets.\<close>

definition TG_Insert :: "target_group \<Rightarrow> string list \<Rightarrow> tg_row tx" where
  "TG_Insert g ids d =
     attempt (mapping_err (\<lambda>e. mapPgErr e ''TargetGroup'' (tg_id g)) (insert_tg (new_tg_row d g) d))
       (\<lambda>d1. if tg_targets g = [] then Inr (new_tg_row d g, d1)
             else attempt (TG_AddTargets (tg_id g) (zip ids (tg_targets g)) d1) (\<lambda>(n, d2).
                  attempt (TG_ListTargets (tg_id g) d2) (\<lambda>ts.
                    Inr ((new_tg_row d g) \<lparr> tg_targets := map scanTarget ts \<rparr>, d2))))"

definition update_tg_returning :: "(err \<Rightarrow> err) \<Rightarrow> string \<Rightarrow> (tg_row \<Rightarrow> tg_row) \<Rightarrow> tg_row tx" where
  "update_tg_returning me i f d =
     mapping_err me
       (attempt (update_tg i f d) (\<lambda>d'.
          case tbl_get tg_id (d_tgs d') i of None \<Rightarrow> Inl NoRows | Some r \<Rightarrow> Inr (r, d')))"

definition TG_Update :: "target_group \<Rightarrow> nat \<Rightarrow> tg_row tx" where
  "TG_Update g expected d =
     (case tbl_get tg_id (d_tgs d) (tg_id g) of
        None \<Rightarrow> Inl (modified_concurrently ''TargetGroup'' (tg_id g))
      | Some r \<Rightarrow>
          if tg_xmin r \<noteq> expected then Inl (modified_concurrently ''TargetGroup'' (tg_id g))
          else update_tg_returning (\<lambda>e. mapPgErr e ''TargetGroup'' (tg_id g)) (tg_id g)
                 (\<lambda>r. r \<lparr> tg_name := tg_name g, tg_description := tg_description g,
                          tg_labels := tg_labels g, tg_health := tg_health g,
                          tg_dereg := tg_dereg g, tg_slow := tg_slow g,
                          tg_updated := d_now d \<rparr>) d)"

definition TG_SetStatusCAS :: "string \<Rightarrow> tg_status \<Rightarrow> tg_status \<Rightarrow> tg_row tx" where
  "TG_SetStatusCAS i expected new d =
     (let miss = Wrapped ErrFailedPrecondition
                   (''TargetGroup '' @ i @ '' status is not '' @ tg_status_string expected) in
      case tbl_get tg_id (d_tgs d) i of
        None \<Rightarrow> Inl miss
      | Some r \<Rightarrow>
          if tg_status r \<noteq> expected then Inl miss
          else update_tg_returning (\<lambda>e. mapPgErr e ''TargetGroup'' i) i
                 (\<lambda>r. r \<lparr> tg_status := new, tg_updated := d_now d \<rparr>) d)"

definition TG_MoveProject :: "string \<Rightarrow> string \<Rightarrow> tg_row tx" where
  "TG_MoveProject i project d =
     (case tbl_get tg_id (d_tgs d) i of
        None \<Rightarrow> Inl (Wrapped ErrNotFound (''TargetGroup '' @ i @ '' not found''))
      | Some r \<Rightarrow>
          if list_ex (\<lambda>a. at_tg a = i) (d_attached d) then Inl (Wrapped ErrFailedPrecondition
               (''TargetGroup '' @ i @ '' is attached to a load balancer; detach before Move''))
          else update_tg_returning (\<lambda>e. mapPgErr e ''TargetGroup'' i) i
                 (\<lambda>r. r \<lparr> tg_project := project, tg_updated := d_now d \<rparr>) d)"

definition TG_Delete :: "string \<Rightarrow> unit tx" where
  "TG_Delete i d =
     (case tbl_get tg_id (d_tgs d) i of
        None \<Rightarrow> Inl (Wrapped ErrNotFound (''TargetGroup '' @ i @ '' not found''))
      | Some r \<Rightarrow> mapping_err (\<lambda>e. mapPgErr e ''TargetGroup'' i)
                    (attempt (delete_tg i d) (\<lambda>d'. Inr ((), d'))))"

subsection \<open>Facts\<close>

text \<open>What the constraints make of the table of targets.\<close>

definition target_conflict :: "target_row \<Rightarrow> target_row \<Rightarrow> bool" where
  "target_conflict s r \<longleftrightarrow> tr_group s = tr_group r \<and>
     (tr_instance r \<noteq> None \<and> tr_instance s = tr_instance r
      \<or> tr_nic r \<noteq> None \<and> tr_nic s = tr_nic r
      \<or> tr_subnet r \<noteq> None \<and> tr_address r \<noteq> None \<and> tr_subnet s = tr_subnet r \<and> tr_address s = tr_address r
      \<or> tr_ext r \<noteq> None \<and> tr_ext s = tr_ext r)"

lemma target_uniques_ok:
  "first_violation (target_uniques t r) = None \<longleftrightarrow>
     (\<forall>s \<in> set t. tr_id s \<noteq> tr_id r \<and> \<not> target_conflict s r)"
  unfolding first_violation_None target_uniques_def target_conflict_def by auto

definition target_ok :: "target_row \<Rightarrow> bool" where
  "target_ok r \<longleftrightarrow> (\<forall>(n, ok) \<in> set (target_checks r). ok)"

fun separated :: "target_row list \<Rightarrow> bool" where
  "separated [] \<longleftrightarrow> True"
| "separated (r # rs) \<longleftrightarrow> (\<forall>s \<in> set rs. tr_id s \<noteq> tr_id r \<and> \<not> target_conflict s r) \<and> separated rs"

definition targets_wf :: "db \<Rightarrow> bool" where
  "targets_wf d \<longleftrightarrow> (\<forall>r \<in> set (d_targets d). target_ok r) \<and> separated (d_targets d)"

lemma target_conflict_sym: "target_conflict s r \<longleftrightarrow> target_conflict r s"
  by (auto simp: target_conflict_def)

text \<open>The conflict relation reads the identity columns only.\<close>

lemma target_conflict_cong:
  "tr_group s = tr_group s' \<Longrightarrow> same_columns s s' \<Longrightarrow> tr_group r = tr_group r' \<Longrightarrow> same_columns r r' \<Longrightarrow>
   target_conflict s r = target_conflict s' r'"
  by (simp add: target_conflict_def same_columns_def)

lemma separated_map:
  assumes "\<And>r. tr_id (f r) = tr_id r \<and> tr_group (f r) = tr_group r \<and> same_columns (f r) r"
  shows "separated (map f t) = separated t"
proof (induction t)
  case (Cons r t)
  have "target_conflict (f s) (f r) = target_conflict s r" for s
    using assms by (intro target_conflict_cong) auto
  with Cons assms show ?case by auto
qed simp

lemma separated_filter: "separated t \<Longrightarrow> separated (filter P t)"
  by (induction t) auto

lemma separated_append1:
  "separated (t @ [r]) \<longleftrightarrow> separated t \<and> (\<forall>s \<in> set t. tr_id s \<noteq> tr_id r \<and> \<not> target_conflict s r)"
  by (induction t) (auto simp: target_conflict_sym)

text \<open>Two rows of one identity have the same columns, unless it is an external address.\<close>

lemma conflict_same_columns:
  assumes "target_ok s" and "target_ok r" and "target_conflict s r" and "tr_ext r = None"
  shows "same_columns s r"
  using assms unfolding target_ok_def target_checks_def target_conflict_def same_columns_def
  by (auto split: if_splits)

text \<open>The effect of one addition.\<close>

lemma add_one_target_Inr:
  assumes "add_one_target n d = Inr (b, d')"
  shows "list_ex (reactivates n) (d_targets d) \<and> b
      \<and> d' = d \<lparr> d_targets := map (\<lambda>r. if reactivates n r then reactivate_row n r else r) (d_targets d) \<rparr>
      \<and> (\<forall>r \<in> set (d_targets d). reactivates n r \<longrightarrow> target_ok (reactivate_row n r))
    \<or> \<not> list_ex (reactivates n) (d_targets d) \<and> target_ok n \<and> \<not> b \<and> d' = d
      \<and> (\<exists>s \<in> set (d_targets d). tr_id s = tr_id n \<or> target_conflict s n)
    \<or> \<not> list_ex (reactivates n) (d_targets d) \<and> target_ok n \<and> b
      \<and> d' = d \<lparr> d_targets := d_targets d @ [n] \<rparr>
      \<and> (\<forall>s \<in> set (d_targets d). tr_id s \<noteq> tr_id n \<and> \<not> target_conflict s n)"
proof (cases "list_ex (reactivates n) (d_targets d)")
  case True
  with assms show ?thesis
    by (auto simp: add_one_target_def target_ok_def split: if_splits)
next
  case False
  have "first_violation (target_uniques (d_targets d) n) = None \<or>
      (\<exists>s \<in> set (d_targets d). tr_id s = tr_id n \<or> target_conflict s n)"
    using target_uniques_ok by blast
  with False assms show ?thesis
    by (auto simp: add_one_target_def insert_target_nothing_def target_ok_def target_uniques_ok
        split: if_splits)
qed

lemma reactivate_same [simp]:
  "tr_id (reactivate_row n r) = tr_id r" "tr_group (reactivate_row n r) = tr_group r"
  "same_columns (reactivate_row n r) r" "tr_status (reactivate_row n r) = TargetActive"
  by (simp_all add: reactivate_row_def same_columns_def)

lemma add_one_target_wf:
  assumes "add_one_target n d = Inr (b, d')" and "targets_wf d"
  shows "targets_wf d'"
proof -
  have "separated (map (\<lambda>r. if reactivates n r then reactivate_row n r else r) t) = separated t" for t
    by (rule separated_map) (simp add: same_columns_def reactivate_row_def)
  then show ?thesis
    using add_one_target_Inr [OF assms(1)] assms(2)
    by (elim disjE) (auto simp: targets_wf_def separated_append1)
qed

lemma add_one_target_size:
  "add_one_target n d = Inr (b, d') \<Longrightarrow>
   length (group_targets d' g) \<le> length (group_targets d g) + (if g = tr_group n then 1 else 0)"
proof (drule add_one_target_Inr, elim disjE)
  let ?f = "\<lambda>r. if reactivates n r then reactivate_row n r else r"
  have "length (filter (\<lambda>t. tr_group t = g) (map ?f t)) = length (filter (\<lambda>t. tr_group t = g) t)" for t
    by (induction t) auto
  then show "list_ex (reactivates n) (d_targets d) \<and> b
      \<and> d' = d \<lparr> d_targets := map ?f (d_targets d) \<rparr>
      \<and> (\<forall>r \<in> set (d_targets d). reactivates n r \<longrightarrow> target_ok (reactivate_row n r)) \<Longrightarrow> ?thesis"
    by (simp add: group_targets_def)
qed (auto simp: group_targets_def)

lemma new_target_row_simps [simp]:
  "tr_group (new_target_row g now i t) = g" "tr_id (new_target_row g now i t) = i"
  "tr_status (new_target_row g now i t) = TargetActive"
  by (simp_all add: new_target_row_def split: prod.split)

lemma add_one_target_tables:
  "add_one_target n d = Inr (b, d') \<Longrightarrow> \<exists>t. d' = d \<lparr> d_targets := t \<rparr>"
  by (drule add_one_target_Inr) (auto intro: exI [of _ "d_targets d"])

lemma add_targets_loop_step:
  assumes "add_targets_loop g ((i, t) # ts) n d = Inr (m, d')"
  obtains b d1 where "add_one_target (new_target_row g (d_now d) i t) d = Inr (b, d1)"
    and "add_targets_loop g ts (if b then Suc n else n) d1 = Inr (m, d')"
  using assms by (auto split: prod.splits)

lemma add_targets_loop_invariant:
  assumes "add_targets_loop g ts n d = Inr (m, d')" and "P d"
    and "\<And>i t d b d1. (i, t) \<in> set ts \<Longrightarrow>
          add_one_target (new_target_row g (d_now d) i t) d = Inr (b, d1) \<Longrightarrow> P d \<Longrightarrow> P d1"
  shows "P d'"
  using assms
proof (induction ts arbitrary: n d)
  case (Cons x ts)
  obtain i t where x: "x = (i, t)" by (cases x)
  from Cons.prems(1)[unfolded x] obtain b d1 where
    b: "add_one_target (new_target_row g (d_now d) i t) d = Inr (b, d1)"
    and l: "add_targets_loop g ts (if b then Suc n else n) d1 = Inr (m, d')"
    by (rule add_targets_loop_step)
  have "P d1" using Cons.prems(3) [OF _ b Cons.prems(2)] x by simp
  then show ?case by (rule Cons.IH [OF l]) (rule Cons.prems(3), simp_all)
qed simp

lemma add_targets_loop_wf:
  "add_targets_loop g ts n d = Inr (m, d') \<Longrightarrow> targets_wf d \<Longrightarrow> targets_wf d'"
  by (rule add_targets_loop_invariant [where P = targets_wf]) (auto dest: add_one_target_wf)

lemma add_targets_loop_size:
  "add_targets_loop g ts n d = Inr (m, d') \<Longrightarrow>
   length (group_targets d' h) \<le> length (group_targets d h) + (if h = g then length ts else 0)"
proof (induction ts arbitrary: n d)
  case (Cons x ts)
  obtain i t where x: "x = (i, t)" by (cases x)
  from Cons.prems[unfolded x] obtain b d1 where
    b: "add_one_target (new_target_row g (d_now d) i t) d = Inr (b, d1)"
    and l: "add_targets_loop g ts (if b then Suc n else n) d1 = Inr (m, d')"
    by (rule add_targets_loop_step)
  from Cons.IH [OF l] add_one_target_size [OF b, of h] show ?case by (auto split: if_splits)
qed simp

lemma add_targets_loop_tables:
  assumes "add_targets_loop g ts n d = Inr (m, d')"
  shows "\<exists>t. d' = d \<lparr> d_targets := t \<rparr>"
proof (rule add_targets_loop_invariant [OF assms, where P = "\<lambda>e. \<exists>t. e = d \<lparr> d_targets := t \<rparr>"])
  show "\<exists>t. d = d \<lparr> d_targets := t \<rparr>" by (intro exI [of _ "d_targets d"]) simp
next
  fix i t e b e1
  assume "add_one_target (new_target_row g (d_now e) i t) e = Inr (b, e1)"
    and "\<exists>t. e = d \<lparr> d_targets := t \<rparr>"
  then show "\<exists>t. e1 = d \<lparr> d_targets := t \<rparr>" using add_one_target_tables by fastforce
qed

text \<open>A target in service: an active row of the group with the columns of the target.\<close>

definition in_service :: "string \<Rightarrow> target \<Rightarrow> db \<Rightarrow> bool" where
  "in_service g t d \<longleftrightarrow> (\<exists>r \<in> set (d_targets d). tr_group r = g \<and> tr_status r = TargetActive
      \<and> same_columns r (new_target_row g 0 '''' t))"

lemma same_columns_new:
  "same_columns r (new_target_row g now i t) = same_columns r (new_target_row g 0 '''' t)"
  by (simp add: same_columns_def new_target_row_def split: prod.split)

lemma same_columns_trans: "same_columns a b \<Longrightarrow> same_columns b c \<Longrightarrow> same_columns a c"
  by (simp add: same_columns_def)

lemma add_one_target_keeps:
  assumes "add_one_target n d = Inr (b, d')" and "in_service g t d"
  shows "in_service g t d'"
proof -
  obtain r where r: "r \<in> set (d_targets d)" "tr_group r = g" "tr_status r = TargetActive"
    "same_columns r (new_target_row g 0 '''' t)"
    using assms(2) by (auto simp: in_service_def)
  from r(3) have "\<not> reactivates n r" by (simp add: reactivates_def)
  with r(1) add_one_target_Inr [OF assms(1)] have "r \<in> set (d_targets d')"
    by (elim disjE) (auto simp: image_iff intro!: bexI [of _ r])
  with r show ?thesis by (auto simp: in_service_def)
qed

lemma add_one_target_serves:
  assumes "add_one_target (new_target_row g now i t) d = Inr (b, d')" and "targets_wf d"
    and "i \<notin> tr_id ` set (d_targets d)" and "t_external t = None"
  shows "in_service g t d'"
proof -
  let ?n = "new_target_row g now i t"
  have ext: "tr_ext ?n = None" using assms(4)
    by (simp add: new_target_row_def splitTargetIdentity_def nullableStr_def)
  from add_one_target_Inr [OF assms(1)] show ?thesis
  proof (elim disjE conjE)
    assume ex: "list_ex (reactivates ?n) (d_targets d)"
      and d': "d' = d \<lparr> d_targets := map (\<lambda>r. if reactivates ?n r then reactivate_row ?n r else r) (d_targets d) \<rparr>"
    then obtain r where r: "r \<in> set (d_targets d)" "reactivates ?n r" by (auto simp: list_ex_iff)
    then have "reactivate_row ?n r \<in> set (d_targets d')" using d' by (auto simp: image_iff)
    moreover have "same_columns (reactivate_row ?n r) (new_target_row g 0 '''' t)"
      using r(2) same_columns_trans [OF reactivate_same(3), of r ?n]
      unfolding same_columns_new [of _ g now i t] reactivates_def by blast
    ultimately show ?thesis
      unfolding in_service_def using r(2)
      by (intro bexI [of _ "reactivate_row ?n r"]) (simp_all add: reactivates_def)
  next
    assume no: "\<not> list_ex (reactivates ?n) (d_targets d)" and ok: "target_ok ?n" and d': "d' = d"
      and ex: "\<exists>s \<in> set (d_targets d). tr_id s = tr_id ?n \<or> target_conflict s ?n"
    then obtain s where s: "s \<in> set (d_targets d)" and c: "tr_id s = tr_id ?n \<or> target_conflict s ?n"
      by blast
    have "target_conflict s ?n" using c s assms(3) by auto
    then have same: "same_columns s ?n" and g: "tr_group s = g"
      using conflict_same_columns [OF _ ok _ ext, of s] s assms(2)
      unfolding targets_wf_def target_conflict_def by simp_all
    have "tr_status s = TargetActive"
      using no s same g by (cases "tr_status s") (auto simp: list_ex_iff reactivates_def)
    then show ?thesis using s same [unfolded same_columns_new [of _ g now i t]] g d' by (auto simp: in_service_def)
  next
    assume d': "d' = d \<lparr> d_targets := d_targets d @ [?n] \<rparr>"
    have "same_columns ?n (new_target_row g 0 '''' t)"
      by (simp add: same_columns_def new_target_row_def split: prod.split)
    then show ?thesis unfolding in_service_def d' by (intro bexI [of _ ?n]) simp_all
  qed
qed

lemma add_one_target_ids:
  "add_one_target n d = Inr (b, d') \<Longrightarrow>
   tr_id ` set (d_targets d') \<subseteq> insert (tr_id n) (tr_id ` set (d_targets d))"
  by (drule add_one_target_Inr) auto

lemma add_targets_loop_serves:
  assumes "add_targets_loop g ts n d = Inr (m, d')" and "targets_wf d"
    and "distinct (map fst ts)" and "set (map fst ts) \<inter> tr_id ` set (d_targets d) = {}"
    and "(i, t) \<in> set ts" and "t_external t = None"
  shows "in_service g t d'"
  using assms
proof (induction ts arbitrary: n d)
  case (Cons x ts)
  obtain j u where x: "x = (j, u)" by (cases x)
  from Cons.prems(1)[unfolded x] obtain b d1 where
    b: "add_one_target (new_target_row g (d_now d) j u) d = Inr (b, d1)"
    and l: "add_targets_loop g ts (if b then Suc n else n) d1 = Inr (m, d')"
    by (rule add_targets_loop_step)
  have wf: "targets_wf d1" using add_one_target_wf [OF b] Cons.prems(2) by simp
  show ?case
  proof (cases "(i, t) = (j, u)")
    case True
    then have "in_service g t d1"
      using add_one_target_serves [OF b Cons.prems(2)] Cons.prems(4,6) x by auto
    then show ?thesis
      by (rule add_targets_loop_invariant [OF l, where P = "in_service g t"])
         (auto dest: add_one_target_keeps)
  next
    case False
    have "tr_id ` set (d_targets d1) \<subseteq> insert j (tr_id ` set (d_targets d))"
      using add_one_target_ids [OF b] by simp
    moreover have "j \<notin> set (map fst ts)"
      and "set (map fst ts) \<inter> tr_id ` set (d_targets d) = {}"
      using Cons.prems(3,4) unfolding x by (simp_all add: Int_commute)
    ultimately have "set (map fst ts) \<inter> tr_id ` set (d_targets d1) = {}" by blast
    then show ?thesis
      using Cons.IH [OF l wf] Cons.prems(3,5,6) False x by auto
  qed
qed simp

lemma TG_AddTargets_Inr:
  assumes "TG_AddTargets g ts d = Inr (n, d')" and "ts \<noteq> []"
  shows "add_targets_loop g ts 0 d = Inr (n, d')"
    and "length (group_targets d g) + length ts \<le> MaxTargetsPerGroup"
    and "\<exists>r. tbl_get tg_id (d_tgs d) g = Some r"
  using assms by (auto simp: TG_AddTargets_def split: option.splits if_splits)

subsection \<open>Properties\<close>

definition sample_target :: "string \<Rightarrow> target" where
  "sample_target i = \<lparr> t_instance = Some i, t_nic = None, t_ip_ref = None, t_external = None,
     t_weight = 100 \<rparr>"

definition sample_tg :: target_group where
  "sample_tg = NewTargetGroup ''tgr1'' ''p1'' ''r1'' ''web'' '''' []"

text \<open>A database with the sample group and the draining target \<^verbatim>\<open>tgt1\<close> of instance \<^verbatim>\<open>i1\<close>.\<close>

definition sample_tg_db :: db where
  "sample_tg_db = empty_db \<lparr> d_tx := 5, d_now := 1000,
     d_tgs := [new_tg_row (empty_db \<lparr> d_tx := 1 \<rparr>) sample_tg],
     d_targets := [(new_target_row ''tgr1'' 0 ''tgt1'' (sample_target ''i1''))
                     \<lparr> tr_status := TargetDraining, tr_drain := Some 10 \<rparr>] \<rparr>"

text \<open>C29: adding targets keeps a group within 100 targets, counting the draining ones, keeps every
  row within its constraints and no two rows of a group in one identity, and leaves every other
  group alone.\<close>

theorem AddTargets_cap:
  assumes "TG_AddTargets g ts d = Inr (n, d')" and "targets_wf d"
    and "length (group_targets d g) \<le> MaxTargetsPerGroup"
  shows "targets_wf d' \<and> length (group_targets d' g) \<le> MaxTargetsPerGroup
    \<and> (\<forall>h. h \<noteq> g \<longrightarrow> length (group_targets d' h) \<le> length (group_targets d h))"
proof (cases "ts = []")
  case True
  with assms show ?thesis by (simp add: TG_AddTargets_def)
next
  case False
  note loop = TG_AddTargets_Inr(1,2) [OF assms(1) False]
  show ?thesis
  proof (intro conjI allI impI)
    show "targets_wf d'" by (rule add_targets_loop_wf [OF loop(1) assms(2)])
    show "length (group_targets d' g) \<le> MaxTargetsPerGroup"
      using add_targets_loop_size [OF loop(1), of g] loop(2) by simp
    show "h \<noteq> g \<Longrightarrow> length (group_targets d' h) \<le> length (group_targets d h)" for h
      using add_targets_loop_size [OF loop(1), of h] by simp
  qed
qed

theorem AddTargets_cap_witness:
  "\<exists>n d'. TG_AddTargets ''tgr1'' [(''tgt2'', sample_target ''i2'')] sample_tg_db = Inr (n, d')
     \<and> targets_wf d' \<and> length (group_targets d' ''tgr1'') \<le> 100"
proof -
  have "is_ok (TG_AddTargets ''tgr1'' [(''tgt2'', sample_target ''i2'')] sample_tg_db)"
    by code_simp
  moreover have "targets_wf sample_tg_db" "length (group_targets sample_tg_db ''tgr1'') \<le> MaxTargetsPerGroup"
    by (code_simp, code_simp)
  ultimately show ?thesis
    using AddTargets_cap [of "''tgr1''" "[(''tgt2'', sample_target ''i2'')]" sample_tg_db]
    by (auto simp: is_ok_iff MaxTargetsPerGroup_def)
qed

text \<open>After a successful addition every added target that is not an external address is in
  service: the group has an active row of its identity, also when the identity was draining
  or was there already (the identifiers of new rows being fresh).\<close>

theorem AddTargets_in_service:
  assumes "TG_AddTargets g ts d = Inr (n, d')" and "targets_wf d"
    and "distinct (map fst ts)" and "set (map fst ts) \<inter> tr_id ` set (d_targets d) = {}"
    and "(i, t) \<in> set ts" and "t_external t = None"
  shows "in_service g t d'"
proof -
  have "ts \<noteq> []" using assms(5) by auto
  from TG_AddTargets_Inr(1) [OF assms(1) this] show ?thesis
    by (rule add_targets_loop_serves) (use assms in auto)
qed

theorem AddTargets_in_service_witness:
  "\<exists>n d'. TG_AddTargets ''tgr1'' [(''tgt2'', sample_target ''i1'')] sample_tg_db = Inr (n, d')
     \<and> in_service ''tgr1'' (sample_target ''i1'') d'"
proof -
  have "is_ok (TG_AddTargets ''tgr1'' [(''tgt2'', sample_target ''i1'')] sample_tg_db)"
    by code_simp
  moreover have "targets_wf sample_tg_db" by code_simp
  moreover have "''tgt2'' \<notin> tr_id ` set (d_targets sample_tg_db)" by code_simp
  ultimately show ?thesis
    using AddTargets_in_service [of "''tgr1''" "[(''tgt2'', sample_target ''i1'')]" sample_tg_db]
    by (auto simp: is_ok_iff sample_target_def)
qed

text \<open>An external address that is still draining and is added again with another zone is
  neither reactivated (the zones differ) nor inserted (the unique index ignores the zone): the
  call succeeds, adds nothing, and the row stays draining until the runner deletes it.\<close>

theorem external_zone_readd_lost:
  assumes "tr_ext r = Some a" and "a \<noteq> ''''" and "tr_zone r \<noteq> Some z" and "z \<noteq> ''''"
    and "d_targets d = [r]" and "tr_group r = g" and "tr_status r = TargetDraining"
    and "tbl_get tg_id (d_tgs d) g = Some grp" and "0 \<le> sint w" and "sint w \<le> 1000"
    and "t = \<lparr> t_instance = None, t_nic = None, t_ip_ref = None,
           t_external = Some \<lparr> ext_address = a, ext_zone = Some z \<rparr>, t_weight = w \<rparr>"
  shows "TG_AddTargets g [(i, t)] d = Inr (0, d)"
proof -
  let ?n = "new_target_row g (d_now d) i t"
  have n: "tr_ext ?n = Some a" "tr_zone ?n = Some z" "target_ok ?n" "tr_group ?n = g"
    using assms(2,4,9-11) by (simp_all add: new_target_row_def splitTargetIdentity_def nullableStr_def
        opt_string_def target_ok_def target_checks_def)
  have "\<not> reactivates ?n r" using n assms(3) by (auto simp: reactivates_def same_columns_def)
  moreover have "first_violation (target_uniques (d_targets d) ?n) \<noteq> None"
    unfolding target_uniques_ok using n assms(1,5,6) by (simp add: target_conflict_def)
  moreover have "sql_guard ''23514'' (target_checks ?n) = Inr ()"
    using n(3) by (simp add: target_ok_def)
  ultimately have "add_one_target ?n d = Inr (False, d)"
    using assms(5) by (simp add: add_one_target_def insert_target_nothing_def)
  then show ?thesis
    using assms(5,6,8) by (simp add: TG_AddTargets_def group_targets_def MaxTargetsPerGroup_def)
qed


definition sample_external :: "string \<Rightarrow> target" where
  "sample_external z = \<lparr> t_instance = None, t_nic = None, t_ip_ref = None,
     t_external = Some \<lparr> ext_address = ''8.8.8.8'', ext_zone = Some z \<rparr>, t_weight = 1 \<rparr>"

theorem external_zone_readd_lost_witness:
  "TG_AddTargets ''tgr1'' [(''tgt2'', sample_external ''z2'')]
     (sample_tg_db \<lparr> d_targets := [(new_target_row ''tgr1'' 0 ''tgt1'' (sample_external ''z1''))
                     \<lparr> tr_status := TargetDraining, tr_drain := Some 10 \<rparr>] \<rparr>)
   = Inr (0, sample_tg_db \<lparr> d_targets := [(new_target_row ''tgr1'' 0 ''tgt1'' (sample_external ''z1''))
                     \<lparr> tr_status := TargetDraining, tr_drain := Some 10 \<rparr>] \<rparr>)"
  by (rule external_zone_readd_lost [where a = "''8.8.8.8''" and z = "''z2''" and w = 1
        and grp = "new_tg_row (empty_db \<lparr> d_tx := 1 \<rparr>) sample_tg"
        and r = "(new_target_row ''tgr1'' 0 ''tgt1'' (sample_external ''z1''))
                     \<lparr> tr_status := TargetDraining, tr_drain := Some 10 \<rparr>"])
     (simp_all add: sample_tg_db_def sample_external_def new_target_row_def splitTargetIdentity_def
        nullableStr_def opt_string_def new_tg_row_def sample_tg_def NewTargetGroup_def
        target_group.defs)

lemma update_tg_returning_Inr:
  assumes "update_tg_returning me i f d = Inr (r', d')" and "\<And>r. tg_id (f r) = tg_id r"
  shows "\<exists>r. tbl_get tg_id (d_tgs d) i = Some r \<and> r' = (f r) \<lparr> tg_xmin := d_tx d \<rparr>"
    and "d' = d \<lparr> d_tgs := tbl_upd tg_id i (\<lambda>r. (f r) \<lparr> tg_xmin := d_tx d \<rparr>) (d_tgs d) \<rparr>"
  using assms by (auto simp: update_tg_returning_def update_tg_def Let_def tbl_get_upd
      split: option.splits)

lemma TG_SetStatusCAS_Inr:
  assumes "TG_SetStatusCAS i a b d = Inr (r', d')"
  shows "\<exists>r. tbl_get tg_id (d_tgs d) i = Some r \<and> tg_status r = a
      \<and> r' = r \<lparr> tg_status := b, tg_updated := d_now d, tg_xmin := d_tx d \<rparr>"
    and "d' = d \<lparr> d_tgs :=
      tbl_upd tg_id i (\<lambda>r. r \<lparr> tg_status := b, tg_updated := d_now d, tg_xmin := d_tx d \<rparr>) (d_tgs d) \<rparr>"
proof -
  obtain r where r: "tbl_get tg_id (d_tgs d) i = Some r" "tg_status r = a"
    and u: "update_tg_returning (\<lambda>e. mapPgErr e ''TargetGroup'' i) i
       (\<lambda>r. r \<lparr> tg_status := b, tg_updated := d_now d \<rparr>) d = Inr (r', d')"
    using assms unfolding TG_SetStatusCAS_def Let_def
    by (cases "tbl_get tg_id (d_tgs d) i") (auto split: if_splits)
  show "\<exists>r. tbl_get tg_id (d_tgs d) i = Some r \<and> tg_status r = a
      \<and> r' = r \<lparr> tg_status := b, tg_updated := d_now d, tg_xmin := d_tx d \<rparr>"
    using update_tg_returning_Inr(1) [OF u] r by auto
  show "d' = d \<lparr> d_tgs :=
      tbl_upd tg_id i (\<lambda>r. r \<lparr> tg_status := b, tg_updated := d_now d, tg_xmin := d_tx d \<rparr>) (d_tgs d) \<rparr>"
    using update_tg_returning_Inr(2) [OF u] by simp
qed

lemma TG_Update_Inr:
  assumes "TG_Update g v d = Inr (r', d')"
  shows "\<exists>r. tbl_get tg_id (d_tgs d) (tg_id g) = Some r \<and> tg_xmin r = v \<and> tg_xmin r' = d_tx d
      \<and> tg_project r' = tg_project r \<and> tg_region r' = tg_region r \<and> tg_status r' = tg_status r"
    and "tbl_get tg_id (d_tgs d') (tg_id g) = Some r'" and "\<exists>t. d' = d \<lparr> d_tgs := t \<rparr>"
proof -
  let ?f = "\<lambda>r. r \<lparr> tg_name := tg_name g, tg_description := tg_description g,
      tg_labels := tg_labels g, tg_health := tg_health g, tg_dereg := tg_dereg g,
      tg_slow := tg_slow g, tg_updated := d_now d \<rparr>"
  obtain r where r: "tbl_get tg_id (d_tgs d) (tg_id g) = Some r" "tg_xmin r = v"
    and u: "update_tg_returning (\<lambda>e. mapPgErr e ''TargetGroup'' (tg_id g)) (tg_id g) ?f d = Inr (r', d')"
    using assms unfolding TG_Update_def
    by (cases "tbl_get tg_id (d_tgs d) (tg_id g)") (auto split: if_splits)
  note upd = update_tg_returning_Inr [OF u]
  show "\<exists>r. tbl_get tg_id (d_tgs d) (tg_id g) = Some r \<and> tg_xmin r = v \<and> tg_xmin r' = d_tx d
      \<and> tg_project r' = tg_project r \<and> tg_region r' = tg_region r \<and> tg_status r' = tg_status r"
    using upd(1) r by auto
  show "tbl_get tg_id (d_tgs d') (tg_id g) = Some r'" and "\<exists>t. d' = d \<lparr> d_tgs := t \<rparr>"
    using upd r by (auto simp: tbl_get_upd)
qed

interpretation tg_cas: status_cas "\<lambda>d :: db. tbl_get tg_id (d_tgs d)" tg_status TG_SetStatusCAS
proof
  fix i a b r and d d' :: db
  assume h: "TG_SetStatusCAS i a b d = Inr (r, d')"
  note s = TG_SetStatusCAS_Inr [OF h]
  show "(\<exists>r0. tbl_get tg_id (d_tgs d) i = Some r0 \<and> tg_status r0 = a)
      \<and> tbl_get tg_id (d_tgs d') i = Some r \<and> tg_status r = b"
    using s by (auto simp: tbl_get_upd)
  show "j \<noteq> i \<Longrightarrow> tbl_get tg_id (d_tgs d') j = tbl_get tg_id (d_tgs d) j" for j
    using s by (auto simp: tbl_get_upd)
next
  fix i a b and d :: db
  assume "\<forall>r. tbl_get tg_id (d_tgs d) i = Some r \<longrightarrow> tg_status r \<noteq> a"
  then show "\<exists>e. TG_SetStatusCAS i a b d = Inl e"
    by (cases "tbl_get tg_id (d_tgs d) i") (auto simp: TG_SetStatusCAS_def Let_def)
qed

interpretation tg_occ: version_guard "\<lambda>d :: db. tbl_get tg_id (d_tgs d)" tg_xmin d_tx
  "tg_id :: target_group \<Rightarrow> string" TG_Update
proof
  fix u :: target_group and v r and d d' :: db
  assume h: "TG_Update u v d = Inr (r, d')"
  show "(\<exists>r0. tbl_get tg_id (d_tgs d) (tg_id u) = Some r0 \<and> tg_xmin r0 = v)
      \<and> tbl_get tg_id (d_tgs d') (tg_id u) = Some r \<and> tg_xmin r = d_tx d"
    using TG_Update_Inr(1,2) [OF h] by auto
next
  fix d :: db and u :: target_group and r0 v
  assume "tbl_get tg_id (d_tgs d) (tg_id u) = Some r0" and "tg_xmin r0 \<noteq> v"
  then show "\<exists>e. TG_Update u v d = Inl e" by (auto simp: TG_Update_def)
qed



end
