(* ===== verification/Lb_Vip_Source.thy ===== *)
theory Lb_Vip_Source
  imports Repo_Target_Groups
begin

text \<open>
  The synchronous checks of a load balancer's creation (\<^verbatim>\<open>api/loadbalancer/vip_source.go\<close>,
  \<^verbatim>\<open>enum_mapping.go\<close>, \<^verbatim>\<open>zones.go\<close>, \<^verbatim>\<open>peer_errors.go\<close> and the resolvers of \<^verbatim>\<open>create.go\<close>): from the
  request's VIP sources to one resolved source per family. The peers (network, geography,
  identity services) are functions, a missing client is \<open>None\<close>; \<open>p_valid_id\<close> is the library's check of
  an identifier of the named kind.
\<close>

subsection \<open>Peers\<close>

record vpc_subnet =
  sn_network :: string
  sn_zone :: string
  sn_region :: string
  sn_placement :: string

record vpc_address =
  ad_project :: string
  ad_family :: string
  ad_external :: bool
  ad_subnet :: string

record peers =
  p_valid_id :: "string \<Rightarrow> string \<Rightarrow> err option"
  p_project :: "(string \<Rightarrow> err + unit) option"
  p_region :: "(string \<Rightarrow> err + unit) option"
  p_zones :: "(string \<Rightarrow> err + string list) option"
  p_subnet :: "(string \<Rightarrow> err + vpc_subnet) option"
  p_address :: "(string \<Rightarrow> err + vpc_address) option"
  p_check :: "(string \<Rightarrow> string \<Rightarrow> string \<Rightarrow> err + bool) option"

definition SubnetPlacementRegional :: string where
  "SubnetPlacementRegional = ''REGIONAL''"

definition bad_request :: "string \<Rightarrow> err" where
  "bad_request m = Status CodeInvalidArgument m"

subsection \<open>Errors of peers\<close>

definition subnetRegionMatches :: "vpc_subnet \<Rightarrow> string \<Rightarrow> bool" where
  "subnetRegionMatches sn region \<longleftrightarrow> sn_region sn = '''' \<or> sn_region sn = region"

definition subnetRegionCoherent :: "vpc_subnet \<Rightarrow> string \<Rightarrow> err + unit" where
  "subnetRegionCoherent sn region =
     (if \<not> subnetRegionMatches sn region
      then Inl (bad_request ''load balancer vip subnet must be in the same region as the load balancer'')
      else Inr ())"

fun subnetPlacementMatches :: "string \<Rightarrow> placement_type \<Rightarrow> bool" where
  "subnetPlacementMatches sp PlacementRegional \<longleftrightarrow> sp = SubnetPlacementRegional"
| "subnetPlacementMatches sp PlacementZonal \<longleftrightarrow> sp \<noteq> SubnetPlacementRegional \<and> sp \<noteq> ''''"
| "subnetPlacementMatches sp PlacementUnspecified \<longleftrightarrow> False"

definition allocAcquireErr :: "err \<Rightarrow> err" where
  "allocAcquireErr e =
     (if is_err e ErrUnavailable
      then Status CodeUnavailable ''load balancer address allocation unavailable''
      else Status CodeFailedPrecondition ''could not allocate load balancer address'')"

definition linkAcquireErr :: "err \<Rightarrow> err" where
  "linkAcquireErr e =
     (if is_err e ErrUnavailable then Status CodeUnavailable ''address lookup unavailable''
      else Status CodeFailedPrecondition ''Illegal argument addressId'')"

definition zonePeerErr :: "err \<Rightarrow> err" where
  "zonePeerErr e =
     (if is_err e ErrUnavailable then Status CodeUnavailable ''zone lookup unavailable''
      else bad_request ''Illegal argument disabledAnnounceZones'')"

definition subnetPeerErr :: "err \<Rightarrow> string \<Rightarrow> err" where
  "subnetPeerErr e i =
     (if is_err e ErrNotFound \<or> is_err e ErrInvalidArg
        then bad_request (''subnet '' @ i @ '' not found'')
      else if is_err e ErrUnavailable then Status CodeUnavailable ''subnet lookup unavailable''
      else Status CodeInternal ''subnet lookup failed'')"

definition linkedAddressErr :: "err \<Rightarrow> err" where
  "linkedAddressErr e =
     (if is_err e ErrNotFound \<or> is_err e ErrInvalidArg then bad_request ''Illegal argument addressId''
      else if is_err e ErrUnavailable then Status CodeUnavailable ''address lookup unavailable''
      else Status CodeInternal ''address lookup failed'')"

subsection \<open>Enumerations of the wire\<close>

text \<open>Proto enumerations are open: a value without a name is possible.\<close>

datatype pb_type = PbTypeUnspecified | PbExternal | PbInternal | PbTypeOther int
datatype pb_placement = PbPlacementUnspecified | PbZonal | PbRegional | PbPlacementOther int
datatype pb_affinity = PbAffinityUnspecified | PbFiveTuple | PbClientIpOnly | PbAffinityOther string

definition lbTypeFromPb :: "pb_type \<Rightarrow> err + lb_type" where
  "lbTypeFromPb t =
     (case t of PbExternal \<Rightarrow> Inr LBTypeExternal | PbInternal \<Rightarrow> Inr LBTypeInternal
      | _ \<Rightarrow> Inl (err_invalid_arg ''type'' ''type must be one of: EXTERNAL, INTERNAL''))"

definition domainSessionAffinity :: "pb_affinity \<Rightarrow> string" where
  "domainSessionAffinity a =
     (case a of PbAffinityUnspecified \<Rightarrow> SessionAffinity5Tuple
      | PbFiveTuple \<Rightarrow> SessionAffinity5Tuple
      | PbClientIpOnly \<Rightarrow> SessionAffinityClientIPOnly
      | PbAffinityOther s \<Rightarrow> s)"

definition lbSessionAffinityFromPb :: "pb_affinity \<Rightarrow> err + string" where
  "lbSessionAffinityFromPb a =
     (let sa = domainSessionAffinity a in
      if SessionAffinity_Validate sa \<noteq> [] then Inl (Violations (SessionAffinity_Validate sa))
      else Inr sa)"

definition resolvePlacement :: "lb_type \<Rightarrow> pb_placement \<Rightarrow> err + placement_type" where
  "resolvePlacement ty pb =
     (if ty = LBTypeInternal then
        (case pb of PbZonal \<Rightarrow> Inr PlacementZonal | PbRegional \<Rightarrow> Inr PlacementRegional
         | _ \<Rightarrow> Inl (bad_request ''placement_type is required for INTERNAL load balancer''))
      else if pb \<noteq> PbPlacementUnspecified
        then Inl (bad_request ''placement_type is only valid for INTERNAL load balancer'')
      else Inr PlacementUnspecified)"

subsection \<open>Sources\<close>

datatype source_kind = SrcSubnetAuto | SrcPublicAuto | SrcAddressLink

text \<open>The oneof of a request's source; a message without a source set is \<open>SourceUnset\<close>.\<close>

datatype pb_source = SourceUnset | SourceSubnetId string | SourceAddressId string | SourcePublic

record vip_spec =
  fs_family :: string
  fs_kind :: source_kind
  fs_subnet :: string
  fs_address :: string
  fs_network :: string
  fs_zone :: string

definition new_spec :: "string \<Rightarrow> source_kind \<Rightarrow> vip_spec" where
  "new_spec family kind = \<lparr> fs_family = family, fs_kind = kind, fs_subnet = '''',
     fs_address = '''', fs_network = '''', fs_zone = '''' \<rparr>"

definition add_source :: "peers \<Rightarrow> string \<Rightarrow> pb_source option \<Rightarrow> vip_spec list \<Rightarrow> err + vip_spec list" where
  "add_source p family src out =
     (case src of
        None \<Rightarrow> Inr out
      | Some SourceUnset \<Rightarrow> Inr out
      | Some (SourceSubnetId i) \<Rightarrow>
          (case p_valid_id p ''subnet'' i of Some e \<Rightarrow> Inl e
           | None \<Rightarrow> Inr (out @ [(new_spec family SrcSubnetAuto) \<lparr> fs_subnet := i \<rparr>]))
      | Some (SourceAddressId i) \<Rightarrow>
          (case p_valid_id p ''address'' i of Some e \<Rightarrow> Inl e
           | None \<Rightarrow> Inr (out @ [(new_spec family SrcAddressLink) \<lparr> fs_address := i \<rparr>]))
      | Some SourcePublic \<Rightarrow> Inr (out @ [new_spec family SrcPublicAuto]))"

definition resolveVipSources ::
  "peers \<Rightarrow> pb_source option \<Rightarrow> pb_source option \<Rightarrow> err + vip_spec list" where
  "resolveVipSources p v4 v6 =
     attempt (add_source p IPVersionV4 v4 []) (\<lambda>out.
     attempt (add_source p IPVersionV6 v6 out) (\<lambda>out.
       if length out = 0
       then Inl (bad_request ''load balancer must declare a vip source for at least one ip family'')
       else Inr out))"

definition source_type_check :: "lb_type \<Rightarrow> vip_spec \<Rightarrow> err + unit" where
  "source_type_check ty fs =
     (case fs_kind fs of
        SrcSubnetAuto \<Rightarrow> if ty \<noteq> LBTypeInternal
          then Inl (bad_request ''subnet address source is only valid for INTERNAL load balancer'') else Inr ()
      | SrcPublicAuto \<Rightarrow> if ty \<noteq> LBTypeExternal
          then Inl (bad_request ''public address source is only valid for EXTERNAL load balancer'') else Inr ()
      | SrcAddressLink \<Rightarrow> Inr ())"

definition validateSourceTypeMatrix :: "vip_spec list \<Rightarrow> lb_type \<Rightarrow> err + unit" where
  "validateSourceTypeMatrix specs ty = each (source_type_check ty) specs"

definition familiesFromSpecs :: "vip_spec list \<Rightarrow> string list" where
  "familiesFromSpecs specs = map fs_family specs"

subsection \<open>Zones\<close>

fun normalize_from :: "string list \<Rightarrow> string list \<Rightarrow> string list" where
  "normalize_from seen [] = []"
| "normalize_from seen (z # zs) =
     (if z = '''' then normalize_from seen zs
      else if z \<in> set seen then normalize_from seen zs
      else z # normalize_from (z # seen) zs)"

definition normalizeZones :: "string list \<Rightarrow> string list" where
  "normalizeZones zones = normalize_from [] zones"

definition checkDisabledAnnounceZones ::
  "peers \<Rightarrow> placement_type \<Rightarrow> string \<Rightarrow> string list \<Rightarrow> err + unit" where
  "checkDisabledAnnounceZones p placement region zones =
     (if length zones = 0 then Inr ()
      else if placement \<noteq> PlacementRegional
        then Inl (bad_request ''disabled_announce_zones is only valid for REGIONAL load balancer'')
      else case p_zones p of None \<Rightarrow> Inr () | Some list_zones \<Rightarrow>
        attempt (mapping_err zonePeerErr (list_zones region)) (\<lambda>regionZones.
        attempt (each (\<lambda>z. if z \<notin> set regionZones
                   then Inl (bad_request (''zone '' @ z @ '' is not in region '' @ region))
                   else Inr ()) zones) (\<lambda>_.
          if length regionZones > 0 \<and> length (remdups zones) \<ge> length (remdups regionZones)
          then Inl (bad_request ''disabled_announce_zones must not cover all zones of the region'')
          else Inr ())))"

subsection \<open>Resolving the sources\<close>

definition illegal_address :: err where
  "illegal_address = bad_request ''Illegal argument addressId''"

definition resolveLinkedAddress ::
  "peers \<Rightarrow> 'a load_balancer_scheme \<Rightarrow> vip_spec \<Rightarrow> err + vip_spec" where
  "resolveLinkedAddress p lb fs =
     (case p_address p of None \<Rightarrow> Inr fs | Some get_address \<Rightarrow>
        attempt (mapping_err linkedAddressErr (get_address (fs_address fs))) (\<lambda>addr.
          let internalWanted = (lb_type lb = LBTypeInternal) in
          if ad_project addr \<noteq> lb_project lb \<or> ad_family addr \<noteq> fs_family fs
             \<or> ad_external addr = internalWanted
          then Inl illegal_address
          else if \<not> internalWanted then Inr fs
          else case p_subnet p of None \<Rightarrow> Inr fs | Some get_subnet \<Rightarrow>
            (case get_subnet (ad_subnet addr) of
               Inl e \<Rightarrow> if is_err e ErrUnavailable
                        then Inl (Status CodeUnavailable ''subnet lookup unavailable'')
                        else Inl illegal_address
             | Inr sn \<Rightarrow>
                 if \<not> subnetPlacementMatches (sn_placement sn) (lb_placement lb) then Inl illegal_address
                 else if \<not> subnetRegionMatches sn (lb_region lb) then Inl illegal_address
                 else Inr (fs \<lparr> fs_network := sn_network sn, fs_zone := sn_zone sn \<rparr>))))"

definition resolveOneSource :: "peers \<Rightarrow> 'a load_balancer_scheme \<Rightarrow> vip_spec \<Rightarrow> err + vip_spec" where
  "resolveOneSource p lb fs =
     (case fs_kind fs of
        SrcSubnetAuto \<Rightarrow>
          (case p_subnet p of None \<Rightarrow> Inr fs | Some get_subnet \<Rightarrow>
             attempt (mapping_err (\<lambda>e. subnetPeerErr e (fs_subnet fs)) (get_subnet (fs_subnet fs))) (\<lambda>sn.
               if \<not> subnetPlacementMatches (sn_placement sn) (lb_placement lb)
               then Inl (bad_request ''subnet placement does not match load balancer placement'')
               else attempt (subnetRegionCoherent sn (lb_region lb)) (\<lambda>_.
                 Inr (fs \<lparr> fs_network := sn_network sn, fs_zone := sn_zone sn \<rparr>))))
      | SrcPublicAuto \<Rightarrow> Inr fs
      | SrcAddressLink \<Rightarrow> resolveLinkedAddress p lb fs)"

fun resolve_each :: "peers \<Rightarrow> 'a load_balancer_scheme \<Rightarrow> vip_spec list \<Rightarrow> err + vip_spec list" where
  "resolve_each p lb [] = Inr []"
| "resolve_each p lb (fs # rest) =
     attempt (resolveOneSource p lb fs) (\<lambda>fs'.
     attempt (resolve_each p lb rest) (\<lambda>rest'. Inr (fs' # rest')))"

text \<open>The two dual-stack loops: the first non-empty value is the one the others must equal.\<close>

fun same_nonempty :: "string \<Rightarrow> string list \<Rightarrow> bool" where
  "same_nonempty cur [] = True"
| "same_nonempty cur (x # xs) =
     (if x = '''' then same_nonempty cur xs
      else if cur = '''' then same_nonempty x xs
      else if x \<noteq> cur then False
      else same_nonempty cur xs)"

definition resolveSources ::
  "peers \<Rightarrow> 'a load_balancer_scheme \<Rightarrow> vip_spec list \<Rightarrow> err + vip_spec list" where
  "resolveSources p lb specs =
     attempt (resolve_each p lb specs) (\<lambda>specs.
       if \<not> same_nonempty '''' (map fs_network specs)
       then Inl (bad_request ''dualstack load balancer families must resolve to the same network'')
       else if lb_placement lb = PlacementZonal \<and> \<not> same_nonempty '''' (map fs_zone specs)
       then Inl (bad_request ''dualstack load balancer families must resolve to the same zone'')
       else Inr specs)"

subsection \<open>Facts\<close>

lemma set_normalize_from: "set (normalize_from seen zs) = set zs - set seen - {''''}"
  by (induction seen zs rule: normalize_from.induct) auto

lemma distinct_normalize_from: "distinct (normalize_from seen zs)"
  by (induction seen zs rule: normalize_from.induct) (auto simp: set_normalize_from)

lemma normalize_from_id:
  "distinct zs \<Longrightarrow> '''' \<notin> set zs \<Longrightarrow> set zs \<inter> set seen = {} \<Longrightarrow> normalize_from seen zs = zs"
  by (induction seen zs rule: normalize_from.induct) auto

lemma same_nonempty_iff:
  "same_nonempty cur xs \<longleftrightarrow>
     (\<exists>v. (cur \<noteq> '''' \<longrightarrow> cur = v) \<and> (\<forall>x \<in> set xs. x = '''' \<or> x = v))"
  by (induction cur xs rule: same_nonempty.induct) (auto split: if_splits)

lemma resolve_each_forall2:
  "resolve_each p lb specs = Inr out \<longleftrightarrow> list_all2 (\<lambda>s r. resolveOneSource p lb s = Inr r) specs out"
  by (induction specs arbitrary: out) (auto simp: list_all2_Cons1)

definition at_subnet :: "vip_spec \<Rightarrow> vpc_subnet \<Rightarrow> vip_spec" where
  "at_subnet fs sn = fs \<lparr> fs_network := sn_network sn, fs_zone := sn_zone sn \<rparr>"

lemma resolveLinkedAddress_cases:
  assumes "resolveLinkedAddress p lb s = Inr r"
  obtains "r = s" | sn where "r = at_subnet s sn"
proof (cases "p_address p")
  case None
  with assms that show ?thesis by (simp add: resolveLinkedAddress_def)
next
  case (Some f)
  then obtain ad where ad: "f (fs_address s) = Inr ad"
    using assms by (auto simp: resolveLinkedAddress_def)
  show ?thesis
  proof (cases "lb_type lb = LBTypeInternal \<and> p_subnet p \<noteq> None")
    case False
    with assms Some ad that show ?thesis
      by (auto simp: resolveLinkedAddress_def Let_def split: if_splits)
  next
    case True
    then obtain g where g: "p_subnet p = Some g" by auto
    with assms Some ad True that show ?thesis
      by (cases "g (ad_subnet ad)")
         (auto simp: resolveLinkedAddress_def Let_def at_subnet_def split: if_splits)
  qed
qed

lemma resolveOneSource_kept:
  assumes "resolveOneSource p lb s = Inr r"
  shows "fs_family r = fs_family s \<and> fs_kind r = fs_kind s \<and> fs_subnet r = fs_subnet s
    \<and> fs_address r = fs_address s"
proof (cases "fs_kind s")
  case SrcSubnetAuto
  with assms show ?thesis by (cases "p_subnet p") (auto simp: resolveOneSource_def split: if_splits)
next
  case SrcPublicAuto
  with assms show ?thesis by (simp add: resolveOneSource_def)
next
  case SrcAddressLink
  with assms have "resolveLinkedAddress p lb s = Inr r" by (simp add: resolveOneSource_def)
  then show ?thesis by (rule resolveLinkedAddress_cases) (auto simp: at_subnet_def)
qed

text \<open>Normalising the drained zones drops the empty names and the repetitions, keeps every
  other zone in its first position, and does nothing the second time.\<close>

theorem normalizeZones_correct:
  "set (normalizeZones zs) = set zs - {''''} \<and> distinct (normalizeZones zs)
   \<and> normalizeZones (normalizeZones zs) = normalizeZones zs
   \<and> (distinct zs \<and> '''' \<notin> set zs \<longrightarrow> normalizeZones zs = zs)"
  by (simp add: normalizeZones_def set_normalize_from distinct_normalize_from normalize_from_id)

theorem normalizeZones_correct_witness:
  "normalizeZones [''b'', ''a''] = [''b'', ''a''] \<and> normalizeZones [''b'', '''', ''b''] = [''b'']"
  using normalizeZones_correct [of "[''b'', ''a'']"] by (simp add: normalizeZones_def)

lemma each_zone_ok:
  "each (\<lambda>z. if z \<notin> A then Inl (e z) else Inr ()) zones = Inr u \<longleftrightarrow> set zones \<subseteq> A"
  by (auto simp: each_Inr split: if_splits)

text \<open>A non-empty set of drained zones is accepted only for a regional load balancer, only with
  zones of its region, and only when at least one zone of the region goes on announcing.\<close>

theorem drained_zones_proper:
  assumes "checkDisabledAnnounceZones p placement region zones = Inr ()" and "zones \<noteq> []"
    and "p_zones p = Some list_zones" and "list_zones region = Inr rz"
  shows "placement = PlacementRegional \<and> set zones \<subset> set rz"
proof -
  have pl: "placement = PlacementRegional" and sub: "set zones \<subseteq> set rz"
    and len: "length (remdups zones) < length (remdups rz) \<or> rz = []"
    using assms by (auto simp: checkDisabledAnnounceZones_def each_zone_ok split: if_splits)
  have "rz \<noteq> []" using sub assms(2) by auto
  then have "card (set zones) < card (set rz)" using len by (simp add: length_remdups_card_conv)
  then have "set zones \<noteq> set rz" by auto
  with pl sub show ?thesis by blast
qed

definition sample_peers :: peers where
  "sample_peers = \<lparr> p_valid_id = (\<lambda>_ _. None), p_project = Some (\<lambda>_. Inr ()),
     p_region = Some (\<lambda>_. Inr ()), p_zones = Some (\<lambda>_. Inr [''z1'', ''z2'']),
     p_subnet = Some (\<lambda>i. Inr \<lparr> sn_network = ''net1'', sn_zone = '''', sn_region = ''r1'',
                             sn_placement = ''REGIONAL'' \<rparr>),
     p_address = Some (\<lambda>i. Inr \<lparr> ad_project = ''p1'', ad_family = ''IPV6'', ad_external = False,
                              ad_subnet = ''sub2'' \<rparr>),
     p_check = None \<rparr>"

theorem drained_zones_proper_witness:
  "checkDisabledAnnounceZones sample_peers PlacementRegional ''r1'' [''z1''] = Inr ()
   \<and> set [''z1''] \<subset> set [''z1'', ''z2'']"
proof
  show ok: "checkDisabledAnnounceZones sample_peers PlacementRegional ''r1'' [''z1''] = Inr ()"
    by (simp add: sample_peers_def checkDisabledAnnounceZones_def)
  show "set [''z1''] \<subset> set [''z1'', ''z2'']"
    using drained_zones_proper [OF ok, of "\<lambda>_. Inr [''z1'', ''z2'']" "[''z1'', ''z2'']"]
    by (simp add: sample_peers_def)
qed

text \<open>C36: the accepted sources: at least one, at most one for each family, in the order IPv4, IPv6,
  with the kind the request names; the type, the placement and the kinds agree (a subnet source
  and a placement only for an internal load balancer, a public source only for an external
  one).\<close>

theorem request_matrix:
  assumes "resolvePlacement ty pb = Inr pl" and "resolveVipSources p v4 v6 = Inr specs"
    and "validateSourceTypeMatrix specs ty = Inr ()"
  shows "familiesFromSpecs specs \<in> {[IPVersionV4], [IPVersionV6], [IPVersionV4, IPVersionV6]}
    \<and> (ty = LBTypeInternal \<longleftrightarrow> pl \<in> {PlacementZonal, PlacementRegional})
    \<and> (\<forall>s \<in> set specs. (fs_kind s = SrcSubnetAuto \<longrightarrow> ty = LBTypeInternal)
          \<and> (fs_kind s = SrcPublicAuto \<longrightarrow> ty = LBTypeExternal))"
proof -
  have one: "add_source p fam src out = Inr out' \<Longrightarrow>
      out' = out \<or> (\<exists>s. out' = out @ [s] \<and> fs_family s = fam)" for fam src out out'
    by (cases src; cases "the src") (auto simp: add_source_def new_spec_def split: option.splits)
  obtain out where "add_source p IPVersionV4 v4 [] = Inr out"
    and "add_source p IPVersionV6 v6 out = Inr specs" and "specs \<noteq> []"
    using assms(2) by (auto simp: resolveVipSources_def split: if_splits)
  then have "familiesFromSpecs specs \<in> {[IPVersionV4], [IPVersionV6], [IPVersionV4, IPVersionV6]}"
    by (auto simp: familiesFromSpecs_def dest!: one)
  moreover have "ty = LBTypeInternal \<longleftrightarrow> pl \<in> {PlacementZonal, PlacementRegional}"
    using assms(1) by (cases ty; cases pb) (auto simp: resolvePlacement_def)
  moreover have "(fs_kind s = SrcSubnetAuto \<longrightarrow> ty = LBTypeInternal)
      \<and> (fs_kind s = SrcPublicAuto \<longrightarrow> ty = LBTypeExternal)" if "s \<in> set specs" for s
    using assms(3) that unfolding validateSourceTypeMatrix_def each_Inr
    by (auto simp: source_type_check_def split: if_splits dest!: bspec)
  ultimately show ?thesis by blast
qed

theorem request_matrix_witness:
  "\<exists>specs. resolveVipSources sample_peers (Some (SourceSubnetId ''sub1'')) (Some (SourceAddressId ''adr1''))
       = Inr specs
     \<and> familiesFromSpecs specs \<in> {[IPVersionV4], [IPVersionV6], [IPVersionV4, IPVersionV6]}"
  using request_matrix [of LBTypeInternal PbRegional PlacementRegional sample_peers
      "Some (SourceSubnetId ''sub1'')" "Some (SourceAddressId ''adr1'')"]
  by (simp add: resolvePlacement_def resolveVipSources_def add_source_def sample_peers_def
      validateSourceTypeMatrix_def source_type_check_def new_spec_def)




end
