(* ===== verification/Sagas.thy ===== *)
theory Sagas
  imports Lb_Vip_Source
begin

text \<open>
  The world a worker runs in (\<^verbatim>\<open>repo/kacho/pg/repository.go\<close> for the transactions,
  \<^verbatim>\<open>clients/vpc\<close> for the address client): the database, the state of the network service, what
  befalls each transaction, and a record of the calls made to the network service with their
  answers (the address in the answer to an allocation or an attachment).

  A worker is a sequence of transactions and remote calls. Between two of its transactions the
  rest of the system runs: the slot of a transaction holds what the others did to the database
  before it (any change) and whether the connection fails: before the commit, in the commit, or
  after it with the acknowledgement lost.
\<close>

datatype fault = NoFault | FailBefore err | FailCommit err | LostAck err

record slot =
  sl_others :: "db \<Rightarrow> db"
  sl_fault :: fault

datatype vpc_call =
  CallAllocateInternal string string string
| CallAllocateExternal string string string
| CallAttach string
| CallFree string
| CallClear string

record 'v world =
  w_db :: db
  w_vpc :: 'v
  w_slots :: "slot list"
  w_calls :: "(vpc_call \<times> (err + string)) list"

definition quiet :: slot where
  "quiet = \<lparr> sl_others = (\<lambda>d. d), sl_fault = NoFault \<rparr>"

definition next_slot :: "'v world \<Rightarrow> slot" where
  "next_slot w = (case w_slots w of [] \<Rightarrow> quiet | s # _ \<Rightarrow> s)"

text \<open>The database a transaction starts from: what the others left, with a new transaction
  identifier.\<close>

definition begin_tx :: "'v world \<Rightarrow> db" where
  "begin_tx w = (let d = sl_others (next_slot w) (w_db w) in d \<lparr> d_tx := Suc (d_tx d) \<rparr>)"

definition settle :: "'v world \<Rightarrow> db \<Rightarrow> 'v world" where
  "settle w d = w \<lparr> w_db := d, w_slots := drop 1 (w_slots w) \<rparr>"

type_synonym ('v, 'a) saga = "'v world \<Rightarrow> (err + 'a) \<times> 'v world"

text \<open>A writer transaction: \<^verbatim>\<open>Writer\<close>, the body, \<^verbatim>\<open>Commit\<close>, with \<^verbatim>\<open>Abort\<close> deferred.\<close>

definition run_tx :: "'a tx \<Rightarrow> ('v, 'a) saga" where
  "run_tx body w =
     (let d = begin_tx w in
      case sl_fault (next_slot w) of
        FailBefore e \<Rightarrow> (Inl e, settle w d)
      | flt \<Rightarrow>
          (case body d of
             Inl e \<Rightarrow> (Inl e, settle w d)
           | Inr (x, d') \<Rightarrow>
               (case flt of FailCommit e \<Rightarrow> (Inl e, settle w d)
                | LostAck e \<Rightarrow> (Inl e, settle w d')
                | _ \<Rightarrow> (Inr x, settle w d'))))"

text \<open>A reader transaction.\<close>

definition run_read :: "(db \<Rightarrow> err + 'a) \<Rightarrow> ('v, 'a) saga" where
  "run_read body w =
     (let d = begin_tx w in
      case sl_fault (next_slot w) of
        FailBefore e \<Rightarrow> (Inl e, settle w d)
      | _ \<Rightarrow> (body d, settle w d))"

definition saga_return :: "'a \<Rightarrow> ('v, 'a) saga" where
  "saga_return x w = (Inr x, w)"

definition saga_fail :: "err \<Rightarrow> ('v, 'a) saga" where
  "saga_fail e w = (Inl e, w)"

definition saga_bind :: "('v, 'a) saga \<Rightarrow> ('a \<Rightarrow> ('v, 'b) saga) \<Rightarrow> ('v, 'b) saga" where
  "saga_bind m k w = (case m w of (Inl e, w') \<Rightarrow> (Inl e, w') | (Inr x, w') \<Rightarrow> k x w')"

definition saga_map_err :: "(err \<Rightarrow> err) \<Rightarrow> ('v, 'a) saga \<Rightarrow> ('v, 'a) saga" where
  "saga_map_err f m w = (case m w of (r, w') \<Rightarrow> (mapping_err f r, w'))"

text \<open>A pure check in a worker.\<close>

definition saga_check :: "err + 'a \<Rightarrow> ('v, 'a) saga" where
  "saga_check r w = (r, w)"

lemmas saga_defs = saga_return_def saga_fail_def saga_bind_def saga_map_err_def saga_check_def

subsection \<open>The address client\<close>

record address_owner =
  ow_kind :: string
  ow_id :: string
  ow_name :: string

record alloc_internal =
  ai_project :: string
  ai_name :: string
  ai_subnet :: string
  ai_owner :: address_owner

record alloc_external =
  ae_project :: string
  ae_name :: string
  ae_zone :: string
  ae_owner :: address_owner

record attach_request =
  ar_address :: string
  ar_owner :: address_owner
  ar_owned :: bool

record alloc_response =
  rs_address_id :: string
  rs_value :: string

record 'v address_client =
  AllocateInternalIP :: "alloc_internal \<Rightarrow> 'v \<Rightarrow> (err + alloc_response) \<times> 'v"
  AllocateInternalIPv6 :: "alloc_internal \<Rightarrow> 'v \<Rightarrow> (err + alloc_response) \<times> 'v"
  AllocateExternalIP :: "alloc_external \<Rightarrow> 'v \<Rightarrow> (err + alloc_response) \<times> 'v"
  AllocateExternalIPv6 :: "alloc_external \<Rightarrow> 'v \<Rightarrow> (err + alloc_response) \<times> 'v"
  AttachExisting :: "attach_request \<Rightarrow> 'v \<Rightarrow> (err + alloc_response) \<times> 'v"
  FreeIP :: "string \<Rightarrow> 'v \<Rightarrow> (err + unit) \<times> 'v"
  ClearReference :: "string \<Rightarrow> 'v \<Rightarrow> (err + unit) \<times> 'v"

text \<open>A call: the answer, the new state of the service, and a line in the record of calls.\<close>

definition vpc_do :: "vpc_call \<Rightarrow> ('a \<Rightarrow> string) \<Rightarrow> ('v \<Rightarrow> (err + 'a) \<times> 'v) \<Rightarrow> ('v, 'a) saga" where
  "vpc_do call shown f w =
     (case f (w_vpc w) of (r, v') \<Rightarrow>
        (r, w \<lparr> w_vpc := v', w_calls := w_calls w @
               [(call, case r of Inl e \<Rightarrow> Inl e | Inr x \<Rightarrow> Inr (shown x))] \<rparr>))"

definition call_free :: "'v address_client \<Rightarrow> string \<Rightarrow> ('v, unit) saga" where
  "call_free c a = vpc_do (CallFree a) (\<lambda>_. '''') (FreeIP c a)"

definition call_clear :: "'v address_client \<Rightarrow> string \<Rightarrow> ('v, unit) saga" where
  "call_clear c a = vpc_do (CallClear a) (\<lambda>_. '''') (ClearReference c a)"

definition call_attach :: "'v address_client \<Rightarrow> attach_request \<Rightarrow> ('v, alloc_response) saga" where
  "call_attach c rq = vpc_do (CallAttach (ar_address rq)) rs_address_id (AttachExisting c rq)"

definition call_internal ::
  "'v address_client \<Rightarrow> string \<Rightarrow> alloc_internal \<Rightarrow> ('v, alloc_response) saga" where
  "call_internal c family rq = vpc_do (CallAllocateInternal family (ai_name rq) (ai_subnet rq))
     rs_address_id ((if family = IPVersionV6 then AllocateInternalIPv6 c else AllocateInternalIP c) rq)"

definition call_external ::
  "'v address_client \<Rightarrow> string \<Rightarrow> alloc_external \<Rightarrow> ('v, alloc_response) saga" where
  "call_external c family rq = vpc_do (CallAllocateExternal family (ae_name rq) (ae_zone rq))
     rs_address_id ((if family = IPVersionV6 then AllocateExternalIPv6 c else AllocateExternalIP c) rq)"

subsection \<open>Facts\<close>

lemma settle_simps [simp]:
  "w_db (settle w d) = d" "w_vpc (settle w d) = w_vpc w" "w_calls (settle w d) = w_calls w"
  "w_slots (settle w d) = drop 1 (w_slots w)"
  by (simp_all add: settle_def)

text \<open>A transaction either does nothing to the database it starts from or runs its body to the end,
  and only the second case can report success.\<close>

lemma run_tx_cases:
  assumes "run_tx body w = (r, w')"
  shows "(\<exists>e. r = Inl e) \<and> w' = settle w (begin_tx w)
    \<or> (\<exists>x d'. body (begin_tx w) = Inr (x, d') \<and> w' = settle w d' \<and> (r = Inr x \<or> (\<exists>e. r = Inl e)))"
  using assms
  by (cases "sl_fault (next_slot w)"; cases "body (begin_tx w)")
     (auto simp: run_tx_def Let_def split: prod.splits)

lemma run_tx_Inr:
  assumes "run_tx body w = (Inr x, w')"
  shows "body (begin_tx w) = Inr (x, w_db w') \<and> w' = settle w (w_db w')"
  using run_tx_cases [OF assms] by auto

lemma run_tx_calls [simp]:
  "run_tx body w = (r, w') \<Longrightarrow> w_calls w' = w_calls w \<and> w_vpc w' = w_vpc w"
  using run_tx_cases [of body w r w'] by auto

lemma run_read_Inr:
  "run_read body w = (Inr x, w') \<Longrightarrow> body (begin_tx w) = Inr x \<and> w' = settle w (begin_tx w)"
  by (auto simp: run_read_def Let_def split: fault.splits)

lemma run_read_calls [simp]:
  "run_read body w = (r, w') \<Longrightarrow> w_calls w' = w_calls w \<and> w_vpc w' = w_vpc w"
  by (auto simp: run_read_def Let_def split: fault.splits)

lemma vpc_do_calls:
  "vpc_do call shown f w = (r, w') \<Longrightarrow>
   w_calls w' = w_calls w @ [(call, case r of Inl e \<Rightarrow> Inl e | Inr x \<Rightarrow> Inr (shown x))]
   \<and> w_db w' = w_db w \<and> w_slots w' = w_slots w"
  by (auto simp: vpc_do_def split: prod.splits)

text \<open>
  What a stretch of the record acquired: the addresses of the successful allocations (owned, origin
  auto) and attachments (linked), in order. \<open>releases\<close> is the matching stretch of a release: for
  each address, a linked one has its reference cleared; an owned one has its reference cleared
  and, if that went well, is freed.
\<close>

type_synonym call_log = "(vpc_call \<times> (err + string)) list"

fun acquired :: "call_log \<Rightarrow> (string \<times> vip_origin) list" where
  "acquired [] = []"
| "acquired ((CallAllocateInternal _ _ _, Inr a) # ls) = (a, VipOriginAuto) # acquired ls"
| "acquired ((CallAllocateExternal _ _ _, Inr a) # ls) = (a, VipOriginAuto) # acquired ls"
| "acquired ((CallAttach _, Inr a) # ls) = (a, VipOriginLinked) # acquired ls"
| "acquired (_ # ls) = acquired ls"

fun is_release :: "vpc_call \<Rightarrow> bool" where
  "is_release (CallFree _) = True"
| "is_release (CallClear _) = True"
| "is_release _ = False"

definition only_acquires :: "call_log \<Rightarrow> bool" where
  "only_acquires ls \<longleftrightarrow> list_all (\<lambda>(c, _). \<not> is_release c) ls"

fun releases :: "(string \<times> vip_origin) list \<Rightarrow> call_log \<Rightarrow> bool" where
  "releases [] ls \<longleftrightarrow> ls = []"
| "releases ((a, origin) # as) ls \<longleftrightarrow>
     (if a = '''' then releases as ls
      else if origin = VipOriginLinked then (\<exists>r rest. ls = (CallClear a, r) # rest \<and> releases as rest)
      else (\<exists>e rest. ls = (CallClear a, Inl e) # rest \<and> releases as rest)
           \<or> (\<exists>r rest. ls = (CallClear a, Inr '''') # (CallFree a, r) # rest \<and> releases as rest))"

lemma acquired_append [simp]: "acquired (xs @ ys) = acquired xs @ acquired ys"
  by (induction xs rule: acquired.induct) auto

lemma only_acquires_append [simp]: "only_acquires (xs @ ys) \<longleftrightarrow> only_acquires xs \<and> only_acquires ys"
  by (simp add: only_acquires_def)

text \<open>A freed address was acquired as owned.\<close>

lemma releases_freed:
  "releases as ls \<Longrightarrow> (CallFree a, r) \<in> set ls \<Longrightarrow> \<exists>origin. origin \<noteq> VipOriginLinked \<and> (a, origin) \<in> set as"
  by (induction as ls rule: releases.induct) (fastforce split: if_splits)+

lemma saga_bind_Inr:
  "saga_bind m k w = (Inr y, w'') \<longleftrightarrow> (\<exists>x w'. m w = (Inr x, w') \<and> k x w' = (Inr y, w''))"
  by (auto simp: saga_bind_def split: prod.splits sum.splits)

lemma saga_bind_Inl:
  "saga_bind m k w = (Inl e, w'') \<longleftrightarrow>
     m w = (Inl e, w'') \<or> (\<exists>x w'. m w = (Inr x, w') \<and> k x w' = (Inl e, w''))"
  by (auto simp: saga_bind_def split: prod.splits sum.splits)

subsection \<open>What a transaction told the outside\<close>

text \<open>The events and the intents a transaction appended to the two outboxes.\<close>

definition events_since ::
  "db \<Rightarrow> db \<Rightarrow> (resource_kind \<times> string \<times> string \<times> outbox_action \<times> payload) list" where
  "events_since d d' = map (\<lambda>e. (ob_kind e, ob_resource e, ob_project e, ob_action e, ob_payload e))
     (drop (length (d_outbox d)) (d_outbox d'))"

definition intents_since :: "db \<Rightarrow> db \<Rightarrow> (fga_event \<times> fga_intent) list" where
  "intents_since d d' = map (\<lambda>g. (fg_event g, (fg_intent g) \<lparr> fi_source_version := None \<rparr>))
     (drop (length (d_fga d)) (d_fga d'))"

lemma events_since_self [simp]: "events_since d d = []" "intents_since d d = []"
  by (simp_all add: events_since_def intents_since_def)

lemma events_since_same:
  "d_outbox d' = d_outbox d \<Longrightarrow> events_since d d' = []" "d_fga d' = d_fga d \<Longrightarrow> intents_since d d' = []"
  by (simp_all add: events_since_def intents_since_def)

lemma fga_intent_version [simp]:
  "fi_source_version x = None \<Longrightarrow> x \<lparr> fi_source_version := v, fi_source_version := None \<rparr> = x"
  by (cases x) simp

lemma events_since_emit [simp]:
  "d_outbox d1 = d_outbox d \<Longrightarrow> events_since d (emit_outbox k i p a m d1) = [(k, i, p, a, m)]"
  "events_since d (emit_fga ev x d1) = events_since d d1"
  "intents_since d (emit_outbox k i p a m d1) = intents_since d d1"
  by (simp_all add: events_since_def intents_since_def emit_outbox_def emit_fga_def)

lemma intents_since_emit [simp]:
  "d_fga d1 = d_fga d \<Longrightarrow> fi_tuples x \<noteq> [] \<Longrightarrow> fi_source_version x = None \<Longrightarrow>
   intents_since d (emit_fga ev x d1) = [(ev, x)]"
  by (cases x) (simp add: intents_since_def emit_fga_def)

end
