(* ===== verification/Lb_Create.thy ===== *)
theory Lb_Create
  imports Sagas "HOL-Library.Multiset"
begin

text \<open>
  The creation of a load balancer (\<^verbatim>\<open>api/loadbalancer/create.go\<close>): the synchronous checks of
  \<^verbatim>\<open>Execute\<close>, then the worker \<^verbatim>\<open>doCreate\<close>: insert a handle in status CREATING, acquire and
  persist the VIP of each family, finalize; an error after the handle compensates by releasing
  every address acquired and deleting the handle.
\<close>

subsection \<open>The synchronous part\<close>

record create_request =
  cr_project :: string
  cr_region :: string
  cr_type :: pb_type
  cr_placement :: pb_placement
  cr_v4 :: "pb_source option"
  cr_v6 :: "pb_source option"
  cr_name :: string
  cr_description :: string
  cr_labels :: "(string \<times> string) list"
  cr_zones :: "string list"
  cr_protection :: bool
  cr_affinity :: pb_affinity

definition duplicate_name :: "string \<Rightarrow> err" where
  "duplicate_name n = Status CodeAlreadyExists
     (''NetworkLoadBalancer with name '' @ n @ '' already exists in project'')"

text \<open>The list filtered by project and name: is any row left.\<close>

definition assertNameUnique :: "string \<Rightarrow> string \<Rightarrow> ('v, unit) saga" where
  "assertNameUnique project name =
     saga_bind (saga_map_err MapDomainErr
        (run_read (\<lambda>d. Inr (filter (\<lambda>r. (project \<noteq> '''' \<longrightarrow> lb_project r = project)
                                     \<and> (name \<noteq> '''' \<longrightarrow> lb_name r = name)) (d_lbs d)))))
       (\<lambda>existing. if length existing > 0 then saga_fail (duplicate_name name) else saga_return ())"

definition requested_lb :: "string \<Rightarrow> create_request \<Rightarrow> lb_type \<Rightarrow> load_balancer" where
  "requested_lb new_id rq ty = NewLoadBalancer new_id (cr_project rq) (cr_region rq) (cr_name rq)
     (cr_description rq) (LabelsFromMap (cr_labels rq)) ty"

text \<open>
  Everything of \<^verbatim>\<open>Execute\<close> up to the start of the worker: the entity and the resolved sources it is
  started with. \<open>new_id\<close> is the generated identifier, \<open>op_row\<close> the outcome of inserting the
  operation's row.
\<close>

definition Create_Execute ::
  "peers \<Rightarrow> string \<Rightarrow> err option \<Rightarrow> create_request \<Rightarrow> ('v, load_balancer \<times> vip_spec list) saga" where
  "Create_Execute p new_id op_row rq =
     (if cr_project rq = '''' then saga_fail (err_invalid_arg ''project_id'' ''required'')
      else if cr_region rq = '''' then saga_fail (err_invalid_arg ''region_id'' ''required'')
      else saga_bind (saga_check (lbTypeFromPb (cr_type rq))) (\<lambda>ty.
           saga_bind (saga_check (resolvePlacement ty (cr_placement rq))) (\<lambda>placement.
           saga_bind (saga_check (resolveVipSources p (cr_v4 rq) (cr_v6 rq))) (\<lambda>specs.
           saga_bind (saga_check (validateSourceTypeMatrix specs ty)) (\<lambda>_.
           saga_bind (saga_check (mapping_err MapDomainErr (lbSessionAffinityFromPb (cr_affinity rq)))) (\<lambda>sa.
             let lb = (requested_lb new_id rq ty)
                  \<lparr> lb_placement := placement, lb_disabled_zones := normalizeZones (cr_zones rq),
                    lb_protection := cr_protection rq, lb_affinity := sa,
                    lb_families := familiesFromSpecs specs \<rparr> in
             saga_bind (saga_check (mapping_err MapDomainErr (validated (LoadBalancer_Validate lb)))) (\<lambda>_.
             saga_bind (saga_check (checkDisabledAnnounceZones p (lb_placement lb) (lb_region lb)
                                      (lb_disabled_zones lb))) (\<lambda>_.
             saga_bind (saga_check (resolveSources p lb specs)) (\<lambda>specs.
             saga_bind (if lb_name lb \<noteq> '''' then assertNameUnique (lb_project lb) (lb_name lb)
                        else saga_return ()) (\<lambda>_.
             saga_check (case op_row of Some e \<Rightarrow> Inl (MapDomainErr e)
                         | None \<Rightarrow> Inr (lb, specs))))))))))))"

subsection \<open>The worker's transactions\<close>

definition insertHandle :: "load_balancer \<Rightarrow> ('v, unit) saga" where
  "insertHandle lb =
     saga_map_err (\<lambda>e. if is_err e ErrAlreadyExists then duplicate_name (lb_name lb) else MapDomainErr e)
       (run_tx (tx_bind (LB_Insert lb) (\<lambda>_. tx_return ())))"

definition persistVIP ::
  "string \<Rightarrow> string \<Rightarrow> string \<Rightarrow> string \<Rightarrow> vip_origin \<Rightarrow> ('v, lb_row) saga" where
  "persistVIP i family address address_id origin = run_tx (LB_AttachVIP i family address address_id origin)"

definition finalize_tx :: "load_balancer \<Rightarrow> principal \<Rightarrow> lb_row tx" where
  "finalize_tx lb p =
     tx_bind (LB_SetStatusCAS (lb_id lb) LBStatusCreating LBStatusInactive) (\<lambda>created.
     tx_bind (tx_emit (emit_outbox OutboxLoadBalancer (lb_id created) (lb_project created) ActionCreated
                         (lbOutboxPayload created))) (\<lambda>_.
     tx_bind (tx_emit (emit_fga FGAEventRegister (lbRegisterIntent created p))) (\<lambda>_.
     tx_return created)))"

definition finalizeCreate :: "load_balancer \<Rightarrow> principal \<Rightarrow> ('v, lb_row) saga" where
  "finalizeCreate lb p = run_tx (finalize_tx lb p)"

definition deleteHandle :: "string \<Rightarrow> ('v, unit) saga" where
  "deleteHandle i w =
     (case run_tx (LB_Delete i) w of
        (Inl e, w') \<Rightarrow> (if is_err e ErrNotFound then Inr () else Inl e, w')
      | (Inr x, w') \<Rightarrow> (Inr (), w'))"

subsection \<open>Acquiring and releasing addresses\<close>

record vip_alloc =
  va_address_id :: string
  va_address :: string
  va_origin :: vip_origin

definition lbAddressOwner :: "string \<Rightarrow> string \<Rightarrow> address_owner" where
  "lbAddressOwner i name = \<lparr> ow_kind = ''network_load_balancer'', ow_id = i, ow_name = name \<rparr>"

definition deriveUnderlayZone :: "peers \<Rightarrow> string \<Rightarrow> err + string" where
  "deriveUnderlayZone p region =
     (case p_zones p of
        None \<Rightarrow> Inl (Status CodeUnavailable ''zone lookup unavailable'')
      | Some list_zones \<Rightarrow>
          attempt (mapping_err zonePeerErr (list_zones region)) (\<lambda>zones.
            if length zones = 0
            then Inl (Status CodeFailedPrecondition ''could not allocate load balancer address'')
            else Inr (hd (sort_strings zones))))"

definition alloc_of :: "vip_origin \<Rightarrow> alloc_response \<Rightarrow> vip_alloc" where
  "alloc_of origin r = \<lparr> va_address_id = rs_address_id r, va_address = rs_value r, va_origin = origin \<rparr>"

definition acquireFamilyVIP ::
  "peers \<Rightarrow> 'v address_client option \<Rightarrow> load_balancer \<Rightarrow> vip_spec \<Rightarrow> ('v, vip_alloc) saga" where
  "acquireFamilyVIP p client lb fs =
     (case client of
        None \<Rightarrow> saga_fail (Status CodeUnavailable ''vpc internal address client not configured'')
      | Some c \<Rightarrow>
          (let owner = lbAddressOwner (lb_id lb) (lb_name lb);
               name = LBAnycastAddressName (lb_id lb) (fs_family fs) in
           case fs_kind fs of
             SrcAddressLink \<Rightarrow>
               saga_bind (saga_map_err linkAcquireErr
                 (call_attach c \<lparr> ar_address = fs_address fs, ar_owner = owner, ar_owned = False \<rparr>))
                 (\<lambda>r. saga_return (alloc_of VipOriginLinked r))
           | SrcPublicAuto \<Rightarrow>
               saga_bind (saga_check (deriveUnderlayZone p (lb_region lb))) (\<lambda>zone.
               saga_bind (saga_map_err allocAcquireErr
                 (call_external c (fs_family fs) \<lparr> ae_project = lb_project lb, ae_name = name,
                    ae_zone = zone, ae_owner = owner \<rparr>))
                 (\<lambda>r. saga_return (alloc_of VipOriginAuto r)))
           | SrcSubnetAuto \<Rightarrow>
               saga_bind (saga_map_err allocAcquireErr
                 (call_internal c (fs_family fs) \<lparr> ai_project = lb_project lb, ai_name = name,
                    ai_subnet = fs_subnet fs, ai_owner = owner \<rparr>))
                 (\<lambda>r. saga_return (alloc_of VipOriginAuto r))))"

definition releaseAddress ::
  "'v address_client option \<Rightarrow> string \<Rightarrow> vip_origin \<Rightarrow> ('v, unit) saga" where
  "releaseAddress client address_id origin =
     (case client of
        None \<Rightarrow> saga_fail (Status CodeUnavailable ''vpc internal address client not configured'')
      | Some c \<Rightarrow>
          if origin = VipOriginLinked then call_clear c address_id
          else saga_bind (call_clear c address_id) (\<lambda>_. call_free c address_id))"

text \<open>
  The addresses acquired so far are a Go map from the family, here the list of its entries; a
  \<^verbatim>\<open>range\<close> over it visits them in an order the language leaves open, the parameter
  \<open>visit\<close>. The compensation ignores errors (it logs them) and goes on.
\<close>

definition put_alloc :: "string \<Rightarrow> vip_alloc \<Rightarrow> (string \<times> vip_alloc) list \<Rightarrow> (string \<times> vip_alloc) list" where
  "put_alloc family a got = filter (\<lambda>(f, b). f \<noteq> family) got @ [(family, a)]"

type_synonym visit_order = "(string \<times> vip_alloc) list \<Rightarrow> (string \<times> vip_alloc) list"

fun release_all :: "'v address_client option \<Rightarrow> vip_alloc list \<Rightarrow> 'v world \<Rightarrow> 'v world" where
  "release_all client [] w = w"
| "release_all client (a # as) w =
     release_all client as
       (if va_address_id a = '''' then w
        else snd (releaseAddress client (va_address_id a) (va_origin a) w))"

definition compensateCreate ::
  "visit_order \<Rightarrow> 'v address_client option \<Rightarrow> string \<Rightarrow> (string \<times> vip_alloc) list \<Rightarrow> 'v world \<Rightarrow> 'v world" where
  "compensateCreate visit client i allocated w =
     snd (deleteHandle i (if client \<noteq> None then release_all client (map snd (visit allocated)) w else w))"

subsection \<open>The worker\<close>

text \<open>
  The loop over the families; with the error, the addresses acquired so far (the deferred
  compensation needs them).
\<close>

fun acquire_all ::
  "peers \<Rightarrow> 'v address_client option \<Rightarrow> load_balancer \<Rightarrow> vip_spec list \<Rightarrow> (string \<times> vip_alloc) list \<Rightarrow>
   'v world \<Rightarrow> err option \<times> (string \<times> vip_alloc) list \<times> 'v world" where
  "acquire_all p client lb [] got w = (None, got, w)"
| "acquire_all p client lb (fs # rest) got w =
     (case acquireFamilyVIP p client lb fs w of
        (Inl e, w1) \<Rightarrow> (Some e, got, w1)
      | (Inr a, w1) \<Rightarrow>
          (case persistVIP (lb_id lb) (fs_family fs) (va_address a) (va_address_id a) (va_origin a) w1 of
             (Inl e, w2) \<Rightarrow> (Some (MapDomainErr e), put_alloc (fs_family fs) a got, w2)
           | (Inr r, w2) \<Rightarrow> acquire_all p client lb rest (put_alloc (fs_family fs) a got) w2))"

definition peer_checks :: "peers \<Rightarrow> load_balancer \<Rightarrow> err + unit" where
  "peer_checks p lb =
     attempt (case p_project p of None \<Rightarrow> Inr ()
              | Some f \<Rightarrow> mapping_err (\<lambda>e. PeerErrToStatus e ''project'' (lb_project lb)) (f (lb_project lb)))
       (\<lambda>_. case p_region p of None \<Rightarrow> Inr ()
              | Some f \<Rightarrow> mapping_err (\<lambda>e. PeerErrToStatus e ''region'' (lb_region lb)) (f (lb_region lb)))"

definition doCreate ::
  "visit_order \<Rightarrow> peers \<Rightarrow> 'v address_client option \<Rightarrow> load_balancer \<Rightarrow> principal \<Rightarrow> vip_spec list \<Rightarrow>
   ('v, lb_row) saga" where
  "doCreate visit p client lb0 pr specs =
     saga_bind (saga_check (peer_checks p lb0)) (\<lambda>_.
       let lb = lb0 \<lparr> lb_status := LBStatusCreating \<rparr> in
       saga_bind (insertHandle lb) (\<lambda>_ w.
         (case acquire_all p client lb specs [] w of
            (Some e, got, w1) \<Rightarrow> (Inl e, compensateCreate visit client (lb_id lb) got w1)
          | (None, got, w1) \<Rightarrow>
              (case finalizeCreate lb pr w1 of
                 (Inl e, w2) \<Rightarrow> (Inl (MapDomainErr e), compensateCreate visit client (lb_id lb) got w2)
               | (Inr created, w2) \<Rightarrow> (Inr created, w2)))))"

subsection \<open>Facts\<close>

definition alloc_key :: "vip_alloc \<Rightarrow> string \<times> vip_origin" where
  "alloc_key a = (va_address_id a, va_origin a)"

definition entry_key :: "string \<times> vip_alloc \<Rightarrow> string \<times> vip_origin" where
  "entry_key e = alloc_key (snd e)"

lemma entry_key_pair [simp]: "entry_key (f, a) = alloc_key a"
  by (simp add: entry_key_def)

lemma alloc_key_of [simp]: "alloc_key (alloc_of o1 r) = (rs_address_id r, o1)"
  by (simp add: alloc_key_def alloc_of_def)

lemma acquireFamilyVIP_log:
  assumes "acquireFamilyVIP p client lb fs w = (r, w')"
  shows "\<exists>ls. w_calls w' = w_calls w @ ls \<and> only_acquires ls
    \<and> acquired ls = (case r of Inl e \<Rightarrow> [] | Inr a \<Rightarrow> [alloc_key a]) \<and> w_db w' = w_db w"
proof -
  have one: "\<exists>ls. w_calls w1 = w_calls w @ ls \<and> only_acquires ls
    \<and> acquired ls = (case x of Inl e \<Rightarrow> [] | Inr rs \<Rightarrow> [(rs_address_id rs, origin)]) \<and> w_db w1 = w_db w"
    if "vpc_do call rs_address_id f w = (x, w1)" and "\<not> is_release call"
      and "\<And>a. acquired [(call, Inr a)] = [(a, origin)]" and "\<And>e. acquired [(call, Inl e)] = []"
    for call f x w1 origin
    using vpc_do_calls [OF that(1)] that(2-4) by (cases x) (auto simp: only_acquires_def)
  show ?thesis
  proof (cases client)
    case None
    with assms show ?thesis by (auto simp: acquireFamilyVIP_def saga_fail_def only_acquires_def)
  next
    case (Some c)
    show ?thesis
    proof (cases "fs_kind fs")
      case SrcAddressLink
      define rq where "rq = \<lparr> ar_address = fs_address fs,
        ar_owner = lbAddressOwner (lb_id lb) (lb_name lb), ar_owned = False \<rparr>"
      obtain x w1 where c: "call_attach c rq w = (x, w1)" by fastforce
      from one [of "CallAttach (ar_address rq)" _ x w1 VipOriginLinked] c assms Some SrcAddressLink
      show ?thesis
        by (cases x) (auto simp: acquireFamilyVIP_def Let_def saga_defs call_attach_def rq_def)
    next
      case SrcPublicAuto
      show ?thesis
      proof (cases "deriveUnderlayZone p (lb_region lb)")
        case (Inl e)
        with assms Some SrcPublicAuto show ?thesis
          by (auto simp: acquireFamilyVIP_def Let_def saga_defs only_acquires_def)
      next
        case (Inr zone)
        define rq where "rq = \<lparr> ae_project = lb_project lb,
          ae_name = LBAnycastAddressName (lb_id lb) (fs_family fs), ae_zone = zone,
          ae_owner = lbAddressOwner (lb_id lb) (lb_name lb) \<rparr>"
        obtain x w1 where c: "call_external c (fs_family fs) rq w = (x, w1)" by fastforce
        from one [of "CallAllocateExternal (fs_family fs) (ae_name rq) (ae_zone rq)" _ x w1 VipOriginAuto]
          c assms Some SrcPublicAuto Inr
        show ?thesis
          by (cases x) (auto simp: acquireFamilyVIP_def Let_def saga_defs call_external_def rq_def)
      qed
    next
      case SrcSubnetAuto
      define rq where "rq = \<lparr> ai_project = lb_project lb,
        ai_name = LBAnycastAddressName (lb_id lb) (fs_family fs), ai_subnet = fs_subnet fs,
        ai_owner = lbAddressOwner (lb_id lb) (lb_name lb) \<rparr>"
      obtain x w1 where c: "call_internal c (fs_family fs) rq w = (x, w1)" by fastforce
      from one [of "CallAllocateInternal (fs_family fs) (ai_name rq) (ai_subnet rq)" _ x w1 VipOriginAuto]
        c assms Some SrcSubnetAuto
      show ?thesis
        by (cases x) (auto simp: acquireFamilyVIP_def Let_def saga_defs call_internal_def rq_def)
    qed
  qed
qed

lemma put_alloc_new: "family \<notin> fst ` set got \<Longrightarrow> put_alloc family a got = got @ [(family, a)]"
  by (force simp: put_alloc_def filter_id_conv)

lemma acquire_all_log:
  "acquire_all p client lb specs got w = (r, got', w') \<Longrightarrow> distinct (map fs_family specs) \<Longrightarrow>
   fst ` set got \<inter> fs_family ` set specs = {} \<Longrightarrow>
   \<exists>ls new. w_calls w' = w_calls w @ ls \<and> only_acquires ls \<and> got' = got @ new
     \<and> map entry_key new = acquired ls \<and> (r = None \<longrightarrow> length new = length specs)"
proof (induction specs arbitrary: got w)
  case Nil
  then show ?case by (auto simp: only_acquires_def)
next
  case (Cons fs rest)
  obtain x w1 where a: "acquireFamilyVIP p client lb fs w = (x, w1)" by fastforce
  from acquireFamilyVIP_log [OF a] obtain ls where ls: "w_calls w1 = w_calls w @ ls" "only_acquires ls"
    "acquired ls = (case x of Inl e \<Rightarrow> [] | Inr a \<Rightarrow> [alloc_key a])" by blast
  have new: "put_alloc (fs_family fs) al got = got @ [(fs_family fs, al)]" for al
    using Cons.prems(3) by (intro put_alloc_new) auto
  show ?case
  proof (cases x)
    case (Inl e)
    with Cons.prems a ls show ?thesis by auto
  next
    case (Inr al)
    obtain y w2 where pv: "persistVIP (lb_id lb) (fs_family fs) (va_address al) (va_address_id al)
        (va_origin al) w1 = (y, w2)" by fastforce
    then have w2: "w_calls w2 = w_calls w1" by (simp add: persistVIP_def)
    show ?thesis
    proof (cases y)
      case (Inl e)
      with Cons.prems a \<open>x = Inr al\<close> pv w2 ls show ?thesis by (auto simp: new)
    next
      case (Inr row)
      with Cons.prems a \<open>x = Inr al\<close> pv
      have r: "acquire_all p client lb rest (got @ [(fs_family fs, al)]) w2 = (r, got', w')"
        by (simp add: new)
      have "distinct (map fs_family rest)"
        and "fst ` set (got @ [(fs_family fs, al)]) \<inter> fs_family ` set rest = {}"
        using Cons.prems(2,3) by auto
      from Cons.IH [OF r this] obtain ls' new where "w_calls w' = w_calls w2 @ ls'" "only_acquires ls'"
        "got' = (got @ [(fs_family fs, al)]) @ new" "map entry_key new = acquired ls'"
        "r = None \<longrightarrow> length new = length rest" by blast
      with ls w2 \<open>x = Inr al\<close> show ?thesis
        by (intro exI [of _ "ls @ ls'"] exI [of _ "(fs_family fs, al) # new"]) auto
    qed
  qed
qed
lemma call_clear_log:
  "call_clear c a w = (r, w') \<Longrightarrow>
   w_calls w' = w_calls w @ [(CallClear a, case r of Inl e \<Rightarrow> Inl e | Inr x \<Rightarrow> Inr '''')]
   \<and> w_db w' = w_db w"
  unfolding call_clear_def by (drule vpc_do_calls) simp

lemma call_free_log:
  "call_free c a w = (r, w') \<Longrightarrow>
   w_calls w' = w_calls w @ [(CallFree a, case r of Inl e \<Rightarrow> Inl e | Inr x \<Rightarrow> Inr '''')]
   \<and> w_db w' = w_db w"
  unfolding call_free_def by (drule vpc_do_calls) simp

lemma releaseAddress_log:
  assumes "releaseAddress (Some c) a origin w = (r, w')" and "a \<noteq> ''''"
  shows "\<exists>ls. w_calls w' = w_calls w @ ls \<and> releases [(a, origin)] ls \<and> w_db w' = w_db w"
proof -
  obtain x w1 where cl: "call_clear c a w = (x, w1)" by fastforce
  note c1 = call_clear_log [OF cl]
  show ?thesis
  proof (cases "origin = VipOriginLinked")
    case True
    with assms cl have "w' = w1" by (simp add: releaseAddress_def)
    with c1 True assms(2) show ?thesis
      by (intro exI [of _ "[(CallClear a, case x of Inl e \<Rightarrow> Inl e | Inr x \<Rightarrow> Inr '''')]"]) simp
  next
    case False
    note owned = this
    show ?thesis
    proof (cases x)
      case (Inl e)
      with False assms cl have "w' = w1" by (simp add: releaseAddress_def saga_bind_def)
      with c1 False assms(2) Inl show ?thesis
        by (intro exI [of _ "[(CallClear a, Inl e)]"]) simp
    next
      case (Inr u)
      obtain y w2 where fr: "call_free c a w1 = (y, w2)" by fastforce
      with False assms cl Inr have "w' = w2" by (simp add: releaseAddress_def saga_bind_def)
      with c1 call_free_log [OF fr] Inr False assms(2) show ?thesis
        by (intro exI [of _ "[(CallClear a, Inr ''''),
              (CallFree a, case y of Inl e \<Rightarrow> Inl e | Inr x \<Rightarrow> Inr '''')]"]) simp
    qed
  qed
qed
lemma releases_append:
  "releases as ls \<Longrightarrow> releases bs ls' \<Longrightarrow> releases (as @ bs) (ls @ ls')"
proof (induction as ls rule: releases.induct)
  case (2 a origin as ls)
  then show ?case by (cases "a = ''''"; cases "origin = VipOriginLinked") fastforce+
qed simp

lemma release_all_log:
  "\<exists>ls. w_calls (release_all (Some c) as w) = w_calls w @ ls \<and> releases (map alloc_key as) ls
     \<and> w_db (release_all (Some c) as w) = w_db w"
proof (induction as arbitrary: w)
  case (Cons a as)
  show ?case
  proof (cases "va_address_id a = ''''")
    case True
    with Cons.IH [of w] show ?thesis by (simp add: alloc_key_def)
  next
    case False
    obtain r w1 where r: "releaseAddress (Some c) (va_address_id a) (va_origin a) w = (r, w1)" by fastforce
    from releaseAddress_log [OF r False] obtain ls where ls: "w_calls w1 = w_calls w @ ls"
      "releases [(va_address_id a, va_origin a)] ls" "w_db w1 = w_db w" by blast
    from Cons.IH [of w1] obtain ls' where ls': "w_calls (release_all (Some c) as w1) = w_calls w1 @ ls'"
      "releases (map alloc_key as) ls'" "w_db (release_all (Some c) as w1) = w_db w1" by blast
    have "releases (map alloc_key (a # as)) (ls @ ls')"
      using releases_append [OF ls(2) ls'(2)] by (simp add: alloc_key_def)
    with ls ls' r False show ?thesis by (intro exI [of _ "ls @ ls'"]) simp
  qed
qed simp

lemma deleteHandle_calls:
  "w_calls (snd (deleteHandle i w)) = w_calls w"
proof -
  obtain r w1 where "run_tx (LB_Delete i) w = (r, w1)" by fastforce
  then show ?thesis by (cases r) (auto simp: deleteHandle_def)
qed

lemma acquire_all_no_client:
  "acquire_all p None lb specs got w = (r, got', w') \<Longrightarrow> got' = got"
  by (cases specs) (auto simp: acquireFamilyVIP_def saga_fail_def)

lemma compensate_log:
  assumes "client = None \<Longrightarrow> got = []" and "\<forall>xs. mset (visit xs) = mset xs"
  shows "\<exists>rel order. w_calls (compensateCreate visit client i got w) = w_calls w @ rel
    \<and> mset order = mset (map entry_key got) \<and> releases order rel"
proof (cases client)
  case None
  with assms show ?thesis
    by (intro exI [of _ "[]"]) (simp add: compensateCreate_def deleteHandle_calls)
next
  case (Some c)
  have m: "mset (map entry_key (visit got)) = mset (map entry_key got)"
    using assms(2) by simp
  have k: "map alloc_key (map snd (visit got)) = map entry_key (visit got)"
    by (simp add: entry_key_def)
  from release_all_log [of c "map snd (visit got)" w] obtain ls where
    "w_calls (release_all client (map snd (visit got)) w) = w_calls w @ ls"
    "releases (map entry_key (visit got)) ls" unfolding k Some by blast
  with m Some show ?thesis
    by (intro exI [of _ ls] exI [of _ "map entry_key (visit got)"])
       (simp add: compensateCreate_def deleteHandle_calls)
qed
text \<open>What follows the acquisition, and the calls it makes.\<close>

definition create_rest ::
  "visit_order \<Rightarrow> 'v address_client option \<Rightarrow> principal \<Rightarrow> load_balancer \<Rightarrow>
   err option \<times> (string \<times> vip_alloc) list \<times> 'v world \<Rightarrow> (err + lb_row) \<times> 'v world" where
  "create_rest visit client pr lb x =
     (case x of
        (Some e, got, w2) \<Rightarrow> (Inl e, compensateCreate visit client (lb_id lb) got w2)
      | (None, got, w2) \<Rightarrow>
          (case finalizeCreate lb pr w2 of
             (Inl e, w3) \<Rightarrow> (Inl (MapDomainErr e), compensateCreate visit client (lb_id lb) got w3)
           | (Inr created, w3) \<Rightarrow> (Inr created, w3)))"

lemma create_rest_log:
  assumes "create_rest visit client pr lb (o1, got, w2) = (r, w')"
    and "client = None \<Longrightarrow> got = []" and "\<forall>xs. mset (visit xs) = mset xs"
  shows "\<exists>rel. w_calls w' = w_calls w2 @ rel
    \<and> (case r of Inr row \<Rightarrow> rel = [] \<and> o1 = None
       | Inl e \<Rightarrow> \<exists>order. mset order = mset (map entry_key got) \<and> releases order rel)"
proof (cases o1)
  case (Some e)
  with assms(1) have "w' = compensateCreate visit client (lb_id lb) got w2" "r = Inl e"
    by (auto simp: create_rest_def)
  with compensate_log [OF assms(2,3), where w = w2 and i = "lb_id lb"] show ?thesis by auto
next
  case None
  obtain y w3 where f: "finalizeCreate lb pr w2 = (y, w3)" by fastforce
  then have c: "w_calls w3 = w_calls w2" by (simp add: finalizeCreate_def)
  show ?thesis
  proof (cases y)
    case (Inl e)
    with assms(1) None f have "w' = compensateCreate visit client (lb_id lb) got w3"
      "r = Inl (MapDomainErr e)" by (auto simp: create_rest_def)
    with compensate_log [OF assms(2,3), where w = w3 and i = "lb_id lb"] c show ?thesis by auto
  next
    case (Inr row)
    with assms(1) None f c show ?thesis by (auto simp: create_rest_def)
  qed
qed

lemma insertHandle_calls: "insertHandle lb w = (r, w') \<Longrightarrow> w_calls w' = w_calls w"
  unfolding insertHandle_def saga_map_err_def by (auto split: prod.splits)

text \<open>The worker, branch by branch.\<close>

lemma doCreate_unfold:
  "doCreate visit p client lb pr specs w =
     (case peer_checks p lb of
        Inl e \<Rightarrow> (Inl e, w)
      | Inr u \<Rightarrow>
          (case insertHandle (lb \<lparr> lb_status := LBStatusCreating \<rparr>) w of
             (Inl e, w1) \<Rightarrow> (Inl e, w1)
           | (Inr v, w1) \<Rightarrow>
               (case acquire_all p client (lb \<lparr> lb_status := LBStatusCreating \<rparr>) specs [] w1 of
                  (Some e, got, w2) \<Rightarrow> (Inl e, compensateCreate visit client (lb_id (lb \<lparr> lb_status := LBStatusCreating \<rparr>)) got w2)
                | (None, got, w2) \<Rightarrow>
                    (case finalizeCreate (lb \<lparr> lb_status := LBStatusCreating \<rparr>) pr w2 of
                       (Inl e, w3) \<Rightarrow> (Inl (MapDomainErr e), compensateCreate visit client (lb_id (lb \<lparr> lb_status := LBStatusCreating \<rparr>)) got w3)
                     | (Inr created, w3) \<Rightarrow> (Inr created, w3)))))"
  by (cases "peer_checks p lb") (simp_all add: doCreate_def saga_bind_def saga_check_def Let_def)

subsection \<open>Properties\<close>

text \<open>C5: the calls of a creation to the network service, whatever the other transactions and the
  service do, wherever it fails and in whatever order the map of the acquired addresses is visited.
  The record splits into a stretch that only acquires and a stretch that only releases. A
  successful creation releases nothing; a failed one releases exactly what it acquired, each
  address once and by its origin: a linked address has only its reference cleared, an allocated one
  has its reference cleared and is then freed.\<close>

theorem create_compensates:
  assumes "doCreate visit p client lb pr specs w = (r, w')" and "\<forall>xs. mset (visit xs) = mset xs"
    and "distinct (map fs_family specs)"
  shows "\<exists>acq rel. w_calls w' = w_calls w @ acq @ rel \<and> only_acquires acq
    \<and> (case r of Inr row \<Rightarrow> rel = [] \<and> length (acquired acq) = length specs
       | Inl e \<Rightarrow> \<exists>order. mset order = mset (acquired acq) \<and> releases order rel)"
proof -
  define lb1 where "lb1 = lb \<lparr> lb_status := LBStatusCreating \<rparr>"
  show ?thesis
  proof (cases "peer_checks p lb")
    case (Inl e)
    with assms(1) show ?thesis by (intro exI [of _ "[]"]) (auto simp: doCreate_unfold only_acquires_def)
  next
    case (Inr u)
    obtain x w1 where h: "insertHandle lb1 w = (x, w1)" by fastforce
    note c1 = insertHandle_calls [OF h]
    show ?thesis
    proof (cases x)
      case (Inl e)
      with assms(1) \<open>peer_checks p lb = Inr u\<close> h c1 show ?thesis
        by (intro exI [of _ "[]"]) (auto simp: doCreate_unfold only_acquires_def lb1_def)
    next
      case (Inr v)
      obtain o1 got w2 where a: "acquire_all p client lb1 specs [] w1 = (o1, got, w2)"
        by (cases "acquire_all p client lb1 specs [] w1") auto
      have "doCreate visit p client lb pr specs w = create_rest visit client pr lb1 (o1, got, w2)"
        using \<open>peer_checks p lb = Inr u\<close> h Inr a by (simp add: doCreate_unfold lb1_def create_rest_def)
      with assms(1) have r: "create_rest visit client pr lb1 (o1, got, w2) = (r, w')" by simp
      from acquire_all_log [OF a assms(3)] obtain acq where acq: "w_calls w2 = w_calls w1 @ acq"
        "only_acquires acq" "map entry_key got = acquired acq"
        "o1 = None \<longrightarrow> length got = length specs" by auto
      have none: "client = None \<Longrightarrow> got = []" using a acquire_all_no_client by blast
      have len: "length (acquired acq) = length got" using acq(3) by (metis length_map)
      from create_rest_log [OF r none assms(2)] obtain rel where "w_calls w' = w_calls w2 @ rel"
        "case r of Inr row \<Rightarrow> rel = [] \<and> o1 = None
         | Inl e \<Rightarrow> \<exists>order. mset order = mset (map entry_key got) \<and> releases order rel" by blast
      with acq c1 len show ?thesis by (intro exI [of _ acq] exI [of _ rel]) (cases r; simp)
    qed
  qed
qed
text \<open>
  A network service for the witnesses: its state lists the addresses in use; \<open>stuck\<close> makes every
  \<^verbatim>\<open>FreeIP\<close> fail.
\<close>

definition sample_alloc :: "alloc_internal \<Rightarrow> string list \<Rightarrow> (err + alloc_response) \<times> string list" where
  "sample_alloc rq v = (let a = ''adr'' @ show_nat (length v) in
     (Inr \<lparr> rs_address_id = a, rs_value = ''10.0.0.'' @ show_nat (length v) \<rparr>, a # v))"

definition sample_client :: "bool \<Rightarrow> string list address_client" where
  "sample_client stuck = \<lparr> AllocateInternalIP = sample_alloc, AllocateInternalIPv6 = sample_alloc,
     AllocateExternalIP = (\<lambda>rq v. (Inl (Sentinel ErrUnavailable), v)),
     AllocateExternalIPv6 = (\<lambda>rq v. (Inl (Sentinel ErrUnavailable), v)),
     AttachExisting = (\<lambda>rq v. (Inr \<lparr> rs_address_id = ar_address rq, rs_value = ''10.9.0.1'' \<rparr>, v)),
     FreeIP = (\<lambda>a v. if stuck then (Inl (Sentinel ErrUnavailable), v) else (Inr (), removeAll a v)),
     ClearReference = (\<lambda>a v. (Inr (), v)) \<rparr>"

definition sample_world :: "slot list \<Rightarrow> string list world" where
  "sample_world slots = \<lparr> w_db = empty_db, w_vpc = [], w_slots = slots, w_calls = [] \<rparr>"

definition sample_specs :: "vip_spec list" where
  "sample_specs = [(new_spec ''IPV4'' SrcSubnetAuto) \<lparr> fs_subnet := ''sub1'' \<rparr>]"

definition sample_principal :: principal where
  "sample_principal = \<lparr> pr_type = ''user'', pr_id = ''u1'' \<rparr>"

text \<open>The commit of the creation's last transaction is lost.\<close>

definition last_commit_lost :: "slot list" where
  "last_commit_lost = [quiet, quiet, quiet \<lparr> sl_fault := FailCommit (Sentinel ErrUnavailable) \<rparr>]"

lemma sample_create_eval:
  "fst (doCreate (\<lambda>xs. xs) sample_peers (Some (sample_client stuck)) sample_lb sample_principal sample_specs
      (sample_world last_commit_lost)) = Inl (Status CodeUnavailable ''service unavailable'')"
  by (cases stuck) (simp, code_simp)+

theorem create_compensates_witness:
  "\<exists>w'. doCreate (\<lambda>xs. xs) sample_peers (Some (sample_client True)) sample_lb sample_principal sample_specs
      (sample_world last_commit_lost) = (Inl (Status CodeUnavailable ''service unavailable''), w')
    \<and> (\<exists>acq rel order. w_calls w' = acq @ rel \<and> only_acquires acq
          \<and> mset order = mset (acquired acq) \<and> releases order rel)"
proof -
  obtain w' where w: "doCreate (\<lambda>xs. xs) sample_peers (Some (sample_client True)) sample_lb sample_principal
      sample_specs (sample_world last_commit_lost)
      = (Inl (Status CodeUnavailable ''service unavailable''), w')"
    using sample_create_eval [of True] by (metis prod.collapse)
  have "distinct (map fs_family sample_specs)" by (simp add: sample_specs_def)
  from create_compensates [OF w _ this] show ?thesis using w by (simp add: sample_world_def)
qed

text \<open>C6: a creation that reports success leaves the load balancer as a row in status INACTIVE with
  the requested identity, and in the same transaction its creation event and the registration of
  its owner tuples, as the last entries of the two outboxes.\<close>

theorem create_success:
  assumes "doCreate visit p client lb pr specs w = (Inr row, w')"
  shows "tbl_get lb_id (d_lbs (w_db w')) (lb_id lb) = Some row \<and> lb_status row = LBStatusInactive
    \<and> (let e = last (d_outbox (w_db w')) in ob_kind e = OutboxLoadBalancer \<and> ob_resource e = lb_id lb
        \<and> ob_project e = lb_project row \<and> ob_action e = ActionCreated \<and> ob_payload e = lbOutboxPayload row)
    \<and> (let g = last (d_fga (w_db w')) in fg_event g = FGAEventRegister
        \<and> fi_tuples (fg_intent g) = fi_tuples (lbRegisterIntent row pr)
        \<and> fi_labels (fg_intent g) = LabelsToMap (lb_labels row))"
proof -
  let ?lb = "lb \<lparr> lb_status := LBStatusCreating \<rparr>"
  obtain w2 where f: "finalizeCreate ?lb pr w2 = (Inr row, w')"
    using assms by (auto simp: doCreate_unfold split: sum.splits prod.splits option.splits)
  then have "finalize_tx ?lb pr (begin_tx w2) = Inr (row, w_db w')"
    unfolding finalizeCreate_def by (auto dest: run_tx_Inr)
  then obtain d1 where c: "LB_SetStatusCAS (lb_id ?lb) LBStatusCreating LBStatusInactive (begin_tx w2)
        = Inr (row, d1)"
    and d': "w_db w' = emit_fga FGAEventRegister (lbRegisterIntent row pr)
        (emit_outbox OutboxLoadBalancer (lb_id row) (lb_project row) ActionCreated (lbOutboxPayload row) d1)"
    by (auto simp: finalize_tx_def tx_defs)
  note m = lb_cas.moves_status [OF c]
  have get: "tbl_get lb_id (d_lbs d1) (lb_id lb) = Some row \<and> lb_status row = LBStatusInactive"
    using m LB_SetStatusCAS_Inr [OF c] lb_written_get(1) [of "lb_id lb" _ _ row d1]
    by (auto simp: lb_written_def)
  then have "lb_id row = lb_id lb" using tbl_get_key by fastforce
  with get show ?thesis
    unfolding d' by (simp add: emit_fga_def emit_outbox_def) (simp add: lbRegisterIntent_def Let_def bare_intent_def)
qed

theorem create_success_witness:
  "\<exists>row w'. doCreate (\<lambda>xs. xs) sample_peers (Some (sample_client False)) sample_lb sample_principal sample_specs
      (sample_world []) = (Inr row, w')
    \<and> tbl_get lb_id (d_lbs (w_db w')) ''nlb1'' = Some row"
proof -
  have "is_ok (fst (doCreate (\<lambda>xs. xs) sample_peers (Some (sample_client False)) sample_lb sample_principal
      sample_specs (sample_world [])))"
    by code_simp
  then obtain row w' where w: "doCreate (\<lambda>xs. xs) sample_peers (Some (sample_client False)) sample_lb
      sample_principal sample_specs (sample_world []) = (Inr row, w')"
    by (auto simp: is_ok_iff) (metis prod.collapse)
  from create_success [OF w] w show ?thesis by (simp add: sample_lb_def NewLoadBalancer_def)
qed

text \<open>The compensation deletes the row even when the service refused the release: the creation
  fails, no row is left that names the address, and the address stays in use.\<close>

theorem create_leaks_address:
  "\<exists>e w'. doCreate (\<lambda>xs. xs) sample_peers (Some (sample_client True)) sample_lb sample_principal sample_specs
      (sample_world last_commit_lost) = (Inl e, w')
    \<and> d_lbs (w_db w') = [] \<and> w_vpc w' = [''adr0'']"
proof -
  let ?r = "doCreate (\<lambda>xs. xs) sample_peers (Some (sample_client True)) sample_lb sample_principal sample_specs
      (sample_world last_commit_lost)"
  have "d_lbs (w_db (snd ?r)) = [] \<and> w_vpc (snd ?r) = [''adr0'']" by code_simp
  then show ?thesis using sample_create_eval [of True] by (metis prod.collapse)
qed

end
