(* ===== verification/Usecase_Steps.thy ===== *)
theory Usecase_Steps
  imports Lb_Create
begin

text \<open>
  The steps every use-case is made of: the check of a required identifier, a statement of a
  reader, a writer transaction, the insert of the operation's row, and the two handler-side
  authorization checks (\<^verbatim>\<open>loadbalancer/tg_authz.go\<close>, \<^verbatim>\<open>loadbalancer/move.go\<close> and
  \<^verbatim>\<open>targetgroup/move.go\<close>). The synchronous part of a use-case ends with what its worker is started
  with.
\<close>

definition require_id :: "peers \<Rightarrow> string \<Rightarrow> string \<Rightarrow> string \<Rightarrow> err + unit" where
  "require_id p field kind i =
     (if i = '''' then Inl (err_invalid_arg field ''required'')
      else case p_valid_id p kind i of Some e \<Rightarrow> Inl e | None \<Rightarrow> Inr ())"

definition reading :: "(db \<Rightarrow> err + 'a) \<Rightarrow> ('v, 'a) saga" where
  "reading body = saga_map_err MapDomainErr (run_read body)"

definition writing :: "'a tx \<Rightarrow> ('v, 'a) saga" where
  "writing body = saga_map_err MapDomainErr (run_tx body)"

definition insert_op :: "err option \<Rightarrow> ('v, unit) saga" where
  "insert_op op_row = saga_check (case op_row of Some e \<Rightarrow> Inl (MapDomainErr e) | None \<Rightarrow> Inr ())"

subsection \<open>Authorization of a second object\<close>

definition FGARelationEditor :: string where "FGARelationEditor = ''editor''"
definition FGARelationViewer :: string where "FGARelationViewer = ''viewer''"
definition FGAObjectTypeProject :: string where "FGAObjectTypeProject = ''project''"

definition no_viewer :: "string \<Rightarrow> err" where
  "no_viewer g = Status CodePermissionDenied
     (''caller is not authorized (viewer) on target group '' @ g)"

definition check_failure :: "err \<Rightarrow> err \<Rightarrow> err" where
  "check_failure denied e =
     (if e = ErrNoPath then denied
      else if is_err e ErrUnavailable then Status CodeUnavailable ''authorization check unavailable''
      else if is_err e ErrInvalidArg
        then Status CodeInvalidArgument (''authorization check: '' @ error_text e)
      else Status CodeInternal ''authorization check failed'')"

definition targetGroupCheckErr :: "err \<Rightarrow> string \<Rightarrow> err" where
  "targetGroupCheckErr e g = check_failure (no_viewer g) e"

definition checkTargetGroupViewer :: "peers \<Rightarrow> principal \<Rightarrow> string \<Rightarrow> err + unit" where
  "checkTargetGroupViewer p pr g =
     (case p_check p of
        None \<Rightarrow> Inr ()
      | Some check \<Rightarrow>
          (let subject = FGASubjectFromPrincipal (pr_type pr) (pr_id pr) in
           if subject = '''' then Inr ()
           else case check subject FGARelationViewer (FGAObjectRef FGAObjectTypeTargetGroup g) of
             Inl e \<Rightarrow> Inl (targetGroupCheckErr e g)
           | Inr allowed \<Rightarrow> if \<not> allowed then Inl (no_viewer g) else Inr ()))"

definition no_editor :: "string \<Rightarrow> err" where
  "no_editor dst = Status CodePermissionDenied
     (''caller is not authorized (editor) on destination project '' @ dst)"

definition moveDestCheckErr :: "err \<Rightarrow> string \<Rightarrow> err" where
  "moveDestCheckErr e dst = check_failure (no_editor dst) e"

definition authorizeDestination :: "peers \<Rightarrow> principal \<Rightarrow> string \<Rightarrow> err + unit" where
  "authorizeDestination p pr dst =
     (case p_check p of
        None \<Rightarrow> Inr ()
      | Some check \<Rightarrow>
          (let subject = FGASubjectFromPrincipal (pr_type pr) (pr_id pr) in
           if subject = '''' then Inr ()
           else case check subject FGARelationEditor (FGAObjectRef FGAObjectTypeProject dst) of
             Inl e \<Rightarrow> Inl (moveDestCheckErr e dst)
           | Inr allowed \<Rightarrow> if \<not> allowed then Inl (no_editor dst) else Inr ()))"

subsection \<open>Facts\<close>

lemma saga_not_Inr: "(\<And>x w'. m w \<noteq> (Inr x, w')) \<Longrightarrow> \<exists>e. fst (m w) = Inl e"
  by (cases "m w"; cases "fst (m w)") auto

lemma saga_map_err_Inr: "saga_map_err f m w = (Inr x, w') \<longleftrightarrow> m w = (Inr x, w')"
  by (auto simp: saga_map_err_def split: prod.splits)

lemma saga_check_Inr: "saga_check r w = (Inr x, w') \<longleftrightarrow> r = Inr x \<and> w' = w"
  by (auto simp: saga_check_def)

lemma saga_if_fail:
  "(if b then saga_fail e else m) w = (Inr x, w') \<longleftrightarrow> \<not> b \<and> m w = (Inr x, w')"
  by (simp add: saga_fail_def)

lemmas saga_Inr = saga_bind_Inr saga_map_err_Inr saga_check_Inr saga_if_fail
lemma reading_Inr:
  "reading body w = (Inr x, w') \<Longrightarrow> body (begin_tx w) = Inr x \<and> w' = settle w (begin_tx w)"
  by (auto simp: reading_def saga_map_err_def split: prod.splits dest: run_read_Inr)

lemma reading_db: "reading body w = (r, w') \<Longrightarrow> w_db w' = begin_tx w \<and> w_calls w' = w_calls w"
  by (auto simp: reading_def saga_map_err_def run_read_def Let_def split: prod.splits fault.splits)

lemma writing_Inr:
  "writing body w = (Inr x, w') \<Longrightarrow> body (begin_tx w) = Inr (x, w_db w') \<and> w' = settle w (w_db w')"
  by (auto simp: writing_def saga_map_err_def split: prod.splits dest!: run_tx_Inr)

text \<open>Whatever the outcome, a writer transaction left the database unchanged or ran its body.\<close>

lemma writing_cases:
  assumes "writing body w = (r, w')"
  shows "w_db w' = begin_tx w \<or> (\<exists>x. body (begin_tx w) = Inr (x, w_db w'))"
proof -
  obtain s where "run_tx body w = (s, w')"
    using assms by (auto simp: writing_def saga_map_err_def split: prod.splits)
  from run_tx_cases [OF this] show ?thesis by auto
qed

lemma writing_calls [simp]: "writing body w = (r, w') \<Longrightarrow> w_calls w' = w_calls w \<and> w_vpc w' = w_vpc w"
  by (auto simp: writing_def saga_map_err_def split: prod.splits)

text \<open>A denied or failed check never lets the caller through: with a client present, a caller with an
  identity passes only on a positive answer.\<close>

lemma checkTargetGroupViewer_ok:
  "checkTargetGroupViewer p pr g = Inr u \<longleftrightarrow>
     (\<forall>check. p_check p = Some check \<longrightarrow>
        FGASubjectFromPrincipal (pr_type pr) (pr_id pr) \<noteq> '''' \<longrightarrow>
        check (FGASubjectFromPrincipal (pr_type pr) (pr_id pr)) FGARelationViewer
          (FGAObjectRef FGAObjectTypeTargetGroup g) = Inr True)"
  by (auto simp: checkTargetGroupViewer_def Let_def split: option.splits sum.splits)

lemma authorizeDestination_ok:
  "authorizeDestination p pr dst = Inr u \<longleftrightarrow>
     (\<forall>check. p_check p = Some check \<longrightarrow>
        FGASubjectFromPrincipal (pr_type pr) (pr_id pr) \<noteq> '''' \<longrightarrow>
        check (FGASubjectFromPrincipal (pr_type pr) (pr_id pr)) FGARelationEditor
          (FGAObjectRef FGAObjectTypeProject dst) = Inr True)"
  by (auto simp: authorizeDestination_def Let_def split: option.splits sum.splits)

end
