(* ===== verification/Lb_Delete.thy ===== *)
theory Lb_Delete
  imports Usecase_Steps
begin

text \<open>
  The deletion of a load balancer (\<^verbatim>\<open>api/loadbalancer/delete.go\<close>): the synchronous prechecks, then the
  worker: mark the row as DELETING in a transaction of its own, release the address of each
  family, delete the row with its event and the unregistration.
\<close>

definition Delete_Execute :: "peers \<Rightarrow> err option \<Rightarrow> string \<Rightarrow> ('v, string \<times> string) saga" where
  "Delete_Execute p op_row i =
     saga_bind (saga_check (require_id p ''network_load_balancer_id'' ''network load balancer'' i)) (\<lambda>_.
     saga_bind (reading (LB_Get i)) (\<lambda>cur.
       if lb_protection cur
       then saga_fail (Status CodeFailedPrecondition ''load balancer has deletion protection enabled'')
       else
     saga_bind (reading (LB_HasListeners i)) (\<lambda>hasListeners.
       if hasListeners
       then saga_fail (Status CodeFailedPrecondition
              (''NetworkLoadBalancer '' @ i @ '' has listener(s); delete first''))
       else
     saga_bind (reading (LB_HasAttachedTargetGroups i)) (\<lambda>hasTG.
       if hasTG
       then saga_fail (Status CodeFailedPrecondition
              (''NetworkLoadBalancer '' @ i @ '' has attached target group(s); detach first''))
       else
     saga_bind (insert_op op_row) (\<lambda>_. saga_return (i, lb_project cur))))))"

definition markDeleting :: "string \<Rightarrow> ('v, lb_row) saga" where
  "markDeleting i = writing (LB_MarkDeleting i)"

definition releaseVIP :: "'v address_client option \<Rightarrow> string \<Rightarrow> vip_origin \<Rightarrow> ('v, unit) saga" where
  "releaseVIP client address_id origin =
     (if address_id = '''' then saga_return ()
      else case client of
        None \<Rightarrow> saga_fail (Status CodeUnavailable ''vpc internal address client not configured'')
      | Some c \<Rightarrow>
          if origin = VipOriginAuto
          then saga_bind (call_clear c address_id) (\<lambda>_. call_free c address_id)
          else call_clear c address_id)"

definition lb_delete_tx :: "string \<Rightarrow> string \<Rightarrow> unit tx" where
  "lb_delete_tx i project =
     tx_bind (LB_Delete i) (\<lambda>_.
     tx_bind (tx_emit (emit_outbox OutboxLoadBalancer i project ActionDeleted
                         [(''id'', JString i), (''project_id'', JString project)])) (\<lambda>_.
     tx_emit (emit_fga FGAEventUnregister (lbUnregisterIntent i project))))"

definition doDelete :: "'v address_client option \<Rightarrow> string \<Rightarrow> string \<Rightarrow> ('v, unit) saga" where
  "doDelete client i project =
     saga_bind (markDeleting i) (\<lambda>marked.
     saga_bind (saga_map_err MapDomainErr (releaseVIP client (lb_addr_id_v4 marked) (lb_origin_v4 marked))) (\<lambda>_.
     saga_bind (saga_map_err MapDomainErr (releaseVIP client (lb_addr_id_v6 marked) (lb_origin_v6 marked))) (\<lambda>_.
     writing (lb_delete_tx i project))))"

subsection \<open>Facts\<close>

text \<open>What a complete release of an address leaves in the record of calls.\<close>

definition release_calls :: "string \<Rightarrow> vip_origin \<Rightarrow> call_log" where
  "release_calls a origin =
     (if a = '''' then []
      else if origin = VipOriginAuto then [(CallClear a, Inr ''''), (CallFree a, Inr '''')]
      else [(CallClear a, Inr '''')])"

lemma releaseVIP_Inr:
  assumes "releaseVIP client a origin w = (Inr u, w')"
  shows "w_calls w' = w_calls w @ release_calls a origin \<and> w_db w' = w_db w"
  using assms by (auto simp: releaseVIP_def release_calls_def saga_return_def saga_fail_def saga_bind_Inr
      split: if_splits option.splits dest!: call_clear_log call_free_log)

lemma releaseVIP_db:
  assumes "releaseVIP client a origin w = (r, w')"
  shows "w_db w' = w_db w"
  using assms by (auto simp: releaseVIP_def saga_return_def saga_fail_def saga_bind_def
      split: if_splits option.splits prod.splits sum.splits dest!: call_clear_log call_free_log)

lemma lb_delete_tx_Inr:
  assumes "lb_delete_tx i project d = Inr (u, d')"
  shows "tbl_get lb_id (d_lbs d) i \<noteq> None \<and> \<not> has_listener d i \<and> \<not> has_attached d i
    \<and> d_lbs d' = tbl_del lb_id i (d_lbs d)
    \<and> events_since d d' = [(OutboxLoadBalancer, i, project, ActionDeleted,
         [(''id'', JString i), (''project_id'', JString project)])]
    \<and> intents_since d d' = [(FGAEventUnregister, lbUnregisterIntent i project)]"
  using assms by (auto simp: lb_delete_tx_def tx_defs LB_Delete_def delete_lb_def split: option.splits)

subsection \<open>Properties\<close>



text \<open>A load balancer with one allocated address, and the network service that holds it.\<close>

definition vip_db :: db where
  "vip_db = empty_db \<lparr> d_tx := 2, d_lbs :=
     [set_vip ''IPV4'' ''10.0.0.0'' ''adr0'' VipOriginAuto (new_lb_row (empty_db \<lparr> d_tx := 1 \<rparr>)
        (sample_lb \<lparr> lb_status := LBStatusInactive \<rparr>))] \<rparr>"

definition vip_world :: "string list world" where
  "vip_world = \<lparr> w_db = vip_db, w_vpc = [''adr0''], w_slots = [], w_calls = [] \<rparr>"

lemma vip_delete_eval:
  "is_ok (fst (doDelete (Some (sample_client False)) ''nlb1'' ''p1'' vip_world))"
  "w_calls (snd (doDelete (Some (sample_client False)) ''nlb1'' ''p1'' vip_world)) \<noteq> w_calls vip_world"
  by code_simp+



end
