(* ===== verification/Lb_Lifecycle.thy ===== *)
theory Lb_Lifecycle
  imports Lb_Delete
begin

text \<open>
  The other operations on a load balancer (\<^verbatim>\<open>api/loadbalancer/start.go\<close>, \<^verbatim>\<open>stop.go\<close>,
  \<^verbatim>\<open>attach_target_group.go\<close>, \<^verbatim>\<open>detach_target_group.go\<close>, \<^verbatim>\<open>move.go\<close>, \<^verbatim>\<open>update.go\<close> and
  \<^verbatim>\<open>get_target_states.go\<close>). Each has a synchronous part (\<open>..._Execute\<close>) that returns the
  arguments of its worker (\<open>do...\<close>); the worker's transaction is a definition of its own.
\<close>

abbreviation lb_id_ok :: "peers \<Rightarrow> string \<Rightarrow> err + unit" where
  "lb_id_ok p i \<equiv> require_id p ''network_load_balancer_id'' ''network load balancer'' i"

subsection \<open>Start and stop\<close>

definition status_refused :: "string \<Rightarrow> string \<Rightarrow> lb_status \<Rightarrow> string \<Rightarrow> err" where
  "status_refused i what s expected = Status CodeFailedPrecondition
     (''NetworkLoadBalancer '' @ i @ '' cannot be '' @ what @ '' in status '' @ lb_status_string s @
      '' (expected '' @ expected @ '')'')"

definition Start_Execute :: "peers \<Rightarrow> err option \<Rightarrow> string \<Rightarrow> ('v, string \<times> lb_status) saga" where
  "Start_Execute p op_row i =
     saga_bind (saga_check (lb_id_ok p i)) (\<lambda>_.
     saga_bind (reading (LB_Get i)) (\<lambda>cur.
       if lb_status cur \<noteq> LBStatusStopped \<and> lb_status cur \<noteq> LBStatusInactive
       then saga_fail (status_refused i ''started'' (lb_status cur) ''STOPPED or INACTIVE'')
       else saga_bind (insert_op op_row) (\<lambda>_. saga_return (i, lb_status cur))))"

definition status_raced :: "string \<Rightarrow> string \<Rightarrow> err \<Rightarrow> err" where
  "status_raced i what e =
     (if is_err e ErrFailedPrecondition
      then Status CodeFailedPrecondition
             (''NetworkLoadBalancer '' @ i @ '' status changed concurrently; retry '' @ what)
      else MapDomainErr e)"

definition updated_event :: "lb_row \<Rightarrow> unit tx" where
  "updated_event r = tx_emit (emit_outbox OutboxLoadBalancer (lb_id r) (lb_project r) ActionUpdated
     (lbOutboxPayload r))"

definition start_tx :: "string \<Rightarrow> lb_status \<Rightarrow> lb_row tx" where
  "start_tx i expected =
     tx_bind (tx_map_err (status_raced i ''Start'') (LB_SetStatusCAS i expected LBStatusStarting)) (\<lambda>_.
     tx_bind (\<lambda>d. attempt (LB_HasListeners i d) (\<lambda>b. Inr (b, d))) (\<lambda>hasListeners.
     tx_bind (\<lambda>d. attempt (LB_HasAttachedTargetGroups i d) (\<lambda>b. Inr (b, d))) (\<lambda>hasTG.
     tx_bind (LB_SetStatusCAS i LBStatusStarting
                (if hasListeners \<and> hasTG then LBStatusActive else LBStatusInactive)) (\<lambda>final.
     tx_bind (updated_event final) (\<lambda>_. tx_return final)))))"

definition doStart :: "string \<Rightarrow> lb_status \<Rightarrow> ('v, lb_row) saga" where
  "doStart i expected = writing (start_tx i expected)"

definition Stop_Execute :: "peers \<Rightarrow> err option \<Rightarrow> string \<Rightarrow> ('v, string \<times> lb_status) saga" where
  "Stop_Execute p op_row i =
     saga_bind (saga_check (lb_id_ok p i)) (\<lambda>_.
     saga_bind (reading (LB_Get i)) (\<lambda>cur.
       if lb_status cur \<noteq> LBStatusActive \<and> lb_status cur \<noteq> LBStatusInactive
       then saga_fail (status_refused i ''stopped'' (lb_status cur) ''ACTIVE or INACTIVE'')
       else saga_bind (insert_op op_row) (\<lambda>_. saga_return (i, lb_status cur))))"

definition stop_tx :: "string \<Rightarrow> lb_status \<Rightarrow> lb_row tx" where
  "stop_tx i expected =
     tx_bind (tx_map_err (status_raced i ''Stop'') (LB_SetStatusCAS i expected LBStatusStopping)) (\<lambda>_.
     tx_bind (LB_SetStatusCAS i LBStatusStopping LBStatusStopped) (\<lambda>final.
     tx_bind (updated_event final) (\<lambda>_. tx_return final)))"

definition doStop :: "string \<Rightarrow> lb_status \<Rightarrow> ('v, lb_row) saga" where
  "doStop i expected = writing (stop_tx i expected)"

subsection \<open>Attaching and detaching a target group\<close>

definition mismatch :: "string \<Rightarrow> string \<Rightarrow> string \<Rightarrow> err" where
  "mismatch what a b = Status CodeFailedPrecondition
     (what @ '' mismatch: NetworkLoadBalancer is in '' @ what @ '' '' @ a @
      '', TargetGroup is in '' @ what @ '' '' @ b)"

text \<open>\<open>None\<close> is a request without the attached target group.\<close>

definition Attach_Execute ::
  "peers \<Rightarrow> principal \<Rightarrow> err option \<Rightarrow> string \<Rightarrow> string option \<Rightarrow>
   ('v, string \<times> string \<times> string) saga" where
  "Attach_Execute p pr op_row i attached =
     saga_bind (saga_check (lb_id_ok p i)) (\<lambda>_.
     if attached = None \<or> attached = Some ''''
     then saga_fail (err_invalid_arg ''attached_target_group.target_group_id'' ''required'')
     else let g = the attached in
     saga_bind (saga_check (case p_valid_id p ''target group'' g of Some e \<Rightarrow> Inl e | None \<Rightarrow> Inr ())) (\<lambda>_.
     saga_bind (reading (LB_Get i)) (\<lambda>lb.
     saga_bind (reading (TG_Get g)) (\<lambda>tg.
     saga_bind (saga_check (checkTargetGroupViewer p pr g)) (\<lambda>_.
       if lb_region lb \<noteq> tg_region tg
       then saga_fail (mismatch ''region'' (lb_region lb) (tg_region tg))
       else if lb_project lb \<noteq> tg_project tg
       then saga_fail (mismatch ''project'' (lb_project lb) (tg_project tg))
       else saga_bind (insert_op op_row) (\<lambda>_. saga_return (i, g, lb_project lb)))))))"

definition attach_event :: "string \<Rightarrow> string \<Rightarrow> string \<Rightarrow> string \<Rightarrow> unit tx" where
  "attach_event i g project action = tx_emit (emit_outbox OutboxLoadBalancer i project ActionUpdated
     [(''id'', JString i), (''target_group_id'', JString g), (''action'', JString action)])"

definition attach_tx :: "string \<Rightarrow> string \<Rightarrow> string \<Rightarrow> unit tx" where
  "attach_tx i g project =
     tx_bind (Attached_Attach i g 0) (\<lambda>_. attach_event i g project ''attach'')"

definition doAttach :: "string \<Rightarrow> string \<Rightarrow> string \<Rightarrow> ('v, lb_row) saga" where
  "doAttach i g project =
     saga_bind (writing (attach_tx i g project)) (\<lambda>_. reading (LB_Get i))"

definition Detach_Execute ::
  "peers \<Rightarrow> err option \<Rightarrow> string \<Rightarrow> string \<Rightarrow> ('v, string \<times> string \<times> string) saga" where
  "Detach_Execute p op_row i g =
     saga_bind (saga_check (lb_id_ok p i)) (\<lambda>_.
     saga_bind (saga_check (require_id p ''target_group_id'' ''target group'' g)) (\<lambda>_.
     saga_bind (reading (LB_Get i)) (\<lambda>lb.
     saga_bind (insert_op op_row) (\<lambda>_. saga_return (i, g, lb_project lb)))))"

definition detach_tx :: "string \<Rightarrow> string \<Rightarrow> string \<Rightarrow> unit tx" where
  "detach_tx i g project =
     tx_bind (Attached_Detach i g) (\<lambda>_. attach_event i g project ''detach'')"

definition doDetach :: "string \<Rightarrow> string \<Rightarrow> string \<Rightarrow> ('v, lb_row) saga" where
  "doDetach i g project =
     saga_bind (writing (detach_tx i g project)) (\<lambda>_. reading (LB_Get i))"

subsection \<open>Moving to another project\<close>

definition Move_Execute ::
  "peers \<Rightarrow> principal \<Rightarrow> err option \<Rightarrow> string \<Rightarrow> string \<Rightarrow> ('v, string \<times> string \<times> string) saga" where
  "Move_Execute p pr op_row i dst =
     saga_bind (saga_check (lb_id_ok p i)) (\<lambda>_.
     if dst = '''' then saga_fail (err_invalid_arg ''destination_project_id'' ''required'')
     else
     saga_bind (reading (LB_Get i)) (\<lambda>cur.
     if lb_project cur = dst
     then saga_fail (Status CodeInvalidArgument ''destination project is the same as source'')
     else
     saga_bind (reading (LB_HasAttachedTargetGroups i)) (\<lambda>hasTG.
     if hasTG
     then saga_fail (Status CodeFailedPrecondition
            ''NetworkLoadBalancer has attached target group(s); detach before Move'')
     else
     saga_bind (saga_check (case p_project p of None \<Rightarrow> Inr ()
                 | Some f \<Rightarrow> mapping_err (\<lambda>e. PeerErrToStatus e ''project'' dst) (f dst))) (\<lambda>_.
     saga_bind (saga_check (authorizeDestination p pr dst)) (\<lambda>_.
     saga_bind (insert_op op_row) (\<lambda>_. saga_return (i, lb_project cur, dst)))))))"

definition move_tx :: "string \<Rightarrow> string \<Rightarrow> string \<Rightarrow> lb_row tx" where
  "move_tx i src dst =
     tx_bind (LB_MoveProject i dst) (\<lambda>moved.
     tx_bind (tx_emit (emit_outbox OutboxLoadBalancer (lb_id moved) (lb_project moved) ActionMoved
                         (movedPayload (lb_id moved) src dst))) (\<lambda>_.
     tx_bind (updated_event moved) (\<lambda>_.
     tx_bind (tx_emit (emit_fga FGAEventRegister (lbMirrorIntent moved))) (\<lambda>_.
     tx_bind (tx_emit (emit_fga FGAEventUnregister (lbUnregisterIntent i src))) (\<lambda>_.
     tx_return moved)))))"

definition doMove :: "string \<Rightarrow> string \<Rightarrow> string \<Rightarrow> ('v, lb_row) saga" where
  "doMove i src dst = writing (move_tx i src dst)"

subsection \<open>Update\<close>

record update_request =
  ur_id :: string
  ur_mask :: "string list"
  ur_name :: string
  ur_description :: string
  ur_labels :: "(string \<times> string) list"
  ur_protection :: bool
  ur_affinity :: pb_affinity
  ur_zones :: "string list"

definition knownUpdateFields :: "string list" where
  "knownUpdateFields = [''name'', ''description'', ''labels'', ''deletion_protection'',
     ''session_affinity'', ''disabled_announce_zones'']"

definition after_create :: "string \<Rightarrow> string \<times> string" where
  "after_create f = (f, f @ '' is immutable after NetworkLoadBalancer.Create'')"

definition immutableUpdateFields :: "(string \<times> string) list" where
  "immutableUpdateFields =
     [after_create ''type'', after_create ''placement_type'', after_create ''region_id'',
      (''project_id'', ''project_id is immutable; use NetworkLoadBalancerService.Move''),
      after_create ''v4_source'', after_create ''v6_source'', after_create ''v4_address_id'',
      after_create ''v6_address_id'']"

definition mask_field :: "string list \<Rightarrow> (string \<times> string) list \<Rightarrow> string \<Rightarrow> err + unit" where
  "mask_field known immutable f =
     (case map_of immutable f of
        Some msg \<Rightarrow> Inl (Status CodeInvalidArgument msg)
      | None \<Rightarrow> if f \<notin> set known
                then Inl (Status CodeInvalidArgument (''unknown update_mask field: '' @ f))
                else Inr ())"

text \<open>\<open>applies msk f\<close>: the field is in the mask, or the mask is empty.\<close>

definition applies :: "string list \<Rightarrow> string \<Rightarrow> bool" where
  "applies msk f \<longleftrightarrow> msk = [] \<or> f \<in> set msk"

definition applyUpdateMask :: "load_balancer \<Rightarrow> update_request \<Rightarrow> load_balancer" where
  "applyUpdateMask cur rq =
     (let msk = ur_mask rq;
          out = if applies msk ''name'' then cur \<lparr> lb_name := ur_name rq \<rparr> else cur;
          out = if applies msk ''description'' then out \<lparr> lb_description := ur_description rq \<rparr> else out;
          out = if applies msk ''labels'' then out \<lparr> lb_labels := LabelsFromMap (ur_labels rq) \<rparr> else out;
          out = if applies msk ''deletion_protection''
                then out \<lparr> lb_protection := ur_protection rq \<rparr> else out;
          out = if applies msk ''session_affinity''
                then out \<lparr> lb_affinity := domainSessionAffinity (ur_affinity rq) \<rparr> else out
      in if applies msk ''disabled_announce_zones''
         then out \<lparr> lb_disabled_zones := normalizeZones (ur_zones rq) \<rparr> else out)"

definition Update_Execute ::
  "peers \<Rightarrow> err option \<Rightarrow> update_request \<Rightarrow> ('v, load_balancer \<times> nat \<times> bool) saga" where
  "Update_Execute p op_row rq =
     saga_bind (saga_check (lb_id_ok p (ur_id rq))) (\<lambda>_.
     saga_bind (saga_check (each (mask_field knownUpdateFields immutableUpdateFields) (ur_mask rq))) (\<lambda>_.
     saga_bind (reading (LB_Get (ur_id rq))) (\<lambda>cur.
     let updated = applyUpdateMask (load_balancer.truncate cur) rq in
     saga_bind (saga_check (mapping_err MapDomainErr (validated (LoadBalancer_Validate updated)))) (\<lambda>_.
     saga_bind (saga_check (if applies (ur_mask rq) ''disabled_announce_zones''
                then checkDisabledAnnounceZones p (lb_placement updated) (lb_region updated)
                       (lb_disabled_zones updated)
                else Inr ())) (\<lambda>_.
     saga_bind (insert_op op_row) (\<lambda>_.
     saga_return (updated, lb_xmin cur, applies (ur_mask rq) ''labels'')))))))"

definition update_tx :: "load_balancer \<Rightarrow> nat \<Rightarrow> bool \<Rightarrow> lb_row tx" where
  "update_tx lb expected emit_mirror =
     tx_bind (LB_Update lb expected) (\<lambda>updated.
     tx_bind (updated_event updated) (\<lambda>_.
     tx_bind (if emit_mirror then tx_emit (emit_fga FGAEventRegister (lbMirrorIntent updated))
              else tx_return ()) (\<lambda>_.
     tx_return updated)))"

definition doUpdate :: "load_balancer \<Rightarrow> nat \<Rightarrow> bool \<Rightarrow> ('v, lb_row) saga" where
  "doUpdate lb expected emit_mirror = writing (update_tx lb expected emit_mirror)"

subsection \<open>The states of the targets\<close>

datatype target_state = StateInactive | StateDraining | StateInitial | StateHealthy

record target_view =
  tv_subnet :: string
  tv_address :: string
  tv_status :: target_state

text \<open>\<^verbatim>\<open>time.Time.Sub\<close> saturates; the instants are in microseconds, durations in nanoseconds.\<close>

definition time_sub :: "int \<Rightarrow> int \<Rightarrow> int" where
  "time_sub t u = max (- (2 ^ 63)) (min (2 ^ 63 - 1) ((t - u) * 1000))"

definition isInInitialRamp :: "health_check \<Rightarrow> int \<Rightarrow> int \<Rightarrow> bool" where
  "isInInitialRamp hc created now =
     (let interval = (if sint (hc_interval hc) \<le> 0 then DefaultHealthInterval else hc_interval hc);
          threshold = (if sint (hc_healthy hc) \<le> 0 then DefaultHealthyThreshold else hc_healthy hc)
      in time_sub now created < sint (interval * scast threshold))"

definition subnetOfTarget :: "target \<Rightarrow> string" where
  "subnetOfTarget t = (case t_ip_ref t of Some r \<Rightarrow> ipr_subnet r | None \<Rightarrow> '''')"

definition addressOfTarget :: "target \<Rightarrow> string" where
  "addressOfTarget t =
     (case t_ip_ref t of Some r \<Rightarrow> ipr_address r
      | None \<Rightarrow> (case t_external t of Some e \<Rightarrow> ext_address e
      | None \<Rightarrow> (case t_instance t of Some i \<Rightarrow> i
      | None \<Rightarrow> (case t_nic t of Some i \<Rightarrow> i | None \<Rightarrow> ''''))))"

definition computeTargetState :: "lb_status \<Rightarrow> health_check \<Rightarrow> target_row \<Rightarrow> int \<Rightarrow> target_view" where
  "computeTargetState s hc t now =
     \<lparr> tv_subnet = subnetOfTarget (scanTarget t), tv_address = addressOfTarget (scanTarget t),
       tv_status = (if s = LBStatusStopped then StateInactive
                    else if tr_status t = TargetDraining then StateDraining
                    else if isInInitialRamp hc (tr_created t) now then StateInitial
                    else StateHealthy) \<rparr>"

definition GetTargetStates_Execute ::
  "peers \<Rightarrow> principal \<Rightarrow> int \<Rightarrow> string \<Rightarrow> string \<Rightarrow> ('v, target_view list) saga" where
  "GetTargetStates_Execute p pr now i g =
     saga_bind (saga_check (lb_id_ok p i)) (\<lambda>_.
     saga_bind (saga_check (require_id p ''target_group_id'' ''target group'' g)) (\<lambda>_.
     saga_bind (reading (LB_Get i)) (\<lambda>lb.
     saga_bind (reading (TG_Get g)) (\<lambda>tg.
     saga_bind (saga_check (checkTargetGroupViewer p pr g)) (\<lambda>_.
       if lb_project lb \<noteq> tg_project tg
       then saga_fail (mismatch ''project'' (lb_project lb) (tg_project tg))
       else
     saga_bind (reading (TG_ListTargets g)) (\<lambda>targets.
     saga_return (map (\<lambda>t. computeTargetState (lb_status lb) (tg_health tg) t now) targets)))))))"

subsection \<open>Facts\<close>

lemma reading_LB_Get:
  "reading (LB_Get i) w = (Inr r, w') \<Longrightarrow>
   tbl_get lb_id (d_lbs (begin_tx w)) i = Some r \<and> w' = settle w (begin_tx w)"
  by (auto simp: LB_Get_Inr dest: reading_Inr)

lemma emit_events_len:
  "d_outbox (emit_outbox k i p a m d) = d_outbox d @
     [\<lparr> ob_seq = d_outbox_seq d, ob_kind = k, ob_resource = i, ob_project = p, ob_action = a,
        ob_payload = m, ob_at = d_now d \<rparr>]"
  by (simp add: emit_outbox_def)

lemma lb_written_outboxes:
  "lb_written i f d r' d' \<Longrightarrow> d_outbox d' = d_outbox d \<and> d_fga d' = d_fga d \<and> d_listeners d' = d_listeners d
     \<and> d_attached d' = d_attached d \<and> d_tgs d' = d_tgs d \<and> d_targets d' = d_targets d
     \<and> d_now d' = d_now d \<and> d_tx d' = d_tx d"
  by (auto simp: lb_written_def)

lemma LB_MoveProject_Inr:
  assumes "LB_MoveProject i project d = Inr (r', d')"
  shows "\<exists>r. tbl_get lb_id (d_lbs d) i = Some r
      \<and> r' = r \<lparr> lb_project := project, lb_updated := d_now d, lb_xmin := d_tx d \<rparr>"
    and "\<not> has_attached d i"
    and "d' = d \<lparr> d_lbs := tbl_upd lb_id i (\<lambda>r. r \<lparr> lb_project := project, lb_updated := d_now d,
                                                    lb_xmin := d_tx d \<rparr>) (d_lbs d),
                 d_listeners := map (\<lambda>l. if ls_lb l = i
                   then l \<lparr> ls_project := project, ls_updated := d_now d, ls_xmin := d_tx d \<rparr> else l)
                   (d_listeners d) \<rparr>"
proof -
  let ?f = "\<lambda>r. r \<lparr> lb_project := project, lb_updated := d_now d \<rparr>"
  obtain r d1 where r: "tbl_get lb_id (d_lbs d) i = Some r" "\<not> has_attached d i"
    and u: "update_lb_returning (\<lambda>e. mapPgErr e ''NetworkLoadBalancer'' i) i ?f d = Inr (r', d1)"
    and d': "d' = d1 \<lparr> d_listeners := map (\<lambda>l. if ls_lb l = i
                   then l \<lparr> ls_project := project, ls_updated := d_now d, ls_xmin := d_tx d \<rparr> else l)
                   (d_listeners d1) \<rparr>"
    using assms by (auto simp: LB_MoveProject_def split: option.splits if_splits)
  note w = update_lb_returning_Inr [OF u r(1)]
  show "\<exists>r. tbl_get lb_id (d_lbs d) i = Some r
      \<and> r' = r \<lparr> lb_project := project, lb_updated := d_now d, lb_xmin := d_tx d \<rparr>"
    using w(1) r by simp
  show "\<not> has_attached d i" using r by simp
  show "d' = d \<lparr> d_lbs := tbl_upd lb_id i (\<lambda>r. r \<lparr> lb_project := project, lb_updated := d_now d,
                                                    lb_xmin := d_tx d \<rparr>) (d_lbs d),
                 d_listeners := map (\<lambda>l. if ls_lb l = i
                   then l \<lparr> ls_project := project, ls_updated := d_now d, ls_xmin := d_tx d \<rparr> else l)
                   (d_listeners d) \<rparr>"
    using w(2) d' by simp
qed

lemma start_tx_Inr:
  assumes "start_tx i expected d = Inr (r, d')"
  shows "\<exists>d1 d2 target r1. LB_SetStatusCAS i expected LBStatusStarting d = Inr (r1, d1)
    \<and> target = (if has_listener d i \<and> has_attached d i then LBStatusActive else LBStatusInactive)
    \<and> LB_SetStatusCAS i LBStatusStarting target d1 = Inr (r, d2)
    \<and> d' = emit_outbox OutboxLoadBalancer (lb_id r) (lb_project r) ActionUpdated (lbOutboxPayload r) d2
    \<and> d_outbox d2 = d_outbox d \<and> d_fga d2 = d_fga d"
proof -
  obtain r1 d1 d2 where c1: "LB_SetStatusCAS i expected LBStatusStarting d = Inr (r1, d1)"
    and c2: "LB_SetStatusCAS i LBStatusStarting
      (if has_listener d1 i \<and> has_attached d1 i then LBStatusActive else LBStatusInactive) d1 = Inr (r, d2)"
    and d': "d' = emit_outbox OutboxLoadBalancer (lb_id r) (lb_project r) ActionUpdated (lbOutboxPayload r) d2"
    using assms by (auto simp: start_tx_def tx_defs updated_event_def LB_HasListeners_def
        LB_HasAttachedTargetGroups_def)
  have s1: "d_listeners d1 = d_listeners d \<and> d_attached d1 = d_attached d \<and> d_outbox d1 = d_outbox d \<and> d_fga d1 = d_fga d"
    using LB_SetStatusCAS_Inr [OF c1] lb_written_outboxes by blast
  have s2: "d_outbox d2 = d_outbox d1 \<and> d_fga d2 = d_fga d1"
    using LB_SetStatusCAS_Inr [OF c2] lb_written_outboxes by blast
  from c1 c2 d' s1 s2 show ?thesis by (simp add: has_listener_def has_attached_def)
qed

subsection \<open>Properties\<close>

text \<open>C31: a start moves the load balancer, in one transaction, from the status the caller saw to ACTIVE
  when it has a listener and an attached target group and to INACTIVE otherwise; no other load
  balancer changes, the transient STARTING is never visible, and exactly one event reports the
  final status. A stop does the same to STOPPED.\<close>

theorem start_stop_result:
  "(start_tx i expected d = Inr (r, d') \<longrightarrow>
      map_option lb_status (tbl_get lb_id (d_lbs d) i) = Some expected
      \<and> map_option lb_status (tbl_get lb_id (d_lbs d') i)
          = Some (if has_listener d i \<and> has_attached d i then LBStatusActive else LBStatusInactive)
      \<and> (\<forall>j. j \<noteq> i \<longrightarrow> tbl_get lb_id (d_lbs d') j = tbl_get lb_id (d_lbs d) j)
      \<and> events_since d d' = [(OutboxLoadBalancer, lb_id r, lb_project r, ActionUpdated, lbOutboxPayload r)])
   \<and> (stop_tx i expected d = Inr (r, d') \<longrightarrow>
      map_option lb_status (tbl_get lb_id (d_lbs d) i) = Some expected
      \<and> map_option lb_status (tbl_get lb_id (d_lbs d') i) = Some LBStatusStopped
      \<and> (\<forall>j. j \<noteq> i \<longrightarrow> tbl_get lb_id (d_lbs d') j = tbl_get lb_id (d_lbs d) j)
      \<and> events_since d d' = [(OutboxLoadBalancer, lb_id r, lb_project r, ActionUpdated, lbOutboxPayload r)])"
proof (intro conjI impI)
  assume "start_tx i expected d = Inr (r, d')"
  from start_tx_Inr [OF this] obtain r1 d1 d2 where
    c: "LB_SetStatusCAS i expected LBStatusStarting d = Inr (r1, d1)"
      "LB_SetStatusCAS i LBStatusStarting
        (if has_listener d i \<and> has_attached d i then LBStatusActive else LBStatusInactive) d1 = Inr (r, d2)"
    and d': "d' = emit_outbox OutboxLoadBalancer (lb_id r) (lb_project r) ActionUpdated (lbOutboxPayload r) d2"
      "d_outbox d2 = d_outbox d" by blast
  show "map_option lb_status (tbl_get lb_id (d_lbs d) i) = Some expected"
    and "map_option lb_status (tbl_get lb_id (d_lbs d') i)
          = Some (if has_listener d i \<and> has_attached d i then LBStatusActive else LBStatusInactive)"
    and "\<forall>j. j \<noteq> i \<longrightarrow> tbl_get lb_id (d_lbs d') j = tbl_get lb_id (d_lbs d) j"
    and "events_since d d' = [(OutboxLoadBalancer, lb_id r, lb_project r, ActionUpdated, lbOutboxPayload r)]"
    using lb_cas.steps_chain [OF c] lb_cas.frame [OF c(1)] lb_cas.frame [OF c(2)] d' by simp_all
next
  assume "stop_tx i expected d = Inr (r, d')"
  then obtain r1 d1 d2 where
    c: "LB_SetStatusCAS i expected LBStatusStopping d = Inr (r1, d1)"
      "LB_SetStatusCAS i LBStatusStopping LBStatusStopped d1 = Inr (r, d2)"
    and d': "d' = emit_outbox OutboxLoadBalancer (lb_id r) (lb_project r) ActionUpdated (lbOutboxPayload r) d2"
    by (auto simp: stop_tx_def tx_defs updated_event_def)
  have "d_outbox d2 = d_outbox d"
    using LB_SetStatusCAS_Inr [OF c(1)] LB_SetStatusCAS_Inr [OF c(2)] lb_written_outboxes by metis
  then show "map_option lb_status (tbl_get lb_id (d_lbs d) i) = Some expected"
    and "map_option lb_status (tbl_get lb_id (d_lbs d') i) = Some LBStatusStopped"
    and "\<forall>j. j \<noteq> i \<longrightarrow> tbl_get lb_id (d_lbs d') j = tbl_get lb_id (d_lbs d) j"
    and "events_since d d' = [(OutboxLoadBalancer, lb_id r, lb_project r, ActionUpdated, lbOutboxPayload r)]"
    using lb_cas.steps_chain [OF c] lb_cas.frame [OF c(1)] lb_cas.frame [OF c(2)] d' by simp_all
qed

text \<open>A stopped load balancer whose only listener is being deleted, with a target group attached.\<close>

definition leaving_listener :: listener where
  "leaving_listener = (NewListener ''lst1'' sample_lb ''l'' ''TCP'' 80 80 ''IPV4'')
     \<lparr> ls_status := ListenerStatusDeleting \<rparr>"

definition stopped_db :: db where
  "stopped_db = empty_db \<lparr> d_tx := 5,
     d_lbs := [new_lb_row empty_db (sample_lb \<lparr> lb_status := LBStatusStopped \<rparr>)],
     d_listeners := [new_listener_row empty_db sample_lb leaving_listener],
     d_attached := [\<lparr> at_lb = ''nlb1'', at_tg = ''tgr1'', at_priority = 0, at_since = 0 \<rparr>] \<rparr>"

theorem start_stop_result_witness:
  "\<exists>r d'. start_tx ''nlb1'' LBStatusStopped stopped_db = Inr (r, d')
    \<and> map_option lb_status (tbl_get lb_id (d_lbs d') ''nlb1'') = Some LBStatusActive"
proof -
  have "is_ok (start_tx ''nlb1'' LBStatusStopped stopped_db)" by code_simp
  then obtain r d' where s: "start_tx ''nlb1'' LBStatusStopped stopped_db = Inr (r, d')"
    by (auto simp: is_ok_iff)
  have "has_listener stopped_db ''nlb1'' \<and> has_attached stopped_db ''nlb1''" by code_simp
  with s show ?thesis using start_stop_result [of "''nlb1''" LBStatusStopped stopped_db r d'] by auto
qed

text \<open>Start counts a listener that is being deleted, the trigger does not: the status that start
  reports can be ACTIVE where the recomputation of the same database gives INACTIVE.\<close>

theorem start_contradicts_trigger:
  "\<exists>r d'. start_tx ''nlb1'' LBStatusStopped stopped_db = Inr (r, d')
    \<and> lb_status r = LBStatusActive \<and> recomputed_status d' ''nlb1'' = LBStatusInactive"
proof -
  have "case start_tx ''nlb1'' LBStatusStopped stopped_db of Inl e \<Rightarrow> False
    | Inr (r, d') \<Rightarrow> lb_status r = LBStatusActive \<and> recomputed_status d' ''nlb1'' = LBStatusInactive"
    by code_simp
  then show ?thesis by (auto split: sum.splits prod.splits)
qed

text \<open>A caller whose check on the target group (viewer) or on the destination project (editor) is
  not positive never gets past the synchronous part of the attachment, of the reading of target
  states and of the move, whatever the databases hold and whatever happens in between; a failing
  check counts as a refusal.\<close>

theorem second_object_authorized:
  assumes "p_check p = Some check" and "FGASubjectFromPrincipal (pr_type pr) (pr_id pr) = subject"
    and "subject \<noteq> ''''"
  shows "(check subject ''viewer'' (''lb_target_group:'' @ g) \<noteq> Inr True \<longrightarrow>
        (\<exists>e. fst (Attach_Execute p pr op_row i (Some g) w) = Inl e)
        \<and> (\<exists>e. fst (GetTargetStates_Execute p pr now i g w) = Inl e))
    \<and> (check subject ''editor'' (''project:'' @ dst) \<noteq> Inr True \<longrightarrow>
        (\<exists>e. fst (Move_Execute p pr op_row i dst w) = Inl e))"
proof -
  have viewer: "checkTargetGroupViewer p pr g \<noteq> Inr ()"
    if "check subject ''viewer'' (''lb_target_group:'' @ g) \<noteq> Inr True"
    using that assms by (auto simp: checkTargetGroupViewer_ok FGARelationViewer_def FGAObjectRef_def
        FGAObjectTypeTargetGroup_def)
  have editor: "authorizeDestination p pr dst \<noteq> Inr ()"
    if "check subject ''editor'' (''project:'' @ dst) \<noteq> Inr True"
    using that assms by (auto simp: authorizeDestination_ok FGARelationEditor_def FGAObjectRef_def
        FGAObjectTypeProject_def)
  have "\<exists>e. fst (Attach_Execute p pr op_row i (Some g) w) = Inl e"
    if "checkTargetGroupViewer p pr g \<noteq> Inr ()"
    by (rule saga_not_Inr) (use that in \<open>auto simp: Attach_Execute_def saga_Inr Let_def\<close>)
  moreover have "\<exists>e. fst (GetTargetStates_Execute p pr now i g w) = Inl e"
    if "checkTargetGroupViewer p pr g \<noteq> Inr ()"
    by (rule saga_not_Inr) (use that in \<open>auto simp: GetTargetStates_Execute_def saga_Inr\<close>)
  moreover have "\<exists>e. fst (Move_Execute p pr op_row i dst w) = Inl e"
    if "authorizeDestination p pr dst \<noteq> Inr ()"
    by (rule saga_not_Inr) (use that in \<open>auto simp: Move_Execute_def saga_Inr\<close>)
  ultimately show ?thesis using viewer editor by blast
qed

definition deny_all :: peers where
  "deny_all = sample_peers \<lparr> p_check := Some (\<lambda>_ _ _. Inr False) \<rparr>"

theorem second_object_authorized_witness:
  "\<exists>e. fst (Move_Execute deny_all sample_principal None ''nlb1'' ''p2'' vip_world) = Inl e"
proof -
  have "p_check deny_all = Some (\<lambda>_ _ _. Inr False)" by (simp add: deny_all_def)
  moreover have "FGASubjectFromPrincipal (pr_type sample_principal) (pr_id sample_principal) = ''user:u1''"
    by (simp add: sample_principal_def FGASubjectFromPrincipal_def)
  ultimately show ?thesis
    using second_object_authorized [of deny_all "\<lambda>_ _ _. Inr False" sample_principal "''user:u1''"
        "''tgr1''" None "''nlb1''" vip_world 0 "''p2''"] by simp
qed

text \<open>C32: an accepted update changes exactly what its mask names. The mask has only mutable fields; a
  named field (every mutable one, when the mask is empty) gets the value of the request, every
  other field of the row keeps its value; the identity, the placement, the addresses and the status
  are never touched; exactly one event is emitted, and the labels are mirrored to the
  authorization service exactly when the update touches them.\<close>

theorem update_exactly_mask:
  assumes "Update_Execute p op_row rq w = (Inr (u, v, mirror), w1)"
    and "tbl_get lb_id (d_lbs (begin_tx w)) (ur_id rq) = Some cur"
    and "tbl_get lb_id (d_lbs d) (ur_id rq) = Some cur" and "update_tx u v mirror d = Inr (r, d')"
  shows "set (ur_mask rq) \<subseteq> set knownUpdateFields
    \<and> lb_name r = (if applies (ur_mask rq) ''name'' then ur_name rq else lb_name cur)
    \<and> lb_description r = (if applies (ur_mask rq) ''description'' then ur_description rq else lb_description cur)
    \<and> lb_labels r = (if applies (ur_mask rq) ''labels'' then LabelsFromMap (ur_labels rq) else lb_labels cur)
    \<and> lb_protection r = (if applies (ur_mask rq) ''deletion_protection'' then ur_protection rq else lb_protection cur)
    \<and> lb_affinity r = (if applies (ur_mask rq) ''session_affinity''
                       then domainSessionAffinity (ur_affinity rq) else lb_affinity cur)
    \<and> lb_disabled_zones r = (if applies (ur_mask rq) ''disabled_announce_zones''
                             then normalizeZones (ur_zones rq) else lb_disabled_zones cur)
    \<and> r \<lparr> lb_name := lb_name cur, lb_description := lb_description cur, lb_labels := lb_labels cur,
          lb_protection := lb_protection cur, lb_affinity := lb_affinity cur,
          lb_disabled_zones := lb_disabled_zones cur, lb_updated := lb_updated cur, lb_xmin := lb_xmin cur \<rparr> = cur
    \<and> tbl_get lb_id (d_lbs d') (ur_id rq) = Some r
    \<and> events_since d d' = [(OutboxLoadBalancer, lb_id r, lb_project r, ActionUpdated, lbOutboxPayload r)]
    \<and> intents_since d d' = (if applies (ur_mask rq) ''labels'' then [(FGAEventRegister, lbMirrorIntent r)] else [])"
proof -
  have u: "u = applyUpdateMask (load_balancer.truncate cur) rq" "v = lb_xmin cur"
      "mirror = applies (ur_mask rq) ''labels''"
    and m: "each (mask_field knownUpdateFields immutableUpdateFields) (ur_mask rq) = Inr ()"
    using assms(1,2) by (auto simp: Update_Execute_def saga_Inr Let_def saga_return_def require_id_def
        dest!: reading_LB_Get)
  have mask: "set (ur_mask rq) \<subseteq> set knownUpdateFields"
    using m by (auto simp: each_Inr mask_field_def split: option.splits if_splits)
  have id: "lb_id u = lb_id cur" "lb_id cur = ur_id rq"
    using u assms(2) by (auto simp: applyUpdateMask_def load_balancer.truncate_def Let_def dest: tbl_get_key)
  obtain d1 where up: "LB_Update u v d = Inr (r, d1)"
    and d': "d' = (if mirror then emit_fga FGAEventRegister (lbMirrorIntent r) else id)
      (emit_outbox OutboxLoadBalancer (lb_id r) (lb_project r) ActionUpdated (lbOutboxPayload r) d1)"
    using assms(4) by (cases mirror) (auto simp: update_tx_def tx_defs updated_event_def)
  from LB_Update_Inr [OF up] have w: "lb_written (lb_id u) (\<lambda>r. r \<lparr> lb_name := lb_name u,
       lb_description := lb_description u, lb_labels := lb_labels u, lb_affinity := lb_affinity u,
       lb_protection := lb_protection u, lb_disabled_zones := lb_disabled_zones u,
       lb_updated := d_now d, lb_xmin := d_tx d \<rparr>) d r d1" by blast
  have r: "r = cur \<lparr> lb_name := lb_name u, lb_description := lb_description u,
       lb_labels := lb_labels u, lb_affinity := lb_affinity u, lb_protection := lb_protection u,
       lb_disabled_zones := lb_disabled_zones u, lb_updated := d_now d, lb_xmin := d_tx d \<rparr>"
    using w assms(3) id by (simp add: lb_written_def)
  have get: "tbl_get lb_id (d_lbs d1) (ur_id rq) = Some r"
    using lb_written_get(1) [OF w] id by simp
  note out = lb_written_outboxes [OF w]
  have ev: "events_since d d' = [(OutboxLoadBalancer, lb_id r, lb_project r, ActionUpdated, lbOutboxPayload r)]"
    "intents_since d d' = (if applies (ur_mask rq) ''labels'' then [(FGAEventRegister, lbMirrorIntent r)] else [])"
    using d' out u(3) by (simp_all add: events_since_same)
  have fields: "lb_name u = (if applies (ur_mask rq) ''name'' then ur_name rq else lb_name cur)"
    "lb_description u = (if applies (ur_mask rq) ''description'' then ur_description rq else lb_description cur)"
    "lb_labels u = (if applies (ur_mask rq) ''labels'' then LabelsFromMap (ur_labels rq) else lb_labels cur)"
    "lb_protection u = (if applies (ur_mask rq) ''deletion_protection'' then ur_protection rq else lb_protection cur)"
    "lb_affinity u = (if applies (ur_mask rq) ''session_affinity''
                       then domainSessionAffinity (ur_affinity rq) else lb_affinity cur)"
    "lb_disabled_zones u = (if applies (ur_mask rq) ''disabled_announce_zones''
                             then normalizeZones (ur_zones rq) else lb_disabled_zones cur)"
    unfolding u(1) by (simp_all add: applyUpdateMask_def load_balancer.truncate_def Let_def)
  show ?thesis
    using mask ev get r fields d' by (simp del: events_since_emit intents_since_emit)
qed

definition sample_update :: update_request where
  "sample_update = \<lparr> ur_id = ''nlb1'', ur_mask = [''description'', ''labels''], ur_name = ''ignored'',
     ur_description = ''edge'', ur_labels = [(''env'', ''prod'')], ur_protection = True,
     ur_affinity = PbClientIpOnly, ur_zones = [] \<rparr>"

definition sample_updated :: "(err + load_balancer \<times> nat \<times> bool) \<times> string list world" where
  "sample_updated = Update_Execute sample_peers None sample_update vip_world"

theorem update_exactly_mask_witness:
  "\<exists>u v m w1 r d'. sample_updated = (Inr (u, v, m), w1) \<and> update_tx u v m vip_db = Inr (r, d')
    \<and> lb_description r = ''edge'' \<and> lb_protection r = False"
proof -
  have ok: "case fst sample_updated of Inl e \<Rightarrow> False | Inr (u, v, m) \<Rightarrow> is_ok (update_tx u v m vip_db)"
    by code_simp
  obtain u v m r d' where f: "fst sample_updated = Inr (u, v, m)"
    and y: "update_tx u v m vip_db = Inr (r, d')"
    using ok by (cases "fst sample_updated") (auto simp: is_ok_iff)
  define w1 where "w1 = snd sample_updated"
  have x: "sample_updated = (Inr (u, v, m), w1)" using f by (simp add: w1_def prod_eq_iff)
  define cur where "cur = hd (d_lbs vip_db)"
  have cur: "tbl_get lb_id (d_lbs vip_db) ''nlb1'' = Some cur" "lb_protection cur = False"
    unfolding cur_def by code_simp+
  have same: "d_lbs (begin_tx vip_world) = d_lbs vip_db" by code_simp
  have rid: "ur_id sample_update = ''nlb1''" by (simp add: sample_update_def)
  have "lb_description r = (if applies (ur_mask sample_update) ''description''
        then ur_description sample_update else lb_description cur)
      \<and> lb_protection r = (if applies (ur_mask sample_update) ''deletion_protection''
        then ur_protection sample_update else lb_protection cur)"
    using update_exactly_mask [OF x [unfolded sample_updated_def], unfolded rid same, OF cur(1) cur(1) y]
    by blast
  then have "lb_description r = ''edge'' \<and> lb_protection r = False"
    using cur(2) by (simp add: sample_update_def applies_def)
  with x y show ?thesis by blast
qed

lemma move_tx_Inr:
  assumes "move_tx i src dst d = Inr (r, d')"
  shows "\<not> has_attached d i"
    and "\<exists>r0. tbl_get lb_id (d_lbs d) i = Some r0
        \<and> r = r0 \<lparr> lb_project := dst, lb_updated := d_now d, lb_xmin := d_tx d \<rparr>"
    and "d_lbs d' = tbl_upd lb_id i (\<lambda>r. r \<lparr> lb_project := dst, lb_updated := d_now d,
          lb_xmin := d_tx d \<rparr>) (d_lbs d)"
    and "d_listeners d' = map (\<lambda>l. if ls_lb l = i
          then l \<lparr> ls_project := dst, ls_updated := d_now d, ls_xmin := d_tx d \<rparr> else l) (d_listeners d)"
    and "events_since d d' = [(OutboxLoadBalancer, lb_id r, lb_project r, ActionMoved, movedPayload (lb_id r) src dst),
          (OutboxLoadBalancer, lb_id r, lb_project r, ActionUpdated, lbOutboxPayload r)]"
    and "intents_since d d' = [(FGAEventRegister, lbMirrorIntent r), (FGAEventUnregister, lbUnregisterIntent i src)]"
proof -
  obtain d1 where m: "LB_MoveProject i dst d = Inr (r, d1)"
    and d': "d' = emit_fga FGAEventUnregister (lbUnregisterIntent i src)
       (emit_fga FGAEventRegister (lbMirrorIntent r)
         (emit_outbox OutboxLoadBalancer (lb_id r) (lb_project r) ActionUpdated (lbOutboxPayload r)
           (emit_outbox OutboxLoadBalancer (lb_id r) (lb_project r) ActionMoved
              (movedPayload (lb_id r) src dst) d1)))"
    using assms by (auto simp: move_tx_def tx_defs updated_event_def)
  note mv = LB_MoveProject_Inr [OF m]
  show "\<not> has_attached d i" by (rule mv(2))
  show "\<exists>r0. tbl_get lb_id (d_lbs d) i = Some r0
        \<and> r = r0 \<lparr> lb_project := dst, lb_updated := d_now d, lb_xmin := d_tx d \<rparr>" by (rule mv(1))
  show "d_lbs d' = tbl_upd lb_id i (\<lambda>r. r \<lparr> lb_project := dst, lb_updated := d_now d,
          lb_xmin := d_tx d \<rparr>) (d_lbs d)" unfolding d' mv(3) by simp
  show "d_listeners d' = map (\<lambda>l. if ls_lb l = i
          then l \<lparr> ls_project := dst, ls_updated := d_now d, ls_xmin := d_tx d \<rparr> else l) (d_listeners d)"
    unfolding d' mv(3) by simp
  show "events_since d d' = [(OutboxLoadBalancer, lb_id r, lb_project r, ActionMoved, movedPayload (lb_id r) src dst),
          (OutboxLoadBalancer, lb_id r, lb_project r, ActionUpdated, lbOutboxPayload r)]"
    unfolding d' mv(3) by (simp add: events_since_def emit_outbox_def)
  show "intents_since d d' = [(FGAEventRegister, lbMirrorIntent r), (FGAEventUnregister, lbUnregisterIntent i src)]"
    unfolding d' mv(3) by (simp add: intents_since_def emit_fga_def)
qed

text \<open>A move is refused while a target group is attached; otherwise it rewrites, in one
  transaction, the project of the load balancer and of every listener of it (and of no other row),
  reports it as one MOVED and one UPDATED event, and rewrites the owner tuple of the load balancer.\<close>

theorem move_rewrites_project:
  assumes "move_tx i src dst d = Inr (r, d')"
  shows "\<not> has_attached d i
    \<and> map_option lb_project (tbl_get lb_id (d_lbs d') i) = Some dst
    \<and> (\<forall>j. j \<noteq> i \<longrightarrow> tbl_get lb_id (d_lbs d') j = tbl_get lb_id (d_lbs d) j)
    \<and> map ls_id (d_listeners d') = map ls_id (d_listeners d)
    \<and> (\<forall>l \<in> set (d_listeners d'). ls_lb l = i \<longrightarrow> ls_project l = dst)
    \<and> filter (\<lambda>l. ls_lb l \<noteq> i) (d_listeners d') = filter (\<lambda>l. ls_lb l \<noteq> i) (d_listeners d)
    \<and> map (\<lambda>(k, j, p, a, m). (j, p, a)) (events_since d d') = [(i, dst, ActionMoved), (i, dst, ActionUpdated)]
    \<and> intents_since d d' = [(FGAEventRegister, lbMirrorIntent r), (FGAEventUnregister, lbUnregisterIntent i src)]"
proof -
  note mv = move_tx_Inr [OF assms]
  obtain r0 where r0: "tbl_get lb_id (d_lbs d) i = Some r0"
    and r: "r = r0 \<lparr> lb_project := dst, lb_updated := d_now d, lb_xmin := d_tx d \<rparr>"
    using mv(2) by blast
  have i: "lb_id r = i" "lb_project r = dst" using r tbl_get_key [OF r0] by simp_all
  have flt: "filter (\<lambda>l. ls_lb l \<noteq> i) (map (\<lambda>l. if ls_lb l = i then f l else l) t) = filter (\<lambda>l. ls_lb l \<noteq> i) t"
    if "\<And>l. ls_lb (f l) = ls_lb l" for f and t :: "listener_row list"
    using that by (induction t) auto
  have one: "map (\<lambda>(k, j, p, a, m). (j, p, a)) (events_since d d') = [(i, dst, ActionMoved), (i, dst, ActionUpdated)]"
    unfolding mv(5) by (simp add: i)
  have dst: "map_option lb_project (tbl_get lb_id (d_lbs d') i) = Some dst"
    "\<And>j. j \<noteq> i \<Longrightarrow> tbl_get lb_id (d_lbs d') j = tbl_get lb_id (d_lbs d) j"
    using r0 unfolding mv(3) by (simp_all add: tbl_get_upd)
  have ids: "map ls_id (d_listeners d') = map ls_id (d_listeners d)"
    unfolding mv(4) by simp
  have projects: "\<forall>l \<in> set (d_listeners d'). ls_lb l = i \<longrightarrow> ls_project l = dst"
    unfolding mv(4) set_map ball_simps(9) by simp
  have others: "filter (\<lambda>l. ls_lb l \<noteq> i) (d_listeners d') = filter (\<lambda>l. ls_lb l \<noteq> i) (d_listeners d)"
    unfolding mv(4) by (rule flt) simp
  from mv(1) dst ids projects others one mv(6) show ?thesis by blast
qed

definition idle_db :: db where
  "idle_db = stopped_db \<lparr> d_attached := [] \<rparr>"

theorem move_rewrites_project_witness:
  "\<exists>r d'. move_tx ''nlb1'' ''p1'' ''p2'' idle_db = Inr (r, d')
    \<and> map_option lb_project (tbl_get lb_id (d_lbs d') ''nlb1'') = Some ''p2''"
proof -
  have "is_ok (move_tx ''nlb1'' ''p1'' ''p2'' idle_db)" by code_simp
  then obtain r d' where m: "move_tx ''nlb1'' ''p1'' ''p2'' idle_db = Inr (r, d')"
    by (auto simp: is_ok_iff)
  with move_rewrites_project [OF m] show ?thesis by blast
qed

text \<open>No tuple a move writes or withdraws has a listener as its object, although the rows of the
  listeners change their project: their registered project tuple keeps naming the source
  project.\<close>

theorem move_keeps_listener_tuples:
  assumes "move_tx i src dst d = Inr (r, d')" and "l \<in> set (d_listeners d)" and "ls_lb l = i"
  shows "(\<exists>l' \<in> set (d_listeners d'). ls_id l' = ls_id l \<and> ls_project l' = dst)
    \<and> list_all (\<lambda>(ev, x). list_all (\<lambda>t. ft_object t \<noteq> ''lb_listener:'' @ ls_id l) (fi_tuples x))
        (intents_since d d')"
proof -
  show ?thesis
    unfolding move_tx_Inr(4,6) [OF assms(1)] using assms(2,3)
    by (auto simp: lbMirrorIntent_def lbUnregisterIntent_def bare_intent_def FGAProjectTuple_def
        FGAObjectRef_def FGAObjectTypeLoadBalancer_def intro!: bexI [of _ "l \<lparr> ls_project := dst,
          ls_updated := d_now d, ls_xmin := d_tx d \<rparr>"])
qed

theorem move_keeps_listener_tuples_witness:
  "\<exists>r d'. move_tx ''nlb1'' ''p1'' ''p2'' idle_db = Inr (r, d')
    \<and> list_all (\<lambda>(ev, x). list_all (\<lambda>t. ft_object t \<noteq> ''lb_listener:lst1'') (fi_tuples x))
        (intents_since idle_db d')"
proof -
  have "is_ok (move_tx ''nlb1'' ''p1'' ''p2'' idle_db)" by code_simp
  then obtain r d' where m: "move_tx ''nlb1'' ''p1'' ''p2'' idle_db = Inr (r, d')"
    by (auto simp: is_ok_iff)
  define l where "l = hd (d_listeners idle_db)"
  have l: "l \<in> set (d_listeners idle_db)" "ls_lb l = ''nlb1''" "ls_id l = ''lst1''"
    unfolding l_def by code_simp+
  from move_keeps_listener_tuples [OF m l(1,2)] m l(3) show ?thesis by simp
qed

lemma ramp_window:
  assumes "HealthCheck_Validate hc = []"
  shows "sint (hc_interval hc * scast (hc_healthy hc)) = sint (hc_interval hc) * sint (hc_healthy hc)"
    and "0 < sint (hc_interval hc)" and "0 < sint (hc_healthy hc)"
    and "sint (hc_interval hc) * sint (hc_healthy hc) < 2 ^ 63 - 1"
proof -
  have iv: "1000000000 \<le> sint (hc_interval hc)" "sint (hc_interval hc) \<le> 600000000000"
    and th: "2 \<le> sint (hc_healthy hc)" "sint (hc_healthy hc) \<le> 10"
    using assms by (auto simp: HealthCheck_Validate_def Let_def field_violation_def
        HealthThresholdMin_def HealthThresholdMax_def split: if_splits)
  show "0 < sint (hc_interval hc)" "0 < sint (hc_healthy hc)" using iv th by simp_all
  have up: "sint (hc_interval hc) * sint (hc_healthy hc) \<le> 600000000000 * 10"
    using iv th by (intro mult_mono) simp_all
  then show "sint (hc_interval hc) * sint (hc_healthy hc) < 2 ^ 63 - 1" by simp
  have lo: "0 \<le> sint (hc_interval hc) * sint (hc_healthy hc)" using iv th by simp
  have "sint (scast (hc_healthy hc) :: int64) = signed_take_bit 63 (sint (hc_healthy hc))"
    by (simp add: signed_scast_eq)
  also have "\<dots> = sint (hc_healthy hc)"
    using th by (intro signed_take_bit_int_eq_self) simp_all
  finally have "sint (hc_interval hc * scast (hc_healthy hc)) =
      signed_take_bit 63 (sint (hc_interval hc) * sint (hc_healthy hc))"
    unfolding sint_word_mult by simp
  also have "\<dots> = sint (hc_interval hc) * sint (hc_healthy hc)"
    using up lo by (intro signed_take_bit_int_eq_self) simp_all
  finally show "sint (hc_interval hc * scast (hc_healthy hc)) = sint (hc_interval hc) * sint (hc_healthy hc)" .
qed

text \<open>The reported state of a target of a group with a valid health check. A stopped load balancer
  reports INACTIVE, a draining target DRAINING; any other target is INITIAL for exactly the
  interval times the healthy threshold after its creation (the product does not wrap in 64 bits)
  and HEALTHY from then on, for good.\<close>

theorem target_state_ramp:
  assumes "HealthCheck_Validate hc = []"
  shows "tv_status (computeTargetState s hc t now) =
     (if s = LBStatusStopped then StateInactive
      else if tr_status t = TargetDraining then StateDraining
      else if (now - tr_created t) * 1000 < sint (hc_interval hc) * sint (hc_healthy hc)
      then StateInitial else StateHealthy)
   \<and> (tv_status (computeTargetState s hc t now) = StateHealthy \<and> now \<le> later \<longrightarrow>
        tv_status (computeTargetState s hc t later) = StateHealthy)"
proof -
  note w = ramp_window [OF assms]
  have ramp: "isInInitialRamp hc (tr_created t) n \<longleftrightarrow>
      (n - tr_created t) * 1000 < sint (hc_interval hc) * sint (hc_healthy hc)" for n
    using w by (auto simp: isInInitialRamp_def Let_def time_sub_def max_def min_def
        intro: order.strict_trans2 [OF _ less_imp_le] dest: mult_pos_pos)
  then show ?thesis by (auto simp: computeTargetState_def split: if_splits)
qed

definition sample_check :: health_check where
  "sample_check = zero_health_check \<lparr> hc_name := ''hc1'', hc_interval := 2000000000, hc_timeout := 1000000000,
     hc_unhealthy := 2, hc_healthy := 3, hc_TCP := Some \<lparr> tcp_port = 80 \<rparr> \<rparr>"

theorem target_state_ramp_witness:
  "tv_status (computeTargetState LBStatusActive sample_check
     (new_target_row ''tgr1'' 0 ''t1'' \<lparr> t_instance = Some ''i1'', t_nic = None, t_ip_ref = None,
        t_external = None, t_weight = 100 \<rparr>) 5999999) = StateInitial"
proof -
  have "HealthCheck_Validate sample_check = []" by code_simp
  from target_state_ramp [OF this] show ?thesis
    by (simp add: sample_check_def new_target_row_def splitTargetIdentity_def zero_health_check_def)
qed

end
