(* ===== verification/Listener_Usecases.thy ===== *)
theory Listener_Usecases
  imports Lb_Lifecycle
begin

text \<open>
  The use-cases of listeners (\<^verbatim>\<open>api/listener/create.go\<close>, \<^verbatim>\<open>update.go\<close>, \<^verbatim>\<open>delete.go\<close>). The address
  belongs to the load balancer, so a creation is one transaction; a deletion still releases the
  address an old listener may carry.
\<close>

subsection \<open>Create\<close>

record create_listener_request =
  lr_lb :: string
  lr_name :: string
  lr_description :: string
  lr_labels :: "(string \<times> string) list"
  lr_protocol :: string
  lr_port :: int64
  lr_target_port :: int64
  lr_proxy_v2 :: bool
  lr_default_tg :: string

definition require_plain :: "peers \<Rightarrow> string \<Rightarrow> string \<Rightarrow> string \<Rightarrow> err + unit" where
  "require_plain p field kind i =
     (if i = '''' then Inl (Status CodeInvalidArgument (field @ '' required''))
      else case p_valid_id p kind i of Some e \<Rightarrow> Inl e | None \<Rightarrow> Inr ())"

definition fetchParentLB :: "string \<Rightarrow> ('v, load_balancer) saga" where
  "fetchParentLB i =
     saga_bind (reading (LB_Get i)) (\<lambda>rec.
       if lb_status rec = LBStatusDeleting
       then saga_fail (Status CodeFailedPrecondition (''NetworkLoadBalancer '' @ i @ '' is being deleted''))
       else saga_return (load_balancer.truncate rec))"

definition buildDomainName :: "string \<Rightarrow> err + string" where
  "buildDomainName raw = attempt (validated (LbName_Validate raw)) (\<lambda>_. Inr raw)"

definition listenerIPVersion :: "load_balancer \<Rightarrow> string" where
  "listenerIPVersion lb =
     (case find (\<lambda>f. f = IPVersionV4 \<or> f = IPVersionV6) (lb_families lb) of
        Some f \<Rightarrow> f | None \<Rightarrow> IPVersionV4)"

definition requested_listener ::
  "string \<Rightarrow> load_balancer \<Rightarrow> create_listener_request \<Rightarrow> int32 \<Rightarrow> int32 \<Rightarrow> listener" where
  "requested_listener new_id lb rq port target_port =
     (NewListener new_id lb (lr_name rq) (lr_protocol rq) port target_port (listenerIPVersion lb))
       \<lparr> ls_description := lr_description rq, ls_labels := LabelsFromMap (lr_labels rq),
         ls_proxy_v2 := lr_proxy_v2 rq,
         ls_default_tg := (if lr_default_tg rq = '''' then None else Some (lr_default_tg rq)),
         ls_status := ListenerStatusActive \<rparr>"

definition CreateListener_Run ::
  "peers \<Rightarrow> string \<Rightarrow> err option \<Rightarrow> create_listener_request \<Rightarrow> ('v, listener \<times> load_balancer) saga" where
  "CreateListener_Run p new_id op_row rq =
     saga_bind (saga_check (require_plain p ''load_balancer_id'' ''network load balancer'' (lr_lb rq))) (\<lambda>_.
     saga_bind (fetchParentLB (lr_lb rq)) (\<lambda>lb.
     saga_bind (saga_check (buildDomainName (lr_name rq))) (\<lambda>_.
     saga_bind (saga_check (LbPortFromProto (lr_port rq))) (\<lambda>port.
     saga_bind (saga_check (LbPortFromProto (lr_target_port rq))) (\<lambda>target_port.
     let l = requested_listener new_id lb rq port target_port in
     saga_bind (saga_check (validated (Listener_Validate l))) (\<lambda>_.
     saga_bind (insert_op op_row) (\<lambda>_. saga_return (l, lb))))))))"

definition listener_event :: "listener_row \<Rightarrow> outbox_action \<Rightarrow> unit tx" where
  "listener_event l action = tx_emit (emit_outbox OutboxListener (ls_id l) (ls_project l) action
     (listenerPayloadMap l))"

definition parent_event :: "string \<Rightarrow> string \<Rightarrow> string \<Rightarrow> string \<Rightarrow> unit tx" where
  "parent_event i project region trigger = tx_emit (emit_outbox OutboxLoadBalancer i project ActionUpdated
     (lbUpdatedPayloadMap i project region trigger))"

definition create_listener_tx :: "listener \<Rightarrow> load_balancer \<Rightarrow> string \<Rightarrow> listener_row tx" where
  "create_listener_tx l lb subject =
     tx_bind (Listener_Insert l) (\<lambda>created.
     tx_bind (listener_event created ActionCreated) (\<lambda>_.
     tx_bind (parent_event (lb_id lb) (lb_project lb) (lb_region lb) ''listener_created'') (\<lambda>_.
     tx_bind (tx_emit (emit_fga FGAEventRegister (listenerRegisterIntent created subject))) (\<lambda>_.
     tx_return created))))"

definition doCreateListener :: "listener \<Rightarrow> load_balancer \<Rightarrow> principal \<Rightarrow> ('v, listener_row) saga" where
  "doCreateListener l lb pr =
     writing (create_listener_tx l lb (FGASubjectFromPrincipal (pr_type pr) (pr_id pr)))"

subsection \<open>Update\<close>

record update_listener_request =
  lu_id :: string
  lu_mask :: "string list"
  lu_name :: string
  lu_description :: string
  lu_labels :: "(string \<times> string) list"
  lu_default_tg :: string
  lu_proxy_v2 :: bool

definition listenerMutableMaskPaths :: "string list" where
  "listenerMutableMaskPaths =
     [''name'', ''description'', ''labels'', ''default_target_group_id'', ''proxy_protocol_v2'']"

definition listenerImmutableMaskPaths :: "string list" where
  "listenerImmutableMaskPaths =
     [''load_balancer_id'', ''protocol'', ''port'', ''target_port'', ''project_id'']"

definition validateListenerMask :: "string list \<Rightarrow> err + unit" where
  "validateListenerMask =
     each (\<lambda>f. if f \<in> set listenerImmutableMaskPaths
               then Inl (Status CodeInvalidArgument (f @ '' is immutable after Listener.Create''))
               else if f \<in> set listenerMutableMaskPaths then Inr ()
               else Inl (Status CodeInvalidArgument
                 (''field '' @ [CHR 0x27] @ f @ [CHR 0x27] @ '' is not recognised in update_mask'')))"

text \<open>The new value of the listener, and the target group whose region is to be checked.\<close>

definition apply_listener_mask ::
  "listener \<Rightarrow> update_listener_request \<Rightarrow> err + listener \<times> string option" where
  "apply_listener_mask cur rq =
     (let ap = applies (lu_mask rq); labels = LabelsFromMap (lu_labels rq); tg = lu_default_tg rq in
      attempt (if ap ''name'' then attempt (validated (LbName_Validate (lu_name rq)))
                 (\<lambda>_. Inr (cur \<lparr> ls_name := lu_name rq \<rparr>)) else Inr cur) (\<lambda>next1.
      attempt (if ap ''description'' then attempt (validated (LbDescription_Validate (lu_description rq)))
                 (\<lambda>_. Inr (next1 \<lparr> ls_description := lu_description rq \<rparr>)) else Inr next1) (\<lambda>next1.
      attempt (if ap ''labels'' then attempt (validated (ValidateLabels labels))
                 (\<lambda>_. Inr (next1 \<lparr> ls_labels := labels \<rparr>)) else Inr next1) (\<lambda>next1.
      let next1 = (if ap ''default_target_group_id''
                   then next1 \<lparr> ls_default_tg := (if tg = '''' then None else Some tg) \<rparr> else next1);
          check = (if ap ''default_target_group_id'' \<and> tg \<noteq> '''' then Some tg else None);
          next1 = (if ap ''proxy_protocol_v2'' then next1 \<lparr> ls_proxy_v2 := lu_proxy_v2 rq \<rparr> else next1)
      in Inr (next1, check)))))"

definition UpdateListener_Run ::
  "peers \<Rightarrow> err option \<Rightarrow> update_listener_request \<Rightarrow> ('v, listener \<times> nat \<times> bool) saga" where
  "UpdateListener_Run p op_row rq =
     saga_bind (saga_check (require_plain p ''listener_id'' ''listener'' (lu_id rq))) (\<lambda>_.
     saga_bind (saga_check (validateListenerMask (lu_mask rq))) (\<lambda>_.
     saga_bind (reading (Listener_Get (lu_id rq))) (\<lambda>cur.
     saga_bind (saga_check (apply_listener_mask (listener.truncate cur) rq)) (\<lambda>(next1, check).
     saga_bind (case check of None \<Rightarrow> saga_return ()
                | Some g \<Rightarrow> saga_bind (reading (TG_Get g)) (\<lambda>tg.
                    if tg_region tg \<noteq> ls_region cur
                    then saga_fail (Status CodeFailedPrecondition
                      (''default target group region '' @ tg_region tg @
                       '' does not match listener region '' @ ls_region cur))
                    else saga_return ())) (\<lambda>_.
     saga_bind (saga_check (validated (Listener_Validate next1))) (\<lambda>_.
     saga_bind (insert_op op_row) (\<lambda>_.
     saga_return (next1, ls_xmin cur, applies (lu_mask rq) ''labels''))))))))"

definition update_listener_tx :: "listener \<Rightarrow> nat \<Rightarrow> bool \<Rightarrow> listener_row tx" where
  "update_listener_tx l expected emit_mirror =
     tx_bind (Listener_Update l expected) (\<lambda>updated.
     tx_bind (listener_event updated ActionUpdated) (\<lambda>_.
     tx_bind (if emit_mirror then tx_emit (emit_fga FGAEventRegister (listenerMirrorIntent updated))
              else tx_return ()) (\<lambda>_.
     tx_return updated)))"

definition doUpdateListener :: "listener \<Rightarrow> nat \<Rightarrow> bool \<Rightarrow> ('v, listener_row) saga" where
  "doUpdateListener l expected emit_mirror = writing (update_listener_tx l expected emit_mirror)"

subsection \<open>Delete\<close>

definition DeleteListener_Run :: "peers \<Rightarrow> err option \<Rightarrow> string \<Rightarrow> ('v, listener_row) saga" where
  "DeleteListener_Run p op_row i =
     saga_bind (saga_check (require_plain p ''listener_id'' ''listener'' i)) (\<lambda>_.
     saga_bind (reading (Listener_Get i)) (\<lambda>cur.
     saga_bind (insert_op op_row) (\<lambda>_. saga_return cur)))"

text \<open>A repository call whose error of the given kind is ignored (it wrote nothing).\<close>

definition tx_ignoring :: "sentinel \<Rightarrow> 'a tx \<Rightarrow> unit tx" where
  "tx_ignoring s m d =
     (case m d of Inl e \<Rightarrow> if is_err e s then Inr ((), d) else Inl e | Inr (x, d') \<Rightarrow> Inr ((), d'))"

definition mark_listener_tx :: "listener_row \<Rightarrow> unit tx" where
  "mark_listener_tx cur =
     tx_bind (tx_ignoring ErrFailedPrecondition
                (Listener_SetStatusCAS (ls_id cur) (ls_status cur) ListenerStatusDeleting)) (\<lambda>_.
     listener_event cur ActionUpdated)"

definition delete_listener_tx :: "listener_row \<Rightarrow> unit tx" where
  "delete_listener_tx cur =
     tx_bind (tx_ignoring ErrNotFound (Listener_Delete (ls_id cur))) (\<lambda>_.
     tx_bind (listener_event cur ActionDeleted) (\<lambda>_.
     tx_bind (parent_event (ls_lb cur) (ls_project cur) (ls_region cur) ''listener_deleted'') (\<lambda>_.
     tx_emit (emit_fga FGAEventUnregister (listenerUnregisterIntent (ls_id cur) (ls_lb cur))))))"

definition releaseListenerVIP :: "'v address_client option \<Rightarrow> string \<Rightarrow> bool \<Rightarrow> ('v, unit) saga" where
  "releaseListenerVIP client address_id byo =
     (case client of
        None \<Rightarrow> saga_fail (Status CodeUnavailable ''vpc internal-address client not configured'')
      | Some c \<Rightarrow> if byo then call_clear c address_id else call_free c address_id)"

text \<open>The marker of a failed release; its own failure is only logged.\<close>

definition markFailedAndReturn :: "listener_row \<Rightarrow> err \<Rightarrow> ('v, unit) saga" where
  "markFailedAndReturn cur original w =
     (Inl (MapDomainErr original),
      snd (run_tx (tx_emit (emit_outbox OutboxListener (ls_id cur) (ls_project cur) ActionFailed
        [(''id'', JString (ls_id cur)), (''project_id'', JString (ls_project cur)),
         (''reason'', JString ''release_vip_failed''), (''error'', JString (error_text original))])) w))"

definition doDeleteListener :: "'v address_client option \<Rightarrow> listener_row \<Rightarrow> ('v, unit) saga" where
  "doDeleteListener client cur =
     saga_bind (if ls_status cur \<noteq> ListenerStatusDeleting then writing (mark_listener_tx cur)
                else saga_return ()) (\<lambda>_.
     saga_bind (let a = opt_string (ls_address_id cur) in
                if a \<noteq> ''''
                then (\<lambda>w. case releaseListenerVIP client a (ls_origin cur = VipOriginBYO) w of
                   (Inl e, w') \<Rightarrow> markFailedAndReturn cur e w'
                 | (Inr u, w') \<Rightarrow> (Inr (), w'))
                else saga_return ()) (\<lambda>_.
     writing (delete_listener_tx cur)))"

subsection \<open>Facts\<close>

text \<open>The trigger writes at most the status of its load balancer, and at most one event.\<close>

lemma recompute_lbs:
  "d_lbs (lb_status_recompute i d) =
     (case tbl_get lb_id (d_lbs d) i of None \<Rightarrow> d_lbs d
      | Some lb \<Rightarrow> if lb_status lb \<in> {LBStatusInactive, LBStatusActive} \<and> recomputed_status d i \<noteq> lb_status lb
          then tbl_upd lb_id i (\<lambda>r. r \<lparr> lb_status := recomputed_status d i, lb_xmin := d_tx d \<rparr>) (d_lbs d)
          else d_lbs d)"
  by (auto simp: lb_status_recompute_def Let_def emit_outbox_def split: option.split)

lemma recompute_get:
  "tbl_get lb_id (d_lbs (lb_status_recompute i d)) j =
     (if j = i \<and> (\<exists>lb. tbl_get lb_id (d_lbs d) i = Some lb \<and> lb_status lb \<in> {LBStatusInactive, LBStatusActive}
            \<and> recomputed_status d i \<noteq> lb_status lb)
      then map_option (\<lambda>r. r \<lparr> lb_status := recomputed_status d i, lb_xmin := d_tx d \<rparr>)
             (tbl_get lb_id (d_lbs d) i)
      else tbl_get lb_id (d_lbs d) j)"
  by (auto simp: recompute_lbs tbl_get_upd split: option.split)

definition settled_status :: "db \<Rightarrow> string \<Rightarrow> lb_status \<Rightarrow> lb_status" where
  "settled_status d i s = (if s \<in> {LBStatusInactive, LBStatusActive} then recomputed_status d i else s)"

lemma recompute_status:
  "map_option lb_status (tbl_get lb_id (d_lbs (lb_status_recompute i d)) j) =
     map_option (\<lambda>r. if j = i then settled_status d i (lb_status r) else lb_status r) (tbl_get lb_id (d_lbs d) j)"
  by (cases "tbl_get lb_id (d_lbs d) j") (auto simp: recompute_get settled_status_def)

lemma recomputed_status_cong:
  "d_listeners d = d_listeners e \<Longrightarrow> d_attached d = d_attached e \<Longrightarrow>
   recomputed_status d i = recomputed_status e i"
  by (simp add: recomputed_status_def has_attached_def)

lemma intents_since_fga: "d_fga d' = d_fga d \<Longrightarrow> intents_since d d' = []"
  by (simp add: intents_since_def)

lemma intents_since_emit_after:
  "d_fga e = d_fga d \<Longrightarrow> fi_tuples x \<noteq> [] \<Longrightarrow> fi_source_version x = None \<Longrightarrow>
   intents_since d (emit_fga ev x e) = [(ev, x)]"
  by (rule intents_since_emit)

lemma create_listener_tx_Inr:
  assumes "create_listener_tx l lb s d = Inr (row, d')"
  shows "\<exists>parent d1. tbl_get lb_id (d_lbs d) (ls_lb l) = Some parent \<and> lb_status parent \<noteq> LBStatusDeleting
    \<and> row = new_listener_row d parent l \<and> insert_listener row d = Inr d1
    \<and> d' = emit_fga FGAEventRegister (listenerRegisterIntent row s)
        (emit_outbox OutboxLoadBalancer (lb_id lb) (lb_project lb) ActionUpdated
           (lbUpdatedPayloadMap (lb_id lb) (lb_project lb) (lb_region lb) ''listener_created'')
        (emit_outbox OutboxListener (ls_id row) (ls_project row) ActionCreated (listenerPayloadMap row) d1))"
  using assms by (auto simp: create_listener_tx_def tx_defs listener_event_def parent_event_def
      Listener_Insert_def Let_def split: option.splits if_splits)

lemma insert_listener_Inr:
  "insert_listener r d = Inr d' \<longleftrightarrow>
     (\<forall>(n, ok) \<in> set (listener_checks r). ok) \<and> (\<forall>(n, ok) \<in> set (listener_uniques (d_listeners d) r). ok)
     \<and> tbl_get lb_id (d_lbs d) (ls_lb r) \<noteq> None \<and> default_tg_ok d r
     \<and> d' = lb_status_recompute (ls_lb r) (d \<lparr> d_listeners := d_listeners d @ [r] \<rparr>)"
  by (auto simp: insert_listener_def)

lemma new_listener_row_simps [simp]:
  "ls_id (new_listener_row d lb l) = ls_id l" "ls_lb (new_listener_row d lb l) = lb_id lb"
  "ls_project (new_listener_row d lb l) = lb_project lb" "ls_region (new_listener_row d lb l) = lb_region lb"
  "ls_port (new_listener_row d lb l) = ls_port l" "ls_protocol (new_listener_row d lb l) = ls_protocol l"
  "ls_status (new_listener_row d lb l) = ls_status l"
  "ls_default_tg (new_listener_row d lb l) = opt_text (ls_default_tg l)"
  by (simp_all add: new_listener_row_def listener.defs listener_row.defs)

lemma recompute_events:
  "d_outbox (lb_status_recompute i d) = d_outbox d @ drop (length (d_outbox d)) (d_outbox (lb_status_recompute i d))"
  by (auto simp: lb_status_recompute_def Let_def emit_outbox_def split: option.split)

subsection \<open>Properties\<close>

text \<open>A creation that reports success added exactly one listener. It takes project and region from
  the stored row of its load balancer (not from the copy read before), that row was not being
  deleted, no other listener of the load balancer has the port and protocol, the load balancer is
  left with the status the trigger settles (ACTIVE with a live listener and an attached target
  group, INACTIVE without, any other status untouched), and the owner tuples are registered in the
  same transaction.\<close>

theorem create_listener_effect:
  assumes "doCreateListener l lb pr w = (Inr row, w')"
  shows "\<exists>parent. tbl_get lb_id (d_lbs (begin_tx w)) (ls_lb l) = Some parent
      \<and> lb_status parent \<noteq> LBStatusDeleting
      \<and> ls_project row = lb_project parent \<and> ls_region row = lb_region parent \<and> ls_lb row = ls_lb l
      \<and> d_listeners (w_db w') = d_listeners (begin_tx w) @ [row]
      \<and> (\<forall>s \<in> set (d_listeners (begin_tx w)).
            \<not> (ls_lb s = ls_lb row \<and> ls_port s = ls_port row \<and> ls_protocol s = ls_protocol row))
      \<and> map_option lb_status (tbl_get lb_id (d_lbs (w_db w')) (ls_lb l)) = Some
          (if lb_status parent \<in> {LBStatusInactive, LBStatusActive}
           then (if has_attached (begin_tx w) (ls_lb l)
                    \<and> (\<exists>s \<in> set (d_listeners (w_db w')). ls_lb s = ls_lb l \<and> ls_status s \<noteq> ListenerStatusDeleting)
                 then LBStatusActive else LBStatusInactive)
           else lb_status parent)
      \<and> intents_since (begin_tx w) (w_db w')
          = [(FGAEventRegister, listenerRegisterIntent row (FGASubjectFromPrincipal (pr_type pr) (pr_id pr)))]"
proof -
  let ?d = "begin_tx w" and ?i = "ls_lb l"
  have tx: "create_listener_tx l lb (FGASubjectFromPrincipal (pr_type pr) (pr_id pr)) ?d = Inr (row, w_db w')"
    using assms by (auto simp: doCreateListener_def dest: writing_Inr)
  from create_listener_tx_Inr [OF tx] obtain parent d1 where
    parent: "tbl_get lb_id (d_lbs ?d) ?i = Some parent" "lb_status parent \<noteq> LBStatusDeleting"
      "row = new_listener_row ?d parent l" and ins: "insert_listener row ?d = Inr d1"
    and d': "w_db w' = emit_fga FGAEventRegister
        (listenerRegisterIntent row (FGASubjectFromPrincipal (pr_type pr) (pr_id pr)))
        (emit_outbox OutboxLoadBalancer (lb_id lb) (lb_project lb) ActionUpdated
           (lbUpdatedPayloadMap (lb_id lb) (lb_project lb) (lb_region lb) ''listener_created'')
        (emit_outbox OutboxListener (ls_id row) (ls_project row) ActionCreated (listenerPayloadMap row) d1))"
    by blast
  have key: "lb_id parent = ?i" using parent(1) by (rule tbl_get_key)
  have row: "ls_lb row = ?i" using parent(3) key by simp
  have d1: "d1 = lb_status_recompute ?i (?d \<lparr> d_listeners := d_listeners ?d @ [row] \<rparr>)"
    and uniq: "\<forall>(n, ok) \<in> set (listener_uniques (d_listeners ?d) row). ok"
    using ins row by (auto simp: insert_listener_Inr)
  have ls: "d_listeners (w_db w') = d_listeners ?d @ [row]" using d' d1 by simp
  have st: "map_option lb_status (tbl_get lb_id (d_lbs (w_db w')) ?i)
      = Some (settled_status (?d \<lparr> d_listeners := d_listeners ?d @ [row] \<rparr>) ?i (lb_status parent))"
    using parent(1) unfolding d' d1 by (simp add: recompute_status)
  show ?thesis
    using parent key ls st uniq d' d1
    by (intro exI [of _ parent])
       (auto simp: listener_uniques_def settled_status_def recomputed_status_def has_attached_def list_ex_iff
          intents_since_emit_after intent_tuples_nonempty intent_version)
qed

text \<open>What a complete release of a listener's address leaves in the record of calls.\<close>

definition listener_release_calls :: "listener_row \<Rightarrow> call_log" where
  "listener_release_calls l =
     (let a = opt_string (ls_address_id l) in
      if a = '''' then []
      else [(if ls_origin l = VipOriginBYO then CallClear a else CallFree a, Inr '''')])"

lemma delete_listener_tx_Inr:
  assumes "delete_listener_tx cur d = Inr (u, d')"
  shows "tbl_get ls_id (d_listeners d') (ls_id cur) = None"
    and "intents_since d d' = [(FGAEventUnregister, listenerUnregisterIntent (ls_id cur) (ls_lb cur))]"
    and "\<forall>j. j \<noteq> ls_id cur \<longrightarrow> tbl_get ls_id (d_listeners d') j = tbl_get ls_id (d_listeners d) j"
proof -
  let ?post = "\<lambda>e. emit_fga FGAEventUnregister (listenerUnregisterIntent (ls_id cur) (ls_lb cur))
     (emit_outbox OutboxLoadBalancer (ls_lb cur) (ls_project cur) ActionUpdated
        (lbUpdatedPayloadMap (ls_lb cur) (ls_project cur) (ls_region cur) ''listener_deleted'')
     (emit_outbox OutboxListener (ls_id cur) (ls_project cur) ActionDeleted (listenerPayloadMap cur) e))"
  have "d' = ?post d \<and> tbl_get ls_id (d_listeners d) (ls_id cur) = None
      \<or> d' = ?post (delete_listener (ls_id cur) d) \<and> tbl_get ls_id (d_listeners d) (ls_id cur) \<noteq> None"
    using assms by (auto simp: delete_listener_tx_def tx_defs tx_ignoring_def Listener_Delete_def
        listener_event_def parent_event_def split: option.splits sum.splits)
  moreover have "d_listeners (delete_listener (ls_id cur) d) = tbl_del ls_id (ls_id cur) (d_listeners d)"
    and "d_fga (delete_listener (ls_id cur) d) = d_fga d"
    if "tbl_get ls_id (d_listeners d) (ls_id cur) \<noteq> None"
    using that by (auto simp: delete_listener_def)
  ultimately show "tbl_get ls_id (d_listeners d') (ls_id cur) = None"
    and "intents_since d d' = [(FGAEventUnregister, listenerUnregisterIntent (ls_id cur) (ls_lb cur))]"
    and "\<forall>j. j \<noteq> ls_id cur \<longrightarrow> tbl_get ls_id (d_listeners d') j = tbl_get ls_id (d_listeners d) j"
    by (auto simp: intents_since_emit_after tbl_get_del)
qed

lemma mark_listener_tx_ids:
  assumes "mark_listener_tx cur d = Inr (u, d')"
  shows "map ls_id (d_listeners d') = map ls_id (d_listeners d)"
proof -
  have "map ls_id (tbl_upd ls_id i (\<lambda>r. r \<lparr> ls_status := b, ls_updated := t, ls_xmin := x \<rparr>) ls) = map ls_id ls"
    for i b t x and ls :: "listener_row list" by (rule tbl_upd_keys) simp
  then show ?thesis
    using assms by (auto simp: mark_listener_tx_def tx_defs tx_ignoring_def listener_event_def
        dest!: Listener_SetStatusCAS_Inr(2) split: sum.splits if_splits)
qed

lemma releaseListenerVIP_result:
  assumes "releaseListenerVIP client a byo w = (r, w')"
  shows "w_db w' = w_db w \<and> w_slots w' = w_slots w
    \<and> (\<forall>u. r = Inr u \<longrightarrow> w_calls w' = w_calls w @ [(if byo then CallClear a else CallFree a, Inr '''')])"
  using assms by (auto simp: releaseListenerVIP_def saga_fail_def call_clear_def call_free_def
      dest!: vpc_do_calls split: option.splits if_splits)

text \<open>A deletion that reports success released the address the listener carries (a tenant's address
  has its reference cleared, any other is freed), the row is gone and no other listener is
  touched by the deleting transaction, which also withdraws the parent link.\<close>

theorem delete_listener_effect:
  assumes "doDeleteListener client cur w = (Inr u, w')"
  shows "w_calls w' = w_calls w @ listener_release_calls cur
    \<and> (\<exists>d. delete_listener_tx cur d = Inr ((), w_db w')
         \<and> tbl_get ls_id (d_listeners (w_db w')) (ls_id cur) = None
         \<and> (\<forall>j. j \<noteq> ls_id cur \<longrightarrow> tbl_get ls_id (d_listeners (w_db w')) j = tbl_get ls_id (d_listeners d) j)
         \<and> intents_since d (w_db w') = [(FGAEventUnregister, listenerUnregisterIntent (ls_id cur) (ls_lb cur))])"
proof -
  obtain w1 w2 where
    m: "(if ls_status cur \<noteq> ListenerStatusDeleting then writing (mark_listener_tx cur) else saga_return ()) w
        = (Inr (), w1)"
    and r: "(if opt_string (ls_address_id cur) \<noteq> ''''
        then (\<lambda>w. case releaseListenerVIP client (opt_string (ls_address_id cur)) (ls_origin cur = VipOriginBYO) w of
                (Inl e, w') \<Rightarrow> markFailedAndReturn cur e w' | (Inr u, w') \<Rightarrow> (Inr (), w'))
        else saga_return ()) w1 = (Inr (), w2)"
    and d: "writing (delete_listener_tx cur) w2 = (Inr u, w')"
    using assms by (auto simp: doDeleteListener_def saga_bind_Inr Let_def)
  have c1: "w_calls w1 = w_calls w" using m by (auto simp: saga_return_def split: if_splits)
  have c2: "w_calls w2 = w_calls w1 @ listener_release_calls cur"
    using r by (auto simp: listener_release_calls_def Let_def saga_return_def markFailedAndReturn_def
        split: if_splits prod.splits sum.splits dest!: releaseListenerVIP_result)
  have c3: "w_calls w' = w_calls w2" using d by simp
  from d have tx: "delete_listener_tx cur (begin_tx w2) = Inr (u, w_db w')" by (auto dest: writing_Inr)
  with delete_listener_tx_Inr [OF tx] c1 c2 c3 show ?thesis
    by (intro conjI exI [of _ "begin_tx w2"]) auto
qed

text \<open>Nobody else changes the listeners while the worker runs.\<close>

definition undisturbed :: "'v world \<Rightarrow> bool" where
  "undisturbed w \<longleftrightarrow> (\<forall>s \<in> set (w_slots w). \<forall>d. d_listeners (sl_others s d) = d_listeners d)"

lemma undisturbed_begin: "undisturbed w \<Longrightarrow> d_listeners (begin_tx w) = d_listeners (w_db w)"
  by (cases "w_slots w") (auto simp: undisturbed_def begin_tx_def next_slot_def quiet_def Let_def)

lemma undisturbed_settle: "undisturbed w \<Longrightarrow> undisturbed (settle w d)"
  by (auto simp: undisturbed_def dest: in_set_dropD)

lemma writing_settle: "writing body w = (r, w') \<Longrightarrow> w' = settle w (w_db w')"
  unfolding writing_def saga_map_err_def run_tx_def Let_def
  by (auto split: prod.splits fault.splits sum.splits)

lemma run_tx_undisturbed:
  assumes "run_tx body w = (r, w')" and "undisturbed w"
    and "\<And>d x d'. body d = Inr (x, d') \<Longrightarrow> map ls_id (d_listeners d') = map ls_id (d_listeners d)"
  shows "undisturbed w' \<and> map ls_id (d_listeners (w_db w')) = map ls_id (d_listeners (w_db w))"
  using run_tx_cases [OF assms(1)] assms(2,3) undisturbed_begin [OF assms(2)]
  by (elim disjE exE conjE) (auto simp: undisturbed_settle)

lemma writing_undisturbed:
  assumes "writing body w = (r, w')" and "undisturbed w"
    and "\<And>d x d'. body d = Inr (x, d') \<Longrightarrow> map ls_id (d_listeners d') = map ls_id (d_listeners d)"
  shows "undisturbed w' \<and> map ls_id (d_listeners (w_db w')) = map ls_id (d_listeners (w_db w))"
proof -
  obtain s where "run_tx body w = (s, w')"
    using assms(1) by (auto simp: writing_def saga_map_err_def split: prod.splits)
  from run_tx_undisturbed [OF this assms(2,3)] show ?thesis .
qed

text \<open>C28: whatever goes wrong in a deletion nobody disturbs, the row of the listener, which alone names its
  address, disappears only after the address was released: if it is gone, the release call was
  made and answered with success.\<close>

theorem delete_listener_keeps_handle:
  assumes "doDeleteListener client cur w = (r, w')" and "undisturbed w"
    and "ls_id cur \<in> ls_id ` set (d_listeners (w_db w))"
    and "ls_id cur \<notin> ls_id ` set (d_listeners (w_db w'))"
  shows "w_calls w' = w_calls w @ listener_release_calls cur"
proof -
  let ?mark = "if ls_status cur \<noteq> ListenerStatusDeleting then writing (mark_listener_tx cur) else saga_return ()"
  obtain x w1 where m: "?mark w = (x, w1)" by fastforce
  have u1: "undisturbed w1 \<and> map ls_id (d_listeners (w_db w1)) = map ls_id (d_listeners (w_db w))
      \<and> w_calls w1 = w_calls w"
    using m assms(2) writing_undisturbed [of "mark_listener_tx cur" w x w1, OF _ _ mark_listener_tx_ids]
    by (auto simp: saga_return_def split: if_splits)
  then have in1: "ls_id cur \<in> ls_id ` set (d_listeners (w_db w1))"
    using assms(3) by (metis list.set_map)
  obtain u where x: "x = Inr u"
    using assms(1,4) m in1 by (cases x) (auto simp: doDeleteListener_def saga_bind_def)
  let ?a = "opt_string (ls_address_id cur)"
  show ?thesis
  proof (cases "?a = ''''")
    case True
    with assms(1) m x have "writing (delete_listener_tx cur) w1 = (r, w')"
      by (simp add: doDeleteListener_def saga_bind_def saga_return_def Let_def)
    then have "w_calls w' = w_calls w1" by simp
    with True u1 show ?thesis by (simp add: listener_release_calls_def)
  next
    case False
    obtain y w2 where rel: "releaseListenerVIP client ?a (ls_origin cur = VipOriginBYO) w1 = (y, w2)" by fastforce
    note rr = releaseListenerVIP_result [OF rel]
    have u2: "undisturbed w2" using u1 rr by (simp add: undisturbed_def)
    show ?thesis
    proof (cases y)
      case (Inl e)
      with assms(1) m x False rel have w': "w' = snd (markFailedAndReturn cur e w2)"
        by (auto simp: doDeleteListener_def saga_bind_def Let_def markFailedAndReturn_def)
      obtain z where "run_tx (tx_emit (emit_outbox OutboxListener (ls_id cur) (ls_project cur) ActionFailed
        [(''id'', JString (ls_id cur)), (''project_id'', JString (ls_project cur)),
         (''reason'', JString ''release_vip_failed''), (''error'', JString (error_text e))])) w2 = (z, w')"
        using w' by (auto simp: markFailedAndReturn_def) (metis prod.collapse)
      from run_tx_undisturbed [OF this u2] have "map ls_id (d_listeners (w_db w')) = map ls_id (d_listeners (w_db w2))"
        by (auto simp: tx_emit_def)
      with rr in1 assms(4) show ?thesis by (metis list.set_map)
    next
      case (Inr v)
      with assms(1) m x False rel have "writing (delete_listener_tx cur) w2 = (r, w')"
        by (simp add: doDeleteListener_def saga_bind_def Let_def)
      then have "w_calls w' = w_calls w2" by simp
      with Inr rr u1 False show ?thesis by (simp add: listener_release_calls_def Let_def)
    qed
  qed
qed

definition listening_world :: "string list world" where
  "listening_world = \<lparr> w_db = stopped_db \<lparr> d_listeners :=
      [(new_listener_row empty_db sample_lb leaving_listener) \<lparr> ls_address_id := Some ''adr0'' \<rparr>] \<rparr>,
     w_vpc = [''adr0''], w_slots = [], w_calls = [] \<rparr>"

definition second_listener :: listener where
  "second_listener = (NewListener ''lst2'' sample_lb ''web2'' ''TCP'' 443 443 ''IPV4'') \<lparr> ls_status := ListenerStatusActive \<rparr>"

theorem create_listener_effect_witness:
  "\<exists>row w'. doCreateListener second_listener sample_lb sample_principal listening_world = (Inr row, w')
    \<and> d_listeners (w_db w') = d_listeners (begin_tx listening_world) @ [row]"
proof -
  have "is_ok (fst (doCreateListener second_listener sample_lb sample_principal listening_world))" by code_simp
  then obtain row w' where w: "doCreateListener second_listener sample_lb sample_principal listening_world = (Inr row, w')"
    by (auto simp: is_ok_iff) (metis prod.collapse)
  from create_listener_effect [OF w] w show ?thesis by blast
qed

definition doomed_listener :: listener_row where
  "doomed_listener = hd (d_listeners (w_db listening_world))"

lemma doomed_eval:
  "is_ok (fst (doDeleteListener (Some (sample_client False)) doomed_listener listening_world))"
  "list_ex (\<lambda>l. ls_id l = ls_id doomed_listener) (d_listeners (w_db listening_world))"
  "\<not> list_ex (\<lambda>l. ls_id l = ls_id doomed_listener)
      (d_listeners (w_db (snd (doDeleteListener (Some (sample_client False)) doomed_listener listening_world))))"
  by code_simp+

theorem delete_listener_effect_witness:
  "\<exists>w'. doDeleteListener (Some (sample_client False)) doomed_listener listening_world = (Inr (), w')
    \<and> tbl_get ls_id (d_listeners (w_db w')) (ls_id doomed_listener) = None"
proof -
  obtain w' where w: "doDeleteListener (Some (sample_client False)) doomed_listener listening_world = (Inr (), w')"
    using doomed_eval(1) by (auto simp: is_ok_iff) (metis prod.collapse)
  from delete_listener_effect [OF w] w show ?thesis by blast
qed

theorem delete_listener_keeps_handle_witness:
  "w_calls (snd (doDeleteListener (Some (sample_client False)) doomed_listener listening_world))
     = w_calls listening_world @ listener_release_calls doomed_listener"
proof -
  obtain r w' where w: "doDeleteListener (Some (sample_client False)) doomed_listener listening_world = (r, w')"
    by fastforce
  have "undisturbed listening_world" by (simp add: undisturbed_def listening_world_def)
  moreover have "ls_id doomed_listener \<in> ls_id ` set (d_listeners (w_db listening_world))"
    "ls_id doomed_listener \<notin> ls_id ` set (d_listeners (w_db w'))"
    using doomed_eval(2,3) w unfolding list_ex_iff image_iff by (metis, metis snd_conv)
  ultimately show ?thesis using delete_listener_keeps_handle [OF w] w by simp
qed

end
