(* ===== verification/Net_Prefix.thy ===== *)
theory Net_Prefix
  imports Net_Addr
begin

text \<open>
  What the code uses of \<^verbatim>\<open>net/netip\<close> prefixes: \<^verbatim>\<open>ParsePrefix\<close>, \<^verbatim>\<open>Contains\<close>, and the two helpers of
  \<^verbatim>\<open>api/targetgroup/add_targets.go\<close> that check an address against the blocks of a subnet and
  derive a region from a zone.
\<close>

text \<open>The position of the last occurrence splits the text.\<close>

fun split_last :: "char \<Rightarrow> string \<Rightarrow> (string \<times> string) option" where
  "split_last c [] = None"
| "split_last c (x # xs) =
     (case split_last c xs of
        Some (a, b) \<Rightarrow> Some (x # a, b)
      | None \<Rightarrow> if x = c then Some ([], xs) else None)"

definition Is6 :: "addr \<Rightarrow> bool" where
  "Is6 a = (case a of Addr4 _ \<Rightarrow> False | Addr6 _ _ \<Rightarrow> True)"

definition addr_zone :: "addr \<Rightarrow> string" where
  "addr_zone a = (case a of Addr4 _ \<Rightarrow> [] | Addr6 _ z \<Rightarrow> z)"

definition addr_bytes :: "addr \<Rightarrow> nat list" where
  "addr_bytes a = (case a of Addr4 b \<Rightarrow> b | Addr6 b _ \<Rightarrow> b)"

definition BitLen :: "addr \<Rightarrow> nat" where
  "BitLen a = (if Is6 a then 128 else 32)"

definition decimal :: "string \<Rightarrow> nat" where
  "decimal s = foldl (\<lambda>n c. n * 10 + digit_val c) 0 s"

definition prefix_bits :: "string \<Rightarrow> nat option" where
  "prefix_bits s =
     (if s = [] \<or> \<not> list_all digit s then None
      else if length s > 1 \<and> hd s = CHR ''0'' then None
      else Some (decimal s))"

definition ParsePrefix :: "string \<Rightarrow> (addr \<times> nat) option" where
  "ParsePrefix s =
     (case split_last (CHR ''/'') s of
        None \<Rightarrow> None
      | Some (a, b) \<Rightarrow>
          (case ParseAddr a of
             None \<Rightarrow> None
           | Some ip \<Rightarrow>
               if addr_zone ip \<noteq> [] then None
               else (case prefix_bits b of
                 None \<Rightarrow> None
               | Some n \<Rightarrow> if n > BitLen ip then None else Some (ip, n))))"

text \<open>The address as a number, most significant byte first.\<close>

definition addr_value :: "addr \<Rightarrow> nat" where
  "addr_value a = foldl (\<lambda>n b. n * 256 + b) 0 (addr_bytes a)"

definition Contains :: "addr \<times> nat \<Rightarrow> addr \<Rightarrow> bool" where
  "Contains p ip =
     (case p of (net, bits) \<Rightarrow>
        if addr_zone ip \<noteq> [] then False
        else if BitLen net \<noteq> BitLen ip then False
        else addr_value ip div 2 ^ (BitLen net - bits) = addr_value net div 2 ^ (BitLen net - bits))"

text \<open>A block that does not parse is skipped.\<close>

definition addressInAnyCIDR :: "addr \<Rightarrow> string list \<Rightarrow> bool" where
  "addressInAnyCIDR a cidrs \<longleftrightarrow>
     list_ex (\<lambda>c. case ParsePrefix c of None \<Rightarrow> False | Some p \<Rightarrow> Contains p a) cidrs"

definition regionFromZone :: "string \<Rightarrow> string" where
  "regionFromZone zone =
     (case split_last (CHR ''-'') zone of
        None \<Rightarrow> ''''
      | Some (r, suffix) \<Rightarrow>
          if r = '''' \<or> suffix = '''' then ''''
          else if 1 \<le> length suffix \<and> length suffix \<le> 3 then r else '''')"

subsection \<open>Facts\<close>

lemma split_last_None: "split_last c s = None \<longleftrightarrow> c \<notin> set s"
  by (induction s) (auto split: option.splits prod.splits)

lemma split_last_Some: "split_last c s = Some (a, b) \<longleftrightarrow> s = a @ c # b \<and> c \<notin> set b"
proof (induction s arbitrary: a)
  case (Cons x xs)
  show ?case
  proof (cases "split_last c xs")
    case None
    then have "c \<notin> set xs" by (simp add: split_last_None)
    with None show ?thesis by (cases a) auto
  next
    case (Some p)
    then obtain a' b' where p: "split_last c xs = Some (a', b')" by (cases p) auto
    with Cons.IH [of a'] have "c \<in> set xs" by (metis in_set_conv_decomp option.discI split_last_None)
    with p Cons.IH [of "tl a"] Cons.IH [of a'] show ?thesis
      by (cases a) auto
  qed
qed simp

text \<open>The numbers of a block: those from the block's first address on, as many as the free bits
  leave.\<close>

lemma div_pow_block:
  fixes x y k :: nat
  shows "x div 2 ^ k = y div 2 ^ k \<longleftrightarrow>
    y div 2 ^ k * 2 ^ k \<le> x \<and> x < y div 2 ^ k * 2 ^ k + 2 ^ k"
proof
  assume eq: "x div 2 ^ k = y div 2 ^ k"
  have "x = x div 2 ^ k * 2 ^ k + x mod 2 ^ k" and "x mod 2 ^ k < 2 ^ k"
    by (rule div_mult_mod_eq [symmetric]) simp
  then show "y div 2 ^ k * 2 ^ k \<le> x \<and> x < y div 2 ^ k * 2 ^ k + 2 ^ k"
    unfolding eq by linarith
next
  assume "y div 2 ^ k * 2 ^ k \<le> x \<and> x < y div 2 ^ k * 2 ^ k + 2 ^ k"
  then show "x div 2 ^ k = y div 2 ^ k"
    by (intro div_nat_eqI) (simp_all add: algebra_simps)
qed

text \<open>An address is accepted exactly when some block of the list that parses contains it: same
  address family, no zone, and a number inside the block (its network address, rounded down to the
  prefix length, up to the last address of the block).\<close>

theorem addressInAnyCIDR_correct:
  "addressInAnyCIDR a cidrs \<longleftrightarrow>
     (\<exists>c \<in> set cidrs. \<exists>net bits. ParsePrefix c = Some (net, bits) \<and> bits \<le> BitLen net
        \<and> Is6 net = Is6 a \<and> addr_zone a = ''''
        \<and> (let size = 2 ^ (BitLen net - bits); first = addr_value net div size * size in
             first \<le> addr_value a \<and> addr_value a < first + size))"
proof -
  have bits: "ParsePrefix c = Some (net, bits) \<Longrightarrow> bits \<le> BitLen net" for c net bits
    by (auto simp: ParsePrefix_def split: option.splits if_splits)
  have "Contains (net, bits) a \<longleftrightarrow> Is6 net = Is6 a \<and> addr_zone a = ''''
      \<and> (let size = 2 ^ (BitLen net - bits); first = addr_value net div size * size in
             first \<le> addr_value a \<and> addr_value a < first + size)" for net bits
    unfolding Contains_def Let_def by (auto simp: BitLen_def div_pow_block)
  with bits show ?thesis
    unfolding addressInAnyCIDR_def list_ex_iff by (fastforce split: option.splits prod.splits)
qed

text \<open>The region derived from a zone is the part before the last dash, exactly when the rest is
  one to three characters long; any other shape gives no region (and the check is skipped).\<close>

theorem regionFromZone_correct:
  "r \<noteq> '''' \<Longrightarrow> regionFromZone zone = r \<longleftrightarrow>
     (\<exists>suffix. zone = r @ ''-'' @ suffix \<and> CHR ''-'' \<notin> set suffix
        \<and> 1 \<le> length suffix \<and> length suffix \<le> 3)"
proof -
  assume r: "r \<noteq> ''''"
  show ?thesis
  proof (cases "split_last (CHR ''-'') zone")
    case None
    then have "CHR ''-'' \<notin> set zone" by (simp add: split_last_None)
    with None r show ?thesis by (auto simp: regionFromZone_def)
  next
    case (Some p)
    then obtain a b where p: "split_last (CHR ''-'') zone = Some (a, b)" by (cases p) auto
    then have z: "zone = a @ CHR ''-'' # b" "CHR ''-'' \<notin> set b" by (simp_all add: split_last_Some)
    have uniq: "zone = r @ ''-'' @ s \<and> CHR ''-'' \<notin> set s \<longleftrightarrow> a = r \<and> b = s" for s
      using p split_last_Some [of "CHR ''-''" zone r s] by auto
    have "regionFromZone zone = r \<longleftrightarrow> a = r \<and> 1 \<le> length b \<and> length b \<le> 3"
      using p r by (auto simp: regionFromZone_def)
    with uniq show ?thesis by blast
  qed
qed

theorem regionFromZone_correct_witness:
  "regionFromZone ''ru-central1-a'' = ''ru-central1'' \<and> regionFromZone ''zone'' = ''''"
  using regionFromZone_correct [of "''ru-central1''" "''ru-central1-a''"]
  by (auto simp: regionFromZone_def)

end
