(* ===== verification/Target_Group_Usecases.thy ===== *)
theory Target_Group_Usecases
  imports Listener_Usecases Net_Prefix
begin

text \<open>
  The use-cases of target groups (\<^verbatim>\<open>api/targetgroup\<close>): create, update, delete, move, and the addition
  and removal of targets. The peers that know instances, network interfaces and subnets are
  functions; identifiers of new rows are arguments.
\<close>

abbreviation tg_id_ok :: "peers \<Rightarrow> string \<Rightarrow> err + unit" where
  "tg_id_ok p i \<equiv> require_id p ''target_group_id'' ''target group'' i"

subsection \<open>Requests\<close>

datatype pb_identity = NoIdentity | PbInstance string | PbNic string | PbIpRef string string
  | PbExternalIp string string

record pb_target =
  pt_identity :: pb_identity
  pt_weight :: int32

text \<open>A nil message of the list is \<open>None\<close>.\<close>

definition targetFromPb :: "pb_target option \<Rightarrow> target" where
  "targetFromPb pb =
     (let t0 = \<lparr> t_instance = None, t_nic = None, t_ip_ref = None, t_external = None, t_weight = 0 \<rparr> in
      case pb of
        None \<Rightarrow> t0
      | Some m \<Rightarrow>
          (let t = t0 \<lparr> t_weight := pt_weight m \<rparr> in
           case pt_identity m of
             NoIdentity \<Rightarrow> t
           | PbInstance i \<Rightarrow> t \<lparr> t_instance := Some i \<rparr>
           | PbNic i \<Rightarrow> t \<lparr> t_nic := Some i \<rparr>
           | PbIpRef s a \<Rightarrow> t \<lparr> t_ip_ref := Some \<lparr> ipr_subnet = s, ipr_address = a \<rparr> \<rparr>
           | PbExternalIp a z \<Rightarrow> t \<lparr> t_external := Some \<lparr> ext_address = a,
                 ext_zone = (if z = '''' then None else Some z) \<rparr> \<rparr>))"

definition targetsFromPb :: "pb_target option list \<Rightarrow> target list" where
  "targetsFromPb = map targetFromPb"

text \<open>The durations are those the library's \<^verbatim>\<open>AsDuration\<close> returns.\<close>

datatype pb_probe = NoProbe | PbTcp int64 | PbHttp int64 string

record pb_health_check =
  ph_name :: string
  ph_interval :: int64
  ph_timeout :: int64
  ph_unhealthy :: int64
  ph_healthy :: int64
  ph_options :: pb_probe

definition healthCheckFromPb :: "pb_health_check \<Rightarrow> err + health_check" where
  "healthCheckFromPb pb =
     attempt (HealthThresholdFromProto ''unhealthy_threshold'' (ph_unhealthy pb)) (\<lambda>unhealthy.
     attempt (HealthThresholdFromProto ''healthy_threshold'' (ph_healthy pb)) (\<lambda>healthy.
       let hc = zero_health_check \<lparr> hc_name := ph_name pb, hc_interval := ph_interval pb,
                  hc_timeout := ph_timeout pb, hc_unhealthy := unhealthy, hc_healthy := healthy \<rparr> in
       case ph_options pb of
         NoProbe \<Rightarrow> Inr hc
       | PbTcp port \<Rightarrow> attempt (LbPortFromProto port) (\<lambda>n. Inr (hc \<lparr> hc_TCP := Some \<lparr> tcp_port = n \<rparr> \<rparr>))
       | PbHttp port path \<Rightarrow> attempt (LbPortFromProto port) (\<lambda>n.
           Inr (hc \<lparr> hc_HTTP := Some \<lparr> http_port = n, http_path = path, http_statuses = [] \<rparr> \<rparr>))))"

subsection \<open>Create\<close>

record create_tg_request =
  cg_project :: string
  cg_region :: string
  cg_name :: string
  cg_description :: string
  cg_labels :: "(string \<times> string) list"
  cg_health :: "pb_health_check option"
  cg_targets :: "pb_target option list"
  cg_dereg :: int32
  cg_slow :: int32

definition requested_tg :: "string \<Rightarrow> create_tg_request \<Rightarrow> health_check \<Rightarrow> target_group" where
  "requested_tg new_id rq hc =
     (let tg = (NewTargetGroup new_id (cg_project rq) (cg_region rq) (cg_name rq) (cg_description rq)
                  (LabelsFromMap (cg_labels rq)))
               \<lparr> tg_health := hc, tg_targets := targetsFromPb (cg_targets rq) \<rparr>;
          tg = (if cg_dereg rq \<noteq> 0 then tg \<lparr> tg_dereg := cg_dereg rq \<rparr> else tg)
      in if cg_slow rq \<noteq> 0 then tg \<lparr> tg_slow := cg_slow rq \<rparr> else tg)"

definition assertTGNameUnique :: "string \<Rightarrow> string \<Rightarrow> ('v, unit) saga" where
  "assertTGNameUnique project name =
     saga_bind (reading (\<lambda>d. Inr (filter (\<lambda>r. (project \<noteq> '''' \<longrightarrow> tg_project r = project)
                                    \<and> (name \<noteq> '''' \<longrightarrow> tg_name r = name)) (d_tgs d))))
       (\<lambda>existing. if length existing > 0
          then saga_fail (Status CodeAlreadyExists (''TargetGroup '' @ [CHR 0x27] @ name @ [CHR 0x27] @
                 '' already exists in project '' @ project))
          else saga_return ())"

definition CreateTG_Execute ::
  "peers \<Rightarrow> string \<Rightarrow> err option \<Rightarrow> create_tg_request \<Rightarrow> ('v, target_group) saga" where
  "CreateTG_Execute p new_id op_row rq =
     (if cg_project rq = '''' then saga_fail (err_invalid_arg ''project_id'' ''required'')
      else if cg_region rq = '''' then saga_fail (err_invalid_arg ''region_id'' ''required'')
      else case cg_health rq of
        None \<Rightarrow> saga_fail (err_invalid_arg ''health_check'' ''required'')
      | Some h \<Rightarrow>
          saga_bind (saga_check (mapping_err MapDomainErr (healthCheckFromPb h))) (\<lambda>hc.
          let tg = requested_tg new_id rq hc in
          saga_bind (saga_check (mapping_err MapDomainErr (validated (TargetGroup_Validate tg)))) (\<lambda>_.
          saga_bind (if tg_name tg \<noteq> '''' then assertTGNameUnique (tg_project tg) (tg_name tg)
                     else saga_return ()) (\<lambda>_.
          saga_bind (insert_op op_row) (\<lambda>_. saga_return tg)))))"

definition peer_of :: "(string \<Rightarrow> err + unit) option \<Rightarrow> string \<Rightarrow> string \<Rightarrow> err + unit" where
  "peer_of client kind i =
     (case client of None \<Rightarrow> Inr ()
      | Some f \<Rightarrow> mapping_err (\<lambda>e. PeerErrToStatus e kind i) (f i))"

definition tg_event :: "tg_row \<Rightarrow> outbox_action \<Rightarrow> unit tx" where
  "tg_event r action = tx_emit (emit_outbox OutboxTargetGroup (tg_id r) (tg_project r) action
     (tgOutboxPayload r))"

definition create_tg_tx :: "target_group \<Rightarrow> string list \<Rightarrow> principal \<Rightarrow> tg_row tx" where
  "create_tg_tx tg ids pr =
     tx_bind (TG_Insert tg ids) (\<lambda>created.
     tx_bind (tg_event created ActionCreated) (\<lambda>_.
     tx_bind (tx_emit (emit_fga FGAEventRegister (tgRegisterIntent created pr))) (\<lambda>_.
     tx_return created)))"

definition doCreateTG ::
  "peers \<Rightarrow> target_group \<Rightarrow> string list \<Rightarrow> principal \<Rightarrow> ('v, tg_row) saga" where
  "doCreateTG p tg ids pr =
     saga_bind (saga_check (peer_of (p_project p) ''project'' (tg_project tg))) (\<lambda>_.
     saga_bind (saga_check (peer_of (p_region p) ''region'' (tg_region tg))) (\<lambda>_.
     writing (create_tg_tx tg ids pr)))"

subsection \<open>Update\<close>

record update_tg_request =
  ug_id :: string
  ug_mask :: "string list"
  ug_name :: string
  ug_description :: string
  ug_labels :: "(string \<times> string) list"
  ug_health :: "pb_health_check option"
  ug_dereg :: int32
  ug_slow :: int32

definition knownUpdateFieldsTG :: "string list" where
  "knownUpdateFieldsTG = [''name'', ''description'', ''labels'', ''health_check'',
     ''deregistration_delay_seconds'', ''slow_start_seconds'']"

definition immutableUpdateFieldsTG :: "(string \<times> string) list" where
  "immutableUpdateFieldsTG =
     [(''project_id'', ''project_id is immutable; use TargetGroupService.Move''),
      (''region_id'', ''region_id is immutable after TargetGroup.Create'')]"

definition tg_mask_field :: "string \<Rightarrow> err + unit" where
  "tg_mask_field f =
     (if f = ''targets''
      then Inl (Status CodeInvalidArgument ''targets must be modified via AddTargets / RemoveTargets'')
      else mask_field knownUpdateFieldsTG immutableUpdateFieldsTG f)"

definition applyUpdateMaskTG :: "target_group \<Rightarrow> update_tg_request \<Rightarrow> err + target_group" where
  "applyUpdateMaskTG cur rq =
     (let ap = applies (ug_mask rq);
          out = if ap ''name'' then cur \<lparr> tg_name := ug_name rq \<rparr> else cur;
          out = if ap ''description'' then out \<lparr> tg_description := ug_description rq \<rparr> else out;
          out = if ap ''labels'' then out \<lparr> tg_labels := LabelsFromMap (ug_labels rq) \<rparr> else out
      in attempt (if ap ''health_check'' \<and> ug_health rq \<noteq> None
                  then attempt (healthCheckFromPb (the (ug_health rq))) (\<lambda>hc. Inr (out \<lparr> tg_health := hc \<rparr>))
                  else Inr out) (\<lambda>out.
         let out = (if ap ''deregistration_delay_seconds'' then out \<lparr> tg_dereg := ug_dereg rq \<rparr> else out)
         in Inr (if ap ''slow_start_seconds'' then out \<lparr> tg_slow := ug_slow rq \<rparr> else out)))"

definition UpdateTG_Execute ::
  "peers \<Rightarrow> err option \<Rightarrow> update_tg_request \<Rightarrow> ('v, target_group \<times> nat \<times> bool) saga" where
  "UpdateTG_Execute p op_row rq =
     saga_bind (saga_check (tg_id_ok p (ug_id rq))) (\<lambda>_.
     saga_bind (saga_check (each tg_mask_field (ug_mask rq))) (\<lambda>_.
     saga_bind (reading (TG_Get (ug_id rq))) (\<lambda>cur.
     saga_bind (saga_check (mapping_err MapDomainErr (applyUpdateMaskTG (target_group.truncate cur) rq))) (\<lambda>updated.
     saga_bind (saga_check (mapping_err MapDomainErr (validated (TargetGroup_Validate updated)))) (\<lambda>_.
     saga_bind (insert_op op_row) (\<lambda>_.
     saga_return (updated, tg_xmin cur, applies (ug_mask rq) ''labels'')))))))"

definition update_tg_tx :: "target_group \<Rightarrow> nat \<Rightarrow> bool \<Rightarrow> tg_row tx" where
  "update_tg_tx tg expected emit_mirror =
     tx_bind (TG_Update tg expected) (\<lambda>updated.
     tx_bind (tg_event updated ActionUpdated) (\<lambda>_.
     tx_bind (if emit_mirror then tx_emit (emit_fga FGAEventRegister (tgMirrorIntent updated))
              else tx_return ()) (\<lambda>_.
     tx_return updated)))"

definition doUpdateTG :: "target_group \<Rightarrow> nat \<Rightarrow> bool \<Rightarrow> ('v, tg_row) saga" where
  "doUpdateTG tg expected emit_mirror = writing (update_tg_tx tg expected emit_mirror)"

subsection \<open>Delete and move\<close>

definition attached_count_err :: "string \<Rightarrow> nat \<Rightarrow> err" where
  "attached_count_err what n = Status CodeFailedPrecondition
     (''TargetGroup is attached to '' @ show_nat n @ '' load balancer(s); detach '' @ what)"

definition DeleteTG_Execute :: "peers \<Rightarrow> err option \<Rightarrow> string \<Rightarrow> ('v, string \<times> string) saga" where
  "DeleteTG_Execute p op_row i =
     saga_bind (saga_check (tg_id_ok p i)) (\<lambda>_.
     saga_bind (reading (TG_Get i)) (\<lambda>cur.
     saga_bind (reading (TG_HasAttachedLB i)) (\<lambda>hasLB.
     if hasLB
     then saga_bind (reading (Attached_ListByTG i)) (\<lambda>atgs.
            saga_fail (attached_count_err ''first'' (length atgs)))
     else
     saga_bind (reading (TG_ListTargets i)) (\<lambda>targets.
     if length targets > 0
     then saga_fail (Status CodeFailedPrecondition (''TargetGroup has '' @ show_nat (length targets) @
            '' target(s); remove them first via RemoveTargets''))
     else saga_bind (insert_op op_row) (\<lambda>_. saga_return (i, tg_project cur))))))"

definition delete_tg_tx :: "string \<Rightarrow> string \<Rightarrow> unit tx" where
  "delete_tg_tx i project =
     tx_bind (TG_Delete i) (\<lambda>_.
     tx_bind (tx_emit (emit_outbox OutboxTargetGroup i project ActionDeleted
                         [(''id'', JString i), (''project_id'', JString project)])) (\<lambda>_.
     tx_emit (emit_fga FGAEventUnregister (tgUnregisterIntent i project))))"

definition doDeleteTG :: "string \<Rightarrow> string \<Rightarrow> ('v, unit) saga" where
  "doDeleteTG i project = writing (delete_tg_tx i project)"

definition MoveTG_Execute ::
  "peers \<Rightarrow> principal \<Rightarrow> err option \<Rightarrow> string \<Rightarrow> string \<Rightarrow> ('v, string \<times> string \<times> string) saga" where
  "MoveTG_Execute p pr op_row i dst =
     saga_bind (saga_check (tg_id_ok p i)) (\<lambda>_.
     if dst = '''' then saga_fail (err_invalid_arg ''destination_project_id'' ''required'')
     else
     saga_bind (reading (TG_Get i)) (\<lambda>cur.
     if tg_project cur = dst
     then saga_fail (Status CodeInvalidArgument ''destination project is the same as source'')
     else
     saga_bind (reading (TG_HasAttachedLB i)) (\<lambda>hasLB.
     if hasLB
     then saga_bind (reading (Attached_ListByTG i)) (\<lambda>atgs.
            saga_fail (attached_count_err ''before moving'' (length atgs)))
     else
     saga_bind (saga_check (peer_of (p_project p) ''project'' dst)) (\<lambda>_.
     saga_bind (saga_check (authorizeDestination p pr dst)) (\<lambda>_.
     saga_bind (insert_op op_row) (\<lambda>_. saga_return (i, tg_project cur, dst)))))))"

definition move_tg_tx :: "string \<Rightarrow> string \<Rightarrow> string \<Rightarrow> tg_row tx" where
  "move_tg_tx i src dst =
     tx_bind (TG_MoveProject i dst) (\<lambda>moved.
     tx_bind (tx_emit (emit_outbox OutboxTargetGroup (tg_id moved) (tg_project moved) ActionMoved
                         (movedPayload (tg_id moved) src dst))) (\<lambda>_.
     tx_bind (tg_event moved ActionUpdated) (\<lambda>_.
     tx_bind (tx_emit (emit_fga FGAEventRegister (tgMirrorIntent moved))) (\<lambda>_.
     tx_bind (tx_emit (emit_fga FGAEventUnregister (tgUnregisterIntent i src))) (\<lambda>_.
     tx_return moved)))))"

definition doMoveTG :: "string \<Rightarrow> string \<Rightarrow> string \<Rightarrow> ('v, tg_row) saga" where
  "doMoveTG i src dst = writing (move_tg_tx i src dst)"

subsection \<open>Adding targets\<close>

record subnet_view =
  sv_zone :: string
  sv_v4 :: "string list"
  sv_v6 :: "string list"

text \<open>An instance is its zone, a network interface its subnet.\<close>

record target_peers =
  tp_instance :: "(string \<Rightarrow> err + string) option"
  tp_nic :: "(string \<Rightarrow> err + string) option"
  tp_subnet :: "(string \<Rightarrow> err + subnet_view) option"

definition target_at :: "nat \<Rightarrow> string \<Rightarrow> string" where
  "target_at idx field = ''target['' @ show_nat idx @ ''].'' @ field"

definition quoted :: "string \<Rightarrow> string" where
  "quoted s = [CHR 0x27] @ s @ [CHR 0x27]"

definition mapPeerTargetErr :: "nat \<Rightarrow> string \<Rightarrow> string \<Rightarrow> err \<Rightarrow> err" where
  "mapPeerTargetErr idx field i e =
     (let what = target_at idx field @ '' '' @ quoted i in
      if is_err e ErrNotFound \<or> is_err e ErrInvalidArg
        then Status CodeInvalidArgument (what @ '' not found'')
      else if is_err e ErrFailedPrecondition
        then Status CodeFailedPrecondition (what @ '': '' @ error_text e)
      else if is_err e ErrUnavailable
        then Status CodeUnavailable (what @ '': peer lookup unavailable'')
      else Status CodeInternal (what @ '': peer lookup failed''))"

definition region_check :: "nat \<Rightarrow> string \<Rightarrow> string \<Rightarrow> string \<Rightarrow> string \<Rightarrow> err + unit" where
  "region_check idx field i zone region =
     (let r = regionFromZone zone in
      if r \<noteq> '''' \<and> r \<noteq> region
      then Inl (Status CodeInvalidArgument (target_at idx field @ '' '' @ quoted i @ '' region '' @ quoted r @
             '' does not match target_group region '' @ quoted region))
      else Inr ())"

definition validateInstanceTarget :: "target_peers \<Rightarrow> string \<Rightarrow> nat \<Rightarrow> string \<Rightarrow> err + unit" where
  "validateInstanceTarget tp region idx i =
     (case tp_instance tp of
        None \<Rightarrow> Inl (Status CodeUnavailable ''compute instance client not configured'')
      | Some get \<Rightarrow>
          attempt (mapping_err (mapPeerTargetErr idx ''instance_id'' i) (get i)) (\<lambda>zone.
            region_check idx ''instance_id'' i zone region))"

definition validateNicTarget :: "target_peers \<Rightarrow> string \<Rightarrow> nat \<Rightarrow> string \<Rightarrow> err + unit" where
  "validateNicTarget tp region idx i =
     (case (tp_nic tp, tp_subnet tp) of
        (Some get_nic, Some get_subnet) \<Rightarrow>
          attempt (mapping_err (mapPeerTargetErr idx ''nic_id'' i) (get_nic i)) (\<lambda>subnet.
          attempt (mapping_err (mapPeerTargetErr idx ''nic_id'' i) (get_subnet subnet)) (\<lambda>sub.
            region_check idx ''nic_id'' i (sv_zone sub) region))
      | _ \<Rightarrow> Inl (Status CodeUnavailable ''vpc nic/subnet client not configured''))"

fun join_comma :: "string list \<Rightarrow> string" where
  "join_comma [] = ''''"
| "join_comma [x] = x"
| "join_comma (x # y # zs) = x @ '','' @ join_comma (y # zs)"

definition validateIPRefTarget :: "target_peers \<Rightarrow> string \<Rightarrow> nat \<Rightarrow> target_ip_ref \<Rightarrow> err + unit" where
  "validateIPRefTarget tp region idx r =
     (case tp_subnet tp of
        None \<Rightarrow> Inl (Status CodeUnavailable ''vpc subnet client not configured'')
      | Some get_subnet \<Rightarrow>
          (let i = ipr_subnet r in
           attempt (mapping_err (mapPeerTargetErr idx ''ip_ref.subnet_id'' i) (get_subnet i)) (\<lambda>sub.
           attempt (region_check idx ''ip_ref.subnet_id'' i (sv_zone sub) region) (\<lambda>_.
           case ParseAddr (ipr_address r) of
             None \<Rightarrow> Inl (Status CodeInvalidArgument (target_at idx ''ip_ref.address'' @ '' '' @ ipr_address r @
                       '' is not a valid IP''))
           | Some addr \<Rightarrow>
               (let cidrs = (if Is6 addr then sv_v6 sub else sv_v4 sub) in
                if \<not> addressInAnyCIDR addr cidrs
                then Inl (Status CodeInvalidArgument (target_at idx ''ip_ref.address'' @ '' '' @ ipr_address r @
                       '' is not in subnet '' @ i @ '' CIDR '' @ join_comma cidrs))
                else Inr ())))))"

definition validateTargetPeer :: "target_peers \<Rightarrow> string \<Rightarrow> nat \<Rightarrow> target \<Rightarrow> err + unit" where
  "validateTargetPeer tp region idx t =
     (case t_instance t of Some i \<Rightarrow> validateInstanceTarget tp region idx i
      | None \<Rightarrow> (case t_nic t of Some i \<Rightarrow> validateNicTarget tp region idx i
      | None \<Rightarrow> (case t_ip_ref t of Some r \<Rightarrow> validateIPRefTarget tp region idx r
      | None \<Rightarrow> Inr ())))"

definition target_count_check :: "string \<Rightarrow> nat \<Rightarrow> err + unit" where
  "target_count_check call n =
     (if n = 0 then Inl (Status CodeInvalidArgument ''at least one target is required'')
      else if n > MaxTargetsPerGroup
      then Inl (Status CodeInvalidArgument (''too many targets in a single '' @ call @ '' call (max 100)''))
      else Inr ())"

definition AddTargets_Execute ::
  "peers \<Rightarrow> err option \<Rightarrow> string \<Rightarrow> pb_target option list \<Rightarrow> ('v, string \<times> target list) saga" where
  "AddTargets_Execute p op_row i pbs =
     saga_bind (saga_check (tg_id_ok p i)) (\<lambda>_.
     saga_bind (saga_check (target_count_check ''AddTargets'' (length pbs))) (\<lambda>_.
     let targets = targetsFromPb pbs in
     saga_bind (saga_check (each (\<lambda>t. mapping_err MapDomainErr (validated (Target_Validate t))) targets)) (\<lambda>_.
     saga_bind (insert_op op_row) (\<lambda>_. saga_return (i, targets)))))"

definition targets_event :: "string \<Rightarrow> tg_row \<Rightarrow> string \<Rightarrow> string \<Rightarrow> nat \<Rightarrow> unit tx" where
  "targets_event i tg trigger counter n = tx_emit (emit_outbox OutboxTargetGroup i (tg_project tg) ActionUpdated
     [(''id'', JString i), (''project_id'', JString (tg_project tg)), (''region_id'', JString (tg_region tg)),
      (''trigger'', JString trigger), (counter, JNumber (int n))])"

definition add_targets_tx :: "string \<Rightarrow> tg_row \<Rightarrow> (string \<times> target) list \<Rightarrow> nat tx" where
  "add_targets_tx i tg ts =
     tx_bind (TG_AddTargets i ts) (\<lambda>inserted.
     tx_bind (if inserted > 0 then targets_event i tg ''add_targets'' ''inserted_count'' inserted
              else tx_return ()) (\<lambda>_.
     tx_return inserted))"

text \<open>The check of every target against its peer, with its index.\<close>

definition validate_peers :: "target_peers \<Rightarrow> string \<Rightarrow> target list \<Rightarrow> err + unit" where
  "validate_peers tp region ts = each (\<lambda>(idx, t). validateTargetPeer tp region idx t) (enumerate 0 ts)"

definition doAdd :: "target_peers \<Rightarrow> string \<Rightarrow> target list \<Rightarrow> string list \<Rightarrow> ('v, tg_row) saga" where
  "doAdd tp i targets ids =
     saga_bind (reading (TG_Get i)) (\<lambda>tg.
     if tg_status tg = TargetGroupStatusDeleting
     then saga_fail (Status CodeFailedPrecondition ''target group is being deleted'')
     else
     saga_bind (saga_check (validate_peers tp (tg_region tg) targets)) (\<lambda>_.
     saga_bind (writing (add_targets_tx i tg (zip ids targets))) (\<lambda>_.
     reading (TG_Get i))))"

subsection \<open>Removing targets\<close>

definition targetIdentityEqual :: "target \<Rightarrow> target \<Rightarrow> bool" where
  "targetIdentityEqual a b =
     (case t_instance a of Some i \<Rightarrow> t_instance b = Some i
      | None \<Rightarrow> (case t_nic a of Some i \<Rightarrow> t_nic b = Some i
      | None \<Rightarrow> (case t_ip_ref a of
          Some r \<Rightarrow> (case t_ip_ref b of None \<Rightarrow> False
            | Some q \<Rightarrow> ipr_subnet r = ipr_subnet q \<and> ipr_address r = ipr_address q)
      | None \<Rightarrow> (case t_external a of
          Some e \<Rightarrow> (case t_external b of None \<Rightarrow> False | Some f \<Rightarrow> ext_address e = ext_address f)
      | None \<Rightarrow> False))))"

definition resolveTargetIdentities :: "target_row list \<Rightarrow> target list \<Rightarrow> string list" where
  "resolveTargetIdentities existing wanted =
     List.map_filter (\<lambda>t. map_option tr_id (find (\<lambda>e. targetIdentityEqual t (scanTarget e)) existing)) wanted"

definition RemoveTargets_Execute ::
  "peers \<Rightarrow> err option \<Rightarrow> string \<Rightarrow> pb_target option list \<Rightarrow> ('v, string \<times> target list) saga" where
  "RemoveTargets_Execute p op_row i pbs =
     saga_bind (saga_check (tg_id_ok p i)) (\<lambda>_.
     saga_bind (saga_check (target_count_check ''RemoveTargets'' (length pbs))) (\<lambda>_.
     let targets = targetsFromPb pbs in
     saga_bind (saga_check (each (\<lambda>t. mapping_err MapDomainErr (validated (Target_Validate t))) targets)) (\<lambda>_.
     saga_bind (insert_op op_row) (\<lambda>_. saga_return (i, targets)))))"

definition remove_targets_tx :: "string \<Rightarrow> tg_row \<Rightarrow> string list \<Rightarrow> nat tx" where
  "remove_targets_tx i tg ids =
     tx_bind (if length ids > 0 then TG_RemoveTargetsMarkDraining i ids else tx_return 0) (\<lambda>affected.
     tx_bind (if affected > 0 then targets_event i tg ''remove_targets_phase_a'' ''draining_count'' affected
              else tx_return ()) (\<lambda>_.
     tx_return affected))"

definition doRemove :: "string \<Rightarrow> target list \<Rightarrow> ('v, tg_row) saga" where
  "doRemove i targets =
     saga_bind (reading (TG_Get i)) (\<lambda>tg.
     saga_bind (reading (TG_ListTargets i)) (\<lambda>existing.
     saga_bind (writing (remove_targets_tx i tg (resolveTargetIdentities existing targets))) (\<lambda>_.
     reading (TG_Get i))))"

subsection \<open>Facts\<close>

text \<open>The identity of a stored target, by its columns.\<close>

lemma scanTarget_identity:
  assumes "target_ok e"
  shows "targetIdentityEqual t (scanTarget e) \<longleftrightarrow>
     (case t_instance t of Some i \<Rightarrow> tr_instance e = Some i
      | None \<Rightarrow> (case t_nic t of Some i \<Rightarrow> tr_nic e = Some i
      | None \<Rightarrow> (case t_ip_ref t of
          Some r \<Rightarrow> tr_subnet e = Some (ipr_subnet r) \<and> tr_address e = Some (ipr_address r)
      | None \<Rightarrow> (case t_external t of Some x \<Rightarrow> tr_ext e = Some (ext_address x) | None \<Rightarrow> False))))"
proof -
  obtain i n s a x where c: "tr_instance e = i" "tr_nic e = n" "tr_subnet e = s" "tr_address e = a" "tr_ext e = x"
    by blast
  with assms have one: "(i \<noteq> None \<and> n = None \<and> s = None \<and> a = None \<and> x = None)
      \<or> (i = None \<and> n \<noteq> None \<and> s = None \<and> a = None \<and> x = None)
      \<or> (i = None \<and> n = None \<and> s \<noteq> None \<and> a \<noteq> None \<and> x = None)
      \<or> (i = None \<and> n = None \<and> s = None \<and> a = None \<and> x \<noteq> None)"
    by (cases "tr_zone e"; cases i; cases n; cases s; cases a; cases x)
       (auto simp: target_ok_def target_checks_def)
  then show ?thesis
    by (elim disjE conjE) (auto simp: scanTarget_def targetIdentityEqual_def c split: option.splits)
qed

lemma identity_conflict:
  assumes "target_ok e" and "target_ok f" and "tr_group e = tr_group f"
    and "targetIdentityEqual t (scanTarget e)" and "targetIdentityEqual t (scanTarget f)"
  shows "target_conflict e f"
  using assms(3-5) unfolding scanTarget_identity [OF assms(1)] scanTarget_identity [OF assms(2)]
  by (auto simp: target_conflict_def split: option.splits)

lemma separated_conflict_eq:
  "separated ts \<Longrightarrow> e \<in> set ts \<Longrightarrow> f \<in> set ts \<Longrightarrow> target_conflict e f \<Longrightarrow> e = f"
  by (induction ts) (auto simp: target_conflict_sym)

lemma set_map_filter: "set (List.map_filter f xs) = {y. \<exists>x \<in> set xs. f x = Some y}"
  by (induction xs) (auto simp: List.map_filter_simps split: option.splits)

lemma find_unique:
  assumes "\<And>x y. x \<in> set xs \<Longrightarrow> y \<in> set xs \<Longrightarrow> P x \<Longrightarrow> P y \<Longrightarrow> x = y"
  shows "find P xs = Some x \<longleftrightarrow> x \<in> set xs \<and> P x"
proof
  assume "find P xs = Some x"
  then show "x \<in> set xs \<and> P x" by (auto simp: find_Some_iff)
next
  assume x: "x \<in> set xs \<and> P x"
  then obtain y where y: "find P xs = Some y" by (cases "find P xs") (auto simp: find_None_iff)
  then have "y \<in> set xs \<and> P y" by (auto simp: find_Some_iff)
  with assms x y show "find P xs = Some x" by blast
qed

lemma resolve_exact:
  assumes "\<And>e f t. e \<in> set es \<Longrightarrow> f \<in> set es \<Longrightarrow> targetIdentityEqual t (scanTarget e) \<Longrightarrow>
      targetIdentityEqual t (scanTarget f) \<Longrightarrow> e = f"
  shows "set (resolveTargetIdentities es wanted) =
     tr_id ` {e \<in> set es. \<exists>t \<in> set wanted. targetIdentityEqual t (scanTarget e)}"
proof -
  have "find (\<lambda>e. targetIdentityEqual t (scanTarget e)) es = Some e \<longleftrightarrow>
      e \<in> set es \<and> targetIdentityEqual t (scanTarget e)" for t e
    by (rule find_unique) (rule assms)
  then show ?thesis
    unfolding resolveTargetIdentities_def set_map_filter by force
qed

lemma validate_peers_Inr:
  "validate_peers tp region ts = Inr u \<longleftrightarrow>
     (\<forall>idx < length ts. validateTargetPeer tp region idx (ts ! idx) = Inr ())"
  unfolding validate_peers_def each_Inr by (auto simp: in_set_enumerate_eq Ball_def)

lemma region_check_Inr: "region_check idx f i zone region = Inr u \<longleftrightarrow> regionFromZone zone \<in> {'''', region}"
  by (auto simp: region_check_def Let_def)

lemma reading_TG_Get:
  "reading (TG_Get g) w = (Inr r, w') \<Longrightarrow>
   \<exists>t. tbl_get tg_id (d_tgs (begin_tx w)) g = Some t \<and> tg_region r = tg_region t \<and> tg_project r = tg_project t
     \<and> tg_status r = tg_status t"
  by (auto simp: TG_Get_def split: option.splits dest!: reading_Inr)

subsection \<open>Properties\<close>

text \<open>What a target must satisfy before it is added to a group of the region.\<close>

definition peer_confirmed :: "target_peers \<Rightarrow> string \<Rightarrow> target \<Rightarrow> bool" where
  "peer_confirmed tp region t \<longleftrightarrow>
     (\<forall>i. t_instance t = Some i \<longrightarrow> (\<exists>get zone. tp_instance tp = Some get \<and> get i = Inr zone
            \<and> regionFromZone zone \<in> {'''', region}))
   \<and> (\<forall>i. t_instance t = None \<and> t_nic t = Some i \<longrightarrow>
            (\<exists>get_nic get_subnet subnet view. tp_nic tp = Some get_nic \<and> tp_subnet tp = Some get_subnet
               \<and> get_nic i = Inr subnet \<and> get_subnet subnet = Inr view
               \<and> regionFromZone (sv_zone view) \<in> {'''', region}))
   \<and> (\<forall>r. t_instance t = None \<and> t_nic t = None \<and> t_ip_ref t = Some r \<longrightarrow>
            (\<exists>get_subnet view a. tp_subnet tp = Some get_subnet \<and> get_subnet (ipr_subnet r) = Inr view
               \<and> regionFromZone (sv_zone view) \<in> {'''', region}
               \<and> ParseAddr (ipr_address r) = Some a
               \<and> addressInAnyCIDR a (if Is6 a then sv_v6 view else sv_v4 view)))"

lemma validateTargetPeer_Inr: "validateTargetPeer tp region idx t = Inr u \<Longrightarrow> peer_confirmed tp region t"
  by (auto simp: validateTargetPeer_def peer_confirmed_def validateInstanceTarget_def validateNicTarget_def
      validateIPRefTarget_def region_check_Inr Let_def split: option.splits if_splits)

text \<open>Targets are added only after their peers confirmed every one of them: the instance or the network
  interface exists and its zone is not one of another region; an address of a subnet is
  well-formed and lies in one of the subnet's blocks of its family.\<close>

theorem added_targets_confirmed:
  assumes "doAdd tp i targets ids w = (Inr tg, w')"
  shows "\<exists>g. tbl_get tg_id (d_tgs (begin_tx w)) i = Some g
    \<and> (\<forall>t \<in> set targets. peer_confirmed tp (tg_region g) t)
    \<and> (\<exists>d n d'. TG_AddTargets i (zip ids targets) d = Inr (n, d'))"
proof -
  obtain r w1 w2 u n where g: "reading (TG_Get i) w = (Inr r, w1)"
    and v: "validate_peers tp (tg_region r) targets = Inr u"
    and a: "writing (add_targets_tx i r (zip ids targets)) w1 = (Inr n, w2)"
    using assms by (auto simp: doAdd_def saga_Inr)
  from reading_TG_Get [OF g] obtain g where
    "tbl_get tg_id (d_tgs (begin_tx w)) i = Some g" "tg_region r = tg_region g" by blast
  moreover have "\<exists>d'. TG_AddTargets i (zip ids targets) (begin_tx w1) = Inr (n, d')"
    using a by (auto simp: add_targets_tx_def tx_defs dest!: writing_Inr)
  moreover have "peer_confirmed tp (tg_region r) t" if "t \<in> set targets" for t
  proof -
    from that obtain k where "k < length targets" "targets ! k = t" by (auto simp: in_set_conv_nth)
    with v have "validateTargetPeer tp (tg_region r) k t = Inr ()" by (auto simp: validate_peers_Inr)
    then show ?thesis by (rule validateTargetPeer_Inr)
  qed
  ultimately show ?thesis by fastforce
qed

definition sample_subnets :: target_peers where
  "sample_subnets = \<lparr> tp_instance = Some (\<lambda>i. Inr ''r1-a''), tp_nic = None, tp_subnet = Some (\<lambda>s.
     if s = ''sub1'' then Inr \<lparr> sv_zone = ''r1-a'', sv_v4 = [''10.0.0.0/24''], sv_v6 = [] \<rparr>
     else Inl (Sentinel ErrNotFound)) \<rparr>"

definition ip_target :: "string \<Rightarrow> string \<Rightarrow> target" where
  "ip_target s a = \<lparr> t_instance = None, t_nic = None, t_ip_ref = Some \<lparr> ipr_subnet = s, ipr_address = a \<rparr>,
     t_external = None, t_weight = 100 \<rparr>"

definition tg_world :: "string list world" where
  "tg_world = \<lparr> w_db = sample_tg_db, w_vpc = [], w_slots = [], w_calls = [] \<rparr>"

theorem added_targets_confirmed_witness:
  "\<exists>tg w'. doAdd sample_subnets ''tgr1'' [sample_target ''i2''] [''tgt2''] tg_world = (Inr tg, w')
    \<and> peer_confirmed sample_subnets ''r1'' (sample_target ''i2'')"
proof -
  have "is_ok (fst (doAdd sample_subnets ''tgr1'' [sample_target ''i2''] [''tgt2''] tg_world))"
    by code_simp
  then obtain tg w' where w: "doAdd sample_subnets ''tgr1'' [sample_target ''i2''] [''tgt2''] tg_world
      = (Inr tg, w')" by (auto simp: is_ok_iff) (metis prod.collapse)
  have r: "map_option tg_region (tbl_get tg_id (d_tgs (begin_tx tg_world)) ''tgr1'') = Some ''r1''" by code_simp
  from added_targets_confirmed [OF w] r w show ?thesis by fastforce
qed

definition tg_with_targets :: target_group where
  "tg_with_targets = (NewTargetGroup ''tgr2'' ''p1'' ''r1'' ''web2'' '''' [])
     \<lparr> tg_health := sample_check, tg_targets := [ip_target ''sub9'' ''192.168.1.1''] \<rparr>"

text \<open>A creation with inline targets stores targets the addition of the same targets refuses (here
  an address of a subnet that does not exist): the worker asks no peer about them, although its description promises the same checks before the
  transaction.\<close>

theorem create_skips_target_checks:
  "\<exists>row w'. doCreateTG sample_peers tg_with_targets [''tgt9''] sample_principal tg_world = (Inr row, w')
    \<and> tg_targets row = [ip_target ''sub9'' ''192.168.1.1'']
    \<and> TargetGroup_Validate tg_with_targets = []
    \<and> \<not> peer_confirmed sample_subnets ''r1'' (ip_target ''sub9'' ''192.168.1.1'')
    \<and> (\<exists>e. fst (doAdd sample_subnets ''tgr2'' [ip_target ''sub9'' ''192.168.1.1''] [''tgt10''] w') = Inl e)"
proof -
  let ?c = "doCreateTG sample_peers tg_with_targets [''tgt9''] sample_principal tg_world"
  have "case fst ?c of Inl e \<Rightarrow> False | Inr row \<Rightarrow> tg_targets row = [ip_target ''sub9'' ''192.168.1.1'']"
    by code_simp
  then obtain row w' where c: "?c = (Inr row, w')" "tg_targets row = [ip_target ''sub9'' ''192.168.1.1'']"
    by (cases ?c; cases "fst ?c") auto
  have "\<not> is_ok (fst (doAdd sample_subnets ''tgr2'' [ip_target ''sub9'' ''192.168.1.1''] [''tgt10''] (snd ?c)))"
    by code_simp
  then have "\<exists>e. fst (doAdd sample_subnets ''tgr2'' [ip_target ''sub9'' ''192.168.1.1''] [''tgt10''] w') = Inl e"
    using c by (cases "fst (doAdd sample_subnets ''tgr2'' [ip_target ''sub9'' ''192.168.1.1''] [''tgt10''] w')") auto
  moreover have "\<not> peer_confirmed sample_subnets ''r1'' (ip_target ''sub9'' ''192.168.1.1'')"
    by (auto simp: peer_confirmed_def ip_target_def sample_subnets_def)
  moreover have "TargetGroup_Validate tg_with_targets = []" by code_simp
  ultimately show ?thesis using c by blast
qed

lemma separated_ids: "separated ts \<Longrightarrow> e \<in> set ts \<Longrightarrow> f \<in> set ts \<Longrightarrow> tr_id e = tr_id f \<Longrightarrow> e = f"
  by (induction ts) auto

lemma resolve_group:
  assumes "targets_wf d" and "length (group_targets d g) \<le> MaxTargetsPerGroup"
    and "TG_ListTargets g d = Inr es"
  shows "set (resolveTargetIdentities es wanted) =
     tr_id ` {e \<in> set (group_targets d g). \<exists>t \<in> set wanted. targetIdentityEqual t (scanTarget e)}"
proof -
  have es: "set es = set (group_targets d g)" using assms(2,3) by (auto simp: TG_ListTargets_def)
  have "e = f" if "e \<in> set es" "f \<in> set es" "targetIdentityEqual t (scanTarget e)" "targetIdentityEqual t (scanTarget f)"
    for e f t
  proof -
    have m: "e \<in> set (d_targets d)" "f \<in> set (d_targets d)" "tr_group e = tr_group f"
      using that(1,2) unfolding es group_targets_def by auto
    with assms(1) have "target_conflict e f" by (intro identity_conflict [OF _ _ m(3) that(3,4)]) (auto simp: targets_wf_def)
    with m assms(1) show ?thesis by (auto simp: targets_wf_def intro: separated_conflict_eq)
  qed
  from resolve_exact [of es wanted, OF this] show ?thesis by (simp add: es)
qed

lemma marks_draining_resolved:
  assumes "targets_wf d" and "length (group_targets d g) \<le> MaxTargetsPerGroup"
    and "TG_ListTargets g d = Inr es" and "r \<in> set (d_targets d)"
  shows "marks_draining g (resolveTargetIdentities es wanted) r \<longleftrightarrow>
     tr_group r = g \<and> tr_status r = TargetActive \<and> (\<exists>t \<in> set wanted. targetIdentityEqual t (scanTarget r))"
proof -
  have "tr_id r \<in> tr_id ` {e \<in> set (group_targets d g). \<exists>t \<in> set wanted. targetIdentityEqual t (scanTarget e)}
      \<longleftrightarrow> (\<exists>t \<in> set wanted. targetIdentityEqual t (scanTarget r))" (is "?l \<longleftrightarrow> ?r") if g: "tr_group r = g"
  proof
    assume ?l
    then obtain e where e: "e \<in> set (d_targets d)" "tr_id r = tr_id e"
      "\<exists>t \<in> set wanted. targetIdentityEqual t (scanTarget e)" by (auto simp: group_targets_def)
    with assms(1,4) have "e = r" by (intro separated_ids [of "d_targets d"]) (simp_all add: targets_wf_def)
    with e(3) show ?r by simp
  next
    assume ?r
    with g assms(4) show ?l by (intro imageI) (simp add: group_targets_def)
  qed
  then show ?thesis unfolding marks_draining_def resolve_group [OF assms(1-3)] by blast
qed

lemma alone_begin: "w_slots w = [] \<Longrightarrow> begin_tx w = (w_db w) \<lparr> d_tx := Suc (d_tx (w_db w)) \<rparr>"
  by (simp add: begin_tx_def next_slot_def quiet_def Let_def)

lemma wf_tx [simp]: "targets_wf (d \<lparr> d_tx := n \<rparr>) = targets_wf d"
  "group_targets (d \<lparr> d_tx := n \<rparr>) g = group_targets d g"
  by (simp_all add: targets_wf_def group_targets_def)

lemma remove_targets_tx_Inr:
  assumes "remove_targets_tx i tg ids d = Inr (n, d')"
  shows "d_targets d' = map (\<lambda>r. if marks_draining i ids r
     then r \<lparr> tr_status := TargetDraining, tr_drain := Some (d_now d), tr_updated := d_now d \<rparr> else r) (d_targets d)"
proof (cases "ids = []")
  case True
  then have "\<not> marks_draining i ids r" for r by (simp add: marks_draining_def)
  with assms True show ?thesis by (auto simp: remove_targets_tx_def tx_defs)
next
  case False
  with assms show ?thesis
    by (auto simp: remove_targets_tx_def tx_defs TG_RemoveTargetsMarkDraining_def targets_event_def split: if_splits)
qed

text \<open>A removal that nobody disturbs marks exactly the active targets of the group that have one of the
  requested identities: none is missed, no other row of any group changes, and a target that is
  draining already keeps the time its draining started.\<close>

theorem remove_targets_exact:
  assumes "doRemove i targets w = (Inr tg, w')" and "w_slots w = []" and "targets_wf (w_db w)"
    and "length (group_targets (w_db w) i) \<le> MaxTargetsPerGroup"
  shows "d_targets (w_db w') = map (\<lambda>r.
      if tr_group r = i \<and> tr_status r = TargetActive \<and> (\<exists>t \<in> set targets. targetIdentityEqual t (scanTarget r))
      then r \<lparr> tr_status := TargetDraining, tr_drain := Some (d_now (w_db w)), tr_updated := d_now (w_db w) \<rparr>
      else r) (d_targets (w_db w))"
proof -
  obtain r es n w1 w2 w3 where s: "reading (TG_Get i) w = (Inr r, w1)"
    "reading (TG_ListTargets i) w1 = (Inr es, w2)"
    "writing (remove_targets_tx i r (resolveTargetIdentities es targets)) w2 = (Inr n, w3)"
    "reading (TG_Get i) w3 = (Inr tg, w')"
    using assms(1) by (auto simp: doRemove_def saga_Inr)
  have w1: "w1 = settle w (begin_tx w)" using reading_Inr [OF s(1)] by simp
  have l: "TG_ListTargets i (begin_tx w1) = Inr es" and w2: "w2 = settle w1 (begin_tx w1)"
    using reading_Inr [OF s(2)] by simp_all
  have tx: "remove_targets_tx i r (resolveTargetIdentities es targets) (begin_tx w2) = Inr (n, w_db w3)"
    using writing_Inr [OF s(3)] by simp
  have w3: "w3 = settle w2 (w_db w3)" using writing_Inr [OF s(3)] by simp
  have w': "w_db w' = begin_tx w3" using reading_db [OF s(4)] by simp
  have slots: "w_slots w1 = []" "w_slots w2 = []" "w_slots w3 = []"
    using assms(2) w1 w2 by (simp_all, subst w3, simp)
  have db: "targets_wf (begin_tx w1)" "d_targets (begin_tx w1) = d_targets (w_db w)"
    "length (group_targets (begin_tx w1) i) \<le> MaxTargetsPerGroup" "d_now (begin_tx w2) = d_now (w_db w)"
    "d_targets (begin_tx w2) = d_targets (w_db w)" "d_targets (w_db w') = d_targets (w_db w3)"
    using assms(2-4) slots w1 w2 w' by (simp_all add: alone_begin)
  show ?thesis
    unfolding db(6) remove_targets_tx_Inr [OF tx] db(4,5)
    using marks_draining_resolved [OF db(1,3) l, of _ targets] by (auto simp: db(2))
qed

theorem remove_targets_exact_witness:
  "\<exists>tg w'. doRemove ''tgr1'' [sample_target ''i1''] tg_world = (Inr tg, w')
    \<and> d_targets (w_db w') = d_targets (w_db tg_world)"
proof -
  have "is_ok (fst (doRemove ''tgr1'' [sample_target ''i1''] tg_world))" by code_simp
  then obtain tg w' where w: "doRemove ''tgr1'' [sample_target ''i1''] tg_world = (Inr tg, w')"
    by (auto simp: is_ok_iff) (metis prod.collapse)
  have "targets_wf (w_db tg_world)" "length (group_targets (w_db tg_world) ''tgr1'') \<le> MaxTargetsPerGroup"
    by (code_simp, code_simp)
  from remove_targets_exact [OF w _ this] w show ?thesis
    by (auto simp: tg_world_def sample_tg_db_def)
qed

end
