(* ===== verification/Jobs.thy ===== *)
theory Jobs
  imports Target_Group_Usecases
begin

text \<open>
  The background workers (\<^verbatim>\<open>internal/apps/kacho/jobs\<close>): the runner that finishes load balancers whose
  creation or deletion died half-way (\<^verbatim>\<open>free_ip_runner.go\<close>) and the one that deletes drained
  targets (\<^verbatim>\<open>target_drain_runner.go\<close>). A tick is modelled; the ticker that repeats it is not.
\<close>

subsection \<open>Finishing stuck load balancers\<close>

definition freeIPMaxPerTick :: nat where [const_defs]: "freeIPMaxPerTick = 100"

text \<open>The age is in the microseconds of the database's clock.\<close>

definition stuck :: "int \<Rightarrow> int \<Rightarrow> lb_row \<Rightarrow> bool" where
  "stuck age now r \<longleftrightarrow> lb_status r \<in> {LBStatusDeleting, LBStatusCreating} \<and> lb_updated r < now - age"

text \<open>\<^verbatim>\<open>selectStuckSQL\<close>: the oldest stuck row no other replica has locked.\<close>

definition selectStuck :: "(string \<Rightarrow> bool) \<Rightarrow> int \<Rightarrow> db \<Rightarrow> lb_row option" where
  "selectStuck locked age d =
     (case isort (\<lambda>a b. lb_updated a \<le> lb_updated b)
             (filter (\<lambda>r. stuck age (d_now d) r \<and> \<not> locked (lb_id r)) (d_lbs d)) of
        [] \<Rightarrow> None
      | r # _ \<Rightarrow> Some r)"

definition releaseFamily :: "'v address_client \<Rightarrow> string \<Rightarrow> vip_origin \<Rightarrow> ('v, unit) saga" where
  "releaseFamily c address_id origin =
     (if address_id = '''' then saga_return ()
      else if origin = VipOriginLinked then call_clear c address_id
      else saga_bind (call_clear c address_id) (\<lambda>_. call_free c address_id))"

definition isTransientReleaseErr :: "err \<Rightarrow> bool" where
  "isTransientReleaseErr e \<longleftrightarrow> is_err e ErrUnavailable \<or> e = CtxCanceled \<or> e = DeadlineExceeded"

definition emitReconcileFinalize :: "string \<Rightarrow> string \<Rightarrow> unit tx" where
  "emitReconcileFinalize i project =
     tx_bind (tx_emit (emit_outbox OutboxLoadBalancer i project ActionDeleted
       [(''id'', JString i), (''project_id'', JString project), (''reason'', JString ''free_ip_runner_reconcile'')]))
       (\<lambda>_. tx_emit (emit_fga FGAEventUnregister (bare_intent ''NetworkLoadBalancer'' i
              [FGAProjectTuple FGAObjectTypeLoadBalancer i project])))"

definition reconcile_tx :: "lb_row \<Rightarrow> unit tx" where
  "reconcile_tx lb =
     tx_bind (tx_stmt (delete_lb (lb_id lb))) (\<lambda>_.
     if lb_status lb = LBStatusDeleting then emitReconcileFinalize (lb_id lb) (lb_project lb)
     else tx_return ())"

definition isolate_tx :: "lb_row \<Rightarrow> unit tx" where
  "isolate_tx lb = tx_stmt (\<lambda>d. update_lb (lb_id lb) (\<lambda>r. r \<lparr> lb_updated := d_now d \<rparr>) d)"

datatype reconcile_outcome = OutcomeIdle | OutcomeReconciled | OutcomePoisoned

text \<open>
  The calls to the network service are made inside the transaction, which holds the lock of the
  row; nothing is written before they are over.
\<close>

definition handleReleaseErr :: "lb_row \<Rightarrow> err \<Rightarrow> ('v, reconcile_outcome) saga" where
  "handleReleaseErr lb e =
     (if isTransientReleaseErr e then (\<lambda>w. (Inl e, settle w (begin_tx w)))
      else run_tx (tx_bind (isolate_tx lb) (\<lambda>_. tx_return OutcomePoisoned)))"

definition releaseBoth :: "'v address_client \<Rightarrow> lb_row \<Rightarrow> ('v, unit) saga" where
  "releaseBoth c lb =
     saga_bind (releaseFamily c (lb_addr_id_v4 lb) (lb_origin_v4 lb)) (\<lambda>_.
     releaseFamily c (lb_addr_id_v6 lb) (lb_origin_v6 lb))"

definition reconcileOne ::
  "'v address_client \<Rightarrow> int \<Rightarrow> (string \<Rightarrow> bool) \<Rightarrow> ('v, reconcile_outcome) saga" where
  "reconcileOne c age locked w =
     (case sl_fault (next_slot w) of
        FailBefore e \<Rightarrow> (Inl e, settle w (begin_tx w))
      | _ \<Rightarrow>
          (case selectStuck locked age (begin_tx w) of
             None \<Rightarrow> (Inr OutcomeIdle, settle w (begin_tx w))
           | Some lb \<Rightarrow>
               (case releaseBoth c lb w of
                  (Inl e, w1) \<Rightarrow> handleReleaseErr lb e w1
                | (Inr u, w1) \<Rightarrow> run_tx (tx_bind (reconcile_tx lb) (\<lambda>_. tx_return OutcomeReconciled)) w1)))"

text \<open>
  The loop of a tick: at most \<open>k\<close> rows, stopped by the first error and by the first idle answer.
  With the error, the rows finished so far (they are logged).
\<close>

fun reconcile_loop ::
  "'v address_client \<Rightarrow> int \<Rightarrow> (string \<Rightarrow> bool) \<Rightarrow> nat \<Rightarrow> nat \<Rightarrow> 'v world \<Rightarrow> (nat \<times> err option) \<times> 'v world" where
  "reconcile_loop c age locked 0 n w = ((n, None), w)"
| "reconcile_loop c age locked (Suc k) n w =
     (case reconcileOne c age locked w of
        (Inl e, w1) \<Rightarrow> ((n, Some e), w1)
      | (Inr OutcomeReconciled, w1) \<Rightarrow> reconcile_loop c age locked k (Suc n) w1
      | (Inr OutcomePoisoned, w1) \<Rightarrow> reconcile_loop c age locked k n w1
      | (Inr OutcomeIdle, w1) \<Rightarrow> ((n, None), w1))"

definition reconcileOnce ::
  "'v address_client option \<Rightarrow> int \<Rightarrow> (string \<Rightarrow> bool) \<Rightarrow> 'v world \<Rightarrow> (nat \<times> err option) \<times> 'v world" where
  "reconcileOnce client age locked w =
     (case client of None \<Rightarrow> ((0, None), w)
      | Some c \<Rightarrow> reconcile_loop c age locked freeIPMaxPerTick 0 w)"

text \<open>A tick of the runner: the result is only logged.\<close>

definition freeip_tick :: "'v address_client option \<Rightarrow> int \<Rightarrow> (string \<Rightarrow> bool) \<Rightarrow> 'v world \<Rightarrow> 'v world" where
  "freeip_tick client age locked w = snd (reconcileOnce client age locked w)"

subsection \<open>Deleting drained targets\<close>

definition expired :: "db \<Rightarrow> target_row \<Rightarrow> bool" where
  "expired d t \<longleftrightarrow>
     (case tbl_get tg_id (d_tgs d) (tr_group t) of None \<Rightarrow> False
      | Some g \<Rightarrow> drained (d_now d) (sint (tg_dereg g)) t)"

definition drain_event :: "db \<Rightarrow> string \<Rightarrow> db \<Rightarrow> db" where
  "drain_event d0 g d =
     (case tbl_get tg_id (d_tgs d0) g of None \<Rightarrow> d
      | Some r \<Rightarrow> emit_outbox OutboxTargetGroup g (tg_project r) ActionUpdated
          [(''id'', JString g), (''reason'', JString ''drain_complete'')] d)"

text \<open>\<^verbatim>\<open>drainSQL\<close>, one statement; \<open>visit\<close> is the order the distinct groups come in.\<close>

definition drain_tx :: "(string list \<Rightarrow> string list) \<Rightarrow> (nat \<times> nat) tx" where
  "drain_tx visit d =
     (let gone = filter (expired d) (d_targets d);
          groups = visit (remdups (map tr_group gone))
      in Inr ((length gone, length groups),
              fold (drain_event d) groups (d \<lparr> d_targets := filter (\<lambda>t. \<not> expired d t) (d_targets d) \<rparr>)))"

definition drainOnce :: "(string list \<Rightarrow> string list) \<Rightarrow> ('v, nat \<times> nat) saga" where
  "drainOnce visit = run_tx (drain_tx visit)"

subsection \<open>Facts\<close>

definition runner_calls :: "string \<Rightarrow> vip_origin \<Rightarrow> call_log" where
  "runner_calls a origin =
     (if a = '''' then []
      else if origin = VipOriginLinked then [(CallClear a, Inr '''')]
      else [(CallClear a, Inr ''''), (CallFree a, Inr '''')])"

lemma releaseFamily_result:
  assumes "releaseFamily c a origin w = (r, w')"
  shows "w_db w' = w_db w \<and> w_slots w' = w_slots w
    \<and> (\<forall>u. r = Inr u \<longrightarrow> w_calls w' = w_calls w @ runner_calls a origin)"
  using assms by (auto simp: releaseFamily_def runner_calls_def saga_return_def saga_bind_def
      call_clear_def call_free_def split: if_splits prod.splits sum.splits dest!: vpc_do_calls)

lemma releaseBoth_result:
  assumes "releaseBoth c lb w = (r, w')"
  shows "w_db w' = w_db w \<and> w_slots w' = w_slots w
    \<and> (\<forall>u. r = Inr u \<longrightarrow> w_calls w' = w_calls w
          @ runner_calls (lb_addr_id_v4 lb) (lb_origin_v4 lb) @ runner_calls (lb_addr_id_v6 lb) (lb_origin_v6 lb))"
proof -
  obtain x w1 where f4: "releaseFamily c (lb_addr_id_v4 lb) (lb_origin_v4 lb) w = (x, w1)" by fastforce
  note r4 = releaseFamily_result [OF f4]
  show ?thesis
  proof (cases x)
    case (Inl e)
    with assms f4 r4 show ?thesis by (auto simp: releaseBoth_def saga_bind_def)
  next
    case (Inr u)
    with assms f4 have "releaseFamily c (lb_addr_id_v6 lb) (lb_origin_v6 lb) w1 = (r, w')"
      by (simp add: releaseBoth_def saga_bind_def)
    from releaseFamily_result [OF this] r4 Inr show ?thesis by auto
  qed
qed

lemma isort_Cons: "isort le xs = r # rs \<Longrightarrow> set xs = insert r (set rs)"
  by (metis set_isort list.set(2))

lemma isort_Nil: "isort le xs = [] \<longleftrightarrow> xs = []"
  by (metis length_isort length_0_conv)

lemma selectStuck_Some:
  "selectStuck locked age d = Some r \<Longrightarrow> r \<in> set (d_lbs d) \<and> stuck age (d_now d) r \<and> \<not> locked (lb_id r)"
  unfolding selectStuck_def by (auto split: list.splits dest!: isort_Cons)

lemma selectStuck_None:
  "selectStuck locked age d = None \<longleftrightarrow> (\<forall>r \<in> set (d_lbs d). stuck age (d_now d) r \<longrightarrow> locked (lb_id r))"
  unfolding selectStuck_def
  by (auto simp: isort_Nil filter_empty_conv split: list.splits dest!: isort_Cons) (blast dest: equalityD2)
lemma reconcile_tx_Inr:
  assumes "reconcile_tx lb d = Inr (u, d')"
  shows "d_lbs d' = tbl_del lb_id (lb_id lb) (d_lbs d) \<and> d_listeners d' = d_listeners d
    \<and> d_attached d' = d_attached d \<and> d_now d' = d_now d
    \<and> \<not> has_listener d (lb_id lb) \<and> \<not> has_attached d (lb_id lb)"
  using assms by (auto simp: reconcile_tx_def emitReconcileFinalize_def tx_defs delete_lb_def split: if_splits)

lemma reconcile_tx_childless:
  assumes "\<not> has_listener d (lb_id lb)" and "\<not> has_attached d (lb_id lb)"
  shows "\<exists>d'. reconcile_tx lb d = Inr ((), d')"
  using assms by (simp add: reconcile_tx_def emitReconcileFinalize_def tx_defs delete_lb_def)

text \<open>A network service that answers every release of a named address with success.\<close>

definition cooperative :: "'v address_client \<Rightarrow> bool" where
  "cooperative c \<longleftrightarrow> (\<forall>a v. a \<noteq> '''' \<longrightarrow> fst (ClearReference c a v) = Inr () \<and> fst (FreeIP c a v) = Inr ())"

lemma cooperative_releaseFamily:
  assumes "cooperative c"
  shows "fst (releaseFamily c a origin w) = Inr ()"
proof -
  have "fst (call_clear c a w) = Inr ()" "fst (call_free c a w) = Inr ()" if "a \<noteq> ''''" for w
    using assms that by (auto simp: cooperative_def call_clear_def call_free_def vpc_do_def split: prod.splits)
      (metis fst_conv)+
  then show ?thesis
    by (auto simp: releaseFamily_def saga_return_def saga_bind_def split: prod.splits sum.splits)
      (metis fst_conv sum.distinct(1))+
qed

lemma cooperative_releaseBoth:
  assumes "cooperative c"
  shows "fst (releaseBoth c lb w) = Inr ()"
  using cooperative_releaseFamily [OF assms]
  by (auto simp: releaseBoth_def saga_bind_def split: prod.splits sum.splits) (metis fst_conv sum.distinct(1))

subsection \<open>Properties of the runner of stuck load balancers\<close>

text \<open>C9: the runner deletes a load balancer only after it released every address the row names: if a row
  that was there when the transaction began is gone, it was in status CREATING or DELETING, older
  than the age, without listeners and attachments, and both families were released before.\<close>

theorem reconcile_releases_first:
  assumes "reconcileOne c age locked w = (r, w')"
    and "tbl_get lb_id (d_lbs (begin_tx w)) i \<noteq> None" and "tbl_get lb_id (d_lbs (w_db w')) i = None"
  shows "\<exists>lb \<in> set (d_lbs (begin_tx w)). lb_id lb = i \<and> stuck age (d_now (begin_tx w)) lb
    \<and> \<not> has_listener (begin_tx w) i \<and> \<not> has_attached (begin_tx w) i
    \<and> w_calls w' = w_calls w @ runner_calls (lb_addr_id_v4 lb) (lb_origin_v4 lb)
                             @ runner_calls (lb_addr_id_v6 lb) (lb_origin_v6 lb)"
proof (cases "selectStuck locked age (begin_tx w)")
  case None
  with assms show ?thesis by (auto simp: reconcileOne_def split: fault.splits)
next
  case (Some lb)
  note sel = selectStuck_Some [OF Some]
  obtain x w1 where b: "releaseBoth c lb w = (x, w1)" by fastforce
  note rb = releaseBoth_result [OF b]
  have bt: "begin_tx w1 = begin_tx w" using rb by (simp add: begin_tx_def next_slot_def)
  have nf: "\<not> (\<exists>e. sl_fault (next_slot w) = FailBefore e)"
    using assms by (auto simp: reconcileOne_def)
  show ?thesis
  proof (cases x)
    case (Inl e)
    have "handleReleaseErr lb e w1 = (r, w')"
      using assms(1) Some b Inl nf by (auto simp: reconcileOne_def split: fault.splits)
    moreover have "tbl_get lb_id (d_lbs d') i \<noteq> None"
      if "tx_bind (isolate_tx lb) (\<lambda>_. tx_return OutcomePoisoned) (begin_tx w) = Inr (y, d')" for y d'
      using that assms(2) by (auto simp: isolate_tx_def tx_defs update_lb_def Let_def tbl_get_upd split: option.splits)
    ultimately show ?thesis
      using assms(2,3) bt by (auto simp: handleReleaseErr_def split: if_splits dest!: run_tx_cases)
  next
    case (Inr u)
    have t: "run_tx (tx_bind (reconcile_tx lb) (\<lambda>_. tx_return OutcomeReconciled)) w1 = (r, w')"
      using assms(1) Some b Inr nf by (auto simp: reconcileOne_def split: fault.splits)
    from run_tx_cases [OF t] obtain d' where d': "reconcile_tx lb (begin_tx w) = Inr ((), d')" "w_db w' = d'"
      using assms(2,3) bt by (auto simp: tx_defs)
    from reconcile_tx_Inr [OF d'(1)] assms(2,3) d'(2) have "i = lb_id lb"
      and "\<not> has_listener (begin_tx w) i \<and> \<not> has_attached (begin_tx w) i"
      by (auto simp: tbl_get_del split: if_splits)
    moreover have "w_calls w' = w_calls w1" using t by simp
    ultimately show ?thesis using sel rb Inr by auto
  qed
qed

definition stuck_rows :: "int \<Rightarrow> db \<Rightarrow> lb_row list" where
  "stuck_rows age d = filter (stuck age (d_now d)) (d_lbs d)"

text \<open>No stuck load balancer has children, identifiers are unique, nothing disturbs the runner.\<close>

definition clearable :: "int \<Rightarrow> 'v world \<Rightarrow> bool" where
  "clearable age w \<longleftrightarrow> w_slots w = [] \<and> distinct (map lb_id (d_lbs (w_db w)))
     \<and> (\<forall>r \<in> set (stuck_rows age (w_db w)). \<not> has_listener (w_db w) (lb_id r) \<and> \<not> has_attached (w_db w) (lb_id r))"

lemma filter_tbl_del:
  assumes "distinct (map key t)" and "r \<in> set t" and "P r"
  shows "Suc (length (filter P (tbl_del key (key r) t))) = length (filter P t)"
proof -
  have same: "tbl_del key (key r) t = remove1 r t"
    using assms(1,2)
  proof (induction t)
    case (Cons x t)
    show ?case
    proof (cases "x = r")
      case True
      have "tbl_del key (key r) t = t"
        unfolding tbl_del_def filter_id_conv using Cons.prems(1) True by (auto simp: image_iff)
      with True show ?thesis by (simp add: tbl_del_def)
    next
      case False
      with Cons.prems have "r \<in> set t" "key x \<noteq> key r" by (auto simp: image_iff)
      with Cons.IH Cons.prems(1) False show ?thesis by (simp add: tbl_del_def)
    qed
  qed simp
  have "length (filter P (remove1 r t)) = length (filter P t) - 1"
    using assms(2,3) by (simp add: filter_remove1 length_remove1)
  moreover have "length (filter P t) > 0"
    using assms(2,3) by (auto simp: filter_empty_conv)
  ultimately show ?thesis using same by simp
qed

lemma run_tx_alone:
  assumes "w_slots w = []" and "body ((w_db w) \<lparr> d_tx := Suc (d_tx (w_db w)) \<rparr>) = Inr (x, d')"
  shows "run_tx body w = (Inr x, settle w d')"
  using assms by (simp add: run_tx_def alone_begin next_slot_def quiet_def Let_def)

lemma reconcileOne_progress:
  assumes "cooperative c" and "clearable age w" and "stuck_rows age (w_db w) \<noteq> []"
  obtains lb w' where "reconcileOne c age (\<lambda>_. False) w = (Inr OutcomeReconciled, w')"
    and "lb \<in> set (stuck_rows age (w_db w))" and "d_lbs (w_db w') = tbl_del lb_id (lb_id lb) (d_lbs (w_db w))"
    and "clearable age w'" and "d_now (w_db w') = d_now (w_db w)"
proof -
  let ?d = "begin_tx w"
  have slots: "w_slots w = []" using assms(2) by (simp add: clearable_def)
  have d: "?d = (w_db w) \<lparr> d_tx := Suc (d_tx (w_db w)) \<rparr>" by (rule alone_begin [OF slots])
  have "selectStuck (\<lambda>_. False) age ?d \<noteq> None"
    using assms(3) by (simp add: selectStuck_None d stuck_rows_def filter_empty_conv)
  then obtain lb where lb: "selectStuck (\<lambda>_. False) age ?d = Some lb" by blast
  from selectStuck_Some [OF lb] have in_s: "lb \<in> set (stuck_rows age (w_db w))" by (simp add: stuck_rows_def d)
  obtain w1 where b: "releaseBoth c lb w = (Inr (), w1)"
    using cooperative_releaseBoth [OF assms(1), of lb w] by (metis prod.collapse)
  note rb = releaseBoth_result [OF b]
  have "\<not> has_listener ?d (lb_id lb)" "\<not> has_attached ?d (lb_id lb)"
    using assms(2) in_s by (auto simp: clearable_def d has_listener_def has_attached_def)
  then obtain d' where d': "reconcile_tx lb ?d = Inr ((), d')" using reconcile_tx_childless by blast
  note e = reconcile_tx_Inr [OF d']
  have "run_tx (tx_bind (reconcile_tx lb) (\<lambda>_. tx_return OutcomeReconciled)) w1 = (Inr OutcomeReconciled, settle w1 d')"
    using rb slots d' by (intro run_tx_alone) (simp_all add: d tx_defs)
  then have one: "reconcileOne c age (\<lambda>_. False) w = (Inr OutcomeReconciled, settle w1 d')"
    using lb b slots by (simp add: reconcileOne_def next_slot_def quiet_def)
  have "clearable age (settle w1 d')"
    using assms(2) e rb slots
    by (auto simp: clearable_def d stuck_rows_def distinct_tbl_del has_listener_def has_attached_def)
  with one in_s e that show ?thesis by (simp add: d)
qed

lemma reconcile_loop_clears:
  assumes "cooperative c" and "clearable age w"
  shows "\<exists>w'. reconcile_loop c age (\<lambda>_. False) k n w = ((n + min k (length (stuck_rows age (w_db w))), None), w')
    \<and> length (stuck_rows age (w_db w')) = length (stuck_rows age (w_db w)) - k \<and> clearable age w'
    \<and> filter (\<lambda>r. \<not> stuck age (d_now (w_db w')) r) (d_lbs (w_db w'))
        = filter (\<lambda>r. \<not> stuck age (d_now (w_db w)) r) (d_lbs (w_db w))"
  using assms(2)
proof (induction k arbitrary: n w)
  case (Suc k)
  show ?case
  proof (cases "stuck_rows age (w_db w) = []")
    case True
    have s: "w_slots w = []" using Suc.prems by (simp add: clearable_def)
    have "selectStuck (\<lambda>_. False) age (begin_tx w) = None"
      using True s by (simp add: selectStuck_None alone_begin stuck_rows_def filter_empty_conv)
    then have "reconcileOne c age (\<lambda>_. False) w = (Inr OutcomeIdle, settle w (begin_tx w))"
      using s by (simp add: reconcileOne_def next_slot_def quiet_def)
    moreover have "clearable age (settle w (begin_tx w))"
      using Suc.prems s by (simp add: clearable_def alone_begin stuck_rows_def has_listener_def has_attached_def)
    ultimately show ?thesis using True s by (simp add: alone_begin stuck_rows_def)
  next
    case False
    obtain lb w1 where one: "reconcileOne c age (\<lambda>_. False) w = (Inr OutcomeReconciled, w1)"
      and lb: "lb \<in> set (stuck_rows age (w_db w))" and del: "d_lbs (w_db w1) = tbl_del lb_id (lb_id lb) (d_lbs (w_db w))"
      and c1: "clearable age w1" and now: "d_now (w_db w1) = d_now (w_db w)"
      by (rule reconcileOne_progress [OF assms(1) Suc.prems False])
    have dist: "distinct (map lb_id (d_lbs (w_db w)))" using Suc.prems by (simp add: clearable_def)
    have len: "Suc (length (stuck_rows age (w_db w1))) = length (stuck_rows age (w_db w))"
      using filter_tbl_del [OF dist, of lb "stuck age (d_now (w_db w))"] lb
      by (simp add: stuck_rows_def del now)
    have keep: "filter (\<lambda>r. \<not> stuck age (d_now (w_db w1)) r) (d_lbs (w_db w1))
        = filter (\<lambda>r. \<not> stuck age (d_now (w_db w)) r) (d_lbs (w_db w))"
    proof -
      have "lb_id r = lb_id lb \<Longrightarrow> stuck age (d_now (w_db w)) r" if "r \<in> set (d_lbs (w_db w))" for r
        using that lb dist by (auto simp: stuck_rows_def distinct_map dest: inj_onD)
      then show ?thesis unfolding del now tbl_del_def by (auto intro: filter_cong)
    qed
    from Suc.IH [OF c1, of "Suc n"] one len keep show ?thesis by auto
  qed
qed simp

text \<open>C10: when the network service answers, no stuck row has children and nothing disturbs it, the runner
  makes an end of every backlog: each tick finishes 100 stuck load balancers (or all there are),
  so that after enough ticks none is left, and it never touches another load balancer.\<close>

theorem reconcile_drains_backlog:
  assumes "cooperative c" and "clearable age w" and "length (stuck_rows age (w_db w)) \<le> 100 * n"
  shows "stuck_rows age (w_db ((freeip_tick (Some c) age (\<lambda>_. False) ^^ n) w)) = []
    \<and> d_lbs (w_db ((freeip_tick (Some c) age (\<lambda>_. False) ^^ n) w))
        = filter (\<lambda>r. \<not> stuck age (d_now (w_db w)) r) (d_lbs (w_db w))"
proof -
  let ?t = "freeip_tick (Some c) age (\<lambda>_. False)"
  have inv: "length (stuck_rows age (w_db ((?t ^^ m) w))) = length (stuck_rows age (w_db w)) - 100 * m
      \<and> clearable age ((?t ^^ m) w)
      \<and> filter (\<lambda>r. \<not> stuck age (d_now (w_db ((?t ^^ m) w))) r) (d_lbs (w_db ((?t ^^ m) w)))
         = filter (\<lambda>r. \<not> stuck age (d_now (w_db w)) r) (d_lbs (w_db w))" for m
  proof (induction m)
    case (Suc m)
    from reconcile_loop_clears [OF assms(1) conjunct1 [OF conjunct2 [OF Suc]], of 100 0] Suc show ?case
      by (auto simp: freeip_tick_def reconcileOnce_def freeIPMaxPerTick_def)
  qed (use assms(2) in simp)
  from inv [of n] assms(3) have none: "stuck_rows age (w_db ((?t ^^ n) w)) = []" by simp
  with inv [of n] show ?thesis by (auto simp: stuck_rows_def filter_empty_conv filter_id_conv)
qed

definition stuck_db :: db where
  "stuck_db = vip_db \<lparr> d_now := 1000000000,
     d_lbs := map (\<lambda>r. r \<lparr> lb_status := LBStatusDeleting \<rparr>) (d_lbs vip_db) \<rparr>"

definition stuck_world :: "string list world" where
  "stuck_world = vip_world \<lparr> w_db := stuck_db \<rparr>"

lemma sample_cooperative: "cooperative (sample_client False)"
  by (simp add: cooperative_def sample_client_def)

lemma stuck_world_clearable: "clearable 300000000 stuck_world"
  by (simp add: clearable_def stuck_world_def vip_world_def stuck_db_def vip_db_def stuck_rows_def
      has_listener_def has_attached_def empty_db_def)

theorem reconcile_drains_backlog_witness:
  "stuck_rows 300000000 (w_db ((freeip_tick (Some (sample_client False)) 300000000 (\<lambda>_. False) ^^ 1) stuck_world)) = []"
proof -
  have "length (stuck_rows 300000000 (w_db stuck_world)) \<le> 100 * 1" by code_simp
  from reconcile_drains_backlog [OF sample_cooperative stuck_world_clearable this] show ?thesis by simp
qed

theorem reconcile_releases_first_witness:
  "\<exists>r w'. reconcileOne (sample_client False) 300000000 (\<lambda>_. False) stuck_world = (r, w')
    \<and> (\<exists>lb \<in> set (d_lbs (begin_tx stuck_world)). lb_id lb = ''nlb1''
        \<and> w_calls w' = w_calls stuck_world @ runner_calls (lb_addr_id_v4 lb) (lb_origin_v4 lb)
                                          @ runner_calls (lb_addr_id_v6 lb) (lb_origin_v6 lb))"
proof -
  obtain r w' where w: "reconcileOne (sample_client False) 300000000 (\<lambda>_. False) stuck_world = (r, w')" by fastforce
  have "tbl_get lb_id (d_lbs (begin_tx stuck_world)) ''nlb1'' \<noteq> None"
    by (simp add: alone_begin stuck_world_def vip_world_def stuck_db_def vip_db_def new_lb_row_def sample_lb_def
        NewLoadBalancer_def set_vip_def load_balancer.defs lb_row.defs)
  moreover have "tbl_get lb_id (d_lbs (w_db (snd (reconcileOne (sample_client False) 300000000 (\<lambda>_. False) stuck_world)))) ''nlb1''
      = None" by code_simp
  ultimately show ?thesis using reconcile_releases_first [OF w, of "''nlb1''"] w by auto
qed

lemma reconcile_loop_error:
  "reconcileOne c age locked w = (Inl e, w') \<Longrightarrow> 0 < k \<Longrightarrow>
   reconcile_loop c age locked k n w = ((n, Some e), w')"
  by (cases k) simp_all

text \<open>A stuck creation that got a child (nothing refuses a listener to a load balancer in status
  CREATING) blocks the runner for good: every tick releases its addresses again, fails on the
  foreign key, and stops before it looks at any other row. The isolation of a failing row covers
  failed releases only.\<close>

theorem stuck_parent_blocks_runner:
  assumes "cooperative c" and "w_slots w = []"
    and "selectStuck (\<lambda>_. False) age (w_db w) = Some lb" and "has_listener (w_db w) (lb_id lb)"
  shows "\<exists>e w'. reconcileOnce (Some c) age (\<lambda>_. False) w = ((0, Some e), w')
    \<and> w_calls w' = w_calls w @ runner_calls (lb_addr_id_v4 lb) (lb_origin_v4 lb)
                             @ runner_calls (lb_addr_id_v6 lb) (lb_origin_v6 lb)
    \<and> d_lbs (w_db w') = d_lbs (w_db w) \<and> w_slots w' = []
    \<and> selectStuck (\<lambda>_. False) age (w_db w') = Some lb \<and> has_listener (w_db w') (lb_id lb)"
proof -
  let ?d = "begin_tx w"
  have d: "?d = (w_db w) \<lparr> d_tx := Suc (d_tx (w_db w)) \<rparr>" by (rule alone_begin [OF assms(2)])
  obtain w1 where b: "releaseBoth c lb w = (Inr (), w1)"
    using cooperative_releaseBoth [OF assms(1), of lb w] by (metis prod.collapse)
  note rb = releaseBoth_result [OF b]
  have bt: "begin_tx w1 = ?d" using rb by (simp add: begin_tx_def next_slot_def)
  have fk: "\<exists>e. reconcile_tx lb ?d = Inl e"
    using assms(4) reconcile_tx_Inr [of lb ?d] by (cases "reconcile_tx lb ?d") (fastforce simp: d has_listener_def)+
  then obtain e where e: "reconcile_tx lb ?d = Inl e" by blast
  have "run_tx (tx_bind (reconcile_tx lb) (\<lambda>_. tx_return OutcomeReconciled)) w1 = (Inl e, settle w1 ?d)"
    using rb assms(2) e bt by (simp add: run_tx_def next_slot_def quiet_def tx_defs Let_def)
  moreover have "selectStuck (\<lambda>_. False) age ?d = Some lb" using assms(3) by (simp add: d selectStuck_def)
  ultimately have "reconcileOne c age (\<lambda>_. False) w = (Inl e, settle w1 ?d)"
    using b assms(2) by (simp add: reconcileOne_def next_slot_def quiet_def)
  then have "reconcileOnce (Some c) age (\<lambda>_. False) w = ((0, Some e), settle w1 ?d)"
    by (simp add: reconcileOnce_def reconcile_loop_error freeIPMaxPerTick_def)
  then show ?thesis
    using rb assms(2-4) by (simp add: d selectStuck_def has_listener_def)
qed

definition orphan_parent_world :: "string list world" where
  "orphan_parent_world = vip_world \<lparr> w_db := stuck_db \<lparr>
     d_lbs := map (\<lambda>r. r \<lparr> lb_status := LBStatusCreating \<rparr>) (d_lbs vip_db),
     d_listeners := [new_listener_row empty_db sample_lb leaving_listener] \<rparr> \<rparr>"

theorem stuck_parent_blocks_runner_witness:
  "\<exists>e w'. reconcileOnce (Some (sample_client False)) 300000000 (\<lambda>_. False) orphan_parent_world = ((0, Some e), w')
    \<and> d_lbs (w_db w') = d_lbs (w_db orphan_parent_world)"
proof -
  have "w_slots orphan_parent_world = []" by (simp add: orphan_parent_world_def vip_world_def)
  moreover have "case selectStuck (\<lambda>_. False) 300000000 (w_db orphan_parent_world) of None \<Rightarrow> False
      | Some lb \<Rightarrow> has_listener (w_db orphan_parent_world) (lb_id lb)" by code_simp
  ultimately show ?thesis
    using stuck_parent_blocks_runner [OF sample_cooperative, of orphan_parent_world 300000000]
    by (auto split: option.splits)
qed

subsection \<open>Properties of the runner of drained targets\<close>

lemma fold_drain_event_tables:
  "d_targets (fold (drain_event d0) gs d) = d_targets d \<and> d_tgs (fold (drain_event d0) gs d) = d_tgs d
   \<and> d_lbs (fold (drain_event d0) gs d) = d_lbs d \<and> d_listeners (fold (drain_event d0) gs d) = d_listeners d
   \<and> d_attached (fold (drain_event d0) gs d) = d_attached d \<and> d_fga (fold (drain_event d0) gs d) = d_fga d
   \<and> d_now (fold (drain_event d0) gs d) = d_now d \<and> d_tx (fold (drain_event d0) gs d) = d_tx d"
  by (induction gs arbitrary: d) (auto simp: drain_event_def split: option.split)

lemma fold_drain_event_events:
  "\<forall>g \<in> set gs. tbl_get tg_id (d_tgs d0) g \<noteq> None \<Longrightarrow>
   map (\<lambda>e. (ob_resource e, ob_action e)) (d_outbox (fold (drain_event d0) gs d))
     = map (\<lambda>e. (ob_resource e, ob_action e)) (d_outbox d) @ map (\<lambda>g. (g, ActionUpdated)) gs"
  by (induction gs arbitrary: d) (auto simp: drain_event_def emit_outbox_def)

text \<open>A pass of the drain runner deletes exactly the targets whose draining has lasted longer than the
  delay of their own group, keeps all others, and reports each group that lost a target exactly
  once, in the same statement.\<close>

theorem drain_exact:
  assumes "\<And>gs. mset (visit gs) = mset gs" and "drain_tx visit d = Inr ((n, m), d')"
  shows "d_targets d' = filter (\<lambda>t. \<not> expired d t) (d_targets d)
    \<and> n = length (filter (expired d) (d_targets d))
    \<and> (\<exists>gs. distinct gs \<and> length gs = m \<and> set gs = tr_group ` {t \<in> set (d_targets d). expired d t}
         \<and> map (\<lambda>e. (ob_resource e, ob_action e)) (d_outbox d')
             = map (\<lambda>e. (ob_resource e, ob_action e)) (d_outbox d) @ map (\<lambda>g. (g, ActionUpdated)) gs)
    \<and> (\<forall>t \<in> set (d_targets d'). \<not> expired d' t)"
proof -
  let ?gone = "filter (expired d) (d_targets d)"
  define gs where "gs = visit (remdups (map tr_group ?gone))"
  define d1 where "d1 = d \<lparr> d_targets := filter (\<lambda>t. \<not> expired d t) (d_targets d) \<rparr>"
  have d': "d' = fold (drain_event d) gs d1" "n = length ?gone" "m = length gs"
    using assms(2) by (auto simp: drain_tx_def Let_def gs_def d1_def)
  have ms: "mset gs = mset (remdups (map tr_group ?gone))" unfolding gs_def by (rule assms(1))
  from mset_eq_setD [OF ms] mset_eq_imp_distinct_iff [OF ms]
  have gs: "set gs = tr_group ` {t \<in> set (d_targets d). expired d t}" "distinct gs" by auto
  then have "\<forall>g \<in> set gs. tbl_get tg_id (d_tgs d) g \<noteq> None"
    by (auto simp: expired_def split: option.splits)
  note ev = fold_drain_event_events [OF this, of d1]
  have t: "d_targets d' = filter (\<lambda>t. \<not> expired d t) (d_targets d)"
    using d' fold_drain_event_tables [of d gs d1] by (simp add: d1_def)
  have "d_tgs d' = d_tgs d" "d_now d' = d_now d"
    using d' fold_drain_event_tables [of d gs d1] by (simp_all add: d1_def)
  then have "expired d' t = expired d t" for t by (simp add: expired_def split: option.split)
  with t gs ev d' show ?thesis by (auto simp: d1_def)
qed

theorem drain_exact_witness:
  "\<exists>n m d'. drain_tx (\<lambda>gs. gs) (sample_tg_db \<lparr> d_now := 900000000 \<rparr>) = Inr ((n, m), d')
     \<and> d_targets d' = filter (\<lambda>t. \<not> expired (sample_tg_db \<lparr> d_now := 900000000 \<rparr>) t) (d_targets sample_tg_db)"
proof -
  obtain n m d' where w: "drain_tx (\<lambda>gs. gs) (sample_tg_db \<lparr> d_now := 900000000 \<rparr>) = Inr ((n, m), d')"
    by (simp add: drain_tx_def Let_def)
  from drain_exact [OF _ w] w show ?thesis by simp
qed

end
