(* ===== verification/Db_Invariants.thy ===== *)
theory Db_Invariants
  imports Jobs
begin

text \<open>
  The invariants of the database that every committed transaction keeps: keys are unique, rows are
  within their constraints, a listener mirrors its load balancer, attached pairs agree in project
  and region, nothing hangs under a load balancer that is being deleted, a virtual address belongs
  to one load balancer of its region, a group has at most 100 targets, and an ACTIVE load balancer
  has a listener and a target group. Each statement of the schema is shown to keep them; the
  trigger restores the last one.
\<close>

subsection \<open>The invariants\<close>

definition all_ok :: "(string \<times> bool) list \<Rightarrow> bool" where
  "all_ok cs \<longleftrightarrow> (\<forall>(n, ok) \<in> set cs. ok)"

definition well_keyed :: "db \<Rightarrow> bool" where
  "well_keyed d \<longleftrightarrow> distinct (map lb_id (d_lbs d)) \<and> distinct (map ls_id (d_listeners d))
     \<and> distinct (map tg_id (d_tgs d)) \<and> distinct (map at_key (d_attached d))"

definition well_rowed :: "db \<Rightarrow> bool" where
  "well_rowed d \<longleftrightarrow> (\<forall>r \<in> set (d_lbs d). all_ok (lb_checks r))
     \<and> (\<forall>r \<in> set (d_listeners d). all_ok (listener_checks r)) \<and> (\<forall>r \<in> set (d_tgs d). all_ok (tg_checks r))"

definition houses :: "lb_row \<Rightarrow> listener_row \<Rightarrow> bool" where
  "houses lb l \<longleftrightarrow> lb_id lb = ls_lb l \<and> lb_project lb = ls_project l \<and> lb_region lb = ls_region l
     \<and> lb_status lb \<noteq> LBStatusDeleting"

definition joins :: "lb_row \<Rightarrow> tg_row \<Rightarrow> attached_row \<Rightarrow> bool" where
  "joins lb g a \<longleftrightarrow> lb_id lb = at_lb a \<and> tg_id g = at_tg a \<and> lb_project lb = tg_project g
     \<and> lb_region lb = tg_region g \<and> lb_status lb \<noteq> LBStatusDeleting"

definition well_linked :: "db \<Rightarrow> bool" where
  "well_linked d \<longleftrightarrow> (\<forall>l \<in> set (d_listeners d). \<exists>lb \<in> set (d_lbs d). houses lb l)
     \<and> (\<forall>a \<in> set (d_attached d). \<exists>lb \<in> set (d_lbs d). \<exists>g \<in> set (d_tgs d). joins lb g a)
     \<and> (\<forall>t \<in> set (d_targets d). \<exists>g \<in> set (d_tgs d). tg_id g = tr_group t)
     \<and> (\<forall>l \<in> set (d_listeners d). \<forall>g. ls_default_tg l = Some g \<longrightarrow>
            (\<exists>a \<in> set (d_attached d). at_lb a = ls_lb l \<and> at_tg a = g))"

definition lb_apart :: "'a load_balancer_scheme \<Rightarrow> 'b load_balancer_scheme \<Rightarrow> bool" where
  "lb_apart s r \<longleftrightarrow> \<not> (lb_name r \<noteq> '''' \<and> lb_project s = lb_project r \<and> lb_name s = lb_name r)
     \<and> \<not> (lb_addr_v4 r \<noteq> '''' \<and> lb_region s = lb_region r \<and> lb_addr_v4 s = lb_addr_v4 r)
     \<and> \<not> (lb_addr_v6 r \<noteq> '''' \<and> lb_region s = lb_region r \<and> lb_addr_v6 s = lb_addr_v6 r)"

definition listener_apart :: "'a listener_scheme \<Rightarrow> 'b listener_scheme \<Rightarrow> bool" where
  "listener_apart s r \<longleftrightarrow> \<not> (ls_lb s = ls_lb r \<and> ls_port s = ls_port r \<and> ls_protocol s = ls_protocol r)
     \<and> \<not> (ls_name r \<noteq> '''' \<and> ls_lb s = ls_lb r \<and> ls_name s = ls_name r)"

definition tg_apart :: "'a target_group_scheme \<Rightarrow> 'b target_group_scheme \<Rightarrow> bool" where
  "tg_apart s r \<longleftrightarrow> \<not> (tg_name r \<noteq> '''' \<and> tg_project s = tg_project r \<and> tg_name s = tg_name r)"

definition well_apart :: "db \<Rightarrow> bool" where
  "well_apart d \<longleftrightarrow> (\<forall>r \<in> set (d_lbs d). \<forall>s \<in> set (d_lbs d). lb_id s \<noteq> lb_id r \<longrightarrow> lb_apart s r)
     \<and> (\<forall>r \<in> set (d_listeners d). \<forall>s \<in> set (d_listeners d). ls_id s \<noteq> ls_id r \<longrightarrow> listener_apart s r)
     \<and> (\<forall>r \<in> set (d_tgs d). \<forall>s \<in> set (d_tgs d). tg_id s \<noteq> tg_id r \<longrightarrow> tg_apart s r)"

definition well_targeted :: "db \<Rightarrow> bool" where
  "well_targeted d \<longleftrightarrow> targets_wf d \<and> (\<forall>g. length (group_targets d g) \<le> MaxTargetsPerGroup)"

definition base_ok :: "db \<Rightarrow> bool" where
  "base_ok d \<longleftrightarrow> well_keyed d \<and> well_rowed d \<and> well_linked d \<and> well_apart d \<and> well_targeted d"

definition served_except :: "string set \<Rightarrow> db \<Rightarrow> bool" where
  "served_except X d \<longleftrightarrow> (\<forall>lb \<in> set (d_lbs d). lb_id lb \<notin> X \<longrightarrow> lb_status lb = LBStatusActive \<longrightarrow>
     has_listener d (lb_id lb) \<and> has_attached d (lb_id lb))"

definition db_ok :: "db \<Rightarrow> bool" where
  "db_ok d \<longleftrightarrow> base_ok d \<and> served_except {} d"

text \<open>The invariants read the tables only.\<close>

definition core :: "db \<Rightarrow> lb_row list \<times> listener_row list \<times> tg_row list \<times> target_row list \<times> attached_row list" where
  "core d = (d_lbs d, d_listeners d, d_tgs d, d_targets d, d_attached d)"

lemma core_eq:
  "core d = core e \<longleftrightarrow> d_lbs d = d_lbs e \<and> d_listeners d = d_listeners e \<and> d_tgs d = d_tgs e
     \<and> d_targets d = d_targets e \<and> d_attached d = d_attached e"
  by (simp add: core_def)

lemmas ok_defs = base_ok_def well_keyed_def well_rowed_def well_linked_def well_apart_def well_targeted_def

lemma base_ok_core: "core d = core e \<Longrightarrow> base_ok d = base_ok e"
  by (simp add: core_eq ok_defs targets_wf_def group_targets_def)

lemma served_core: "core d = core e \<Longrightarrow> served_except X d = served_except X e"
  by (simp add: core_eq served_except_def has_listener_def has_attached_def)

lemma db_ok_core: "core d = core e \<Longrightarrow> db_ok d = db_ok e"
  using base_ok_core [of d e] served_core [of d e "{}"] by (simp add: db_ok_def)

lemma all_ok_guard [simp]: "sql_guard c cs = Inr u \<longleftrightarrow> all_ok cs"
  by (simp add: all_ok_def)

declare sql_guard_Inr [simp del]

lemma lb_uniques_apart: "all_ok (lb_uniques t r) \<longleftrightarrow> (\<forall>s \<in> set t. lb_id s \<noteq> lb_id r \<and> lb_apart s r)"
  by (auto simp: all_ok_def lb_uniques_def lb_apart_def)

lemma listener_uniques_apart:
  "all_ok (listener_uniques t r) \<longleftrightarrow> (\<forall>s \<in> set t. ls_id s \<noteq> ls_id r \<and> listener_apart s r)"
  by (auto simp: all_ok_def listener_uniques_def listener_apart_def)

lemma tg_uniques_apart: "all_ok (tg_uniques t r) \<longleftrightarrow> (\<forall>s \<in> set t. tg_id s \<noteq> tg_id r \<and> tg_apart s r)"
  by (auto simp: all_ok_def tg_uniques_def tg_apart_def)

lemma apart_sym: "lb_apart s r \<longleftrightarrow> lb_apart r s" "listener_apart l m \<longleftrightarrow> listener_apart m l"
  "tg_apart g h \<longleftrightarrow> tg_apart h g"
  by (auto simp: lb_apart_def listener_apart_def tg_apart_def)

lemma default_tg_ok_iff:
  "default_tg_ok d l \<longleftrightarrow> (\<forall>g. ls_default_tg l = Some g \<longrightarrow> (\<exists>a \<in> set (d_attached d). at_lb a = ls_lb l \<and> at_tg a = g))"
  by (auto simp: default_tg_ok_def list_ex_iff split: option.splits)

lemma empty_ok: "db_ok empty_db"
  by (simp add: db_ok_def ok_defs served_except_def empty_db_def targets_wf_def group_targets_def)

subsection \<open>Statements on load balancers\<close>

lemma tbl_get_in: "well_keyed d \<Longrightarrow> tbl_get lb_id (d_lbs d) i = Some r \<longleftrightarrow> r \<in> set (d_lbs d) \<and> lb_id r = i"
  by (simp add: well_keyed_def tbl_get_distinct)

lemma base_ok_keyed: "base_ok d \<Longrightarrow> well_keyed d"
  by (simp add: base_ok_def)

lemma insert_lb_base:
  assumes "insert_lb r d = Inr d'" and "base_ok d"
  shows "base_ok d'"
proof -
  have d': "d' = d \<lparr> d_lbs := d_lbs d @ [r] \<rparr>" and c: "all_ok (lb_checks r)"
    and u: "\<forall>s \<in> set (d_lbs d). lb_id s \<noteq> lb_id r \<and> lb_apart s r"
    using assms(1) by (simp_all add: insert_lb_def lb_uniques_apart)
  then have u': "\<forall>s \<in> set (d_lbs d). lb_id r \<noteq> lb_id s \<and> lb_apart r s" by (metis apart_sym(1))
  have "well_keyed d'" using assms(2) u by (auto simp: base_ok_def well_keyed_def d')
  moreover have "well_rowed d'" using assms(2) c by (simp add: base_ok_def well_rowed_def d')
  moreover have "well_linked d'" using assms(2) by (simp add: base_ok_def well_linked_def d')
  moreover have "well_apart d'" using assms(2) u u' by (auto simp: base_ok_def well_apart_def d')
  moreover have "well_targeted d'"
    using assms(2) by (simp add: base_ok_def well_targeted_def targets_wf_def group_targets_def d')
  ultimately show ?thesis by (simp add: base_ok_def)
qed

lemma insert_lb_served:
  assumes "insert_lb r d = Inr d'" and "served_except X d" and "lb_status r \<noteq> LBStatusActive"
  shows "served_except X d'"
  using assms by (auto simp: insert_lb_def served_except_def has_listener_def has_attached_def)

text \<open>The row of a load balancer replaced by another one of its identity and place.\<close>

definition replace_lb :: "string \<Rightarrow> lb_row \<Rightarrow> db \<Rightarrow> db" where
  "replace_lb i r d = d \<lparr> d_lbs := tbl_upd lb_id i (\<lambda>_. r) (d_lbs d) \<rparr>"

lemma replace_lb_tables [simp]:
  "d_listeners (replace_lb i r d) = d_listeners d" "d_tgs (replace_lb i r d) = d_tgs d"
  "d_targets (replace_lb i r d) = d_targets d" "d_attached (replace_lb i r d) = d_attached d"
  "has_listener (replace_lb i r d) j = has_listener d j" "has_attached (replace_lb i r d) j = has_attached d j"
  by (simp_all add: replace_lb_def has_listener_def has_attached_def)

lemma replace_lb_set:
  assumes "lb_id r = i" and "tbl_get lb_id (d_lbs d) i = Some r0"
  shows "set (d_lbs (replace_lb i r d)) = insert r {s \<in> set (d_lbs d). lb_id s \<noteq> i}"
  using tbl_get_Some_in [OF assms(2)] assms(1) by (auto simp: replace_lb_def set_tbl_upd)

lemma replace_lb_base:
  assumes ok: "base_ok d" and r0: "tbl_get lb_id (d_lbs d) i = Some r0"
    and key: "lb_id r = i" and place: "lb_project r = lb_project r0" "lb_region r = lb_region r0"
    and checks: "all_ok (lb_checks r)" "all_ok (lb_uniques (tbl_del lb_id i (d_lbs d)) r)"
    and dead: "lb_status r = LBStatusDeleting \<Longrightarrow> lb_status r0 \<noteq> LBStatusDeleting \<Longrightarrow>
          \<not> has_listener d i \<and> \<not> has_attached d i"
  shows "base_ok (replace_lb i r d)"
proof -
  let ?d = "replace_lb i r d"
  note s = replace_lb_set [OF key r0]
  have r0': "r0 \<in> set (d_lbs d)" "lb_id r0 = i" using tbl_get_Some_in [OF r0] by auto
  have uniq: "s = r0" if "s \<in> set (d_lbs d)" "lb_id s = i" for s
    using that r0 tbl_get_in [OF base_ok_keyed [OF ok], of i s] by simp
  have u: "\<forall>s \<in> set (d_lbs d). lb_id s \<noteq> i \<longrightarrow> lb_apart s r \<and> lb_apart r s"
    using checks(2) apart_sym(1) by (fastforce simp: lb_uniques_apart)
  have "map lb_id (d_lbs ?d) = map lb_id (d_lbs d)"
    unfolding replace_lb_def by (simp add: tbl_upd_def key)
  then have "well_keyed ?d" using ok by (simp add: base_ok_def well_keyed_def)
  moreover have "well_rowed ?d" using ok checks(1) by (auto simp: base_ok_def well_rowed_def s)
  moreover have "\<exists>lb \<in> set (d_lbs ?d). houses lb l" if l: "l \<in> set (d_listeners d)" for l
  proof -
    obtain lb where lb: "lb \<in> set (d_lbs d)" "houses lb l" using ok l by (auto simp: base_ok_def well_linked_def)
    show ?thesis
    proof (cases "lb_id lb = i")
      case True
      with uniq lb have "lb = r0" by simp
      with lb l True dead place key have "houses r l"
        by (auto simp: houses_def has_listener_def list_ex_iff)
      then show ?thesis by (simp add: s)
    qed (use lb s in auto)
  qed
  moreover have "\<exists>lb \<in> set (d_lbs ?d). \<exists>g \<in> set (d_tgs d). joins lb g a" if a: "a \<in> set (d_attached d)" for a
  proof -
    obtain lb g where lb: "lb \<in> set (d_lbs d)" "g \<in> set (d_tgs d)" "joins lb g a"
      using ok a by (auto simp: base_ok_def well_linked_def)
    show ?thesis
    proof (cases "lb_id lb = i")
      case True
      with uniq lb have "lb = r0" by simp
      with lb a True dead place key have "joins r g a"
        by (auto simp: joins_def has_attached_def list_ex_iff)
      with lb(2) show ?thesis by (auto simp: s)
    qed (use lb s in auto)
  qed
  then have "well_linked ?d" using ok calculation(3) by (auto simp: base_ok_def well_linked_def)
  moreover have "well_apart ?d"
    using ok u key by (auto simp: base_ok_def well_apart_def s)
  moreover have "well_targeted ?d" using ok by (simp add: base_ok_def well_targeted_def targets_wf_def group_targets_def)
  ultimately show ?thesis by (simp add: base_ok_def)
qed

lemma replace_lb_served:
  assumes "served_except X d" and "tbl_get lb_id (d_lbs d) i = Some r0" and "lb_id r = i"
    and "i \<notin> X \<Longrightarrow> lb_status r = LBStatusActive \<Longrightarrow> has_listener d i \<and> has_attached d i"
  shows "served_except X (replace_lb i r d)"
  using assms replace_lb_set [OF assms(3,2)] by (auto simp: served_except_def)

lemma tbl_upd_const:
  "distinct (map key t) \<Longrightarrow> tbl_get key t i = Some r \<Longrightarrow> tbl_upd key i f t = tbl_upd key i (\<lambda>_. f r) t"
  by (induction t) (force simp: tbl_upd_def image_iff split: if_splits)+

lemma set_tbl_upd_row:
  assumes "distinct (map key t)" and "tbl_get key t i = Some r"
  shows "set (tbl_upd key i f t) = insert (f r) {s \<in> set t. key s \<noteq> i}"
proof -
  have "set (tbl_upd key i f t) = set (tbl_upd key i (\<lambda>_. f r) t)"
    by (rule arg_cong [OF tbl_upd_const [OF assms]])
  then show ?thesis using tbl_get_Some_in [OF assms(2)] by (auto simp: set_tbl_upd)
qed

text \<open>Every update of a load balancer's row is such a replacement.\<close>

lemma update_lb_returning_replace:
  assumes "update_lb_returning me i f d = Inr (r', d')" and "tbl_get lb_id (d_lbs d) i = Some r0"
    and "\<And>r. lb_id (f r) = lb_id r" and "well_keyed d"
  shows "d' = replace_lb i r' d" and "r' = (f r0) \<lparr> lb_xmin := d_tx d \<rparr>"
    and "all_ok (lb_checks r')" and "all_ok (lb_uniques (tbl_del lb_id i (d_lbs d)) r')"
proof -
  note u = update_lb_returning_Inr [OF assms(1,2,3)]
  show r': "r' = (f r0) \<lparr> lb_xmin := d_tx d \<rparr>" by (rule u(1))
  show "d' = replace_lb i r' d"
    using u(2) assms(2,4) tbl_upd_const [of lb_id "d_lbs d" i r0 "\<lambda>r. (f r) \<lparr> lb_xmin := d_tx d \<rparr>"]
    by (simp add: replace_lb_def well_keyed_def r')
  show "all_ok (lb_checks r')" "all_ok (lb_uniques (tbl_del lb_id i (d_lbs d)) r')"
    using update_lb_returning_checks [OF assms(1,2)] by (simp_all add: all_ok_def r')
qed

lemma delete_lb_base:
  assumes "delete_lb i d = Inr d'" and "base_ok d"
  shows "base_ok d'"
proof -
  have d': "d' = d \<lparr> d_lbs := tbl_del lb_id i (d_lbs d) \<rparr>" "\<not> has_listener d i" "\<not> has_attached d i"
    using assms(1) by (simp_all add: delete_lb_def all_ok_def)
  have "well_keyed d'" using assms(2) by (simp add: base_ok_def well_keyed_def d' distinct_tbl_del)
  moreover have "well_rowed d'" using assms(2) by (simp add: base_ok_def well_rowed_def d')
  moreover have "well_linked d'"
  proof -
    have "lb_id lb \<noteq> i" if "houses lb l" "l \<in> set (d_listeners d)" for lb l
      using that d'(2) by (auto simp: houses_def has_listener_def list_ex_iff)
    moreover have "lb_id lb \<noteq> i" if "joins lb g a" "a \<in> set (d_attached d)" for lb g a
      using that d'(3) by (auto simp: joins_def has_attached_def list_ex_iff)
    ultimately show ?thesis using assms(2) by (fastforce simp: base_ok_def well_linked_def d'(1))
  qed
  moreover have "well_apart d'" using assms(2) by (simp add: base_ok_def well_apart_def d')
  moreover have "well_targeted d'"
    using assms(2) by (simp add: base_ok_def well_targeted_def targets_wf_def group_targets_def d')
  ultimately show ?thesis by (simp add: base_ok_def)
qed

lemma delete_lb_served: "delete_lb i d = Inr d' \<Longrightarrow> served_except X d \<Longrightarrow> served_except X d'"
  by (auto simp: delete_lb_def all_ok_def served_except_def has_listener_def has_attached_def)

text \<open>The move of a load balancer: its row and the mirrored project of its listeners.\<close>

lemma LB_MoveProject_checks:
  assumes "LB_MoveProject i project d = Inr (r', d')" and "well_keyed d"
  shows "all_ok (lb_checks r')" and "all_ok (lb_uniques (tbl_del lb_id i (d_lbs d)) r')"
proof -
  obtain r d1 where r: "tbl_get lb_id (d_lbs d) i = Some r"
    and u: "update_lb_returning (\<lambda>e. mapPgErr e ''NetworkLoadBalancer'' i) i
        (\<lambda>r. r \<lparr> lb_project := project, lb_updated := d_now d \<rparr>) d = Inr (r', d1)"
    using assms(1) by (auto simp: LB_MoveProject_def split: option.splits if_splits)
  from update_lb_returning_replace(3,4) [OF u r _ assms(2)]
  show "all_ok (lb_checks r')" "all_ok (lb_uniques (tbl_del lb_id i (d_lbs d)) r')" by simp_all
qed

lemma listener_touch:
  "listener_checks (l \<lparr> ls_project := p, ls_updated := t, ls_xmin := x \<rparr>) = listener_checks l"
  by (simp add: listener_checks_def)

lemma LB_MoveProject_base:
  assumes m: "LB_MoveProject i project d = Inr (r', d')" and ok: "base_ok d"
  shows "base_ok d'"
proof -
  have k: "well_keyed d" using ok by (rule base_ok_keyed)
  note mv = LB_MoveProject_Inr [OF m]
  obtain r where r: "tbl_get lb_id (d_lbs d) i = Some r"
    and r': "r' = r \<lparr> lb_project := project, lb_updated := d_now d, lb_xmin := d_tx d \<rparr>" using mv(1) by blast
  let ?f = "\<lambda>l. if ls_lb l = i then l \<lparr> ls_project := project, ls_updated := d_now d, ls_xmin := d_tx d \<rparr> else l"
  have ls: "d_listeners d' = map ?f (d_listeners d)" and lbs: "d_lbs d' = d_lbs (replace_lb i r' d)"
    and other: "d_tgs d' = d_tgs d" "d_targets d' = d_targets d" "d_attached d' = d_attached d"
    unfolding mv(3) using k r r' tbl_upd_const [of lb_id "d_lbs d" i r] by (simp_all add: replace_lb_def well_keyed_def)
  have key: "lb_id r' = i" using tbl_get_key [OF r] r' by simp
  note s = replace_lb_set [OF key r]
  have uniq: "t = r" if "t \<in> set (d_lbs d)" "lb_id t = i" for t using that r tbl_get_in [OF k, of i t] by simp
  have u: "\<forall>t \<in> set (d_lbs d). lb_id t \<noteq> i \<longrightarrow> lb_apart t r' \<and> lb_apart r' t"
    using LB_MoveProject_checks(2) [OF m k] apart_sym(1) by (fastforce simp: lb_uniques_apart)
  have "map lb_id (d_lbs d') = map lb_id (d_lbs d)" unfolding lbs replace_lb_def by (simp add: tbl_upd_def key)
  moreover have "map ls_id (d_listeners d') = map ls_id (d_listeners d)" unfolding ls by simp
  ultimately have "well_keyed d'" using k by (simp add: well_keyed_def other)
  moreover have "all_ok (listener_checks (?f l))" if "l \<in> set (d_listeners d)" for l
    using that ok by (simp add: base_ok_def well_rowed_def listener_touch)
  then have "\<forall>l \<in> set (d_listeners d'). all_ok (listener_checks l)" unfolding ls set_map ball_simps(9) by blast
  then have "well_rowed d'"
    using ok LB_MoveProject_checks(1) [OF m k] by (auto simp: base_ok_def well_rowed_def lbs other s)
  moreover have "well_linked d'"
  proof -
    have h: "\<exists>lb \<in> set (d_lbs d'). houses lb (?f l)" if l: "l \<in> set (d_listeners d)" for l
    proof -
      obtain lb where lb: "lb \<in> set (d_lbs d)" "houses lb l" using ok l by (auto simp: base_ok_def well_linked_def)
      show ?thesis
      proof (cases "ls_lb l = i")
        case True
        with lb uniq have "lb = r" by (simp add: houses_def)
        with lb True r' key have "houses r' (?f l)" by (simp add: houses_def)
        then show ?thesis by (simp add: lbs s)
      next
        case False
        with lb show ?thesis by (auto simp: lbs s houses_def)
      qed
    qed
    have j: "\<exists>lb \<in> set (d_lbs d'). \<exists>g \<in> set (d_tgs d). joins lb g a" if a: "a \<in> set (d_attached d)" for a
    proof -
      obtain lb g where lb: "lb \<in> set (d_lbs d)" "g \<in> set (d_tgs d)" "joins lb g a"
        using ok a by (auto simp: base_ok_def well_linked_def)
      then have "lb_id lb \<noteq> i" using mv(2) a by (auto simp: joins_def has_attached_def list_ex_iff)
      with lb show ?thesis by (auto simp: lbs s)
    qed
    have "\<forall>l \<in> set (d_listeners d'). \<exists>lb \<in> set (d_lbs d'). houses lb l"
      unfolding ls set_map ball_simps(9) using h by blast
    moreover have "\<forall>l \<in> set (d_listeners d'). \<forall>g. ls_default_tg l = Some g \<longrightarrow>
        (\<exists>a \<in> set (d_attached d). at_lb a = ls_lb l \<and> at_tg a = g)"
      unfolding ls set_map ball_simps(9) using ok by (simp add: base_ok_def well_linked_def) blast
    ultimately show ?thesis using j ok by (simp add: base_ok_def well_linked_def other)
  qed
  moreover have "well_apart d'"
  proof -
    define f :: "listener_row \<Rightarrow> listener_row" where "f = ?f"
    have lsf: "d_listeners d' = map f (d_listeners d)" unfolding ls f_def by (rule refl)
    have "listener_apart (f l) (f m) = listener_apart l m" "ls_id (f l) = ls_id l" for l m
      by (simp_all add: f_def listener_apart_def)
    then have "\<forall>l \<in> set (d_listeners d'). \<forall>m \<in> set (d_listeners d'). ls_id m \<noteq> ls_id l \<longrightarrow> listener_apart m l"
      unfolding lsf set_map ball_simps(9) using ok by (simp add: base_ok_def well_apart_def)
    then show ?thesis using ok u key by (auto simp: base_ok_def well_apart_def lbs other s)
  qed
  moreover have "well_targeted d'" using ok by (simp add: base_ok_def well_targeted_def targets_wf_def group_targets_def other)
  ultimately show ?thesis by (simp add: base_ok_def)
qed

lemma has_listener_iff: "has_listener d j \<longleftrightarrow> j \<in> set (map ls_lb (d_listeners d))"
  by (auto simp: has_listener_def list_ex_iff)

lemma LB_MoveProject_served:
  assumes m: "LB_MoveProject i project d = Inr (r', d')" and "served_except X d"
  shows "served_except X d'"
proof -
  note mv = LB_MoveProject_Inr [OF m]
  have "map ls_lb (d_listeners d') = map ls_lb (d_listeners d)" unfolding mv(3) by simp
  then have "has_listener d' j = has_listener d j" "has_attached d' j = has_attached d j" for j
    by (simp_all add: has_listener_iff, simp add: mv(3) has_attached_def)
  with assms(2) show ?thesis unfolding mv(3) by (auto simp: served_except_def set_tbl_upd)
qed

subsection \<open>The trigger\<close>

lemma recompute_cases [consumes 1]:
  assumes "well_keyed d"
  obtains (kept) "core (lb_status_recompute i d) = core d"
      and "\<And>r. tbl_get lb_id (d_lbs d) i = Some r \<Longrightarrow> lb_status r = LBStatusActive \<Longrightarrow>
             recomputed_status d i = LBStatusActive"
  | (changed) r x where "tbl_get lb_id (d_lbs d) i = Some r" and "lb_status r \<in> {LBStatusInactive, LBStatusActive}"
      and "core (lb_status_recompute i d) = core (replace_lb i (r \<lparr> lb_status := recomputed_status d i, lb_xmin := x \<rparr>) d)"
proof (cases "\<exists>r. tbl_get lb_id (d_lbs d) i = Some r \<and> lb_status r \<in> {LBStatusInactive, LBStatusActive}
    \<and> recomputed_status d i \<noteq> lb_status r")
  case True
  then obtain r where r: "tbl_get lb_id (d_lbs d) i = Some r" "lb_status r \<in> {LBStatusInactive, LBStatusActive}"
    "recomputed_status d i \<noteq> lb_status r" by blast
  have "tbl_upd lb_id i (\<lambda>r. r \<lparr> lb_status := recomputed_status d i, lb_xmin := d_tx d \<rparr>) (d_lbs d)
      = tbl_upd lb_id i (\<lambda>_. r \<lparr> lb_status := recomputed_status d i, lb_xmin := d_tx d \<rparr>) (d_lbs d)"
    using assms r by (intro tbl_upd_const) (simp_all add: well_keyed_def)
  then have "core (lb_status_recompute i d)
      = core (replace_lb i (r \<lparr> lb_status := recomputed_status d i, lb_xmin := d_tx d \<rparr>) d)"
    using r unfolding core_eq recompute_lbs replace_lb_def by simp
  with r changed show ?thesis by blast
next
  case False
  then have "core (lb_status_recompute i d) = core d" unfolding core_eq recompute_lbs by (auto split: option.split)
  moreover have "recomputed_status d i = LBStatusActive"
    if "tbl_get lb_id (d_lbs d) i = Some r" "lb_status r = LBStatusActive" for r
    using False that by auto
  ultimately show ?thesis by (rule kept)
qed
lemma lb_row_status [simp]:
  "lb_checks (r \<lparr> lb_status := s, lb_xmin := x \<rparr>) = lb_checks r"
  "lb_uniques t (r \<lparr> lb_status := s, lb_xmin := x \<rparr>) = lb_uniques t r"
  by (simp_all add: lb_checks_def lb_uniques_def)

lemma stored_lb_ok:
  assumes "base_ok d" and "tbl_get lb_id (d_lbs d) i = Some r"
  shows "all_ok (lb_checks r)" and "all_ok (lb_uniques (tbl_del lb_id i (d_lbs d)) r)"
  using assms(1) tbl_get_Some_in [OF assms(2)]
  by (auto simp: base_ok_def well_rowed_def well_apart_def lb_uniques_apart)

lemma recompute_base:
  assumes "base_ok d"
  shows "base_ok (lb_status_recompute i d)"
  using base_ok_keyed [OF assms]
proof (cases rule: recompute_cases [where i = i])
  case kept
  from base_ok_core [OF kept(1)] assms show ?thesis by simp
next
  case (changed r x)
  have "base_ok (replace_lb i (r \<lparr> lb_status := recomputed_status d i, lb_xmin := x \<rparr>) d)"
    using tbl_get_key [OF changed(1)] stored_lb_ok [OF assms changed(1)]
    by (intro replace_lb_base [OF assms changed(1)]) (auto simp: recomputed_status_def split: if_splits)
  with base_ok_core [OF changed(3)] show ?thesis by simp
qed
lemma recompute_served:
  assumes "well_keyed d" and "served_except {i} d"
  shows "served_except {} (lb_status_recompute i d)"
  using assms(1)
proof (cases rule: recompute_cases [where i = i])
  case kept
  have "served_except {} d"
    unfolding served_except_def
  proof (intro ballI impI)
    fix lb assume lb: "lb \<in> set (d_lbs d)" "lb_status lb = LBStatusActive"
    show "has_listener d (lb_id lb) \<and> has_attached d (lb_id lb)"
    proof (cases "lb_id lb = i")
      case True
      with lb have "tbl_get lb_id (d_lbs d) i = Some lb" using tbl_get_in [OF assms(1)] by simp
      with kept(2) lb True show ?thesis
        by (auto simp: recomputed_status_def has_listener_def list_ex_iff split: if_splits)
    qed (use lb assms(2) in \<open>auto simp: served_except_def\<close>)
  qed
  with served_core [OF kept(1)] show ?thesis by simp
next
  case (changed r x)
  let ?r = "r \<lparr> lb_status := recomputed_status d i, lb_xmin := x \<rparr>"
  have key: "lb_id ?r = i" using tbl_get_key [OF changed(1)] by simp
  have "lb_status ?r = LBStatusActive \<Longrightarrow> has_listener d i \<and> has_attached d i"
    by (auto simp: recomputed_status_def has_listener_def list_ex_iff split: if_splits)
  with assms(2) key have "served_except {} (replace_lb i ?r d)"
    unfolding served_except_def replace_lb_set [OF key changed(1)] by auto
  with served_core [OF changed(3)] show ?thesis by simp
qed

lemma served_weaken: "served_except X d \<Longrightarrow> X \<subseteq> Y \<Longrightarrow> served_except Y d"
  by (auto simp: served_except_def)

lemma trigger_ok: "base_ok d \<Longrightarrow> served_except {i} d \<Longrightarrow> db_ok (lb_status_recompute i d)"
  by (simp add: db_ok_def recompute_base recompute_served base_ok_keyed)

lemma key_unique: "distinct (map key t) \<Longrightarrow> x \<in> set t \<Longrightarrow> y \<in> set t \<Longrightarrow> key x = key y \<Longrightarrow> x = y"
  by (simp add: distinct_map inj_on_def)

subsection \<open>Statements on listeners\<close>

lemma insert_listener_ok:
  assumes ins: "insert_listener r d = Inr d'" and ok: "db_ok d"
    and lb: "lb \<in> set (d_lbs d)" "houses lb r"
  shows "db_ok d'"
proof -
  let ?d = "d \<lparr> d_listeners := d_listeners d @ [r] \<rparr>"
  have c: "all_ok (listener_checks r)" and u: "\<forall>s \<in> set (d_listeners d). ls_id s \<noteq> ls_id r \<and> listener_apart s r"
    and tg: "default_tg_ok d r" and d': "d' = lb_status_recompute (ls_lb r) ?d"
    using ins by (simp_all add: insert_listener_def listener_uniques_apart all_ok_def [of "[_, _]"])
  have u': "\<forall>s \<in> set (d_listeners d). ls_id r \<noteq> ls_id s \<and> listener_apart r s" using u by (metis apart_sym(2))
  have b: "base_ok d" using ok by (simp add: db_ok_def)
  have "well_keyed ?d" using b u by (auto simp: base_ok_def well_keyed_def)
  moreover have "well_rowed ?d" using b c by (simp add: base_ok_def well_rowed_def)
  moreover have "well_linked ?d" using b lb tg by (auto simp: base_ok_def well_linked_def default_tg_ok_iff)
  moreover have "well_apart ?d" using b u u' by (auto simp: base_ok_def well_apart_def)
  moreover have "well_targeted ?d" using b by (simp add: base_ok_def well_targeted_def targets_wf_def group_targets_def)
  ultimately have "base_ok ?d" by (simp add: base_ok_def)
  moreover have "served_except {ls_lb r} ?d"
    using ok by (auto simp: db_ok_def served_except_def has_listener_def has_attached_def)
  ultimately show ?thesis unfolding d' by (rule trigger_ok)
qed

lemma update_listener_ok:
  assumes up: "update_listener i f d = Inr d'" and ok: "db_ok d"
    and f: "\<And>l. ls_id (f l) = ls_id l \<and> ls_lb (f l) = ls_lb l \<and> ls_project (f l) = ls_project l
              \<and> ls_region (f l) = ls_region l"
  shows "db_ok d'"
proof (cases "tbl_get ls_id (d_listeners d) i")
  case None
  with up ok show ?thesis by (simp add: update_listener_def)
next
  case (Some r)
  let ?g = "\<lambda>r. (f r) \<lparr> ls_xmin := d_tx d \<rparr>"
  let ?r = "?g r"
  define e where "e = d \<lparr> d_listeners := tbl_upd ls_id i ?g (d_listeners d) \<rparr>"
  have other: "d_lbs e = d_lbs d" "d_tgs e = d_tgs d" "d_targets e = d_targets d" "d_attached e = d_attached d"
    and ls: "d_listeners e = tbl_upd ls_id i ?g (d_listeners d)" by (simp_all add: e_def)
  have b: "base_ok d" using ok by (simp add: db_ok_def)
  have c: "all_ok (listener_checks ?r)" and tg: "default_tg_ok d ?r"
    and u0: "\<forall>s \<in> set (tbl_del ls_id i (d_listeners d)). ls_id s \<noteq> ls_id ?r \<and> listener_apart s ?r"
    and d': "d' = (if ls_status ?r \<noteq> ls_status r then lb_status_recompute (ls_lb r) e else e)"
    using up Some by (simp_all add: update_listener_def listener_uniques_apart all_ok_def [of "[_]"] Let_def e_def
        split: if_splits)
  have r: "r \<in> set (d_listeners d)" "ls_id r = i" using tbl_get_Some_in [OF Some] by auto
  have s: "set (d_listeners e) = insert ?r {s \<in> set (d_listeners d). ls_id s \<noteq> i}"
    using b Some by (simp add: ls base_ok_def well_keyed_def set_tbl_upd_row)
  have u: "\<forall>s \<in> set (d_listeners d). ls_id s \<noteq> i \<longrightarrow> listener_apart s ?r \<and> listener_apart ?r s"
    using u0 apart_sym(2) by fastforce
  have keys: "map ls_id (d_listeners e) = map ls_id (d_listeners d)" using f by (simp add: ls tbl_upd_keys)
  have parents: "map ls_lb (d_listeners e) = map ls_lb (d_listeners d)" using f by (simp add: ls tbl_upd_def)
  have "well_keyed e" using b keys by (simp add: base_ok_def well_keyed_def other)
  moreover have "well_rowed e" using b c by (auto simp: base_ok_def well_rowed_def s other)
  moreover have "well_linked e"
    using b tg f r unfolding base_ok_def well_linked_def s other default_tg_ok_iff by (auto simp: houses_def)
  moreover have "well_apart e" using b u f r unfolding base_ok_def well_apart_def s other by auto
  moreover have "well_targeted e" using b by (simp add: base_ok_def well_targeted_def targets_wf_def group_targets_def other)
  ultimately have b': "base_ok e" by (simp add: base_ok_def)
  have "has_listener e j = has_listener d j" "has_attached e j = has_attached d j" for j
    using parents by (simp_all only: has_listener_iff, simp add: has_attached_def other)
  then have sv: "served_except {} e" using ok by (simp add: db_ok_def served_except_def other)
  show ?thesis
  proof (cases "ls_status ?r = ls_status r")
    case True
    with d' b' sv show ?thesis by (simp add: db_ok_def)
  next
    case False
    with d' have "d' = lb_status_recompute (ls_lb r) e" by simp
    with trigger_ok [OF b' served_weaken [OF sv]] show ?thesis by simp
  qed
qed

lemma delete_listener_ok:
  assumes ok: "db_ok d"
  shows "db_ok (delete_listener i d)"
proof (cases "tbl_get ls_id (d_listeners d) i")
  case None
  with ok show ?thesis by (simp add: delete_listener_def)
next
  case (Some r)
  let ?d = "d \<lparr> d_listeners := tbl_del ls_id i (d_listeners d) \<rparr>"
  have b: "base_ok d" using ok by (simp add: db_ok_def)
  have "well_keyed ?d" using b by (simp add: base_ok_def well_keyed_def distinct_tbl_del)
  moreover have "well_rowed ?d" "well_linked ?d" "well_apart ?d"
    using b by (simp_all add: base_ok_def well_rowed_def well_linked_def well_apart_def)
  moreover have "well_targeted ?d" using b by (simp add: base_ok_def well_targeted_def targets_wf_def group_targets_def)
  ultimately have b': "base_ok ?d" by (simp add: base_ok_def)
  have r: "r \<in> set (d_listeners d)" "ls_id r = i" using tbl_get_Some_in [OF Some] by auto
  have uniq: "s = r" if "s \<in> set (d_listeners d)" "ls_id s = i" for s
    using b that r by (intro key_unique [of ls_id "d_listeners d"]) (simp_all add: base_ok_def well_keyed_def)
  have "has_listener ?d j" if "has_listener d j" "j \<noteq> ls_lb r" for j
    using that uniq by (auto simp: has_listener_def list_ex_iff)
  then have "served_except {ls_lb r} ?d"
    using ok by (auto simp: db_ok_def served_except_def has_attached_def)
  with b' have "db_ok (lb_status_recompute (ls_lb r) ?d)" by (rule trigger_ok)
  with Some show ?thesis by (simp add: delete_listener_def)
qed

subsection \<open>Statements on attachments\<close>

lemma insert_attached_ok:
  assumes ins: "insert_attached a d = Inr d'" and ok: "db_ok d"
    and lb: "lb \<in> set (d_lbs d)" "g \<in> set (d_tgs d)" "joins lb g a"
    and new: "tbl_get at_key (d_attached d) (at_key a) = None"
  shows "db_ok d'"
proof -
  let ?d = "d \<lparr> d_attached := d_attached d @ [a] \<rparr>"
  have d': "d' = lb_status_recompute (at_lb a) ?d"
    using ins by (simp add: insert_attached_def all_ok_def [of "[_, _]"])
  have b: "base_ok d" using ok by (simp add: db_ok_def)
  have "well_keyed ?d" using b new by (auto simp: base_ok_def well_keyed_def tbl_get_None)
  moreover have "well_rowed ?d" "well_apart ?d" using b by (simp_all add: base_ok_def well_rowed_def well_apart_def)
  moreover have "well_linked ?d" using b lb by (auto simp: base_ok_def well_linked_def)
  moreover have "well_targeted ?d" using b by (simp add: base_ok_def well_targeted_def targets_wf_def group_targets_def)
  ultimately have "base_ok ?d" by (simp add: base_ok_def)
  moreover have "served_except {at_lb a} ?d"
    using ok by (auto simp: db_ok_def served_except_def has_listener_def has_attached_def)
  ultimately show ?thesis unfolding d' by (rule trigger_ok)
qed

lemma delete_attached_ok:
  assumes del: "delete_attached i g d = Inr d'" and ok: "db_ok d"
  shows "db_ok d'"
proof (cases "tbl_get at_key (d_attached d) (i, g)")
  case None
  with del ok show ?thesis by (simp add: delete_attached_def)
next
  case (Some a)
  let ?d = "d \<lparr> d_attached := tbl_del at_key (i, g) (d_attached d) \<rparr>"
  have d': "d' = lb_status_recompute i ?d"
    and free: "\<And>l. l \<in> set (d_listeners d) \<Longrightarrow> \<not> (ls_lb l = i \<and> ls_default_tg l = Some g)"
    using del Some by (auto simp: delete_attached_def all_ok_def list_ex_iff)
  have b: "base_ok d" using ok by (simp add: db_ok_def)
  have "well_keyed ?d" using b by (simp add: base_ok_def well_keyed_def distinct_tbl_del)
  moreover have "well_rowed ?d" "well_apart ?d" using b by (simp_all add: base_ok_def well_rowed_def well_apart_def)
  moreover have "well_linked ?d"
    using b free by (auto simp: base_ok_def well_linked_def at_key_def) metis
  moreover have "well_targeted ?d" using b by (simp add: base_ok_def well_targeted_def targets_wf_def group_targets_def)
  ultimately have b': "base_ok ?d" by (simp add: base_ok_def)
  have "has_attached ?d j" if "has_attached d j" "j \<noteq> i" for j
    using that by (auto simp: has_attached_def list_ex_iff at_key_def)
  then have "served_except {i} ?d" using ok by (auto simp: db_ok_def served_except_def has_listener_def)
  with b' show ?thesis unfolding d' by (rule trigger_ok)
qed

subsection \<open>Statements on target groups\<close>

lemma served_lbs_same:
  "d_lbs e = d_lbs d \<Longrightarrow> d_listeners e = d_listeners d \<Longrightarrow> d_attached e = d_attached d \<Longrightarrow>
   served_except X e = served_except X d"
  by (simp add: served_except_def has_listener_def has_attached_def)

lemma insert_tg_ok:
  assumes ins: "insert_tg r d = Inr d'" and ok: "db_ok d"
  shows "db_ok d'"
proof -
  have d': "d' = d \<lparr> d_tgs := d_tgs d @ [r] \<rparr>" and c: "all_ok (tg_checks r)"
    and u: "\<forall>s \<in> set (d_tgs d). tg_id s \<noteq> tg_id r \<and> tg_apart s r"
    using ins by (simp_all add: insert_tg_def tg_uniques_apart)
  have u': "\<forall>s \<in> set (d_tgs d). tg_id r \<noteq> tg_id s \<and> tg_apart r s" using u by (metis apart_sym(3))
  have b: "base_ok d" using ok by (simp add: db_ok_def)
  have "well_keyed d'" using b u by (auto simp: base_ok_def well_keyed_def d')
  moreover have "well_rowed d'" using b c by (simp add: base_ok_def well_rowed_def d')
  moreover have "well_linked d'" using b unfolding base_ok_def well_linked_def d' by simp blast
  moreover have "well_apart d'" using b u u' by (auto simp: base_ok_def well_apart_def d')
  moreover have "well_targeted d'" using b by (simp add: base_ok_def well_targeted_def targets_wf_def group_targets_def d')
  moreover have "served_except {} d'" using ok served_lbs_same [of d' d "{}"] by (simp add: db_ok_def d')
  ultimately show ?thesis by (simp add: db_ok_def base_ok_def)
qed

lemma update_tg_ok:
  assumes up: "update_tg i f d = Inr d'" and ok: "db_ok d"
    and f: "\<And>g. tg_id (f g) = tg_id g \<and> tg_region (f g) = tg_region g"
    and place: "(\<forall>g. tg_project (f g) = tg_project g) \<or> (\<forall>a \<in> set (d_attached d). at_tg a \<noteq> i)"
  shows "db_ok d'"
proof (cases "tbl_get tg_id (d_tgs d) i")
  case None
  with up ok show ?thesis by (simp add: update_tg_def)
next
  case (Some r)
  let ?g = "\<lambda>r. (f r) \<lparr> tg_xmin := d_tx d \<rparr>"
  let ?r = "?g r"
  have b: "base_ok d" using ok by (simp add: db_ok_def)
  have c: "all_ok (tg_checks ?r)"
    and u0: "\<forall>s \<in> set (tbl_del tg_id i (d_tgs d)). tg_id s \<noteq> tg_id ?r \<and> tg_apart s ?r"
    and d': "d' = d \<lparr> d_tgs := tbl_upd tg_id i ?g (d_tgs d) \<rparr>"
    using up Some by (simp_all add: update_tg_def tg_uniques_apart Let_def)
  have r: "r \<in> set (d_tgs d)" "tg_id r = i" using tbl_get_Some_in [OF Some] by auto
  have uniq: "s = r" if "s \<in> set (d_tgs d)" "tg_id s = i" for s
    using b that r by (intro key_unique [of tg_id "d_tgs d"]) (simp_all add: base_ok_def well_keyed_def)
  have s: "set (d_tgs d') = insert ?r {s \<in> set (d_tgs d). tg_id s \<noteq> i}"
    using b Some by (simp add: d' base_ok_def well_keyed_def set_tbl_upd_row)
  have u: "\<forall>s \<in> set (d_tgs d). tg_id s \<noteq> i \<longrightarrow> tg_apart s ?r \<and> tg_apart ?r s"
    using u0 apart_sym(3) by fastforce
  have other: "d_lbs d' = d_lbs d" "d_listeners d' = d_listeners d" "d_attached d' = d_attached d"
    "d_targets d' = d_targets d" by (simp_all add: d')
  have "map tg_id (d_tgs d') = map tg_id (d_tgs d)" using f by (simp add: d' tbl_upd_keys)
  then have "well_keyed d'" using b by (simp add: base_ok_def well_keyed_def other)
  moreover have "well_rowed d'" using b c by (auto simp: base_ok_def well_rowed_def s other)
  moreover have "well_linked d'"
  proof -
    have "\<exists>lb \<in> set (d_lbs d). \<exists>g \<in> set (d_tgs d'). joins lb g a" if a: "a \<in> set (d_attached d)" for a
    proof -
      obtain lb g where lb: "lb \<in> set (d_lbs d)" "g \<in> set (d_tgs d)" "joins lb g a"
        using b a by (auto simp: base_ok_def well_linked_def)
      show ?thesis
      proof (cases "tg_id g = i")
        case True
        with lb uniq have g: "g = r" by simp
        with lb a True place have "tg_project (f r) = tg_project r" by (auto simp: joins_def)
        with g lb f have "joins lb ?r a" by (simp add: joins_def)
        with lb(1) show ?thesis by (auto simp: s)
      qed (use lb s in auto)
    qed
    moreover have "\<exists>g \<in> set (d_tgs d'). tg_id g = tr_group t" if "t \<in> set (d_targets d)" for t
      using that b f r by (fastforce simp: base_ok_def well_linked_def s)
    ultimately show ?thesis using b by (simp add: base_ok_def well_linked_def other)
  qed
  moreover have "well_apart d'" using b u f r by (auto simp: base_ok_def well_apart_def s other)
  moreover have "well_targeted d'" using b by (simp add: base_ok_def well_targeted_def targets_wf_def group_targets_def other)
  moreover have "served_except {} d'" using ok served_lbs_same [of d' d "{}"] by (simp add: db_ok_def other)
  ultimately show ?thesis by (simp add: db_ok_def base_ok_def)
qed

lemma delete_tg_ok:
  assumes del: "delete_tg i d = Inr d'" and ok: "db_ok d"
  shows "db_ok d'"
proof -
  have d': "d' = d \<lparr> d_tgs := tbl_del tg_id i (d_tgs d) \<rparr>"
    and free: "\<And>t. t \<in> set (d_targets d) \<Longrightarrow> tr_group t \<noteq> i" "\<And>a. a \<in> set (d_attached d) \<Longrightarrow> at_tg a \<noteq> i"
    using del by (auto simp: delete_tg_def all_ok_def list_ex_iff)
  have b: "base_ok d" using ok by (simp add: db_ok_def)
  have "well_keyed d'" using b by (simp add: base_ok_def well_keyed_def d' distinct_tbl_del)
  moreover have "well_rowed d'" "well_apart d'" using b by (simp_all add: base_ok_def well_rowed_def well_apart_def d')
  moreover have "well_linked d'"
  proof -
    have "joins lb g a \<Longrightarrow> a \<in> set (d_attached d) \<Longrightarrow> tg_id g \<noteq> i" for lb g a using free(2) by (auto simp: joins_def)
    moreover have "tg_id g = tr_group t \<Longrightarrow> t \<in> set (d_targets d) \<Longrightarrow> tg_id g \<noteq> i" for g :: tg_row and t
      using free(1) by auto
    ultimately show ?thesis using b by (simp add: base_ok_def well_linked_def d') metis
  qed
  moreover have "well_targeted d'" using b by (simp add: base_ok_def well_targeted_def targets_wf_def group_targets_def d')
  moreover have "served_except {} d'" using ok served_lbs_same [of d' d "{}"] by (simp add: db_ok_def d')
  ultimately show ?thesis by (simp add: db_ok_def base_ok_def)
qed

text \<open>A change of the targets alone.\<close>

lemma targets_change_ok:
  assumes ok: "db_ok d" and wt: "well_targeted (d \<lparr> d_targets := ts \<rparr>)"
    and linked: "\<And>t. t \<in> set ts \<Longrightarrow> \<exists>g \<in> set (d_tgs d). tg_id g = tr_group t"
  shows "db_ok (d \<lparr> d_targets := ts \<rparr>)"
proof -
  have b: "base_ok d" using ok by (simp add: db_ok_def)
  have "well_keyed (d \<lparr> d_targets := ts \<rparr>)" "well_rowed (d \<lparr> d_targets := ts \<rparr>)" "well_apart (d \<lparr> d_targets := ts \<rparr>)"
    using b by (simp_all add: base_ok_def well_keyed_def well_rowed_def well_apart_def)
  moreover have "well_linked (d \<lparr> d_targets := ts \<rparr>)" using b linked by (simp add: base_ok_def well_linked_def)
  moreover have "served_except {} (d \<lparr> d_targets := ts \<rparr>)"
    using ok served_lbs_same [of "d \<lparr> d_targets := ts \<rparr>" d "{}"] by (simp add: db_ok_def)
  ultimately show ?thesis using wt by (simp add: db_ok_def base_ok_def)
qed

lemma add_targets_loop_groups:
  assumes "add_targets_loop g ts n d = Inr (m, d')"
  shows "tr_group ` set (d_targets d') \<subseteq> insert g (tr_group ` set (d_targets d))"
proof (rule add_targets_loop_invariant [OF assms,
      where P = "\<lambda>e. tr_group ` set (d_targets e) \<subseteq> insert g (tr_group ` set (d_targets d))"])
  fix i t e b e1
  assume "add_one_target (new_target_row g (d_now e) i t) e = Inr (b, e1)"
    and "tr_group ` set (d_targets e) \<subseteq> insert g (tr_group ` set (d_targets d))"
  then show "tr_group ` set (d_targets e1) \<subseteq> insert g (tr_group ` set (d_targets d))"
    by (auto dest!: add_one_target_Inr split: if_splits) blast+
qed auto

lemma TG_AddTargets_ok:
  assumes add: "TG_AddTargets g ts d = Inr (n, d')" and ok: "db_ok d"
  shows "db_ok d'"
proof (cases "ts = []")
  case True
  with add ok show ?thesis by (simp add: TG_AddTargets_def)
next
  case False
  note a = TG_AddTargets_Inr [OF add False]
  obtain us where d': "d' = d \<lparr> d_targets := us \<rparr>" using add_targets_loop_tables [OF a(1)] by blast
  have wt: "well_targeted d" and lk: "well_linked d" using ok by (simp_all add: db_ok_def base_ok_def)
  from a(3) have gin: "\<exists>r \<in> set (d_tgs d). tg_id r = g" by (auto dest: tbl_get_Some_in)
  have "length (group_targets d' h) \<le> MaxTargetsPerGroup" for h
    using add_targets_loop_size [OF a(1), of h] a(2) wt by (cases "h = g") (auto simp: well_targeted_def intro: order_trans)
  with add_targets_loop_wf [OF a(1)] wt have "well_targeted d'" by (simp add: well_targeted_def)
  moreover have "\<exists>r \<in> set (d_tgs d). tg_id r = tr_group t" if "t \<in> set us" for t
    using that add_targets_loop_groups [OF a(1)] gin lk by (fastforce simp: d' well_linked_def)
  ultimately show ?thesis using targets_change_ok [OF ok, of us] by (simp add: d')
qed

lemma map_targets_ok:
  assumes ok: "db_ok d"
    and f: "\<And>r. tr_id (f r) = tr_id r \<and> tr_group (f r) = tr_group r \<and> same_columns (f r) r"
    and c: "\<And>r. r \<in> set (d_targets d) \<Longrightarrow> target_ok (f r)"
  shows "db_ok (d \<lparr> d_targets := map f (d_targets d) \<rparr>)"
proof (rule targets_change_ok [OF ok])
  have wt: "well_targeted d" and lk: "well_linked d" using ok by (simp_all add: db_ok_def base_ok_def)
  have "separated (map f (d_targets d)) = separated (d_targets d)" by (rule separated_map) (rule f)
  moreover have "length (filter (\<lambda>t. tr_group t = g) (map f ts)) = length (filter (\<lambda>t. tr_group t = g) ts)" for g ts
    using f by (induction ts) auto
  ultimately show "well_targeted (d \<lparr> d_targets := map f (d_targets d) \<rparr>)"
    using wt c by (auto simp: well_targeted_def targets_wf_def group_targets_def)
  show "t \<in> set (map f (d_targets d)) \<Longrightarrow> \<exists>g \<in> set (d_tgs d). tg_id g = tr_group t" for t
    using lk f by (auto simp: well_linked_def)
qed

lemma filter_targets_ok:
  assumes ok: "db_ok d"
  shows "db_ok (d \<lparr> d_targets := filter P (d_targets d) \<rparr>)"
proof (rule targets_change_ok [OF ok])
  have wt: "well_targeted d" and lk: "well_linked d" using ok by (simp_all add: db_ok_def base_ok_def)
  have "length (filter Q (filter P ts)) \<le> length (filter Q ts)" for Q and ts :: "target_row list"
    by (induction ts) auto
  then have "length (group_targets (d \<lparr> d_targets := filter P (d_targets d) \<rparr>) g) \<le> MaxTargetsPerGroup" for g
    using wt unfolding well_targeted_def group_targets_def by (simp del: filter_filter) (metis order_trans)
  then show "well_targeted (d \<lparr> d_targets := filter P (d_targets d) \<rparr>)"
    using wt separated_filter [of "d_targets d" P] by (simp add: well_targeted_def targets_wf_def)
  show "t \<in> set (filter P (d_targets d)) \<Longrightarrow> \<exists>g \<in> set (d_tgs d). tg_id g = tr_group t" for t
    using lk by (auto simp: well_linked_def)
qed

lemma mark_draining_ok:
  assumes ok: "db_ok d" and "TG_RemoveTargetsMarkDraining g ids d = Inr (n, d')"
  shows "db_ok d'"
proof (cases "ids = []")
  case True
  with assms show ?thesis by (simp add: TG_RemoveTargetsMarkDraining_def)
next
  case False
  let ?f = "\<lambda>r. if marks_draining g ids r
     then r \<lparr> tr_status := TargetDraining, tr_drain := Some (d_now d), tr_updated := d_now d \<rparr> else r"
  have "d' = d \<lparr> d_targets := map ?f (d_targets d) \<rparr>"
    using assms(2) False by (auto simp: TG_RemoveTargetsMarkDraining_def)
  moreover have "db_ok (d \<lparr> d_targets := map ?f (d_targets d) \<rparr>)"
  proof (rule map_targets_ok [OF ok])
    show "tr_id (?f r) = tr_id r \<and> tr_group (?f r) = tr_group r \<and> same_columns (?f r) r" for r
      by (simp add: same_columns_def)
    have "target_ok (r \<lparr> tr_status := TargetDraining, tr_drain := Some t, tr_updated := u \<rparr>)" if "target_ok r" for r t u
      using that by (cases "tr_instance r"; cases "tr_nic r"; cases "tr_subnet r"; cases "tr_address r";
          cases "tr_ext r"; cases "tr_zone r") (auto simp: target_ok_def target_checks_def)
    then show "r \<in> set (d_targets d) \<Longrightarrow> target_ok (?f r)" for r
      using ok by (simp add: db_ok_def base_ok_def well_targeted_def targets_wf_def)
  qed
  ultimately show ?thesis by simp
qed

end
