(* ===== verification/System.thy ===== *)
theory System
  imports Db_Invariants
begin

text \<open>
  The system as a whole: a step commits one of the transactions the use-cases and the background
  runners consist of, or lets time pass. Every reachable database satisfies the invariants of
  \<^verbatim>\<open>Db_Invariants\<close>, the statuses of the load balancers follow an abstract life cycle, and every
  use-case, whatever the others do between its transactions and whatever fails, only makes steps of
  the system.
\<close>

subsection \<open>The repository keeps the invariants\<close>

definition keeps_ok :: "'a tx \<Rightarrow> bool" where
  "keeps_ok m \<longleftrightarrow> (\<forall>d x d'. db_ok d \<longrightarrow> m d = Inr (x, d') \<longrightarrow> db_ok d')"

lemma keeps_okD: "keeps_ok m \<Longrightarrow> m d = Inr (x, d') \<Longrightarrow> db_ok d \<Longrightarrow> db_ok d'"
  by (simp add: keeps_ok_def)

lemma db_ok_keyed: "db_ok d \<Longrightarrow> well_keyed d"
  by (simp add: db_ok_def base_ok_def)

text \<open>A replaced row that changes no status but possibly to one that is harmless.\<close>

lemma replace_lb_ok:
  assumes ok: "db_ok d" and r0: "tbl_get lb_id (d_lbs d) i = Some r0"
    and key: "lb_id r = i" and place: "lb_project r = lb_project r0" "lb_region r = lb_region r0"
    and checks: "all_ok (lb_checks r)" "all_ok (lb_uniques (tbl_del lb_id i (d_lbs d)) r)"
    and status: "lb_status r = lb_status r0 \<or> lb_status r \<notin> {LBStatusDeleting, LBStatusActive}
        \<or> lb_status r = LBStatusDeleting \<and> \<not> has_listener d i \<and> \<not> has_attached d i
        \<or> lb_status r = LBStatusActive \<and> has_listener d i \<and> has_attached d i"
  shows "db_ok (replace_lb i r d)"
proof -
  have b: "base_ok d" and s: "served_except {} d" using ok by (simp_all add: db_ok_def)
  have "base_ok (replace_lb i r d)"
    using status by (intro replace_lb_base [OF b r0 key place checks]) auto
  moreover have "lb_status r0 = LBStatusActive \<Longrightarrow> has_listener d i \<and> has_attached d i"
    using s tbl_get_Some_in [OF r0] by (auto simp: served_except_def)
  then have "served_except {} (replace_lb i r d)"
    using status by (intro replace_lb_served [OF s r0 key]) auto
  ultimately show ?thesis by (simp add: db_ok_def)
qed

lemma keeps_LB_Insert: "lb_status lb \<noteq> LBStatusActive \<Longrightarrow> keeps_ok (LB_Insert lb)"
  unfolding keeps_ok_def db_ok_def
proof (intro allI impI, elim conjE)
  fix d x d' assume s: "lb_status lb \<noteq> LBStatusActive" and b: "base_ok d" "served_except {} d"
    and m: "LB_Insert lb d = Inr (x, d')"
  have i: "insert_lb (new_lb_row d lb) d = Inr d'" using m by (auto simp: LB_Insert_def)
  have "lb_status (new_lb_row d lb) = lb_status lb" by (simp add: new_lb_row_def load_balancer.defs lb_row.defs)
  with insert_lb_base [OF i b(1)] insert_lb_served [OF i b(2)] s show "base_ok d' \<and> served_except {} d'" by simp
qed

lemma keeps_update_lb:
  assumes "update_lb_returning me i f d = Inr (r', d')" and "db_ok d" and "tbl_get lb_id (d_lbs d) i = Some r0"
    and "\<And>r. lb_id (f r) = lb_id r" and "lb_project (f r0) = lb_project r0" "lb_region (f r0) = lb_region r0"
    and "lb_status (f r0) = lb_status r0 \<or> lb_status (f r0) \<notin> {LBStatusDeleting, LBStatusActive}
        \<or> lb_status (f r0) = LBStatusDeleting \<and> \<not> has_listener d i \<and> \<not> has_attached d i
        \<or> lb_status (f r0) = LBStatusActive \<and> has_listener d i \<and> has_attached d i"
  shows "db_ok d'"
proof -
  note u = update_lb_returning_replace [OF assms(1,3,4) db_ok_keyed [OF assms(2)]]
  have "db_ok (replace_lb i r' d)"
    using assms(4-7) tbl_get_key [OF assms(3)] u(2-4) by (intro replace_lb_ok [OF assms(2,3)]) simp_all
  then show ?thesis by (simp only: u(1))
qed

lemma keeps_LB_AttachVIP: "keeps_ok (LB_AttachVIP i fam a ai o1)"
  unfolding keeps_ok_def
proof (intro allI impI)
  fix d x d' assume ok: "db_ok d" and m: "LB_AttachVIP i fam a ai o1 d = Inr (x, d')"
  then obtain r where r: "tbl_get lb_id (d_lbs d) i = Some r"
    and u: "update_lb_returning mapAttachVIPErr i
      (\<lambda>r. (set_vip fam a ai o1 r) \<lparr> lb_updated := d_now d \<rparr>) d = Inr (x, d')"
    by (auto simp: LB_AttachVIP_def split: option.splits if_splits)
  show "db_ok d'" by (rule keeps_update_lb [OF u ok r]) simp_all
qed

lemma keeps_LB_Update: "keeps_ok (LB_Update lb v)"
  unfolding keeps_ok_def
proof (intro allI impI)
  fix d x d' assume ok: "db_ok d" and m: "LB_Update lb v d = Inr (x, d')"
  then obtain r where r: "tbl_get lb_id (d_lbs d) (lb_id lb) = Some r"
    and u: "update_lb_returning (\<lambda>e. mapPgErr e ''NetworkLoadBalancer'' (lb_id lb)) (lb_id lb)
      (\<lambda>r. r \<lparr> lb_name := lb_name lb, lb_description := lb_description lb, lb_labels := lb_labels lb,
               lb_affinity := lb_affinity lb, lb_protection := lb_protection lb,
               lb_disabled_zones := lb_disabled_zones lb, lb_updated := d_now d \<rparr>) d = Inr (x, d')"
    by (auto simp: LB_Update_def split: option.splits if_splits)
  show "db_ok d'" by (rule keeps_update_lb [OF u ok r]) simp_all
qed

lemma SetStatus_ok:
  assumes m: "LB_SetStatusCAS i a b d = Inr (x, d')" and ok: "db_ok d" and "b \<noteq> LBStatusDeleting"
    and "b = LBStatusActive \<Longrightarrow> has_listener d i \<and> has_attached d i"
  shows "db_ok d'"
proof -
  obtain r where r: "tbl_get lb_id (d_lbs d) i = Some r"
    and u: "update_lb_returning (\<lambda>e. mapPgErr e ''NetworkLoadBalancer'' i) i
      (\<lambda>r. r \<lparr> lb_status := b, lb_updated := d_now d \<rparr>) d = Inr (x, d')"
    using m by (auto simp: LB_SetStatusCAS_def Let_def split: option.splits if_splits)
  show ?thesis by (rule keeps_update_lb [OF u ok r]) (use assms(3,4) in auto)
qed

lemma keeps_LB_MarkDeleting: "keeps_ok (LB_MarkDeleting i)"
  unfolding keeps_ok_def
proof (intro allI impI)
  fix d x d' assume ok: "db_ok d" and m: "LB_MarkDeleting i d = Inr (x, d')"
  then obtain r where r: "tbl_get lb_id (d_lbs d) i = Some r" "\<not> has_listener d i" "\<not> has_attached d i"
    and u: "update_lb_returning (\<lambda>e. mapPgErr e ''NetworkLoadBalancer'' i) i
      (\<lambda>r. r \<lparr> lb_status := LBStatusDeleting, lb_updated := d_now d \<rparr>) d = Inr (x, d')"
    by (auto simp: LB_MarkDeleting_def split: option.splits if_splits)
  show "db_ok d'" by (rule keeps_update_lb [OF u ok r(1)]) (use r in simp_all)
qed

lemma keeps_LB_MoveProject: "keeps_ok (LB_MoveProject i p)"
  by (auto simp: keeps_ok_def db_ok_def intro: LB_MoveProject_base LB_MoveProject_served)

lemma delete_lb_ok: "delete_lb i d = Inr d' \<Longrightarrow> db_ok d \<Longrightarrow> db_ok d'"
  by (auto simp: db_ok_def intro: delete_lb_base delete_lb_served)

lemma keeps_LB_Delete: "keeps_ok (LB_Delete i)"
  by (auto simp: keeps_ok_def LB_Delete_def split: option.splits intro: delete_lb_ok)

lemma keeps_Listener_Insert: "keeps_ok (Listener_Insert l)"
  unfolding keeps_ok_def
proof (intro allI impI)
  fix d x d' assume ok: "db_ok d" and m: "Listener_Insert l d = Inr (x, d')"
  then obtain lb where lb: "tbl_get lb_id (d_lbs d) (ls_lb l) = Some lb" "lb_status lb \<noteq> LBStatusDeleting"
    and i: "insert_listener (new_listener_row d lb l) d = Inr d'"
    by (auto simp: Listener_Insert_def Let_def split: option.splits if_splits)
  have "lb \<in> set (d_lbs d)" using tbl_get_Some_in [OF lb(1)] by simp
  moreover have "houses lb (new_listener_row d lb l)" using lb(2) by (simp add: houses_def)
  ultimately show "db_ok d'" by (rule insert_listener_ok [OF i ok])
qed

lemma keeps_update_listener:
  assumes "update_listener_returning me i f d = Inr (r', d')" and "db_ok d"
    and "\<And>l. ls_id (f l) = ls_id l \<and> ls_lb (f l) = ls_lb l \<and> ls_project (f l) = ls_project l
           \<and> ls_region (f l) = ls_region l"
  shows "db_ok d'"
proof -
  have "update_listener i f d = Inr d'"
    using assms(1) by (auto simp: update_listener_returning_def split: option.splits)
  then show ?thesis by (rule update_listener_ok [OF _ assms(2,3)])
qed

lemma keeps_Listener_Update: "keeps_ok (Listener_Update l v)"
  by (auto simp: keeps_ok_def Listener_Update_def split: option.splits if_splits elim!: keeps_update_listener)

lemma keeps_Listener_SetStatusCAS: "keeps_ok (Listener_SetStatusCAS i a b)"
  by (auto simp: keeps_ok_def Listener_SetStatusCAS_def Let_def split: option.splits if_splits elim!: keeps_update_listener)

lemma keeps_Listener_Delete: "keeps_ok (Listener_Delete i)"
  by (auto simp: keeps_ok_def Listener_Delete_def split: option.splits intro: delete_listener_ok)

lemma keeps_Attached_Attach: "keeps_ok (Attached_Attach i g p)"
  unfolding keeps_ok_def
proof (intro allI impI)
  fix d x d' assume ok: "db_ok d" and m: "Attached_Attach i g p d = Inr (x, d')"
  let ?row = "\<lparr> at_lb = i, at_tg = g, at_priority = p, at_since = d_now d \<rparr>"
  have "attach_zero_rows i g d = Inr (x, d') \<Longrightarrow> d' = d"
    by (auto simp: attach_zero_rows_def Attached_Get_def split: option.splits if_splits sum.splits)
  then have "d' = d \<or> attach_joined i g d \<and> tbl_get at_key (d_attached d) (i, g) = None \<and> insert_attached ?row d = Inr d'"
    using m by (auto simp: Attached_Attach_def Let_def split: if_splits)
  then show "db_ok d'"
  proof (elim disjE conjE)
    assume j: "attach_joined i g d" and n: "tbl_get at_key (d_attached d) (i, g) = None"
      and ins: "insert_attached ?row d = Inr d'"
    from j obtain lb t where lb: "tbl_get lb_id (d_lbs d) i = Some lb" "tbl_get tg_id (d_tgs d) g = Some t"
      and eq: "tg_project t = lb_project lb" "tg_region t = lb_region lb" "lb_status lb \<noteq> LBStatusDeleting"
      by (auto simp: attach_joined_def split: option.splits)
    show ?thesis
    proof (rule insert_attached_ok [OF ins ok])
      show "lb \<in> set (d_lbs d)" "t \<in> set (d_tgs d)"
        using tbl_get_Some_in [OF lb(1)] tbl_get_Some_in [OF lb(2)] by simp_all
      show "joins lb t ?row" using tbl_get_key [OF lb(1)] tbl_get_key [OF lb(2)] eq by (simp add: joins_def)
      show "tbl_get at_key (d_attached d) (at_key ?row) = None" using n by (simp add: at_key_def)
    qed
  qed (use ok in simp)
qed

lemma keeps_Attached_Detach: "keeps_ok (Attached_Detach i g)"
  by (auto simp: keeps_ok_def Attached_Detach_def intro: delete_attached_ok)

lemma keeps_update_tg:
  assumes "update_tg_returning me i f d = Inr (r', d')" and "db_ok d"
    and "\<And>g. tg_id (f g) = tg_id g \<and> tg_region (f g) = tg_region g"
    and "(\<forall>g. tg_project (f g) = tg_project g) \<or> (\<forall>a \<in> set (d_attached d). at_tg a \<noteq> i)"
  shows "db_ok d'"
proof -
  have "update_tg i f d = Inr d'" using assms(1) by (auto simp: update_tg_returning_def split: option.splits)
  then show ?thesis by (rule update_tg_ok [OF _ assms(2-4)])
qed

lemma keeps_TG_Update: "keeps_ok (TG_Update g v)"
  unfolding keeps_ok_def
proof (intro allI impI)
  fix d x d' assume ok: "db_ok d" and m: "TG_Update g v d = Inr (x, d')"
  then have "update_tg_returning (\<lambda>e. mapPgErr e ''TargetGroup'' (tg_id g)) (tg_id g)
      (\<lambda>r. r \<lparr> tg_name := tg_name g, tg_description := tg_description g, tg_labels := tg_labels g,
        tg_health := tg_health g, tg_dereg := tg_dereg g, tg_slow := tg_slow g, tg_updated := d_now d \<rparr>) d = Inr (x, d')"
    by (auto simp: TG_Update_def split: option.splits if_splits)
  then show "db_ok d'" by (rule keeps_update_tg [OF _ ok]) simp_all
qed

lemma keeps_TG_MoveProject: "keeps_ok (TG_MoveProject i p)"
  unfolding keeps_ok_def
proof (intro allI impI)
  fix d x d' assume ok: "db_ok d" and m: "TG_MoveProject i p d = Inr (x, d')"
  then have u: "update_tg_returning (\<lambda>e. mapPgErr e ''TargetGroup'' i) i
      (\<lambda>r. r \<lparr> tg_project := p, tg_updated := d_now d \<rparr>) d = Inr (x, d')"
    and free: "\<not> list_ex (\<lambda>a. at_tg a = i) (d_attached d)"
    by (auto simp: TG_MoveProject_def split: option.splits if_splits)
  show "db_ok d'" by (rule keeps_update_tg [OF u ok]) (use free in \<open>auto simp: list_ex_iff\<close>)
qed

lemma keeps_TG_Delete: "keeps_ok (TG_Delete i)"
  by (auto simp: keeps_ok_def TG_Delete_def split: option.splits intro: delete_tg_ok)

lemma keeps_TG_AddTargets: "keeps_ok (TG_AddTargets g ts)"
  by (auto simp: keeps_ok_def intro: TG_AddTargets_ok)

lemma keeps_TG_Insert: "keeps_ok (TG_Insert g ids)"
  unfolding keeps_ok_def
proof (intro allI impI)
  fix d x d' assume ok: "db_ok d" and m: "TG_Insert g ids d = Inr (x, d')"
  then obtain d1 where i: "insert_tg (new_tg_row d g) d = Inr d1"
    and a: "d' = d1 \<or> (\<exists>n. TG_AddTargets (tg_id g) (zip ids (tg_targets g)) d1 = Inr (n, d'))"
    by (auto simp: TG_Insert_def split: if_splits)
  from insert_tg_ok [OF i ok] a TG_AddTargets_ok show "db_ok d'" by blast
qed

lemma keeps_mark_draining: "keeps_ok (TG_RemoveTargetsMarkDraining g ids)"
  by (auto simp: keeps_ok_def intro: mark_draining_ok)

subsection \<open>The transactions keep the invariants\<close>

lemma core_emit: "core (emit_outbox k i p a m d) = core d" "core (emit_fga ev x d) = core d"
  by (simp_all add: core_eq)

lemma keeps_emit: "(\<And>d. core (f d) = core d) \<Longrightarrow> keeps_ok (tx_emit f)"
  unfolding keeps_ok_def tx_emit_def by (metis Inr_inject Pair_inject db_ok_core)

lemma keeps_bind:
  assumes "keeps_ok m" and "\<And>x. keeps_ok (k x)"
  shows "keeps_ok (tx_bind m k)"
  unfolding keeps_ok_def
proof (intro allI impI)
  fix d x d' assume ok: "db_ok d" and b: "tx_bind m k d = Inr (x, d')"
  then obtain y e where "m d = Inr (y, e)" and k: "k y e = Inr (x, d')" by (auto simp: tx_bind_def)
  from keeps_okD [OF assms(1) this(1) ok] show "db_ok d'" by (rule keeps_okD [OF assms(2) k])
qed

lemma keeps_return: "keeps_ok (tx_return x)"
  by (simp add: keeps_ok_def tx_return_def)

lemma keeps_if: "keeps_ok m \<Longrightarrow> keeps_ok n \<Longrightarrow> keeps_ok (if b then m else n)"
  by simp

lemma keeps_map_err: "keeps_ok m \<Longrightarrow> keeps_ok (tx_map_err f m)"
  by (simp add: keeps_ok_def tx_map_err_def)

lemma keeps_ignoring: "keeps_ok m \<Longrightarrow> keeps_ok (tx_ignoring s m)"
  unfolding keeps_ok_def tx_ignoring_def by (fastforce split: sum.splits if_splits)

lemmas keeps_events = keeps_emit [OF core_emit(1)] keeps_emit [OF core_emit(2)]

lemmas keeps_parts = keeps_bind keeps_return keeps_if keeps_map_err keeps_ignoring keeps_events
  keeps_LB_AttachVIP keeps_LB_Update keeps_LB_MarkDeleting keeps_LB_MoveProject keeps_LB_Delete
  keeps_Listener_Insert keeps_Listener_Update keeps_Listener_SetStatusCAS keeps_Listener_Delete
  keeps_Attached_Attach keeps_Attached_Detach keeps_TG_Insert keeps_TG_Update keeps_TG_MoveProject
  keeps_TG_Delete keeps_TG_AddTargets keeps_mark_draining

lemma keeps_writes:
  "keeps_ok (lb_delete_tx i p)" "keeps_ok (attach_tx i g p)" "keeps_ok (detach_tx i g p)"
  "keeps_ok (move_tx i p q)" "keeps_ok (update_tx lb v b)"
  "keeps_ok (create_listener_tx l lb0 s)" "keeps_ok (update_listener_tx l v b)"
  "keeps_ok (mark_listener_tx cur)" "keeps_ok (delete_listener_tx cur)"
  "keeps_ok (create_tg_tx tg ids pr)" "keeps_ok (update_tg_tx tg v b)" "keeps_ok (delete_tg_tx i p)"
  "keeps_ok (move_tg_tx i p q)" "keeps_ok (add_targets_tx i row ts)" "keeps_ok (remove_targets_tx i row ids)"
  unfolding lb_delete_tx_def attach_tx_def detach_tx_def move_tx_def update_tx_def create_listener_tx_def
    update_listener_tx_def mark_listener_tx_def delete_listener_tx_def create_tg_tx_def update_tg_tx_def
    delete_tg_tx_def move_tg_tx_def add_targets_tx_def remove_targets_tx_def attach_event_def updated_event_def
    listener_event_def parent_event_def tg_event_def targets_event_def
  by (intro keeps_parts)+

lemma keeps_finalize: "keeps_ok (finalize_tx lb p)"
proof -
  have "keeps_ok (LB_SetStatusCAS i LBStatusCreating LBStatusInactive)" for i
    by (auto simp: keeps_ok_def intro: SetStatus_ok)
  then show ?thesis unfolding finalize_tx_def by (intro keeps_parts)
qed

lemma keeps_start: "keeps_ok (start_tx i expected)"
  unfolding keeps_ok_def
proof (intro allI impI)
  fix d x d' assume ok: "db_ok d" and m: "start_tx i expected d = Inr (x, d')"
  from start_tx_Inr [OF m] obtain d1 d2 r1 where
    c: "LB_SetStatusCAS i expected LBStatusStarting d = Inr (r1, d1)"
      "LB_SetStatusCAS i LBStatusStarting
        (if has_listener d i \<and> has_attached d i then LBStatusActive else LBStatusInactive) d1 = Inr (x, d2)"
    and d': "core d' = core d2" by (auto simp: core_emit)
  have "has_listener d1 i = has_listener d i" "has_attached d1 i = has_attached d i"
    using LB_SetStatusCAS_Inr [OF c(1)] lb_written_outboxes by (auto simp: has_listener_def has_attached_def)
  moreover have "db_ok d1" using SetStatus_ok [OF c(1) ok] by simp
  ultimately have "db_ok d2" using SetStatus_ok [OF c(2)] by (auto split: if_splits)
  with db_ok_core [OF d'] show "db_ok d'" by simp
qed

lemma keeps_stop: "keeps_ok (stop_tx i expected)"
proof -
  have "keeps_ok (LB_SetStatusCAS i a b)" if "b \<notin> {LBStatusActive, LBStatusDeleting}" for i a b
    using that by (auto simp: keeps_ok_def intro: SetStatus_ok)
  then show ?thesis unfolding stop_tx_def updated_event_def by (intro keeps_parts) simp_all
qed

lemma keeps_reconcile: "keeps_ok (reconcile_tx lb)"
proof -
  have "keeps_ok (tx_stmt (delete_lb i))" for i by (auto simp: keeps_ok_def tx_stmt_def intro: delete_lb_ok)
  then show ?thesis unfolding reconcile_tx_def emitReconcileFinalize_def by (intro keeps_parts)
qed

lemma keeps_isolate: "keeps_ok (isolate_tx lb)"
  unfolding keeps_ok_def
proof (intro allI impI)
  fix d x d' assume ok: "db_ok d" and m: "isolate_tx lb d = Inr (x, d')"
  have u: "update_lb (lb_id lb) (\<lambda>r. r \<lparr> lb_updated := d_now d \<rparr>) d = Inr d'"
    using m by (auto simp: isolate_tx_def tx_stmt_def)
  show "db_ok d'"
  proof (cases "tbl_get lb_id (d_lbs d) (lb_id lb)")
    case None
    with u ok show ?thesis by (simp add: update_lb_def)
  next
    case (Some r)
    then obtain r' where "update_lb_returning (\<lambda>e. e) (lb_id lb) (\<lambda>r. r \<lparr> lb_updated := d_now d \<rparr>) d = Inr (r', d')"
      using u by (auto simp: update_lb_returning_def update_lb_def Let_def tbl_get_upd)
    then show ?thesis by (rule keeps_update_lb [OF _ ok Some]) simp_all
  qed
qed

lemma keeps_drain: "keeps_ok (drain_tx visit)"
  unfolding keeps_ok_def
proof (intro allI impI)
  fix d x d' assume ok: "db_ok d" and m: "drain_tx visit d = Inr (x, d')"
  then obtain gs where "d' = fold (drain_event d) gs (d \<lparr> d_targets := filter (\<lambda>t. \<not> expired d t) (d_targets d) \<rparr>)"
    by (auto simp: drain_tx_def Let_def)
  then have "core d' = core (d \<lparr> d_targets := filter (\<lambda>t. \<not> expired d t) (d_targets d) \<rparr>)"
    by (simp add: core_eq fold_drain_event_tables)
  from db_ok_core [OF this] filter_targets_ok [OF ok] show "db_ok d'" by simp
qed

subsection \<open>Steps of the system\<close>

text \<open>
  One rule per transaction a worker commits, with what its synchronous part has made sure of: a
  creation inserts a row in status CREATING, start and stop name a status they start from.
\<close>

inductive commits :: "db \<Rightarrow> db \<Rightarrow> bool" where
  handle: "LB_Insert lb d = Inr (r, d') \<Longrightarrow> lb_status lb = LBStatusCreating \<Longrightarrow> commits d d'"
| vip: "LB_AttachVIP i fam a ai o1 d = Inr (r, d') \<Longrightarrow> commits d d'"
| finalize: "finalize_tx lb p d = Inr (r, d') \<Longrightarrow> commits d d'"
| unhandle: "LB_Delete i d = Inr (u, d') \<Longrightarrow> commits d d'"
| mark: "LB_MarkDeleting i d = Inr (r, d') \<Longrightarrow> commits d d'"
| lb_delete: "lb_delete_tx i p d = Inr (u, d') \<Longrightarrow> commits d d'"
| start: "start_tx i a d = Inr (r, d') \<Longrightarrow> a \<in> {LBStatusStopped, LBStatusInactive} \<Longrightarrow> commits d d'"
| stop: "stop_tx i a d = Inr (r, d') \<Longrightarrow> a \<in> {LBStatusActive, LBStatusInactive} \<Longrightarrow> commits d d'"
| attach: "attach_tx i g p d = Inr (u, d') \<Longrightarrow> commits d d'"
| detach: "detach_tx i g p d = Inr (u, d') \<Longrightarrow> commits d d'"
| move: "move_tx i p q d = Inr (r, d') \<Longrightarrow> commits d d'"
| lb_update: "update_tx lb v b d = Inr (r, d') \<Longrightarrow> commits d d'"
| listener_create: "create_listener_tx l lb0 s d = Inr (row, d') \<Longrightarrow> commits d d'"
| listener_update: "update_listener_tx l v b d = Inr (row, d') \<Longrightarrow> commits d d'"
| listener_mark: "mark_listener_tx cur d = Inr (u, d') \<Longrightarrow> commits d d'"
| listener_delete: "delete_listener_tx cur d = Inr (u, d') \<Longrightarrow> commits d d'"
| event: "tx_emit (emit_outbox k i p a m) d = Inr (u, d') \<Longrightarrow> commits d d'"
| tg_create: "create_tg_tx tg ids pr d = Inr (g, d') \<Longrightarrow> commits d d'"
| tg_update: "update_tg_tx tg v b d = Inr (g, d') \<Longrightarrow> commits d d'"
| tg_delete: "delete_tg_tx i p d = Inr (u, d') \<Longrightarrow> commits d d'"
| tg_move: "move_tg_tx i p q d = Inr (g, d') \<Longrightarrow> commits d d'"
| add_targets: "add_targets_tx i tgr ts d = Inr (n, d') \<Longrightarrow> commits d d'"
| remove_targets: "remove_targets_tx i tgr ids d = Inr (n, d') \<Longrightarrow> commits d d'"
| reconcile: "reconcile_tx lbr d = Inr (u, d') \<Longrightarrow> commits d d'"
| isolate: "isolate_tx lbr d = Inr (u, d') \<Longrightarrow> commits d d'"
| drain: "drain_tx visit d = Inr (nm, d') \<Longrightarrow> commits d d'"

text \<open>A transaction starts with a new identifier; a reader, or one that is rolled back, leaves only that.\<close>

inductive sys_step :: "db \<Rightarrow> db \<Rightarrow> bool" where
  commit: "commits (d \<lparr> d_tx := Suc (d_tx d) \<rparr>) d' \<Longrightarrow> sys_step d d'"
| time: "d_now d \<le> n \<Longrightarrow> sys_step d (d \<lparr> d_tx := Suc (d_tx d), d_now := n \<rparr>)"

inductive reachable :: "db \<Rightarrow> bool" where
  start: "reachable empty_db"
| step: "reachable d \<Longrightarrow> sys_step d d' \<Longrightarrow> reachable d'"

inductive_cases sys_stepE: "sys_step d d'"
inductive_simps reachable_empty [simp]: "reachable empty_db"

lemmas keeps_step = keeps_LB_AttachVIP [THEN keeps_okD] keeps_finalize [THEN keeps_okD]
  keeps_LB_Delete [THEN keeps_okD] keeps_LB_MarkDeleting [THEN keeps_okD] keeps_start [THEN keeps_okD]
  keeps_stop [THEN keeps_okD] keeps_writes [THEN keeps_okD] keeps_reconcile [THEN keeps_okD]
  keeps_isolate [THEN keeps_okD] keeps_drain [THEN keeps_okD] keeps_events(1) [THEN keeps_okD]

lemma commits_ok: "commits d d' \<Longrightarrow> db_ok d \<Longrightarrow> db_ok d'"
proof (induction rule: commits.induct)
  case (handle lb d r d')
  then have "keeps_ok (LB_Insert lb)" by (intro keeps_LB_Insert) simp
  from keeps_okD [OF this handle(1)] handle show ?case by simp
qed (erule (1) keeps_step)+

lemma step_ok: "sys_step d d' \<Longrightarrow> db_ok d \<Longrightarrow> db_ok d'"
proof (induction rule: sys_step.induct)
  case (commit d d')
  have "db_ok (d \<lparr> d_tx := Suc (d_tx d) \<rparr>)"
    using commit(2) db_ok_core [of "d \<lparr> d_tx := Suc (d_tx d) \<rparr>" d] by (simp add: core_def)
  with commit(1) show ?case by (rule commits_ok)
next
  case (time d n)
  then show ?case using db_ok_core [of "d \<lparr> d_tx := Suc (d_tx d), d_now := n \<rparr>" d] by (simp add: core_def)
qed

lemma reachable_db_ok: "reachable d \<Longrightarrow> db_ok d"
  by (induction rule: reachable.induct) (simp_all add: empty_ok step_ok)

end
