(* ===== verification/Lb_Life.thy ===== *)
theory Lb_Life
  imports System
begin

text \<open>
  The abstract specification of a load balancer's status, and the refinement: seen from outside,
  every step of the system moves every load balancer along the abstract life cycle. The
  intermediate statuses STARTING and STOPPING exist inside a transaction only, a load balancer is
  created in CREATING and leaves it once, and an ACTIVE one is never deleted directly.
\<close>

inductive life :: "lb_status option \<Rightarrow> lb_status option \<Rightarrow> bool" where
  stay: "life s s"
| create: "life None (Some LBStatusCreating)"
| ready: "life (Some LBStatusCreating) (Some LBStatusInactive)"
| serve: "life (Some LBStatusInactive) (Some LBStatusActive)"
| idle: "life (Some LBStatusActive) (Some LBStatusInactive)"
| start: "s \<in> {LBStatusActive, LBStatusInactive} \<Longrightarrow> life (Some LBStatusStopped) (Some s)"
| stop: "s \<in> {LBStatusActive, LBStatusInactive} \<Longrightarrow> life (Some s) (Some LBStatusStopped)"
| mark: "s \<noteq> LBStatusActive \<Longrightarrow> life (Some s) (Some LBStatusDeleting)"
| gone: "s \<noteq> LBStatusActive \<Longrightarrow> life (Some s) None"

declare life.intros [intro]

inductive_cases life_fromE: "life (Some s) t"

definition visible :: "db \<Rightarrow> string \<Rightarrow> lb_status option" where
  "visible d i = map_option lb_status (tbl_get lb_id (d_lbs d) i)"

lemma visible_same: "d_lbs d = d_lbs e \<Longrightarrow> visible d i = visible e i"
  by (simp add: visible_def)

subsection \<open>Transactions that leave the life cycle to the trigger\<close>

definition calm_pair :: "lb_status option \<Rightarrow> lb_status option \<Rightarrow> bool" where
  "calm_pair s t \<longleftrightarrow> s = t \<or> {s, t} = {Some LBStatusInactive, Some LBStatusActive}"

definition calm_dbs :: "db \<Rightarrow> db \<Rightarrow> bool" where
  "calm_dbs d d' \<longleftrightarrow> (\<forall>i. calm_pair (visible d i) (visible d' i))"

definition calm :: "'a tx \<Rightarrow> bool" where
  "calm m \<longleftrightarrow> (\<forall>d x d'. m d = Inr (x, d') \<longrightarrow> calm_dbs d d')"

lemma calm_pair_life: "calm_pair s t \<Longrightarrow> life s t"
  by (auto simp: calm_pair_def doubleton_eq_iff)

lemma calm_pair_trans: "calm_pair s t \<Longrightarrow> calm_pair t u \<Longrightarrow> calm_pair s u"
  by (auto simp: calm_pair_def doubleton_eq_iff)

lemma calmD: "calm m \<Longrightarrow> m d = Inr (x, d') \<Longrightarrow> calm_dbs d d'"
  by (simp add: calm_def)

lemma calm_dbs_life: "calm_dbs d d' \<Longrightarrow> life (visible d i) (visible d' i)"
  by (simp add: calm_dbs_def calm_pair_life)

lemma calm_dbs_trans: "calm_dbs d e \<Longrightarrow> calm_dbs e f \<Longrightarrow> calm_dbs d f"
  unfolding calm_dbs_def using calm_pair_trans by blast

lemma calm_dbs_same: "d_lbs d' = d_lbs d \<Longrightarrow> calm_dbs d d'"
  by (simp add: calm_dbs_def calm_pair_def visible_def)

lemma calm_recompute:
  assumes "d_lbs d1 = d_lbs d"
  shows "calm_dbs d (lb_status_recompute i d1)"
  unfolding calm_dbs_def
proof
  fix j show "calm_pair (visible d j) (visible (lb_status_recompute i d1) j)"
    using assms
    by (auto simp: lb_status_recompute_def recomputed_status_def visible_def calm_pair_def Let_def
        tbl_get_upd doubleton_eq_iff split: option.split)
qed

lemma calm_bind:
  assumes "calm m" and "\<And>x. calm (k x)"
  shows "calm (tx_bind m k)"
  unfolding calm_def
proof (intro allI impI)
  fix d x d' assume "tx_bind m k d = Inr (x, d')"
  then obtain y e where "m d = Inr (y, e)" "k y e = Inr (x, d')" by (auto simp: tx_bind_def)
  with assms show "calm_dbs d d'" by (blast intro: calm_dbs_trans dest: calmD)
qed

lemma calm_return: "calm (tx_return x)"
  by (simp add: calm_def tx_return_def calm_dbs_same)

lemma calm_if: "calm m \<Longrightarrow> calm n \<Longrightarrow> calm (if b then m else n)"
  by simp

lemma calm_ignoring: "calm m \<Longrightarrow> calm (tx_ignoring s m)"
  unfolding calm_def tx_ignoring_def by (fastforce simp: calm_dbs_same split: sum.splits if_splits)

lemma calm_emit:
  "calm (tx_emit (emit_outbox k i p a m))" "calm (tx_emit (emit_fga ev x))"
  by (simp_all add: calm_def tx_emit_def calm_dbs_same)

lemma calm_update_lb:
  assumes "update_lb_returning me i f d = Inr (r', d')" and "tbl_get lb_id (d_lbs d) i = Some r0"
    and "\<And>r. lb_id (f r) = lb_id r" and "lb_status (f r0) = lb_status r0"
  shows "calm_dbs d d'"
  using update_lb_returning_Inr [OF assms(1-3)] assms(2,3,4)
  by (simp add: calm_dbs_def calm_pair_def visible_def tbl_get_upd)

lemma calm_LB_AttachVIP: "calm (LB_AttachVIP i fam a ai o1)"
  unfolding calm_def
  by (auto simp: LB_AttachVIP_def split: option.splits if_splits elim!: calm_update_lb)

lemma calm_LB_Update: "calm (LB_Update lb v)"
  unfolding calm_def
  by (auto simp: LB_Update_def split: option.splits if_splits elim!: calm_update_lb)

lemma calm_LB_MoveProject: "calm (LB_MoveProject i p)"
proof -
  have "calm_dbs d d'" if "LB_MoveProject i p d = Inr (x, d')" for d x d'
    using LB_MoveProject_Inr [OF that] by (auto simp: calm_dbs_def calm_pair_def visible_def tbl_get_upd)
  then show ?thesis by (simp add: calm_def)
qed

lemma calm_listener_statements:
  "insert_listener r d = Inr d' \<Longrightarrow> calm_dbs d d'"
  "update_listener i f d = Inr d' \<Longrightarrow> calm_dbs d d'"
  "calm_dbs d (delete_listener i d)"
  by (auto simp: insert_listener_def update_listener_def delete_listener_def Let_def
      intro: calm_recompute calm_dbs_same split: option.splits if_splits)

lemma calm_update_listener_returning:
  "update_listener_returning me i f d = Inr (r, d') \<Longrightarrow> calm_dbs d d'"
  by (auto simp: update_listener_returning_def split: option.splits intro: calm_listener_statements)

lemma calm_attached_statements:
  "insert_attached a d = Inr d' \<Longrightarrow> calm_dbs d d'" "delete_attached i g d = Inr d' \<Longrightarrow> calm_dbs d d'"
  by (auto simp: insert_attached_def delete_attached_def intro: calm_recompute calm_dbs_same split: option.splits)

lemma calm_listeners:
  "calm (Listener_Insert l)" "calm (Listener_Update l v)" "calm (Listener_SetStatusCAS i a b)"
  "calm (Listener_Delete i)" "calm (Attached_Attach i g n)" "calm (Attached_Detach i g)"
  unfolding calm_def
  by (auto simp: Listener_Insert_def Listener_Update_def Listener_SetStatusCAS_def Listener_Delete_def
      Attached_Attach_def Attached_Detach_def attach_zero_rows_def Attached_Get_def Let_def calm_dbs_same
      split: option.splits if_splits
      intro: calm_listener_statements calm_update_listener_returning calm_attached_statements)

lemma TG_AddTargets_lbs: "TG_AddTargets g ts d = Inr (n, d') \<Longrightarrow> d_lbs d' = d_lbs d"
  by (auto simp: TG_AddTargets_def split: option.splits if_splits dest!: add_targets_loop_tables)

lemma calm_groups:
  "calm (TG_Insert g ids)" "calm (TG_Update g v)" "calm (TG_MoveProject i p)" "calm (TG_Delete i)"
  "calm (TG_AddTargets i ts)" "calm (TG_RemoveTargetsMarkDraining i us)"
  unfolding calm_def
  by (auto simp: TG_Insert_def TG_Update_def TG_MoveProject_def TG_Delete_def TG_RemoveTargetsMarkDraining_def
      insert_tg_def update_tg_returning_def update_tg_def delete_tg_def Let_def
      split: option.splits if_splits intro!: calm_dbs_same dest!: TG_AddTargets_lbs)

lemmas calm_parts = calm_bind calm_return calm_if calm_ignoring calm_emit calm_LB_AttachVIP calm_LB_Update
  calm_LB_MoveProject calm_listeners calm_groups

lemma calm_writes:
  "calm (attach_tx i g p)" "calm (detach_tx i g p)" "calm (move_tx i p q)" "calm (update_tx lb v b)"
  "calm (create_listener_tx l lb0 s)" "calm (update_listener_tx l v b)"
  "calm (mark_listener_tx cur)" "calm (delete_listener_tx cur)"
  "calm (create_tg_tx tg ids pr)" "calm (update_tg_tx tg v b)" "calm (delete_tg_tx i p)"
  "calm (move_tg_tx i p q)" "calm (add_targets_tx i row ts)" "calm (remove_targets_tx i row ids)"
  unfolding attach_tx_def detach_tx_def move_tx_def update_tx_def create_listener_tx_def
    update_listener_tx_def mark_listener_tx_def delete_listener_tx_def create_tg_tx_def update_tg_tx_def
    delete_tg_tx_def move_tg_tx_def add_targets_tx_def remove_targets_tx_def attach_event_def updated_event_def
    listener_event_def parent_event_def tg_event_def targets_event_def
  by (intro calm_parts)+

lemma calm_drain: "calm (drain_tx visit)"
  by (auto simp: calm_def drain_tx_def Let_def fold_drain_event_tables intro!: calm_dbs_same)

lemma calm_isolate: "calm (isolate_tx lb)"
  unfolding calm_def isolate_tx_def tx_stmt_def
  by (auto simp: update_lb_def Let_def calm_dbs_def calm_pair_def visible_def tbl_get_upd split: option.splits)

subsection \<open>Transactions that move one load balancer\<close>

definition moves :: "string \<Rightarrow> lb_status option \<Rightarrow> db \<Rightarrow> db \<Rightarrow> bool" where
  "moves i t d d' \<longleftrightarrow> visible d' i = t \<and> (\<forall>j. j \<noteq> i \<longrightarrow> visible d' j = visible d j)"

lemma moves_life: "moves i t d d' \<Longrightarrow> life (visible d i) t \<Longrightarrow> life (visible d j) (visible d' j)"
  by (cases "j = i") (auto simp: moves_def)

lemma moves_trans: "moves i s d e \<Longrightarrow> moves i t e d' \<Longrightarrow> moves i t d d'"
  by (simp add: moves_def)

lemma moves_after: "moves i s d e \<Longrightarrow> d_lbs d' = d_lbs e \<Longrightarrow> moves i s d d'"
  by (simp add: moves_def visible_def)

lemma SetStatus_moves:
  "LB_SetStatusCAS i a b d = Inr (r, d') \<Longrightarrow> visible d i = Some a \<and> moves i (Some b) d d'"
  using lb_cas.moves_status [of i a b d r d'] lb_cas.other_rows [of i a b d r d']
  by (auto simp: moves_def visible_def)

lemma MarkDeleting_moves:
  assumes "LB_MarkDeleting i d = Inr (r, d')"
  shows "visible d i \<noteq> None \<and> \<not> has_listener d i \<and> moves i (Some LBStatusDeleting) d d'"
  using LB_MarkDeleting_Inr [OF assms] by (auto simp: lb_written_def moves_def visible_def tbl_get_upd)

lemma delete_lb_moves: "delete_lb i d = Inr d' \<Longrightarrow> \<not> has_listener d i \<and> moves i None d d'"
  by (auto simp: delete_lb_def all_ok_def moves_def visible_def tbl_get_del)

lemma LB_Insert_moves:
  assumes "LB_Insert lb d = Inr (r, d')"
  shows "visible d (lb_id lb) = None \<and> moves (lb_id lb) (Some (lb_status lb)) d d'"
proof -
  have i: "insert_lb (new_lb_row d lb) d = Inr d'" using assms by (auto simp: LB_Insert_def)
  have f: "lb_id (new_lb_row d lb) = lb_id lb" "lb_status (new_lb_row d lb) = lb_status lb"
    by (simp_all add: new_lb_row_def load_balancer.defs lb_row.defs)
  have "tbl_get lb_id (d_lbs d) (lb_id lb) = None"
    using i f by (auto simp: insert_lb_def lb_uniques_apart tbl_get_None)
  with i f show ?thesis by (auto simp: insert_lb_def moves_def visible_def tbl_get_append split: option.split)
qed

text \<open>An ACTIVE load balancer has listeners, so nothing deletes it or marks it.\<close>

lemma active_has_listener: "db_ok d \<Longrightarrow> visible d i = Some LBStatusActive \<Longrightarrow> has_listener d i"
  by (auto simp: db_ok_def served_except_def visible_def dest!: tbl_get_Some_in)

lemma leaves:
  assumes "db_ok d" and "\<not> has_listener d i" and "moves i t d d'"
    and "t = None \<or> t = Some LBStatusDeleting" and "visible d i = None \<longrightarrow> t = None"
  shows "life (visible d j) (visible d' j)"
proof (rule moves_life [OF assms(3)])
  show "life (visible d i) t"
    using active_has_listener [OF assms(1), of i] assms(2,4,5) by (cases "visible d i") auto
qed

lemma start_moves:
  assumes "start_tx i a d = Inr (r, d')"
  shows "visible d i = Some a \<and> (\<exists>s \<in> {LBStatusActive, LBStatusInactive}. moves i (Some s) d d')"
proof -
  from start_tx_Inr [OF assms] obtain d1 d2 r1 s where c: "LB_SetStatusCAS i a LBStatusStarting d = Inr (r1, d1)"
      "LB_SetStatusCAS i LBStatusStarting s d1 = Inr (r, d2)"
    and s: "s \<in> {LBStatusActive, LBStatusInactive}" and d': "d_lbs d' = d_lbs d2" by auto
  then show ?thesis using SetStatus_moves [OF c(1)] SetStatus_moves [OF c(2)]
    by (blast intro: moves_trans moves_after)
qed

lemma stop_moves:
  assumes "stop_tx i a d = Inr (r, d')"
  shows "visible d i = Some a \<and> moves i (Some LBStatusStopped) d d'"
proof -
  from assms obtain d1 d2 r1 r2 where c: "LB_SetStatusCAS i a LBStatusStopping d = Inr (r1, d1)"
      "LB_SetStatusCAS i LBStatusStopping LBStatusStopped d1 = Inr (r2, d2)" and d': "d_lbs d' = d_lbs d2"
    by (auto simp: stop_tx_def tx_bind_def tx_map_err_def tx_emit_def tx_return_def updated_event_def)
  then show ?thesis using SetStatus_moves [OF c(1)] SetStatus_moves [OF c(2)]
    by (blast intro: moves_trans moves_after)
qed

lemma finalize_moves:
  assumes "finalize_tx lb p d = Inr (r, d')"
  shows "visible d (lb_id lb) = Some LBStatusCreating \<and> moves (lb_id lb) (Some LBStatusInactive) d d'"
proof -
  from assms obtain d1 r1 where c: "LB_SetStatusCAS (lb_id lb) LBStatusCreating LBStatusInactive d = Inr (r1, d1)"
    and d': "d_lbs d' = d_lbs d1"
    by (auto simp: finalize_tx_def tx_bind_def tx_emit_def tx_return_def)
  then show ?thesis using SetStatus_moves [OF c] by (blast intro: moves_after)
qed

lemma delete_tx_moves:
  "lb_delete_tx i p d = Inr (u, d') \<Longrightarrow> \<not> has_listener d i \<and> moves i None d d'"
  "LB_Delete i d = Inr (v, d') \<Longrightarrow> \<not> has_listener d i \<and> moves i None d d'"
  "reconcile_tx lb d = Inr (v', d') \<Longrightarrow> \<not> has_listener d (lb_id lb) \<and> moves (lb_id lb) None d d'"
  by (auto simp: lb_delete_tx_def reconcile_tx_def emitReconcileFinalize_def LB_Delete_def tx_bind_def tx_emit_def
      tx_return_def tx_stmt_def split: option.splits if_splits dest!: delete_lb_moves intro: moves_after)

subsection \<open>The refinement\<close>

lemma commits_life: "commits d d' \<Longrightarrow> db_ok d \<Longrightarrow> life (visible d i) (visible d' i)"
proof (induction rule: commits.induct)
  case (handle lb d r d')
  with LB_Insert_moves [OF handle(1)] show ?case by (intro moves_life [of "lb_id lb" "Some LBStatusCreating"]) auto
next
  case (vip j fam a ai o1 d r d')
  then show ?case by (intro calm_dbs_life calmD [OF calm_LB_AttachVIP])
next
  case (finalize lb p d r d')
  with finalize_moves [OF finalize(1)] show ?case by (intro moves_life [of "lb_id lb" "Some LBStatusInactive"]) auto
next
  case (unhandle j d u d')
  with delete_tx_moves(2) [OF unhandle(1)] show ?case by (intro leaves [of d j None]) auto
next
  case (mark j d r d')
  with MarkDeleting_moves [OF mark(1)] show ?case by (intro leaves [of d j "Some LBStatusDeleting"]) auto
next
  case (lb_delete j p d u d')
  with delete_tx_moves(1) [OF lb_delete(1)] show ?case by (intro leaves [of d j None]) auto
next
  case (start j a d r d')
  from start_moves [OF start(1)] obtain s where s: "s \<in> {LBStatusActive, LBStatusInactive}"
    "visible d j = Some a" "moves j (Some s) d d'" by blast
  from s(3) show ?case by (rule moves_life) (use s(1,2) start(2) in auto)
next
  case (stop j a d r d')
  with stop_moves [OF stop(1)] show ?case by (intro moves_life [of j "Some LBStatusStopped"]) auto
next
  case (reconcile lbr d u d')
  with delete_tx_moves(3) [OF reconcile(1)] show ?case by (intro leaves [of d "lb_id lbr" None]) auto
next
  case (event k j p a m d u d')
  then show ?case by (intro calm_dbs_life calmD [OF calm_emit(1)])
next
  case (isolate lbr d u d')
  then show ?case by (intro calm_dbs_life calmD [OF calm_isolate])
next
  case (drain visit d nm d')
  then show ?case by (intro calm_dbs_life calmD [OF calm_drain])
qed (rule calm_dbs_life, erule calm_writes [THEN calmD])+

lemma visible_step_start: "visible (d \<lparr> d_tx := n \<rparr>) i = visible d i" "visible (d \<lparr> d_tx := n, d_now := t \<rparr>) i = visible d i"
  by (simp_all add: visible_def)

lemma step_life:
  assumes "db_ok d" and "sys_step d d'"
  shows "life (visible d i) (visible d' i)"
  using assms(2)
proof (cases rule: sys_step.cases)
  case commit
  have "db_ok (d \<lparr> d_tx := Suc (d_tx d) \<rparr>)"
    using assms(1) db_ok_core [of "d \<lparr> d_tx := Suc (d_tx d) \<rparr>" d] by (simp add: core_def)
  from commits_life [OF commit this] show ?thesis by (simp add: visible_step_start)
next
  case (time n)
  then show ?thesis by (auto simp: visible_step_start)
qed

text \<open>No committed state shows an intermediate status.\<close>

lemma life_settled:
  "life s t \<Longrightarrow> s \<notin> {Some LBStatusStarting, Some LBStatusStopping} \<Longrightarrow> t \<notin> {Some LBStatusStarting, Some LBStatusStopping}"
  by (induction rule: life.induct) auto

lemma reachable_settled:
  "reachable d \<Longrightarrow> visible d i \<notin> {Some LBStatusStarting, Some LBStatusStopping}"
proof (induction rule: reachable.induct)
  case start
  show ?case by (simp add: visible_def empty_db_def)
next
  case (step d d')
  from life_settled [OF step_life [OF reachable_db_ok [OF step(1)] step(2)] step(3)] show ?case .
qed

end
