(* ===== verification/Handlers.thy ===== *)
theory Handlers
  imports System
begin

text \<open>
  The service as it runs: the handlers of the three resources (\<^verbatim>\<open>handler.go\<close> in
  \<^verbatim>\<open>api/loadbalancer\<close>, \<^verbatim>\<open>api/listener\<close> and \<^verbatim>\<open>api/targetgroup\<close>), each mutating call being the
  synchronous part of its use-case followed by its worker, and the ticks of the two background
  runners. Identifiers, the failure of the operation's row and the visiting orders are arguments;
  an operation keeps its outcome, which nothing here depends on.
\<close>

record 'v env =
  en_peers :: peers
  en_targets :: target_peers
  en_client :: "'v address_client option"
  en_principal :: principal
  en_visit :: visit_order

datatype lb_rpc =
  LbCreate string create_request
| LbUpdate update_request
| LbDelete string
| LbStart string
| LbStop string
| LbMove string string
| LbAttach string "string option"
| LbDetach string string
| LbTargetStates int string string

datatype listener_rpc =
  LsCreate string create_listener_request
| LsUpdate update_listener_request
| LsDelete string

datatype tg_rpc =
  TgCreate string "string list" create_tg_request
| TgUpdate update_tg_request
| TgDelete string
| TgMove string string
| TgAddTargets string "pb_target option list" "string list"
| TgRemoveTargets string "pb_target option list"

definition finish :: "('v, 'a) saga \<Rightarrow> ('v, unit) saga" where
  "finish m = saga_bind m (\<lambda>_. saga_return ())"

fun lb_handler :: "'v env \<Rightarrow> err option \<Rightarrow> lb_rpc \<Rightarrow> ('v, unit) saga" where
  "lb_handler en op (LbCreate i rq) =
     saga_bind (Create_Execute (en_peers en) i op rq) (\<lambda>(lb, specs).
     finish (doCreate (en_visit en) (en_peers en) (en_client en) lb (en_principal en) specs))"
| "lb_handler en op (LbUpdate rq) =
     saga_bind (Update_Execute (en_peers en) op rq) (\<lambda>(lb, v, b). finish (doUpdate lb v b))"
| "lb_handler en op (LbDelete i) =
     saga_bind (Delete_Execute (en_peers en) op i) (\<lambda>(i, project). doDelete (en_client en) i project)"
| "lb_handler en op (LbStart i) =
     saga_bind (Start_Execute (en_peers en) op i) (\<lambda>(i, s). finish (doStart i s))"
| "lb_handler en op (LbStop i) =
     saga_bind (Stop_Execute (en_peers en) op i) (\<lambda>(i, s). finish (doStop i s))"
| "lb_handler en op (LbMove i dst) =
     saga_bind (Move_Execute (en_peers en) (en_principal en) op i dst) (\<lambda>(i, src, dst). finish (doMove i src dst))"
| "lb_handler en op (LbAttach i a) =
     saga_bind (Attach_Execute (en_peers en) (en_principal en) op i a) (\<lambda>(i, g, project). finish (doAttach i g project))"
| "lb_handler en op (LbDetach i g) =
     saga_bind (Detach_Execute (en_peers en) op i g) (\<lambda>(i, g, project). finish (doDetach i g project))"
| "lb_handler en op (LbTargetStates now i g) =
     finish (GetTargetStates_Execute (en_peers en) (en_principal en) now i g)"

fun listener_handler :: "'v env \<Rightarrow> err option \<Rightarrow> listener_rpc \<Rightarrow> ('v, unit) saga" where
  "listener_handler en op (LsCreate i rq) =
     saga_bind (CreateListener_Run (en_peers en) i op rq) (\<lambda>(l, lb).
     finish (doCreateListener l lb (en_principal en)))"
| "listener_handler en op (LsUpdate rq) =
     saga_bind (UpdateListener_Run (en_peers en) op rq) (\<lambda>(l, v, b). finish (doUpdateListener l v b))"
| "listener_handler en op (LsDelete i) =
     saga_bind (DeleteListener_Run (en_peers en) op i) (\<lambda>cur. doDeleteListener (en_client en) cur)"

fun tg_handler :: "'v env \<Rightarrow> err option \<Rightarrow> tg_rpc \<Rightarrow> ('v, unit) saga" where
  "tg_handler en op (TgCreate i ids rq) =
     saga_bind (CreateTG_Execute (en_peers en) i op rq) (\<lambda>tg.
     finish (doCreateTG (en_peers en) tg ids (en_principal en)))"
| "tg_handler en op (TgUpdate rq) =
     saga_bind (UpdateTG_Execute (en_peers en) op rq) (\<lambda>(tg, v, b). finish (doUpdateTG tg v b))"
| "tg_handler en op (TgDelete i) =
     saga_bind (DeleteTG_Execute (en_peers en) op i) (\<lambda>(i, project). doDeleteTG i project)"
| "tg_handler en op (TgMove i dst) =
     saga_bind (MoveTG_Execute (en_peers en) (en_principal en) op i dst) (\<lambda>(i, src, dst). finish (doMoveTG i src dst))"
| "tg_handler en op (TgAddTargets i pbs ids) =
     saga_bind (AddTargets_Execute (en_peers en) op i pbs) (\<lambda>(i, ts). finish (doAdd (en_targets en) i ts ids))"
| "tg_handler en op (TgRemoveTargets i pbs) =
     saga_bind (RemoveTargets_Execute (en_peers en) op i pbs) (\<lambda>(i, ts). finish (doRemove i ts))"

datatype activity =
  LbCall "err option" lb_rpc
| ListenerCall "err option" listener_rpc
| TgCall "err option" tg_rpc
| FreeIpTick int "string \<Rightarrow> bool"
| DrainTick "string list \<Rightarrow> string list"

fun perform :: "'v env \<Rightarrow> activity \<Rightarrow> 'v world \<Rightarrow> 'v world" where
  "perform en (LbCall op c) w = snd (lb_handler en op c w)"
| "perform en (ListenerCall op c) w = snd (listener_handler en op c w)"
| "perform en (TgCall op c) w = snd (tg_handler en op c w)"
| "perform en (FreeIpTick age locked) w = freeip_tick (en_client en) age locked w"
| "perform en (DrainTick visit) w = snd (drainOnce visit w)"

end
