(* ===== verification/World_Invariants.thy ===== *)
theory World_Invariants
  imports Handlers
begin

text \<open>
  What the workers keep of the world, whatever the calls answer and whatever fails: the contract of
  a predicate \<open>P\<close> on worlds and a relation \<open>S\<close> between the databases before and after a transaction.
  A predicate that survives the start of a transaction, the commit of one that stays within \<open>S\<close>, and
  a remote call, survives every worker whose transactions stay within \<open>S\<close>.
\<close>

definition preserves :: "('v world \<Rightarrow> bool) \<Rightarrow> ('v, 'a) saga \<Rightarrow> bool" where
  "preserves P m \<longleftrightarrow> (\<forall>w. P w \<longrightarrow> P (snd (m w)))"

definition within :: "(db \<Rightarrow> db \<Rightarrow> bool) \<Rightarrow> 'a tx \<Rightarrow> bool" where
  "within S m \<longleftrightarrow> (\<forall>d x d'. m d = Inr (x, d') \<longrightarrow> S d d')"

lemma withinD: "within S m \<Longrightarrow> m d = Inr (x, d') \<Longrightarrow> S d d'"
  unfolding within_def by blast

lemma within_then: "within S m \<Longrightarrow> within S (tx_bind m (\<lambda>_. tx_return y))"
  by (auto simp: within_def tx_bind_def tx_return_def)

lemma preserves_snd: "preserves P m \<Longrightarrow> P w \<Longrightarrow> P (snd (m w))"
  by (simp add: preserves_def)

subsection \<open>What the synchronous parts hand to the workers\<close>

text \<open>The identifiers of the objects are those of the request (or the new one).\<close>

lemma Create_Execute_yields:
  "Create_Execute p i op rq w = (Inr (lb, specs), w') \<Longrightarrow> lb_id lb = i \<and> lb_project lb = cr_project rq"
  by (auto simp: Create_Execute_def saga_Inr Let_def requested_lb_def NewLoadBalancer_def
      split: if_splits option.splits)

lemma Update_Execute_yields: "Update_Execute p op rq w = (Inr (lb, v, b), w') \<Longrightarrow> lb_id lb = ur_id rq"
  by (auto simp: Update_Execute_def saga_Inr saga_return_def applyUpdateMask_def Let_def LB_Get_Inr
      load_balancer.truncate_def dest!: reading_Inr tbl_get_key)

lemma Delete_Execute_yields: "Delete_Execute p op i w = (Inr (j, pj), w') \<Longrightarrow> j = i"
  by (auto simp: Delete_Execute_def saga_Inr saga_return_def saga_fail_def split: if_splits)

lemma Start_Execute_yields:
  "Start_Execute p op i w = (Inr (j, s), w') \<Longrightarrow> j = i \<and> s \<in> {LBStatusStopped, LBStatusInactive}"
  by (auto simp: Start_Execute_def saga_Inr saga_return_def saga_fail_def split: if_splits)

lemma Stop_Execute_yields:
  "Stop_Execute p op i w = (Inr (j, s), w') \<Longrightarrow> j = i \<and> s \<in> {LBStatusActive, LBStatusInactive}"
  by (auto simp: Stop_Execute_def saga_Inr saga_return_def saga_fail_def split: if_splits)

lemma Move_Execute_yields: "Move_Execute p pr op i dst w = (Inr (j, a, b), w') \<Longrightarrow> j = i \<and> b = dst"
  by (auto simp: Move_Execute_def saga_Inr saga_return_def saga_fail_def split: if_splits)

lemma Attach_Execute_yields: "Attach_Execute p pr op i a w = (Inr (j, g, pj), w') \<Longrightarrow> j = i"
  by (auto simp: Attach_Execute_def saga_Inr saga_return_def saga_fail_def Let_def split: if_splits)

lemma Detach_Execute_yields: "Detach_Execute p op i g w = (Inr (j, h, pj), w') \<Longrightarrow> j = i"
  by (auto simp: Detach_Execute_def saga_Inr saga_return_def saga_fail_def split: if_splits)

lemma CreateListener_Run_yields:
  "CreateListener_Run p i op rq w = (Inr (l, lb), w') \<Longrightarrow> ls_id l = i \<and> ls_lb l = lr_lb rq"
  by (auto simp: CreateListener_Run_def saga_Inr saga_return_def saga_fail_def Let_def fetchParentLB_def
      requested_listener_def NewListener_def LB_Get_Inr load_balancer.truncate_def
      split: if_splits dest!: reading_Inr tbl_get_key)

text \<open>Steps of a mask that leave a component alone.\<close>

lemma mask_step:
  "(if b then attempt r (\<lambda>_. Inr y) else Inr x) = Inr z \<Longrightarrow> h y = h x \<Longrightarrow> h z = h x"
  "(if b then attempt r' (\<lambda>a. Inr (y' a)) else Inr x) = Inr z \<Longrightarrow> (\<And>a. h (y' a) = h x) \<Longrightarrow> h z = h x"
  by (auto split: if_splits)

lemma apply_listener_mask_id:
  assumes "apply_listener_mask cur rq = Inr (l, g)"
  shows "ls_id l = ls_id cur"
proof -
  from assms obtain n1 n2 n3 where
    1: "(if applies (lu_mask rq) ''name'' then attempt (validated (LbName_Validate (lu_name rq)))
        (\<lambda>_. Inr (cur \<lparr> ls_name := lu_name rq \<rparr>)) else Inr cur) = Inr n1" and
    2: "(if applies (lu_mask rq) ''description'' then attempt (validated (LbDescription_Validate (lu_description rq)))
        (\<lambda>_. Inr (n1 \<lparr> ls_description := lu_description rq \<rparr>)) else Inr n1) = Inr n2" and
    3: "(if applies (lu_mask rq) ''labels'' then attempt (validated (ValidateLabels (LabelsFromMap (lu_labels rq))))
        (\<lambda>_. Inr (n2 \<lparr> ls_labels := LabelsFromMap (lu_labels rq) \<rparr>)) else Inr n2) = Inr n3" and
    4: "ls_id l = ls_id n3"
    unfolding apply_listener_mask_def Let_def by (simp only: attempt_eq_Inr) fastforce
  from mask_step(1) [OF 1, of ls_id] mask_step(1) [OF 2, of ls_id] mask_step(1) [OF 3, of ls_id] 4
  show ?thesis by simp
qed
lemma UpdateListener_Run_yields: "UpdateListener_Run p op rq w = (Inr (l, v, b), w') \<Longrightarrow> ls_id l = lu_id rq"
  by (auto simp: UpdateListener_Run_def saga_Inr saga_return_def Listener_Get_Inr listener.truncate_def
      dest!: reading_Inr tbl_get_key apply_listener_mask_id)

lemma DeleteListener_Run_yields: "DeleteListener_Run p op i w = (Inr cur, w') \<Longrightarrow> ls_id cur = i"
  by (auto simp: DeleteListener_Run_def saga_Inr saga_return_def Listener_Get_Inr dest!: reading_Inr tbl_get_key)

lemma requested_tg_id: "tg_id (requested_tg i rq hc) = i \<and> tg_project (requested_tg i rq hc) = cg_project rq"
  by (simp add: requested_tg_def NewTargetGroup_def Let_def)

lemma CreateTG_Execute_yields:
  "CreateTG_Execute p i op rq w = (Inr tg, w') \<Longrightarrow> tg_id tg = i \<and> tg_project tg = cg_project rq"
  by (cases "cg_health rq")
     (auto simp: CreateTG_Execute_def saga_Inr saga_return_def saga_fail_def Let_def requested_tg_id)
lemma applyUpdateMaskTG_id:
  assumes "applyUpdateMaskTG cur rq = Inr tg"
  shows "tg_id tg = tg_id cur"
proof -
  define out where "out =
    (let ap = applies (ug_mask rq);
         out = if ap ''name'' then cur \<lparr> tg_name := ug_name rq \<rparr> else cur;
         out = if ap ''description'' then out \<lparr> tg_description := ug_description rq \<rparr> else out
     in if ap ''labels'' then out \<lparr> tg_labels := LabelsFromMap (ug_labels rq) \<rparr> else out)"
  have gen: "attempt (if h then attempt r (\<lambda>hc. Inr (x \<lparr> tg_health := hc \<rparr>)) else Inr x)
      (\<lambda>x. Inr (if s then (if d then x \<lparr> tg_dereg := dv \<rparr> else x) \<lparr> tg_slow := sv \<rparr>
               else if d then x \<lparr> tg_dereg := dv \<rparr> else x)) = Inr tg \<Longrightarrow> tg_id tg = tg_id x" for h r x s d dv sv
    by (cases h; cases s; cases d) auto
  have "tg_id tg = tg_id out"
    using assms unfolding applyUpdateMaskTG_def Let_def out_def by (rule gen)
  then show ?thesis by (simp add: out_def Let_def)
qed
lemma UpdateTG_Execute_yields:
  assumes "UpdateTG_Execute p op rq w = (Inr (tg, v, b), w')"
  shows "tg_id tg = ug_id rq"
proof -
  obtain cur w1 where g: "reading (TG_Get (ug_id rq)) w = (Inr cur, w1)"
    and m: "mapping_err MapDomainErr (applyUpdateMaskTG (target_group.truncate cur) rq) = Inr tg"
    using assms by (auto simp: UpdateTG_Execute_def saga_Inr saga_return_def)
  have "tg_id cur = ug_id rq"
    using reading_Inr [OF g] by (auto simp: TG_Get_def split: option.splits dest: tbl_get_key)
  moreover have "tg_id tg = tg_id (target_group.truncate cur)" by (rule applyUpdateMaskTG_id) (use m in simp)
  ultimately show ?thesis by (simp add: target_group.truncate_def)
qed
lemma DeleteTG_Execute_yields: "DeleteTG_Execute p op i w = (Inr (j, pj), w') \<Longrightarrow> j = i"
  by (auto simp: DeleteTG_Execute_def saga_Inr saga_return_def saga_fail_def split: if_splits)

lemma MoveTG_Execute_yields: "MoveTG_Execute p pr op i dst w = (Inr (j, a, b), w') \<Longrightarrow> j = i \<and> b = dst"
  by (auto simp: MoveTG_Execute_def saga_Inr saga_return_def saga_fail_def split: if_splits)

lemma targets_Execute_yields:
  "AddTargets_Execute p op i pbs w = (Inr (j, ts), w') \<Longrightarrow> j = i"
  "RemoveTargets_Execute p op i pbs w = (Inr (j, ts), w') \<Longrightarrow> j = i"
  by (auto simp: AddTargets_Execute_def RemoveTargets_Execute_def saga_Inr saga_return_def saga_fail_def Let_def
      split: if_splits)

subsection \<open>The transactions of a call\<close>

fun lb_txs_within :: "(db \<Rightarrow> db \<Rightarrow> bool) \<Rightarrow> principal \<Rightarrow> lb_rpc \<Rightarrow> bool" where
  "lb_txs_within S pr (LbCreate i rq) \<longleftrightarrow>
     (\<forall>lb. lb_id lb = i \<longrightarrow> lb_project lb = cr_project rq \<longrightarrow> lb_status lb = LBStatusCreating \<longrightarrow>
        within S (LB_Insert lb) \<and> within S (finalize_tx lb pr))
     \<and> (\<forall>f a ai o1. within S (LB_AttachVIP i f a ai o1)) \<and> within S (LB_Delete i)"
| "lb_txs_within S pr (LbUpdate rq) \<longleftrightarrow> (\<forall>lb v b. lb_id lb = ur_id rq \<longrightarrow> within S (update_tx lb v b))"
| "lb_txs_within S pr (LbDelete i) \<longleftrightarrow> within S (LB_MarkDeleting i) \<and> (\<forall>p. within S (lb_delete_tx i p))"
| "lb_txs_within S pr (LbStart i) \<longleftrightarrow> (\<forall>s \<in> {LBStatusStopped, LBStatusInactive}. within S (start_tx i s))"
| "lb_txs_within S pr (LbStop i) \<longleftrightarrow> (\<forall>s \<in> {LBStatusActive, LBStatusInactive}. within S (stop_tx i s))"
| "lb_txs_within S pr (LbMove i dst) \<longleftrightarrow> (\<forall>src. within S (move_tx i src dst))"
| "lb_txs_within S pr (LbAttach i a) \<longleftrightarrow> (\<forall>g p. within S (attach_tx i g p))"
| "lb_txs_within S pr (LbDetach i g) \<longleftrightarrow> (\<forall>g p. within S (detach_tx i g p))"
| "lb_txs_within S pr (LbTargetStates now i g) \<longleftrightarrow> True"

fun listener_txs_within :: "(db \<Rightarrow> db \<Rightarrow> bool) \<Rightarrow> listener_rpc \<Rightarrow> bool" where
  "listener_txs_within S (LsCreate i rq) \<longleftrightarrow>
     (\<forall>l lb s. ls_id l = i \<longrightarrow> ls_lb l = lr_lb rq \<longrightarrow> within S (create_listener_tx l lb s))"
| "listener_txs_within S (LsUpdate rq) \<longleftrightarrow> (\<forall>l v b. ls_id l = lu_id rq \<longrightarrow> within S (update_listener_tx l v b))"
| "listener_txs_within S (LsDelete i) \<longleftrightarrow>
     (\<forall>cur. ls_id cur = i \<longrightarrow> within S (mark_listener_tx cur) \<and> within S (delete_listener_tx cur))
     \<and> (\<forall>k j p act m. within S (tx_emit (emit_outbox k j p act m)))"

fun tg_txs_within :: "(db \<Rightarrow> db \<Rightarrow> bool) \<Rightarrow> principal \<Rightarrow> tg_rpc \<Rightarrow> bool" where
  "tg_txs_within S pr (TgCreate i ids rq) \<longleftrightarrow>
     (\<forall>tg. tg_id tg = i \<longrightarrow> tg_project tg = cg_project rq \<longrightarrow> within S (create_tg_tx tg ids pr))"
| "tg_txs_within S pr (TgUpdate rq) \<longleftrightarrow> (\<forall>tg v b. tg_id tg = ug_id rq \<longrightarrow> within S (update_tg_tx tg v b))"
| "tg_txs_within S pr (TgDelete i) \<longleftrightarrow> (\<forall>p. within S (delete_tg_tx i p))"
| "tg_txs_within S pr (TgMove i dst) \<longleftrightarrow> (\<forall>src. within S (move_tg_tx i src dst))"
| "tg_txs_within S pr (TgAddTargets i pbs ids) \<longleftrightarrow> (\<forall>row ts. within S (add_targets_tx i row ts))"
| "tg_txs_within S pr (TgRemoveTargets i pbs) \<longleftrightarrow> (\<forall>row us. within S (remove_targets_tx i row us))"

locale kept_by_workers =
  fixes P :: "'v world \<Rightarrow> bool" and S :: "db \<Rightarrow> db \<Rightarrow> bool"
  assumes idle: "P w \<Longrightarrow> P (settle w (begin_tx w))"
    and commit: "P w \<Longrightarrow> S (begin_tx w) d' \<Longrightarrow> P (settle w d')"
    and remote: "P w \<Longrightarrow> P (w \<lparr> w_vpc := v, w_calls := cs \<rparr>)"
begin

lemma keptD: "preserves P m \<Longrightarrow> P w \<Longrightarrow> m w = (r, w') \<Longrightarrow> P w'"
  unfolding preserves_def by (metis snd_conv)

lemma kept_snd: "preserves P m \<Longrightarrow> P w \<Longrightarrow> P (snd (m w))"
  by (simp add: preserves_def)

lemma keptI: "(\<And>w r w'. P w \<Longrightarrow> m w = (r, w') \<Longrightarrow> P w') \<Longrightarrow> preserves P m"
  unfolding preserves_def by (metis prod.collapse)

lemma kept_run_tx:
  assumes "within S body"
  shows "preserves P (run_tx body)"
proof (rule keptI)
  fix w r w' assume w: "P w" and "run_tx body w = (r, w')"
  from run_tx_cases [OF this(2)] show "P w'"
    using idle [OF w] commit [OF w withinD [OF assms]] by auto
qed

lemma kept_run_read: "preserves P (run_read body)"
  by (auto simp: preserves_def run_read_def Let_def idle split: fault.splits)

lemma kept_bind:
  assumes "preserves P m" and "\<And>x w w'. m w = (Inr x, w') \<Longrightarrow> preserves P (k x)"
  shows "preserves P (saga_bind m k)"
proof (rule keptI)
  fix w r w' assume w: "P w" and b: "saga_bind m k w = (r, w')"
  obtain s w1 where m: "m w = (s, w1)" by fastforce
  have w1: "P w1" by (rule keptD [OF assms(1) w m])
  show "P w'"
  proof (cases s)
    case (Inr x)
    with keptD [OF assms(2) w1] m b show ?thesis by (auto simp: saga_bind_def)
  qed (use b m w1 in \<open>simp add: saga_bind_def\<close>)
qed

lemma kept_map_err: "preserves P m \<Longrightarrow> preserves P (saga_map_err f m)"
  by (rule keptI) (auto simp: saga_map_err_def dest: keptD split: prod.splits)

lemma kept_pure: "preserves P (saga_return x)" "preserves P (saga_fail e)" "preserves P (saga_check r)"
  by (simp_all add: preserves_def saga_return_def saga_fail_def saga_check_def)

lemma kept_vpc: "preserves P (vpc_do c shown f)"
  by (auto simp: preserves_def vpc_do_def remote split: prod.splits)

lemma kept_if: "(b \<Longrightarrow> preserves P m) \<Longrightarrow> (\<not> b \<Longrightarrow> preserves P n) \<Longrightarrow> preserves P (if b then m else n)"
  by simp

lemma kept_reading: "preserves P (reading body)"
  by (simp add: reading_def kept_map_err kept_run_read)

lemma kept_writing: "within S body \<Longrightarrow> preserves P (writing body)"
  by (simp add: writing_def kept_map_err kept_run_tx)

lemma kept_insert_op: "preserves P (insert_op op)"
  by (simp add: insert_op_def kept_pure)

lemma kept_calls:
  "preserves P (call_free c a)" "preserves P (call_clear c a)" "preserves P (call_attach c rq)"
  "preserves P (call_internal c f ri)" "preserves P (call_external c f re)"
  by (simp_all add: call_free_def call_clear_def call_attach_def call_internal_def call_external_def kept_vpc)

lemma kept_let: "preserves P (f x) \<Longrightarrow> preserves P (Let x f)" by simp

lemma kept_option: "(x = None \<Longrightarrow> preserves P n) \<Longrightarrow> (\<And>y. x = Some y \<Longrightarrow> preserves P (s y)) \<Longrightarrow>
    preserves P (case x of None \<Rightarrow> n | Some y \<Rightarrow> s y)"
  by (cases x) simp_all

lemma kept_pair: "(\<And>a b. x = (a, b) \<Longrightarrow> preserves P (f a b)) \<Longrightarrow> preserves P (case x of (a, b) \<Rightarrow> f a b)"
  by (cases x) simp

lemma kept_finish: "preserves P m \<Longrightarrow> preserves P (finish m)"
  unfolding finish_def by (intro kept_bind kept_pure)

lemmas kept_parts = kept_bind kept_map_err kept_pure kept_if kept_reading kept_insert_op
  kept_calls kept_let kept_option kept_pair kept_finish

subsection \<open>The synchronous parts\<close>

lemma kept_sync:
  "preserves P (Create_Execute p i op rq)" "preserves P (Update_Execute p op urq)" "preserves P (Delete_Execute p op i)"
  "preserves P (Start_Execute p op i)" "preserves P (Stop_Execute p op i)" "preserves P (Move_Execute p pr op i dst)"
  "preserves P (Attach_Execute p pr op i a)" "preserves P (Detach_Execute p op i g)"
  "preserves P (GetTargetStates_Execute p pr now i g)"
  unfolding Create_Execute_def Update_Execute_def Delete_Execute_def Start_Execute_def Stop_Execute_def
    Move_Execute_def Attach_Execute_def Detach_Execute_def GetTargetStates_Execute_def assertNameUnique_def
  by (intro kept_parts kept_run_read)+

lemma kept_sync_listener:
  "preserves P (CreateListener_Run p i op rq)" "preserves P (UpdateListener_Run p op urq)" "preserves P (DeleteListener_Run p op i)"
  unfolding CreateListener_Run_def UpdateListener_Run_def DeleteListener_Run_def fetchParentLB_def
  by (intro kept_parts)+

lemma kept_sync_tg:
  "preserves P (CreateTG_Execute p i op rq)" "preserves P (UpdateTG_Execute p op urq)" "preserves P (DeleteTG_Execute p op i)"
  "preserves P (MoveTG_Execute p pr op i dst)" "preserves P (AddTargets_Execute p op i pbs)"
  "preserves P (RemoveTargets_Execute p op i pbs)"
  unfolding CreateTG_Execute_def UpdateTG_Execute_def DeleteTG_Execute_def MoveTG_Execute_def
    AddTargets_Execute_def RemoveTargets_Execute_def assertTGNameUnique_def
  by (intro kept_parts)+

subsection \<open>The workers\<close>

lemma kept_workers:
  "within S (update_tx lb v b) \<Longrightarrow> preserves P (doUpdate lb v b)"
  "within S (start_tx i s) \<Longrightarrow> preserves P (doStart i s)"
  "within S (stop_tx i s) \<Longrightarrow> preserves P (doStop i s)"
  "within S (move_tx i src dst) \<Longrightarrow> preserves P (doMove i src dst)"
  "within S (attach_tx i g project) \<Longrightarrow> preserves P (doAttach i g project)"
  "within S (detach_tx i g project) \<Longrightarrow> preserves P (doDetach i g project)"
  "within S (LB_MarkDeleting i) \<Longrightarrow> within S (lb_delete_tx i project) \<Longrightarrow> preserves P (doDelete client i project)"
  unfolding doUpdate_def doStart_def doStop_def doMove_def doAttach_def doDetach_def doDelete_def
    markDeleting_def releaseVIP_def
  by (assumption | intro kept_parts kept_writing)+

lemma kept_listener_workers:
  "within S (create_listener_tx l lb (FGASubjectFromPrincipal (pr_type pr) (pr_id pr))) \<Longrightarrow> preserves P (doCreateListener l lb pr)"
  "within S (update_listener_tx l v b) \<Longrightarrow> preserves P (doUpdateListener l v b)"
  unfolding doCreateListener_def doUpdateListener_def
  by (assumption | intro kept_writing)+

lemma kept_tg_workers:
  "within S (create_tg_tx tg us pr) \<Longrightarrow> preserves P (doCreateTG p tg us pr)"
  "within S (update_tg_tx tg v b) \<Longrightarrow> preserves P (doUpdateTG tg v b)"
  "within S (delete_tg_tx i project) \<Longrightarrow> preserves P (doDeleteTG i project)"
  "within S (move_tg_tx i src dst) \<Longrightarrow> preserves P (doMoveTG i src dst)"
  "(\<And>row us. within S (add_targets_tx i row us)) \<Longrightarrow> preserves P (doAdd tp i ts us)"
  "(\<And>row us. within S (remove_targets_tx i row us)) \<Longrightarrow> preserves P (doRemove i ts)"
  unfolding doCreateTG_def doUpdateTG_def doDeleteTG_def doMoveTG_def doAdd_def doRemove_def
  by (assumption | intro kept_parts kept_writing)+

lemma kept_run: "within S m \<Longrightarrow> P w \<Longrightarrow> P (snd (run_tx m w))"
  using kept_run_tx unfolding preserves_def by blast

lemma kept_case:
  assumes "preserves P m" and "\<And>e. preserves P (g e)" and "\<And>x. preserves P (f x)"
  shows "preserves P (\<lambda>w. case m w of (Inl e, w') \<Rightarrow> g e w' | (Inr x, w') \<Rightarrow> f x w')"
proof (rule keptI)
  fix w r w' assume w: "P w" and c: "(case m w of (Inl e, w') \<Rightarrow> g e w' | (Inr x, w') \<Rightarrow> f x w') = (r, w')"
  obtain s w1 where m: "m w = (s, w1)" by fastforce
  have "P w1" by (rule keptD [OF assms(1) w m])
  with c m show "P w'" by (cases s) (auto dest: keptD [OF assms(2)] keptD [OF assms(3)])
qed

lemma kept_release_listener: "preserves P (releaseListenerVIP client a b)"
  unfolding releaseListenerVIP_def by (intro kept_parts)

lemma kept_failed_listener:
  "(\<And>k i p act m. within S (tx_emit (emit_outbox k i p act m))) \<Longrightarrow> preserves P (markFailedAndReturn cur e)"
  by (simp add: preserves_def markFailedAndReturn_def kept_run)

lemma kept_delete_listener:
  assumes "\<And>k i p act m. within S (tx_emit (emit_outbox k i p act m))"
    and "within S (mark_listener_tx cur)" and "within S (delete_listener_tx cur)"
  shows "preserves P (doDeleteListener client cur)"
proof -
  have "preserves P (\<lambda>w. case releaseListenerVIP client a b w of
      (Inl e, w') \<Rightarrow> markFailedAndReturn cur e w' | (Inr u, w') \<Rightarrow> (Inr (), w'))" for a b
    by (rule kept_case [OF kept_release_listener kept_failed_listener [OF assms(1)], where f = "\<lambda>_ w. (Inr (), w)"])
       (simp add: preserves_def)
  then show ?thesis unfolding doDeleteListener_def
    by (intro kept_parts kept_writing assms)
qed

subsection \<open>The creation of a load balancer\<close>

lemma kept_kind:
  "preserves P m \<Longrightarrow> preserves P n \<Longrightarrow> preserves P k \<Longrightarrow>
   preserves P (case x of SrcSubnetAuto \<Rightarrow> m | SrcPublicAuto \<Rightarrow> n | SrcAddressLink \<Rightarrow> k)"
  by (cases x) simp_all

lemma kept_acquire: "preserves P (acquireFamilyVIP p client lb fs)"
  unfolding acquireFamilyVIP_def by (intro kept_parts kept_kind)

text \<open>The transactions of a creation are those on the new row.\<close>

lemma acquire_all_kept:
  assumes vip: "\<And>f a ai o1. within S (LB_AttachVIP (lb_id lb) f a ai o1)"
  shows "P w \<Longrightarrow> P (snd (snd (acquire_all p client lb specs got w)))"
proof (induction specs arbitrary: got w)
  case (Cons fs specs)
  obtain r w1 where a: "acquireFamilyVIP p client lb fs w = (r, w1)" by fastforce
  have w1: "P w1" by (rule keptD [OF kept_acquire Cons.prems a])
  show ?case
  proof (cases r)
    case (Inr al)
    obtain s w2 where pv: "persistVIP (lb_id lb) (fs_family fs) (va_address al) (va_address_id al) (va_origin al) w1 = (s, w2)"
      by fastforce
    have "P w2" using kept_run [OF vip w1] pv unfolding persistVIP_def by (metis snd_conv)
    with Inr a pv Cons.IH show ?thesis by (cases s) simp_all
  qed (use a w1 in simp)
qed simp

lemma kept_release: "preserves P (releaseAddress client a o1)"
  unfolding releaseAddress_def by (intro kept_parts)

lemma release_all_kept: "P w \<Longrightarrow> P (release_all client as w)"
proof (induction as arbitrary: w)
  case (Cons a as)
  then show ?case by (simp add: kept_snd [OF kept_release])
qed simp

lemma compensate_kept:
  assumes "within S (LB_Delete i)" and "P w"
  shows "P (compensateCreate visit client i got w)"
proof -
  have "snd (deleteHandle i v) = snd (run_tx (LB_Delete i) v)" for v :: "'v world"
    by (auto simp: deleteHandle_def split: prod.splits sum.splits)
  then show ?thesis using assms(2) by (simp add: compensateCreate_def kept_run [OF assms(1)] release_all_kept)
qed

lemma create_rest_kept:
  assumes "within S (finalize_tx lb pr)" and "within S (LB_Delete (lb_id lb))" and "P (snd (snd x))"
  shows "P (snd (create_rest visit client pr lb x))"
proof -
  obtain e got w2 where x: "x = (e, got, w2)" by (cases x)
  then have w2: "P w2" using assms(3) by simp
  obtain r w3 where f: "finalizeCreate lb pr w2 = (r, w3)" by fastforce
  then have "P w3" using kept_run [OF assms(1) w2] unfolding finalizeCreate_def by (metis snd_conv)
  with w2 f show ?thesis by (cases e; cases r) (simp_all add: create_rest_def x compensate_kept assms(2))
qed

lemma kept_create:
  assumes "within S (LB_Insert (lb \<lparr> lb_status := LBStatusCreating \<rparr>))"
    and "\<And>f a ai o1. within S (LB_AttachVIP (lb_id lb) f a ai o1)"
    and "within S (finalize_tx (lb \<lparr> lb_status := LBStatusCreating \<rparr>) pr)" and "within S (LB_Delete (lb_id lb))"
  shows "preserves P (doCreate visit p client lb pr specs)"
proof -
  have "preserves P (insertHandle (lb \<lparr> lb_status := LBStatusCreating \<rparr>))"
    unfolding insertHandle_def by (intro kept_map_err kept_run_tx within_then assms)
  moreover have "preserves P (\<lambda>w. create_rest visit client pr (lb \<lparr> lb_status := LBStatusCreating \<rparr>)
      (acquire_all p client (lb \<lparr> lb_status := LBStatusCreating \<rparr>) specs [] w))"
    using assms by (simp add: preserves_def create_rest_kept acquire_all_kept)
  ultimately show ?thesis unfolding doCreate_def Let_def create_rest_def by (intro kept_bind kept_pure)
qed

subsection \<open>The handlers\<close>

lemma kept_lb_handler:
  assumes "lb_txs_within S (en_principal en) c"
  shows "preserves P (lb_handler en op c)"
proof (cases c)
  case (LbCreate i rq)
  have "preserves P (doCreate v p client lb (en_principal en) specs)"
    if "lb_id lb = i" "lb_project lb = cr_project rq" for v p client lb specs
    using assms that by (intro kept_create) (simp_all add: LbCreate)
  then show ?thesis unfolding LbCreate lb_handler.simps
    by (intro kept_bind kept_sync kept_pair kept_finish) (auto dest: Create_Execute_yields)
next
  case (LbUpdate rq)
  have "preserves P (doUpdate lb v b)" if "lb_id lb = ur_id rq" for lb v b
    using assms that by (intro kept_workers) (simp add: LbUpdate)
  then show ?thesis unfolding LbUpdate lb_handler.simps
    by (intro kept_bind kept_sync kept_pair kept_finish) (auto dest: Update_Execute_yields)
next
  case (LbStart i)
  have "preserves P (doStart i s)" if "s \<in> {LBStatusStopped, LBStatusInactive}" for s
    using assms that by (intro kept_workers) (auto simp: LbStart)
  then show ?thesis unfolding LbStart lb_handler.simps
    by (intro kept_bind kept_sync kept_pair kept_finish) (auto dest!: Start_Execute_yields)
next
  case (LbStop i)
  have "preserves P (doStop i s)" if "s \<in> {LBStatusActive, LBStatusInactive}" for s
    using assms that by (intro kept_workers) (auto simp: LbStop)
  then show ?thesis unfolding LbStop lb_handler.simps
    by (intro kept_bind kept_sync kept_pair kept_finish) (auto dest!: Stop_Execute_yields)
next
  case (LbDelete i)
  have "preserves P (doDelete (en_client en) i pj)" for pj
    using assms by (intro kept_workers) (auto simp: LbDelete)
  then show ?thesis unfolding LbDelete lb_handler.simps
    by (intro kept_bind kept_sync kept_pair kept_finish) (auto dest!: Delete_Execute_yields)
next
  case (LbMove i dst)
  have "preserves P (doMove i src dst)" for src using assms by (intro kept_workers) (auto simp: LbMove)
  then show ?thesis unfolding LbMove lb_handler.simps
    by (intro kept_bind kept_sync kept_pair kept_finish) (auto dest!: Move_Execute_yields)
next
  case (LbAttach i a)
  have "preserves P (doAttach i g pj)" for g pj using assms by (intro kept_workers) (auto simp: LbAttach)
  then show ?thesis unfolding LbAttach lb_handler.simps
    by (intro kept_bind kept_sync kept_pair kept_finish) (auto dest!: Attach_Execute_yields)
next
  case (LbDetach i g)
  have "preserves P (doDetach i h pj)" for h pj using assms by (intro kept_workers) (auto simp: LbDetach)
  then show ?thesis unfolding LbDetach lb_handler.simps
    by (intro kept_bind kept_sync kept_pair kept_finish) (auto dest!: Detach_Execute_yields)
next
  case (LbTargetStates now i g)
  show ?thesis unfolding LbTargetStates lb_handler.simps by (intro kept_sync kept_finish)
qed

lemma kept_listener_handler:
  assumes "listener_txs_within S c"
  shows "preserves P (listener_handler en op c)"
  using assms
  by (cases c; simp only: listener_handler.simps listener_txs_within.simps;
      intro kept_bind kept_sync_listener kept_pair kept_finish kept_listener_workers kept_delete_listener;
      auto dest!: CreateListener_Run_yields UpdateListener_Run_yields DeleteListener_Run_yields)

lemma kept_tg_handler:
  assumes "tg_txs_within S (en_principal en) c"
  shows "preserves P (tg_handler en op c)"
  using assms
  by (cases c; simp only: tg_handler.simps tg_txs_within.simps;
      intro kept_bind kept_sync_tg kept_pair kept_finish kept_tg_workers;
      auto dest!: CreateTG_Execute_yields UpdateTG_Execute_yields DeleteTG_Execute_yields MoveTG_Execute_yields
        targets_Execute_yields)

end

end
