(* ===== verification/Service.thy ===== *)
theory Service
  imports Lb_Life World_Invariants
begin

text \<open>
  The system as a whole. Every call and every tick, whatever the others do between its transactions,
  whatever fails and whatever the network service answers, only makes steps of the system: so the
  invariants hold all along.
\<close>

subsection \<open>Rely and guarantee\<close>

text \<open>
  A worker relies on the others making steps of the system only, and guarantees the same.
\<close>

definition lawful :: "'v world \<Rightarrow> bool" where
  "lawful w \<longleftrightarrow> reachable (w_db w) \<and> (\<forall>s \<in> set (w_slots w). \<forall>d. reachable d \<longrightarrow> reachable (sl_others s d))"

lemma lawful_others: "lawful w \<Longrightarrow> reachable (sl_others (next_slot w) (w_db w))"
  by (cases "w_slots w") (auto simp: lawful_def next_slot_def quiet_def)

lemma reachable_begin: "reachable d \<Longrightarrow> reachable (d \<lparr> d_tx := Suc (d_tx d) \<rparr>)"
  using reachable.step [OF _ sys_step.time [of d "d_now d"]] by simp

lemma lawful_begin: "lawful w \<Longrightarrow> reachable (begin_tx w)"
  using reachable_begin [OF lawful_others] by (simp add: begin_tx_def Let_def)

lemma lawful_settle: "lawful w \<Longrightarrow> reachable d \<Longrightarrow> lawful (settle w d)"
  using set_drop_subset [of 1 "w_slots w"] unfolding lawful_def by (simp only: settle_simps) blast

lemma lawful_commit: "lawful w \<Longrightarrow> commits (begin_tx w) d' \<Longrightarrow> reachable d'"
  unfolding begin_tx_def Let_def by (rule reachable.step [OF lawful_others sys_step.commit])

text \<open>The contract of the workers, met by the lawful worlds and the steps of the system.\<close>

interpretation sys: kept_by_workers "lawful :: 'v world \<Rightarrow> bool" commits
proof unfold_locales
  fix w :: "'v world" and d' v cs assume w: "lawful w"
  show "lawful (settle w (begin_tx w))" by (rule lawful_settle [OF w lawful_begin [OF w]])
  show "commits (begin_tx w) d' \<Longrightarrow> lawful (settle w d')" by (rule lawful_settle [OF w lawful_commit [OF w]])
  show "lawful (w \<lparr> w_vpc := v, w_calls := cs \<rparr>)" using w by (simp add: lawful_def)
qed

lemma commits_txs:
  "within commits (LB_AttachVIP i fam adr ai o1)" "within commits (finalize_tx lb pr)" "within commits (LB_Delete i)"
  "within commits (LB_MarkDeleting i)" "within commits (lb_delete_tx i p)" "within commits (attach_tx i g p)"
  "within commits (detach_tx i g p)" "within commits (move_tx i p q)" "within commits (update_tx lb v b)"
  "within commits (create_listener_tx l lb0 s)" "within commits (update_listener_tx l v b)"
  "within commits (mark_listener_tx cur)" "within commits (delete_listener_tx cur)"
  "within commits (tx_emit (emit_outbox k i p act m))" "within commits (create_tg_tx tg ids pr)"
  "within commits (update_tg_tx tg v b)" "within commits (delete_tg_tx i p)" "within commits (move_tg_tx i p q)"
  "within commits (add_targets_tx i row ts)" "within commits (remove_targets_tx i row us)"
  "within commits (reconcile_tx lbr)" "within commits (isolate_tx lbr)" "within commits (drain_tx visit)"
  unfolding within_def by (blast intro: commits.intros)+

lemma commits_start: "a \<in> {LBStatusStopped, LBStatusInactive} \<Longrightarrow> within commits (start_tx i a)"
  by (auto simp: within_def intro: commits.start)

lemma commits_stop: "a \<in> {LBStatusActive, LBStatusInactive} \<Longrightarrow> within commits (stop_tx i a)"
  by (auto simp: within_def intro: commits.stop)

lemma commits_handle: "lb_status lb = LBStatusCreating \<Longrightarrow> within commits (LB_Insert lb)"
  by (auto simp: within_def intro: commits.handle)

subsection \<open>The runners\<close>

lemma releaseFamily_lawful: "preserves lawful (releaseFamily c a o1)"
  unfolding releaseFamily_def by (intro sys.kept_parts)

lemma releaseBoth_lawful: "preserves lawful (releaseBoth c lb)"
  unfolding releaseBoth_def by (intro sys.kept_bind releaseFamily_lawful)

lemma reconcileOne_lawful: "preserves lawful (reconcileOne (c :: 'v address_client) age locked)"
proof (rule sys.keptI)
  fix w :: "'v world" and r w' assume w: "lawful w" and r: "reconcileOne c age locked w = (r, w')"
  have s: "lawful (settle w (begin_tx w))" by (rule lawful_settle [OF w lawful_begin [OF w]])
  have rel: "lawful w1" if "releaseBoth c lb w = (x, w1)" for lb x w1
    by (rule sys.keptD [OF releaseBoth_lawful w that])
  have h: "lawful (snd (handleReleaseErr lb e w1))" if "lawful w1" for lb e and w1 :: "'v world"
    using that lawful_settle [OF that lawful_begin [OF that]]
    by (simp add: handleReleaseErr_def sys.kept_run within_then commits_txs)
  have t: "lawful (snd (run_tx (tx_bind (reconcile_tx lb) (\<lambda>_. tx_return OutcomeReconciled)) w1))"
    if "lawful w1" for lb and w1 :: "'v world"
    using that by (simp add: sys.kept_run within_then commits_txs)
  have "lawful (snd (reconcileOne c age locked w))"
    using s by (auto simp: reconcileOne_def split: fault.split option.split prod.split sum.split dest!: rel intro: h t)
  with r show "lawful w'" by simp
qed

lemma reconcile_loop_lawful: "lawful w \<Longrightarrow> lawful (snd (reconcile_loop c age locked k n w))"
proof (induction k arbitrary: n w)
  case (Suc k)
  obtain r w1 where one: "reconcileOne c age locked w = (r, w1)" by fastforce
  have "lawful w1" by (rule sys.keptD [OF reconcileOne_lawful Suc.prems one])
  with one Suc.IH show ?case by (auto split: sum.split reconcile_outcome.split)
qed simp

lemma freeip_lawful: "lawful w \<Longrightarrow> lawful (freeip_tick client age locked w)"
  by (simp add: freeip_tick_def reconcileOnce_def reconcile_loop_lawful split: option.split)

lemma drain_lawful: "lawful w \<Longrightarrow> lawful (snd (drainOnce visit w))"
  by (simp add: drainOnce_def sys.kept_run commits_txs)

subsection \<open>The service\<close>

lemma lb_handler_lawful: "preserves lawful (lb_handler en op c)"
  by (rule sys.kept_lb_handler, cases c) (simp_all add: commits_txs commits_start commits_stop commits_handle)

lemma listener_handler_lawful: "preserves lawful (listener_handler en op c)"
  by (rule sys.kept_listener_handler, cases c) (simp_all add: commits_txs)

lemma tg_handler_lawful: "preserves lawful (tg_handler en op c)"
  by (rule sys.kept_tg_handler, cases c) (simp_all add: commits_txs)

lemma perform_lawful: "lawful w \<Longrightarrow> lawful (perform en a w)"
  by (cases a) (simp_all add: freeip_lawful drain_lawful preserves_snd [OF lb_handler_lawful]
      preserves_snd [OF listener_handler_lawful] preserves_snd [OF tg_handler_lawful])

text \<open>What one activity does to the database between two transactions of another is such a step.\<close>

lemma perform_others:
  "lawful w \<Longrightarrow> reachable d \<Longrightarrow> reachable (w_db (perform en a (w \<lparr> w_db := d \<rparr>)))"
  using perform_lawful [of "w \<lparr> w_db := d \<rparr>" en a] by (simp add: lawful_def)

lemma fold_perform_lawful: "lawful w \<Longrightarrow> lawful (fold (perform en) as w)"
  by (induction as arbitrary: w) (simp_all add: perform_lawful)

subsection \<open>A run of the service\<close>

definition sample_env :: "string list env" where
  "sample_env = \<lparr> en_peers = sample_peers, en_targets = sample_subnets, en_client = Some (sample_client False),
     en_principal = sample_principal, en_visit = (\<lambda>es. es) \<rparr>"

definition wanted_lb :: create_request where
  "wanted_lb = \<lparr> cr_project = ''p1'', cr_region = ''r1'', cr_type = PbInternal, cr_placement = PbRegional,
     cr_v4 = Some (SourceSubnetId ''sub1''), cr_v6 = None, cr_name = ''web'', cr_description = '''',
     cr_labels = [], cr_zones = [], cr_protection = False, cr_affinity = PbFiveTuple \<rparr>"

definition wanted_tg :: create_tg_request where
  "wanted_tg = \<lparr> cg_project = ''p1'', cg_region = ''r1'', cg_name = ''pool'', cg_description = '''', cg_labels = [],
     cg_health = Some \<lparr> ph_name = ''hc1'', ph_interval = 2000000000, ph_timeout = 1000000000,
       ph_unhealthy = 2, ph_healthy = 3, ph_options = PbTcp 80 \<rparr>, cg_targets = [], cg_dereg = 0, cg_slow = 0 \<rparr>"

definition wanted_listener :: create_listener_request where
  "wanted_listener = \<lparr> lr_lb = ''nlb1'', lr_name = ''http'', lr_description = '''', lr_labels = [],
     lr_protocol = ''TCP'', lr_port = 80, lr_target_port = 80, lr_proxy_v2 = False, lr_default_tg = '''' \<rparr>"

text \<open>Two load balancers; the first one gets a target group and a listener.\<close>

definition rollout :: "activity list" where
  "rollout = [LbCall None (LbCreate ''nlb1'' wanted_lb), TgCall None (TgCreate ''tgr1'' [] wanted_tg),
     LbCall None (LbAttach ''nlb1'' (Some ''tgr1'')), ListenerCall None (LsCreate ''lst1'' wanted_listener),
     LbCall None (LbCreate ''nlb2'' (wanted_lb \<lparr> cr_name := ''api'' \<rparr>))]"

definition rollout_db :: db where
  "rollout_db = w_db (fold (perform sample_env) rollout (sample_world []))"

definition overview :: "db \<Rightarrow> (lb_status \<times> string) list \<times> string list" where
  "overview d = (map (\<lambda>r. (lb_status r, lb_addr_v4 r)) (d_lbs d), map ls_id (d_listeners d))"

lemma rollout_overview:
  "overview rollout_db = ([(LBStatusActive, ''10.0.0.0''), (LBStatusInactive, ''10.0.0.1'')], [''lst1''])"
  by code_simp

lemma sample_lawful: "lawful (sample_world [])"
  by (simp add: lawful_def sample_world_def)

lemma rollout_reachable: "reachable rollout_db"
  using fold_perform_lawful [OF sample_lawful] by (simp add: rollout_db_def lawful_def)

subsection \<open>Properties\<close>



text \<open>C2: no two load balancers of a region ever hold the same virtual address, of either family.
\<close>

theorem addresses_exclusive:
  assumes "reachable d"
  shows "distinct (map (\<lambda>r. (lb_region r, lb_addr_v4 r)) (filter (\<lambda>r. lb_addr_v4 r \<noteq> '''') (d_lbs d)))
    \<and> distinct (map (\<lambda>r. (lb_region r, lb_addr_v6 r)) (filter (\<lambda>r. lb_addr_v6 r \<noteq> '''') (d_lbs d)))"
proof -
  have k: "distinct (map lb_id (d_lbs d))" and
    a: "r \<in> set (d_lbs d) \<Longrightarrow> s \<in> set (d_lbs d) \<Longrightarrow> lb_id s \<noteq> lb_id r \<Longrightarrow> lb_apart s r" for r s
    using reachable_db_ok [OF assms] by (auto simp: db_ok_def base_ok_def well_keyed_def well_apart_def)
  have d: "distinct (filter P (d_lbs d))" for P using k by (simp add: distinct_map)
  have same: "r = s" if "r \<in> set (d_lbs d)" "s \<in> set (d_lbs d)" "\<not> lb_apart s r" for r s
    using a [OF that(1,2)] that(3) key_unique [OF k that(1,2)] by metis
  show ?thesis unfolding distinct_map using d
    by (auto simp: inj_on_def lb_apart_def intro!: same)
qed

theorem addresses_exclusive_witness:
  "distinct (map (\<lambda>r. (lb_region r, lb_addr_v4 r)) (filter (\<lambda>r. lb_addr_v4 r \<noteq> '''') (d_lbs rollout_db)))
   \<and> map snd (fst (overview rollout_db)) = [''10.0.0.0'', ''10.0.0.1'']"
  using addresses_exclusive [OF rollout_reachable] by (simp add: rollout_overview)

text \<open>The status and the children of a load balancer.\<close>

definition truthful :: "db \<Rightarrow> lb_row \<Rightarrow> bool" where
  "truthful d r \<longleftrightarrow>
     (lb_status r = LBStatusActive \<longrightarrow> has_listener d (lb_id r) \<and> has_attached d (lb_id r))
   \<and> (lb_status r = LBStatusDeleting \<longrightarrow> \<not> has_listener d (lb_id r) \<and> \<not> has_attached d (lb_id r))"



text \<open>C3: the refinement of the abstract life cycle: from a reachable database, every step of the
  system moves the visible status of every load balancer along the abstract life cycle, or leaves it.
\<close>

theorem status_refines_life:
  assumes "reachable d" and "sys_step d d'"
  shows "life (visible d i) (visible d' i)"
  by (rule step_life [OF reachable_db_ok [OF assms(1)] assms(2)])

theorem status_refines_life_witness:
  "\<exists>d'. sys_step rollout_db d' \<and> visible d' ''nlb1'' = Some LBStatusStopped \<and> life (Some LBStatusActive) (visible d' ''nlb1'')"
proof -
  have v: "visible rollout_db ''nlb1'' = Some LBStatusActive" by code_simp
  let ?d = "rollout_db \<lparr> d_tx := Suc (d_tx rollout_db) \<rparr>"
  have "is_ok (stop_tx ''nlb1'' LBStatusActive ?d)" by code_simp
  then obtain r d' where t: "stop_tx ''nlb1'' LBStatusActive ?d = Inr (r, d')" by (auto simp: is_ok_iff)
  have "LBStatusActive \<in> {LBStatusActive, LBStatusInactive}" by simp
  with t have "sys_step rollout_db d'" by (blast intro: sys_step.commit commits.stop)
  with status_refines_life [OF rollout_reachable this, of "''nlb1''"] stop_moves [OF t] show ?thesis
    by (auto simp: v moves_def)
qed

text \<open>The intermediate statuses STARTING and STOPPING are never committed.
\<close>

theorem transient_status_hidden:
  assumes "reachable d"
  shows "visible d i \<noteq> Some LBStatusStarting \<and> visible d i \<noteq> Some LBStatusStopping"
  using reachable_settled [OF assms, of i] by auto

theorem transient_status_hidden_witness:
  "visible rollout_db ''nlb1'' \<noteq> Some LBStatusStarting \<and> fst (hd (fst (overview rollout_db))) = LBStatusActive"
  using transient_status_hidden [OF rollout_reachable, of "''nlb1''"] by (simp add: rollout_overview)

text \<open>Children that arrive while a load balancer is being created: \<^verbatim>\<open>finalizeCreate\<close> does not look.\<close>

definition meanwhile :: "db \<Rightarrow> db" where
  "meanwhile d = w_db (fold (perform sample_env)
     [TgCall None (TgCreate ''tgr1'' [] wanted_tg), LbCall None (LbAttach ''nlb1'' (Some ''tgr1'')),
      ListenerCall None (LsCreate ''lst1'' wanted_listener)] ((sample_world []) \<lparr> w_db := d \<rparr>))"

definition overtaken :: "string list world" where
  "overtaken = sample_world [quiet, quiet, quiet, quiet \<lparr> sl_others := meanwhile \<rparr>]"

definition overtaken_db :: db where
  "overtaken_db = w_db (perform sample_env (LbCall None (LbCreate ''nlb1'' wanted_lb)) overtaken)"

text \<open>A load balancer whose listener and target group arrived before its creation finished ends up
  INACTIVE although its children would make it ACTIVE, and no step is pending that corrects it: the
  last transaction of the creation sets INACTIVE and fires no trigger.
\<close>

theorem create_overlooks_children:
  assumes "finalize_tx lb pr d = Inr (r, d')" and "recomputed_status d (lb_id lb) = LBStatusActive"
  shows "visible d' (lb_id lb) = Some LBStatusInactive \<and> recomputed_status d' (lb_id lb) = LBStatusActive"
proof -
  from assms(1) obtain d1 r1 where c: "LB_SetStatusCAS (lb_id lb) LBStatusCreating LBStatusInactive d = Inr (r1, d1)"
    and d': "d_listeners d' = d_listeners d1" "d_attached d' = d_attached d1"
    by (auto simp: finalize_tx_def tx_bind_def tx_emit_def tx_return_def)
  have "d_listeners d1 = d_listeners d \<and> d_attached d1 = d_attached d"
    using LB_SetStatusCAS_Inr [OF c] lb_written_outboxes by blast
  then have "recomputed_status d' (lb_id lb) = recomputed_status d (lb_id lb)"
    using d' by (simp add: recomputed_status_def has_attached_def)
  then show ?thesis using assms(2) finalize_moves [OF assms(1)] by (simp add: moves_def)
qed

lemma overtaken_creation:
  "(map (\<lambda>r. (lb_id r, lb_status r)) (d_lbs overtaken_db), recomputed_status overtaken_db ''nlb1'')
     = ([(''nlb1'', LBStatusInactive)], LBStatusActive)"
  by code_simp

lemma overtaken_reachable: "reachable overtaken_db"
proof -
  have "reachable (meanwhile d)" if "reachable d" for d
  proof -
    have "lawful ((sample_world []) \<lparr> w_db := d \<rparr>)" using that by (simp add: lawful_def sample_world_def)
    from fold_perform_lawful [OF this] show ?thesis unfolding meanwhile_def lawful_def by blast
  qed
  moreover have "reachable empty_db" by (rule reachable.start)
  ultimately have "lawful overtaken"
    unfolding overtaken_def lawful_def sample_world_def by (auto simp: quiet_def)
  from perform_lawful [OF this] show ?thesis unfolding overtaken_db_def lawful_def by blast
qed

definition pending_db :: db where
  "pending_db = meanwhile (w_db (snd (insertHandle (sample_lb \<lparr> lb_status := LBStatusCreating \<rparr>) (sample_world []))))"

lemma pending_eval:
  "(is_ok (finalize_tx sample_lb sample_principal pending_db), recomputed_status pending_db ''nlb1'') = (True, LBStatusActive)"
  by code_simp

theorem create_overlooks_children_witness:
  "\<exists>r d'. finalize_tx sample_lb sample_principal pending_db = Inr (r, d')
     \<and> visible d' ''nlb1'' = Some LBStatusInactive \<and> recomputed_status d' ''nlb1'' = LBStatusActive"
proof -
  have i: "lb_id sample_lb = ''nlb1''" by code_simp
  obtain r d' where f: "finalize_tx sample_lb sample_principal pending_db = Inr (r, d')"
    using pending_eval by (auto simp: is_ok_iff)
  with create_overlooks_children [OF this] pending_eval i show ?thesis by auto
qed

end
