(* ===== verification/Peer_Clients.thy ===== *)
theory Peer_Clients
  imports Target_Group_Usecases
begin

text \<open>
  The clients of the other services (\<^verbatim>\<open>internal/clients\<close>: identity, geography, compute and the
  read side of the network service) and their wiring (\<^verbatim>\<open>cmd/kacho-loadbalancer/main.go\<close>). A stub
  is a function: the answer of the generated gRPC stub under \<^verbatim>\<open>retry.OnUnavailable\<close> and the
  per-call deadline. Each client checks its argument, makes the call, translates the gRPC status
  into a sentinel and projects the message; a missing connection gives no client.
\<close>

subsection \<open>gRPC errors\<close>

text \<open>\<^verbatim>\<open>status.FromError\<close>: the code and the message of an error that is a status.\<close>

fun grpc_status :: "err \<Rightarrow> (code \<times> string) option" where
  "grpc_status (Status c m) = Some (c, m)"
| "grpc_status (Violations vs) = Some (CodeInvalidArgument, error_text (Violations vs))"
| "grpc_status _ = None"

text \<open>
  \<^verbatim>\<open>fmt.Errorf("text: %w", err)\<close> on an error that is not a bare sentinel: \<^verbatim>\<open>errors.Is\<close> and
  \<^verbatim>\<open>status.FromError\<close> see through it. The text of a wrapped context or driver error is not kept.
\<close>

fun wrapping :: "string \<Rightarrow> err \<Rightarrow> err" where
  "wrapping p (Status c m) = Status c (p @ '': '' @ m)"
| "wrapping p (OtherErr m) = OtherErr (p @ '': '' @ m)"
| "wrapping p e = e"

definition go_quote :: "string \<Rightarrow> string" where
  "go_quote s = [CHR 0x22] @ s @ [CHR 0x22]"

text \<open>The shape of every translation: by code, and a wrapped error for the codes it does not name.\<close>

definition by_code :: "string \<Rightarrow> (code \<Rightarrow> string \<Rightarrow> err option) \<Rightarrow> err \<Rightarrow> err" where
  "by_code what table e =
     (case grpc_status e of
        None \<Rightarrow> wrapping what e
      | Some (c, m) \<Rightarrow> (case table c m of Some e' \<Rightarrow> e' | None \<Rightarrow> wrapping what e))"

definition empty_arg :: "string \<Rightarrow> err" where
  "empty_arg field = Wrapped ErrInvalidArg (field @ '' is empty'')"

subsection \<open>Identity: projects and checks\<close>

definition mapProjectErr :: "string \<Rightarrow> err \<Rightarrow> err" where
  "mapProjectErr i = by_code (''iam project get '' @ go_quote i) (\<lambda>c m.
     case c of
       CodeNotFound \<Rightarrow> Some (Wrapped ErrNotFound (''Project '' @ i @ '' not found''))
     | CodePermissionDenied \<Rightarrow> Some (Wrapped ErrFailedPrecondition (''Project '' @ i @ '' not found''))
     | CodeUnavailable \<Rightarrow> Some (Wrapped ErrUnavailable (''iam project '' @ i @ '': '' @ m))
     | CodeDeadlineExceeded \<Rightarrow> Some (Wrapped ErrUnavailable (''iam project '' @ i @ '': '' @ m))
     | CodeInvalidArgument \<Rightarrow> Some (Wrapped ErrInvalidArg (''iam project '' @ i @ '': '' @ m))
     | _ \<Rightarrow> None)"

record named_resource =
  nr_id :: string
  nr_name :: string

definition projectClient_Get :: "(string \<Rightarrow> err + named_resource) \<Rightarrow> string \<Rightarrow> err + named_resource" where
  "projectClient_Get stub i =
     (if i = '''' then Inl (empty_arg ''project_id'')
      else attempt (mapping_err (mapProjectErr i) (stub i))
             (\<lambda>r. Inr \<lparr> nr_id = nr_id r, nr_name = nr_name r \<rparr>))"

text \<open>\<^verbatim>\<open>strings.Contains\<close>, and the markers of a missing path after \<^verbatim>\<open>strings.ToLower\<close> (ASCII).\<close>

definition contains :: "string \<Rightarrow> string \<Rightarrow> bool" where
  "contains s p \<longleftrightarrow> list_ex (\<lambda>k. take (length p) (drop k s) = p) [0 ..< Suc (length s)]"

definition isNoPathReason :: "string \<Rightarrow> bool" where
  "isNoPathReason reason =
     (let r = map to_lower reason in contains r ''no path'' \<or> contains r ''no_path'')"

definition mapCheckErr :: "err \<Rightarrow> err" where
  "mapCheckErr = by_code ''iam check'' (\<lambda>c m.
     case c of
       CodeUnavailable \<Rightarrow> Some (Wrapped ErrUnavailable (''iam check: '' @ m))
     | CodeDeadlineExceeded \<Rightarrow> Some (Wrapped ErrUnavailable (''iam check: '' @ m))
     | CodeInvalidArgument \<Rightarrow> Some (Wrapped ErrInvalidArg (''iam check: '' @ m))
     | _ \<Rightarrow> None)"

definition checkClient_Check ::
  "(string \<Rightarrow> string \<Rightarrow> string \<Rightarrow> err + bool \<times> string) \<Rightarrow> string \<Rightarrow> string \<Rightarrow> string \<Rightarrow> err + bool" where
  "checkClient_Check stub subject relation obj =
     (if subject = '''' then Inl (empty_arg ''subject_id'')
      else if relation = '''' then Inl (empty_arg ''relation'')
      else if obj = '''' then Inl (empty_arg ''object'')
      else attempt (mapping_err mapCheckErr (stub subject relation obj)) (\<lambda>(allowed, reason).
        if allowed then Inr True
        else if isNoPathReason reason then Inl ErrNoPath
        else Inr False))"

subsection \<open>Geography: regions and zones\<close>

definition mapRegionErr :: "string \<Rightarrow> err \<Rightarrow> err" where
  "mapRegionErr i = by_code (''geo region get '' @ go_quote i) (\<lambda>c m.
     case c of
       CodeNotFound \<Rightarrow> Some (Wrapped ErrInvalidArg (''Region '' @ i @ '' not found''))
     | CodePermissionDenied \<Rightarrow> Some (Wrapped ErrInvalidArg (''Region '' @ i @ '' not found''))
     | CodeUnavailable \<Rightarrow> Some (Wrapped ErrUnavailable (''geo region '' @ i @ '': '' @ m))
     | CodeDeadlineExceeded \<Rightarrow> Some (Wrapped ErrUnavailable (''geo region '' @ i @ '': '' @ m))
     | CodeInvalidArgument \<Rightarrow> Some (Wrapped ErrInvalidArg (''geo region '' @ i @ '': '' @ m))
     | _ \<Rightarrow> None)"

definition regionClient_Get :: "(string \<Rightarrow> err + named_resource) \<Rightarrow> string \<Rightarrow> err + named_resource" where
  "regionClient_Get stub i =
     (if i = '''' then Inl (empty_arg ''region_id'')
      else attempt (mapping_err (mapRegionErr i) (stub i))
             (\<lambda>r. Inr \<lparr> nr_id = nr_id r, nr_name = nr_name r \<rparr>))"

definition mapZoneErr :: "err \<Rightarrow> err" where
  "mapZoneErr = by_code ''geo zone list'' (\<lambda>c m.
     case c of
       CodePermissionDenied \<Rightarrow> Some (Wrapped ErrInvalidArg ''zone lookup denied'')
     | CodeUnavailable \<Rightarrow> Some (Wrapped ErrUnavailable (''geo zone list: '' @ m))
     | CodeDeadlineExceeded \<Rightarrow> Some (Wrapped ErrUnavailable (''geo zone list: '' @ m))
     | CodeInvalidArgument \<Rightarrow> Some (Wrapped ErrInvalidArg (''geo zone list: '' @ m))
     | _ \<Rightarrow> None)"

text \<open>A page of the catalogue: the zones with their regions, and the token of the next page.\<close>

record zone_page =
  zp_zones :: "(string \<times> string) list"
  zp_next :: string

text \<open>The walk over the pages, which ends only with an empty token or an error.\<close>

partial_function (option) zone_walk ::
  "(string \<Rightarrow> err + zone_page) \<Rightarrow> string \<Rightarrow> string list \<Rightarrow> string \<Rightarrow> (err + string list) option" where
  "zone_walk stub region out token =
     (case stub token of
        Inl e \<Rightarrow> Some (Inl (mapZoneErr e))
      | Inr page \<Rightarrow>
          (let out = out @ map fst (filter (\<lambda>(z, r). r = region) (zp_zones page)) in
           if zp_next page = '''' then Some (Inr out)
           else zone_walk stub region out (zp_next page)))"

definition ListZoneIDsInRegion :: "(string \<Rightarrow> err + zone_page) \<Rightarrow> string \<Rightarrow> (err + string list) option" where
  "ListZoneIDsInRegion stub region =
     (if region = '''' then Some (Inl (empty_arg ''region_id'')) else zone_walk stub region [] '''')"

definition mapZoneGetErr :: "string \<Rightarrow> err \<Rightarrow> err" where
  "mapZoneGetErr i = by_code (''geo zone get '' @ go_quote i) (\<lambda>c m.
     if c \<in> {CodeNotFound, CodePermissionDenied, CodeUnavailable, CodeDeadlineExceeded}
     then Some (Wrapped ErrUnavailable (''geo zone '' @ i @ '': '' @ m)) else None)"

definition RegionOfZone :: "(string \<Rightarrow> err + string) \<Rightarrow> string \<Rightarrow> err + string" where
  "RegionOfZone stub i =
     (if i = '''' then Inl (empty_arg ''zone_id'') else mapping_err (mapZoneGetErr i) (stub i))"

subsection \<open>Compute: instances\<close>

text \<open>An interface of an instance is its primary IPv4 address, empty when it has none.\<close>

record pb_instance =
  pbi_id :: string
  pbi_project :: string
  pbi_zone :: string
  pbi_name :: string
  pbi_nics :: "string list"
  pbi_status :: string

record client_instance =
  ci_id :: string
  ci_project :: string
  ci_zone :: string
  ci_name :: string
  ci_primary :: string
  ci_status :: string

definition primaryNICAddress :: "pb_instance \<Rightarrow> string" where
  "primaryNICAddress m = (case pbi_nics m of [] \<Rightarrow> '''' | n # _ \<Rightarrow> n)"

definition mapInstanceErr :: "string \<Rightarrow> err \<Rightarrow> err" where
  "mapInstanceErr i = by_code (''compute instance get '' @ go_quote i) (\<lambda>c m.
     case c of
       CodeNotFound \<Rightarrow> Some (Wrapped ErrInvalidArg (''Instance '' @ i @ '' not found''))
     | CodePermissionDenied \<Rightarrow> Some (Wrapped ErrInvalidArg (''Instance '' @ i @ '' not found''))
     | CodeFailedPrecondition \<Rightarrow> Some (Wrapped ErrFailedPrecondition (''compute instance '' @ i @ '': '' @ m))
     | CodeUnavailable \<Rightarrow> Some (Wrapped ErrUnavailable (''compute instance '' @ i @ '': '' @ m))
     | CodeDeadlineExceeded \<Rightarrow> Some (Wrapped ErrUnavailable (''compute instance '' @ i @ '': '' @ m))
     | CodeInvalidArgument \<Rightarrow> Some (Wrapped ErrInvalidArg (''compute instance '' @ i @ '': '' @ m))
     | _ \<Rightarrow> None)"

definition instanceClient_Get :: "(string \<Rightarrow> err + pb_instance) \<Rightarrow> string \<Rightarrow> err + client_instance" where
  "instanceClient_Get stub i =
     (if i = '''' then Inl (empty_arg ''instance_id'')
      else attempt (mapping_err (mapInstanceErr i) (stub i)) (\<lambda>m.
        Inr \<lparr> ci_id = pbi_id m, ci_project = pbi_project m, ci_zone = pbi_zone m, ci_name = pbi_name m,
              ci_primary = primaryNICAddress m, ci_status = pbi_status m \<rparr>))"

subsection \<open>Network: subnets, interfaces and addresses\<close>

text \<open>The placement of a subnet with its \<^verbatim>\<open>String()\<close>.\<close>

datatype subnet_placement = SubnetRegional | SubnetZonal | SubnetPlacementOther string

fun placement_name :: "subnet_placement \<Rightarrow> string" where
  "placement_name SubnetRegional = ''REGIONAL''"
| "placement_name SubnetZonal = ''ZONAL''"
| "placement_name (SubnetPlacementOther s) = s"

record pb_subnet =
  ps_id :: string
  ps_project :: string
  ps_network :: string
  ps_zone :: string
  ps_region :: string
  ps_placement :: subnet_placement
  ps_v4 :: "string list"
  ps_v6 :: "string list"

record client_subnet =
  cs_id :: string
  cs_project :: string
  cs_network :: string
  cs_zone :: string
  cs_region :: string
  cs_placement :: string
  cs_v4 :: "string list"
  cs_v6 :: "string list"

definition mapSubnetErr :: "string \<Rightarrow> err \<Rightarrow> err" where
  "mapSubnetErr i = by_code (''vpc subnet get '' @ go_quote i) (\<lambda>c m.
     case c of
       CodeNotFound \<Rightarrow> Some (Wrapped ErrInvalidArg (''Subnet '' @ i @ '' not found''))
     | CodePermissionDenied \<Rightarrow> Some (Wrapped ErrInvalidArg (''Subnet '' @ i @ '' not found''))
     | CodeUnavailable \<Rightarrow> Some (Wrapped ErrUnavailable (''vpc subnet '' @ i @ '': '' @ m))
     | CodeDeadlineExceeded \<Rightarrow> Some (Wrapped ErrUnavailable (''vpc subnet '' @ i @ '': '' @ m))
     | CodeInvalidArgument \<Rightarrow> Some (Wrapped ErrInvalidArg (''vpc subnet '' @ i @ '': '' @ m))
     | _ \<Rightarrow> None)"

definition resolveRegion :: "(string \<Rightarrow> err + string) option \<Rightarrow> pb_subnet \<Rightarrow> err + string" where
  "resolveRegion zone_region m =
     (case ps_placement m of
        SubnetRegional \<Rightarrow> Inr (ps_region m)
      | SubnetZonal \<Rightarrow> (case zone_region of
            None \<Rightarrow> Inr ''''
          | Some f \<Rightarrow> if ps_zone m = '''' then Inr '''' else f (ps_zone m))
      | SubnetPlacementOther s \<Rightarrow> Inr '''')"

definition subnetClient_Get ::
  "(string \<Rightarrow> err + string) option \<Rightarrow> (string \<Rightarrow> err + pb_subnet) \<Rightarrow> string \<Rightarrow> err + client_subnet" where
  "subnetClient_Get zone_region stub i =
     (if i = '''' then Inl (empty_arg ''subnet_id'')
      else attempt (mapping_err (mapSubnetErr i) (stub i)) (\<lambda>m.
           attempt (resolveRegion zone_region m) (\<lambda>region.
             Inr \<lparr> cs_id = ps_id m, cs_project = ps_project m, cs_network = ps_network m, cs_zone = ps_zone m,
                   cs_region = region, cs_placement = placement_name (ps_placement m),
                   cs_v4 = ps_v4 m, cs_v6 = ps_v6 m \<rparr>)))"

record pb_nic =
  pn_id :: string
  pn_project :: string
  pn_subnet :: string
  pn_v4_ids :: "string list"
  pn_status :: string

record client_nic =
  cn_id :: string
  cn_project :: string
  cn_subnet :: string
  cn_primary :: string
  cn_status :: string

definition mapNICErr :: "string \<Rightarrow> err \<Rightarrow> err" where
  "mapNICErr i = by_code (''vpc network interface get '' @ go_quote i) (\<lambda>c m.
     case c of
       CodeNotFound \<Rightarrow> Some (Wrapped ErrInvalidArg (''NetworkInterface '' @ i @ '' not found''))
     | CodePermissionDenied \<Rightarrow> Some (Wrapped ErrInvalidArg (''NetworkInterface '' @ i @ '' not found''))
     | CodeFailedPrecondition \<Rightarrow> Some (Wrapped ErrFailedPrecondition (''vpc network interface '' @ i @ '': '' @ m))
     | CodeUnavailable \<Rightarrow> Some (Wrapped ErrUnavailable (''vpc network interface '' @ i @ '': '' @ m))
     | CodeDeadlineExceeded \<Rightarrow> Some (Wrapped ErrUnavailable (''vpc network interface '' @ i @ '': '' @ m))
     | CodeInvalidArgument \<Rightarrow> Some (Wrapped ErrInvalidArg (''vpc network interface '' @ i @ '': '' @ m))
     | _ \<Rightarrow> None)"

definition nicClient_Get :: "(string \<Rightarrow> err + pb_nic) \<Rightarrow> string \<Rightarrow> err + client_nic" where
  "nicClient_Get stub i =
     (if i = '''' then Inl (empty_arg ''nic_id'')
      else attempt (mapping_err (mapNICErr i) (stub i)) (\<lambda>m.
        Inr \<lparr> cn_id = pn_id m, cn_project = pn_project m, cn_subnet = pn_subnet m,
              cn_primary = (case pn_v4_ids m of [] \<Rightarrow> '''' | a # _ \<Rightarrow> a), cn_status = pn_status m \<rparr>))"

text \<open>
  The address message of the network service: its four families (an internal one with its subnet)
  and the references on it (a reference may lack its referrer).
\<close>

record pb_address =
  pa_id :: string
  pa_project :: string
  pa_name :: string
  pa_ext_v4 :: "string option"
  pa_int_v4 :: "(string \<times> string) option"
  pa_int_v6 :: "(string \<times> string) option"
  pa_ext_v6 :: "string option"
  pa_used :: bool
  pa_used_by :: "(string \<times> string) option list"

record client_address =
  ca_id :: string
  ca_project :: string
  ca_name :: string
  ca_value :: string
  ca_family :: string
  ca_external :: bool
  ca_subnet :: string
  ca_used_by :: "(string \<times> string) option"

definition mapAddressErr :: "string \<Rightarrow> err \<Rightarrow> err" where
  "mapAddressErr i = by_code (''vpc address get '' @ go_quote i) (\<lambda>c m.
     case c of
       CodeNotFound \<Rightarrow> Some (Wrapped ErrInvalidArg (''address '' @ i @ '' not found''))
     | CodePermissionDenied \<Rightarrow> Some (Wrapped ErrInvalidArg (''address '' @ i @ '' not found''))
     | CodeUnavailable \<Rightarrow> Some (Wrapped ErrUnavailable (''vpc address '' @ i @ '': '' @ m))
     | CodeDeadlineExceeded \<Rightarrow> Some (Wrapped ErrUnavailable (''vpc address '' @ i @ '': '' @ m))
     | CodeInvalidArgument \<Rightarrow> Some (Wrapped ErrInvalidArg (''vpc address '' @ i @ '': '' @ m))
     | _ \<Rightarrow> None)"

definition projected_address :: "pb_address \<Rightarrow> client_address" where
  "projected_address m =
     (let base = \<lparr> ca_id = pa_id m, ca_project = pa_project m, ca_name = pa_name m, ca_value = '''',
                   ca_family = '''', ca_external = False, ca_subnet = '''', ca_used_by = None \<rparr>;
          out = (case pa_ext_v4 m of
              Some a \<Rightarrow> base \<lparr> ca_value := a, ca_family := IPVersionV4, ca_external := True \<rparr>
            | None \<Rightarrow> (case pa_int_v4 m of
              Some (a, s) \<Rightarrow> base \<lparr> ca_value := a, ca_family := IPVersionV4, ca_subnet := s \<rparr>
            | None \<Rightarrow> (case pa_int_v6 m of
              Some (a, s) \<Rightarrow> base \<lparr> ca_value := a, ca_family := IPVersionV6, ca_subnet := s \<rparr>
            | None \<Rightarrow> (case pa_ext_v6 m of
              Some a \<Rightarrow> base \<lparr> ca_value := a, ca_family := IPVersionV6, ca_external := True \<rparr>
            | None \<Rightarrow> base))))
      in if pa_used m then out \<lparr> ca_used_by := (case pa_used_by m of [] \<Rightarrow> None | r # _ \<Rightarrow> r) \<rparr> else out)"

definition addressClient_Get :: "(string \<Rightarrow> err + pb_address) \<Rightarrow> string \<Rightarrow> err + client_address" where
  "addressClient_Get stub i =
     (if i = '''' then Inl (empty_arg ''address_id'')
      else attempt (mapping_err (mapAddressErr i) (stub i)) (\<lambda>m. Inr (projected_address m)))"

subsection \<open>The wiring\<close>

record geo_conn =
  gc_regions :: "string \<Rightarrow> err + named_resource"
  gc_zone_pages :: "string \<Rightarrow> err + zone_page"
  gc_zones :: "string \<Rightarrow> err + string"

record vpc_conn =
  vc_subnets :: "string \<Rightarrow> err + pb_subnet"
  vc_nics :: "string \<Rightarrow> err + pb_nic"
  vc_addresses :: "string \<Rightarrow> err + pb_address"

record connections =
  to_iam_public :: "(string \<Rightarrow> err + named_resource) option"
  to_iam_internal :: "(string \<Rightarrow> string \<Rightarrow> string \<Rightarrow> err + bool \<times> string) option"
  to_geo :: "geo_conn option"
  to_compute :: "(string \<Rightarrow> err + pb_instance) option"
  to_vpc_public :: "vpc_conn option"

definition subnet_client :: "connections \<Rightarrow> vpc_conn \<Rightarrow> string \<Rightarrow> err + client_subnet" where
  "subnet_client cn v = subnetClient_Get (map_option (\<lambda>g. RegionOfZone (gc_zones g)) (to_geo cn)) (vc_subnets v)"

text \<open>
  What the use-cases see of the clients. The walk over the zones is taken to return; that it does
  exactly when the pages end is shown below.
\<close>

definition dialed_peers :: "(string \<Rightarrow> string \<Rightarrow> err option) \<Rightarrow> connections \<Rightarrow> peers" where
  "dialed_peers valid cn = \<lparr> p_valid_id = valid,
     p_project = map_option (\<lambda>stub i. attempt (projectClient_Get stub i) (\<lambda>_. Inr ())) (to_iam_public cn),
     p_region = map_option (\<lambda>g i. attempt (regionClient_Get (gc_regions g) i) (\<lambda>_. Inr ())) (to_geo cn),
     p_zones = map_option (\<lambda>g i. the (ListZoneIDsInRegion (gc_zone_pages g) i)) (to_geo cn),
     p_subnet = map_option (\<lambda>v i. attempt (subnet_client cn v i) (\<lambda>s.
        Inr \<lparr> sn_network = cs_network s, sn_zone = cs_zone s, sn_region = cs_region s,
              sn_placement = cs_placement s \<rparr>)) (to_vpc_public cn),
     p_address = map_option (\<lambda>v i. attempt (addressClient_Get (vc_addresses v) i) (\<lambda>a.
        Inr \<lparr> ad_project = ca_project a, ad_family = ca_family a, ad_external = ca_external a,
              ad_subnet = ca_subnet a \<rparr>)) (to_vpc_public cn),
     p_check = map_option checkClient_Check (to_iam_internal cn) \<rparr>"

definition dialed_target_peers :: "connections \<Rightarrow> target_peers" where
  "dialed_target_peers cn = \<lparr>
     tp_instance = map_option (\<lambda>stub i. attempt (instanceClient_Get stub i) (\<lambda>m. Inr (ci_zone m))) (to_compute cn),
     tp_nic = map_option (\<lambda>v i. attempt (nicClient_Get (vc_nics v) i) (\<lambda>m. Inr (cn_subnet m))) (to_vpc_public cn),
     tp_subnet = map_option (\<lambda>v i. attempt (subnet_client cn v i) (\<lambda>s.
        Inr \<lparr> sv_zone = cs_zone s, sv_v4 = cs_v4 s, sv_v6 = cs_v6 s \<rparr>)) (to_vpc_public cn) \<rparr>"

subsection \<open>The walk over the zones\<close>

text \<open>The pages a walk from a token sees, and the error it ends with, if it ends.\<close>

inductive walks :: "(string \<Rightarrow> err + zone_page) \<Rightarrow> string \<Rightarrow> zone_page list \<Rightarrow> err option \<Rightarrow> bool"
  for stub :: "string \<Rightarrow> err + zone_page" where
  broken: "stub t = Inl e \<Longrightarrow> walks stub t [] (Some e)"
| last: "stub t = Inr p \<Longrightarrow> zp_next p = '''' \<Longrightarrow> walks stub t [p] None"
| more: "stub t = Inr p \<Longrightarrow> zp_next p \<noteq> '''' \<Longrightarrow> walks stub (zp_next p) ps oe \<Longrightarrow> walks stub t (p # ps) oe"

definition zones_in :: "string \<Rightarrow> zone_page list \<Rightarrow> string list" where
  "zones_in region ps = [z. p \<leftarrow> ps, (z, r) \<leftarrow> zp_zones p, r = region]"

definition walk_result :: "string \<Rightarrow> zone_page list \<Rightarrow> err option \<Rightarrow> err + string list" where
  "walk_result region ps oe = (case oe of Some e \<Rightarrow> Inl (mapZoneErr e) | None \<Rightarrow> Inr (zones_in region ps))"

lemma zones_in_page: "concat (map (\<lambda>(z, r). if r = region then [z] else []) zs) = map fst (filter (\<lambda>(z, r). r = region) zs)"
  by (induction zs) auto

lemma zones_in_Nil: "zones_in region [] = []"
  by (simp add: zones_in_def)

lemma zones_in_Cons: "zones_in region (p # ps) = map fst (filter (\<lambda>(z, r). r = region) (zp_zones p)) @ zones_in region ps"
  by (simp add: zones_in_def zones_in_page)

lemma walk_sound:
  "zone_walk stub region out t = Some r \<Longrightarrow>
   \<exists>ps oe. walks stub t ps oe \<and> r = (case oe of Some e \<Rightarrow> Inl (mapZoneErr e) | None \<Rightarrow> Inr (out @ zones_in region ps))"
proof (induction stub region out t r rule: zone_walk.raw_induct [rotated, consumes 1, case_names page])
  case (page walk stub region out t r)
  show ?case
  proof (cases "stub t")
    case (Inl e)
    with page(2) walks.broken [of stub t e] show ?thesis by fastforce
  next
    case (Inr p)
    show ?thesis
    proof (cases "zp_next p = ''''")
        case True
      then have "r = Inr (out @ zones_in region [p])" using page(2) Inr by (auto simp: zones_in_Cons zones_in_Nil)
      with walks.last [of stub t p, OF Inr True] show ?thesis
        by (intro exI [of _ "[p]"] exI [of _ None]) simp
    next
      case False
      with page(2) Inr obtain ps oe where "walks stub (zp_next p) ps oe"
        and r: "r = (case oe of Some e \<Rightarrow> Inl (mapZoneErr e)
              | None \<Rightarrow> Inr ((out @ map fst (filter (\<lambda>(z, r). r = region) (zp_zones p))) @ zones_in region ps))"
        using page(1) by (fastforce simp: Let_def)
      with walks.more [of stub t p, OF Inr False] show ?thesis
        by (intro exI [of _ "p # ps"] exI [of _ oe]) (simp add: zones_in_Cons split: option.split)
    qed
  qed
qed

lemma walk_complete:
  "walks stub t ps oe \<Longrightarrow>
   zone_walk stub region out t = Some (case oe of Some e \<Rightarrow> Inl (mapZoneErr e) | None \<Rightarrow> Inr (out @ zones_in region ps))"
proof (induction arbitrary: out rule: walks.induct)
  case (more t p ps oe)
  then show ?case by (subst zone_walk.simps) (simp add: zones_in_Cons split: option.split)
qed (simp_all add: zone_walk.simps zones_in_Cons zones_in_Nil)

subsection \<open>Properties\<close>

text \<open>The list of a region's zones returns exactly when the pages of the catalogue end, by an empty
  token or by an error; it then answers the zones of the region on all pages, in their order, or the
  translated error. A catalogue whose tokens never end keeps it busy for ever.\<close>

theorem zone_list_exact:
  assumes "region \<noteq> ''''"
  shows "ListZoneIDsInRegion stub region = Some r \<longleftrightarrow>
      (\<exists>ps oe. walks stub '''' ps oe \<and> r = walk_result region ps oe)"
proof
  assume "ListZoneIDsInRegion stub region = Some r"
  with assms have "zone_walk stub region [] '''' = Some r" by (simp add: ListZoneIDsInRegion_def)
  from walk_sound [OF this] show "\<exists>ps oe. walks stub '''' ps oe \<and> r = walk_result region ps oe"
    by (simp only: walk_result_def append_Nil)
next
  assume "\<exists>ps oe. walks stub '''' ps oe \<and> r = walk_result region ps oe"
  then show "ListZoneIDsInRegion stub region = Some r"
    using assms walk_complete [of stub "''''" _ _ region "[]"]
    by (auto simp: ListZoneIDsInRegion_def walk_result_def split: option.split)
qed

definition sample_pages :: "string \<Rightarrow> err + zone_page" where
  "sample_pages t = (if t = '''' then Inr \<lparr> zp_zones = [(''r1-a'', ''r1''), (''r2-a'', ''r2'')], zp_next = ''p2'' \<rparr>
     else Inr \<lparr> zp_zones = [(''r1-b'', ''r1'')], zp_next = '''' \<rparr>)"

theorem zone_list_exact_witness:
  "ListZoneIDsInRegion sample_pages ''r1'' = Some (Inr [''r1-a'', ''r1-b''])"
proof -
  let ?p1 = "\<lparr> zp_zones = [(''r1-a'', ''r1''), (''r2-a'', ''r2'')], zp_next = ''p2'' \<rparr>"
  let ?p2 = "\<lparr> zp_zones = [(''r1-b'', ''r1'')], zp_next = '''' \<rparr>"
  have "walks sample_pages '''' [?p1, ?p2] None"
    by (rule walks.more; (rule walks.last)?) (simp_all add: sample_pages_def walks.last)
  moreover have "Inr [''r1-a'', ''r1-b''] = walk_result ''r1'' [?p1, ?p2] None"
    by (simp add: walk_result_def zones_in_Cons zones_in_Nil)
  ultimately show ?thesis by (subst zone_list_exact) (simp, blast)
qed

text \<open>An answer that makes the use-cases refuse with UNAVAILABLE.\<close>

definition unavailable :: "err + 'a \<Rightarrow> bool" where
  "unavailable r \<longleftrightarrow> (\<exists>e. r = Inl e \<and> is_err e ErrUnavailable)"

text \<open>Every client reports a service that cannot be reached, or does not answer in time, as
  unavailable: no lookup ever turns an outage into an answer.\<close>

theorem outage_is_unavailable:
  assumes "c \<in> {CodeUnavailable, CodeDeadlineExceeded}" and "i \<noteq> ''''" and "s \<noteq> ''''" and "rel \<noteq> ''''"
  shows "unavailable (projectClient_Get (\<lambda>_. Inl (Status c m)) i)
    \<and> unavailable (regionClient_Get (\<lambda>_. Inl (Status c m)) i)
    \<and> (\<exists>r. ListZoneIDsInRegion (\<lambda>_. Inl (Status c m)) i = Some r \<and> unavailable r)
    \<and> unavailable (RegionOfZone (\<lambda>_. Inl (Status c m)) i)
    \<and> unavailable (instanceClient_Get (\<lambda>_. Inl (Status c m)) i)
    \<and> unavailable (subnetClient_Get zr (\<lambda>_. Inl (Status c m)) i)
    \<and> unavailable (nicClient_Get (\<lambda>_. Inl (Status c m)) i)
    \<and> unavailable (addressClient_Get (\<lambda>_. Inl (Status c m)) i)
    \<and> unavailable (checkClient_Check (\<lambda>_ _ _. Inl (Status c m)) s rel i)"
  using assms
  by (auto simp: unavailable_def projectClient_Get_def regionClient_Get_def ListZoneIDsInRegion_def zone_walk.simps
      RegionOfZone_def instanceClient_Get_def subnetClient_Get_def nicClient_Get_def addressClient_Get_def
      checkClient_Check_def by_code_def mapProjectErr_def mapRegionErr_def mapZoneErr_def mapZoneGetErr_def
      mapInstanceErr_def mapSubnetErr_def mapNICErr_def mapAddressErr_def mapCheckErr_def)

theorem outage_is_unavailable_witness:
  "unavailable (subnetClient_Get None (\<lambda>_. Inl (Status CodeDeadlineExceeded ''slow'')) ''sub1'')"
  using outage_is_unavailable [of CodeDeadlineExceeded "''sub1''" "''u''" "''viewer''"] by simp

text \<open>The lookups of regions, instances, subnets, interfaces and addresses do not tell an object
  that does not exist from one the caller may not see, whatever the service says about it.\<close>

theorem existence_hidden:
  "regionClient_Get (\<lambda>_. Inl (Status CodeNotFound m)) i = regionClient_Get (\<lambda>_. Inl (Status CodePermissionDenied n)) i
   \<and> instanceClient_Get (\<lambda>_. Inl (Status CodeNotFound m)) i = instanceClient_Get (\<lambda>_. Inl (Status CodePermissionDenied n)) i
   \<and> subnetClient_Get zr (\<lambda>_. Inl (Status CodeNotFound m)) i = subnetClient_Get zr (\<lambda>_. Inl (Status CodePermissionDenied n)) i
   \<and> nicClient_Get (\<lambda>_. Inl (Status CodeNotFound m)) i = nicClient_Get (\<lambda>_. Inl (Status CodePermissionDenied n)) i
   \<and> addressClient_Get (\<lambda>_. Inl (Status CodeNotFound m)) i = addressClient_Get (\<lambda>_. Inl (Status CodePermissionDenied n)) i"
  by (simp add: regionClient_Get_def instanceClient_Get_def subnetClient_Get_def nicClient_Get_def
      addressClient_Get_def by_code_def mapRegionErr_def mapInstanceErr_def mapSubnetErr_def mapNICErr_def
      mapAddressErr_def)

text \<open>The answer of a creation when the lookup of its project fails.\<close>

definition project_refusal :: "err \<Rightarrow> string \<Rightarrow> err + unit" where
  "project_refusal e i = mapping_err (\<lambda>x. PeerErrToStatus x ''project'' i)
     (attempt (projectClient_Get (\<lambda>_. Inl e) i) (\<lambda>_. Inr ()))"

text \<open>The lookup of a project does tell them apart: a project that does not exist is answered with
  \<^verbatim>\<open>InvalidArgument\<close>, one the caller may not see with \<^verbatim>\<open>FailedPrecondition\<close>.\<close>

theorem project_existence_visible:
  assumes "i \<noteq> ''''"
  shows "\<exists>t u. project_refusal (Status CodeNotFound m) i = Inl (Status CodeInvalidArgument t)
    \<and> project_refusal (Status CodePermissionDenied n) i = Inl (Status CodeFailedPrecondition u)"
  using assms
  by (simp add: project_refusal_def projectClient_Get_def by_code_def mapProjectErr_def PeerErrToStatus_def)

theorem project_existence_visible_witness:
  "\<exists>t u. project_refusal (Status CodeNotFound '''') ''p9'' = Inl (Status CodeInvalidArgument t)
    \<and> project_refusal (Status CodePermissionDenied '''') ''p9'' = Inl (Status CodeFailedPrecondition u)"
  by (rule project_existence_visible) simp

text \<open>A creation whose project service is down is refused as unavailable and leaves no
  trace: no transaction runs and the network service is not called.\<close>

theorem creation_fails_closed:
  assumes "to_iam_public cn = Some (\<lambda>_. Inl (Status c m))" and "c \<in> {CodeUnavailable, CodeDeadlineExceeded}"
    and "lb_project lb \<noteq> ''''"
  shows "doCreate visit (dialed_peers valid cn) client lb pr specs w
      = (Inl (Status CodeUnavailable ''project lookup unavailable''), w)"
  using assms
  by (auto simp: doCreate_def peer_checks_def dialed_peers_def projectClient_Get_def by_code_def mapProjectErr_def
      PeerErrToStatus_def saga_bind_def saga_check_def)

definition dark :: connections where
  "dark = \<lparr> to_iam_public = Some (\<lambda>_. Inl (Status CodeUnavailable ''down'')), to_iam_internal = None, to_geo = None,
     to_compute = None, to_vpc_public = None \<rparr>"

theorem creation_fails_closed_witness:
  "doCreate (\<lambda>es. es) (dialed_peers (\<lambda>_ _. None) dark) (Some (sample_client False)) sample_lb sample_principal
     sample_specs (sample_world []) = (Inl (Status CodeUnavailable ''project lookup unavailable''), sample_world [])"
  by (rule creation_fails_closed [of _ CodeUnavailable "''down''"]) (simp_all add: dark_def sample_lb_def NewLoadBalancer_def)

end
