(* ===== verification/Vpc_Client.thy ===== *)
theory Vpc_Client
  imports Peer_Clients Jobs
begin

text \<open>
  The client of the network service that allocates, links and releases addresses
  (\<^verbatim>\<open>internal/clients/vpc/internal_address_client.go\<close>). The service is a state of any type with one
  function per call of the generated stubs, a clock and the ticker of the polling loop (started, and
  waited for); each call returns, at the latest by its deadline. \<^verbatim>\<open>retry.OnUnavailable\<close> is a parameter. The polling of an
  operation is a loop that may not return, so every method built on it is an option.
\<close>

subsection \<open>The network service\<close>

text \<open>The response of a finished operation: nothing, an address, or a message of another type.\<close>

datatype op_response = NoResponse | AddressResponse pb_address | ForeignResponse string

record operation =
  op_id :: string
  op_done :: bool
  op_error :: "(code \<times> string) option"
  op_response :: op_response

datatype address_spec =
  ExternalIpv4Spec string
| ExternalIpv6Spec string
| InternalIpv4Spec string
| InternalIpv6Spec string

record create_address =
  cq_project :: string
  cq_name :: string
  cq_spec :: address_spec

record set_reference =
  sq_address :: string
  sq_type :: string
  sq_id :: string
  sq_name :: string
  sq_owned :: bool

record 'v vpc_service =
  sv_create :: "create_address \<Rightarrow> 'v \<Rightarrow> (err + operation) \<times> 'v"
  sv_delete :: "string \<Rightarrow> 'v \<Rightarrow> (err + operation) \<times> 'v"
  sv_get :: "string \<Rightarrow> 'v \<Rightarrow> (err + pb_address) \<times> 'v"
  sv_set_reference :: "set_reference \<Rightarrow> 'v \<Rightarrow> (err + unit) \<times> 'v"
  sv_clear_reference :: "string \<Rightarrow> 'v \<Rightarrow> (err + unit) \<times> 'v"
  sv_operation :: "string \<Rightarrow> 'v \<Rightarrow> (err + operation) \<times> 'v"
  sv_ticker :: "'v \<Rightarrow> 'v"
  sv_tick :: "'v \<Rightarrow> err option \<times> 'v"
  sv_now :: "'v \<Rightarrow> int"

text \<open>
  What the closure given to \<^verbatim>\<open>retry.OnUnavailable\<close> leaves in the captured variable, and the type of
  an attempt; the retry turns an attempt into another one.
\<close>

datatype captured = Nothing | TheOperation operation | TheAddress pb_address

type_synonym 'v try_call = "'v \<Rightarrow> (err + captured) \<times> 'v"
type_synonym 'v retry = "'v try_call \<Rightarrow> 'v try_call"

definition capturing :: "('a \<Rightarrow> captured) \<Rightarrow> (err \<Rightarrow> err + captured) \<Rightarrow> ('v \<Rightarrow> (err + 'a) \<times> 'v) \<Rightarrow> 'v try_call" where
  "capturing ok bad call v = (case call v of (Inl e, v') \<Rightarrow> (bad e, v') | (Inr x, v') \<Rightarrow> (Inr (ok x), v'))"

definition retry_op :: "'v retry \<Rightarrow> ('v \<Rightarrow> (err + operation) \<times> 'v) \<Rightarrow> 'v \<Rightarrow> (err + operation) \<times> 'v" where
  "retry_op rt call v = (case rt (capturing TheOperation Inl call) v of
       (Inl e, v') \<Rightarrow> (Inl e, v')
     | (Inr (TheOperation p), v') \<Rightarrow> (Inr p, v')
     | (Inr _, v') \<Rightarrow> (Inr \<lparr> op_id = '''', op_done = False, op_error = None, op_response = NoResponse \<rparr>, v'))"

subsection \<open>Polling an operation\<close>

definition vpcOpPollInterval :: int where "vpcOpPollInterval = 50 * 1000000"
definition vpcOpPollTimeout :: int where "vpcOpPollTimeout = 15 * 1000000000"

definition operationResult :: "operation \<Rightarrow> err + op_response" where
  "operationResult p = (case op_error p of Some (c, m) \<Rightarrow> Inl (Status c m) | None \<Rightarrow> Inr (op_response p))"

definition poll_timeout :: "string \<Rightarrow> err" where
  "poll_timeout i = OtherErr (''vpc operation '' @ i @ '' did not finish within 15s'')"

text \<open>One round: the tick (or the end of the context), the call, and what it says.\<close>

datatype 'a round = Finished 'a | Again

definition poll_round ::
  "'v vpc_service \<Rightarrow> 'v retry \<Rightarrow> string \<Rightarrow> int \<Rightarrow> 'v \<Rightarrow> (err + op_response) round \<times> 'v" where
  "poll_round S rt i deadline v =
     (case sv_tick S v of
        (Some e, v1) \<Rightarrow> (Finished (Inl e), v1)
      | (None, v1) \<Rightarrow>
          (case retry_op rt (sv_operation S i) v1 of
             (Inl e, v2) \<Rightarrow> (Finished (Inl e), v2)
           | (Inr got, v2) \<Rightarrow>
               if op_done got then (Finished (operationResult got), v2)
               else if sv_now S v2 > deadline then (Finished (Inl (poll_timeout i)), v2)
               else (Again, v2)))"

partial_function (option) poll ::
  "'v vpc_service \<Rightarrow> 'v retry \<Rightarrow> string \<Rightarrow> int \<Rightarrow> 'v \<Rightarrow> ((err + op_response) \<times> 'v) option" where
  "poll S rt i deadline v =
     (case poll_round S rt i deadline v of
        (Finished r, v') \<Rightarrow> Some (r, v')
      | (Again, v') \<Rightarrow> poll S rt i deadline v')"

definition waitOperation ::
  "'v vpc_service \<Rightarrow> 'v retry \<Rightarrow> operation \<Rightarrow> 'v \<Rightarrow> ((err + op_response) \<times> 'v) option" where
  "waitOperation S rt p v =
     (if op_done p then Some (operationResult p, v)
      else poll S rt (op_id p) (sv_now S v + vpcOpPollTimeout) (sv_ticker S v))"

text \<open>The same with a bound on the number of rounds.\<close>

fun poll_rounds ::
  "nat \<Rightarrow> 'v vpc_service \<Rightarrow> 'v retry \<Rightarrow> string \<Rightarrow> int \<Rightarrow> 'v \<Rightarrow> ((err + op_response) \<times> 'v) option" where
  "poll_rounds 0 S rt i deadline v = None"
| "poll_rounds (Suc n) S rt i deadline v =
     (case poll_round S rt i deadline v of
        (Finished r, v') \<Rightarrow> Some (r, v')
      | (Again, v') \<Rightarrow> poll_rounds n S rt i deadline v')"

lemma poll_rounds_poll: "poll_rounds n S rt i dl v = Some r \<Longrightarrow> poll S rt i dl v = Some r"
proof (induction n arbitrary: v)
  case (Suc n)
  then show ?case by (subst poll.simps) (auto split: prod.splits round.splits)
qed simp

subsection \<open>Errors\<close>

definition mapAllocErr :: "string \<Rightarrow> err \<Rightarrow> err" where
  "mapAllocErr a e =
     (case grpc_status e of
        None \<Rightarrow> wrapping (''vpc address allocate '' @ go_quote a) e
      | Some (c, m) \<Rightarrow>
         (case c of
            CodeNotFound \<Rightarrow> Wrapped ErrInvalidArg (''address '' @ a @ '' not found'')
          | CodeFailedPrecondition \<Rightarrow> Wrapped ErrFailedPrecondition (''vpc address allocate: '' @ m)
          | CodeAlreadyExists \<Rightarrow> Wrapped ErrFailedPrecondition (''vpc address allocate: '' @ m)
          | CodeUnavailable \<Rightarrow> Wrapped ErrUnavailable (''vpc address allocate: '' @ m)
          | CodeDeadlineExceeded \<Rightarrow> Wrapped ErrUnavailable (''vpc address allocate: '' @ m)
          | CodeInvalidArgument \<Rightarrow> Wrapped ErrInvalidArg (''vpc address allocate: '' @ m)
          | _ \<Rightarrow> wrapping ''vpc address allocate'' e))"

definition set_reference_err :: "string \<Rightarrow> err \<Rightarrow> err" where
  "set_reference_err a = by_code (''vpc set address reference '' @ go_quote a) (\<lambda>c m.
     case c of
       CodeAlreadyExists \<Rightarrow> Some (Wrapped ErrFailedPrecondition (''address '' @ a @ '' already used by another resource''))
     | CodeNotFound \<Rightarrow> Some (Wrapped ErrInvalidArg (''address '' @ a @ '' not found''))
     | CodeInvalidArgument \<Rightarrow> Some (Wrapped ErrInvalidArg (''vpc set address reference '' @ a @ '': '' @ m))
     | CodeUnavailable \<Rightarrow> Some (Wrapped ErrUnavailable (''vpc set address reference '' @ a @ '': '' @ m))
     | CodeDeadlineExceeded \<Rightarrow> Some (Wrapped ErrUnavailable (''vpc set address reference '' @ a @ '': '' @ m))
     | _ \<Rightarrow> None)"

definition attach_err :: "string \<Rightarrow> err \<Rightarrow> err" where
  "attach_err a = by_code (''vpc set address reference '' @ go_quote a) (\<lambda>c m.
     case c of
       CodeAlreadyExists \<Rightarrow> Some (Wrapped ErrFailedPrecondition (''address '' @ a @ '' already used by another resource''))
     | CodeNotFound \<Rightarrow> Some (Wrapped ErrInvalidArg ''Illegal argument addressId'')
     | CodeInvalidArgument \<Rightarrow> Some (Wrapped ErrInvalidArg ''Illegal argument addressId'')
     | CodePermissionDenied \<Rightarrow> Some (Wrapped ErrInvalidArg ''Illegal argument addressId'')
     | CodeUnavailable \<Rightarrow> Some (Wrapped ErrUnavailable (''vpc set address reference '' @ a @ '': '' @ m))
     | CodeDeadlineExceeded \<Rightarrow> Some (Wrapped ErrUnavailable (''vpc set address reference '' @ a @ '': '' @ m))
     | _ \<Rightarrow> None)"

text \<open>A reference that is not there is cleared.\<close>

definition clear_reference_err :: "string \<Rightarrow> err \<Rightarrow> err + captured" where
  "clear_reference_err a e =
     (if map_option fst (grpc_status e) = Some CodeNotFound then Inr Nothing
      else Inl (by_code (''vpc clear address reference '' @ go_quote a) (\<lambda>c m.
        case c of
          CodeInvalidArgument \<Rightarrow> Some (Wrapped ErrInvalidArg (''vpc clear address reference '' @ a @ '': '' @ m))
        | CodeUnavailable \<Rightarrow> Some (Wrapped ErrUnavailable (''vpc clear address reference '' @ a @ '': '' @ m))
        | CodeDeadlineExceeded \<Rightarrow> Some (Wrapped ErrUnavailable (''vpc clear address reference '' @ a @ '': '' @ m))
        | _ \<Rightarrow> None) e))"

definition without_answer :: "(err + 'a) \<times> 'v \<Rightarrow> (err + unit) \<times> 'v" where
  "without_answer x = (case x of (Inl e, v) \<Rightarrow> (Inl e, v) | (Inr _, v) \<Rightarrow> (Inr (), v))"

subsection \<open>Calls that wait\<close>

text \<open>A computation on the service that may not return.\<close>

type_synonym ('v, 'a) waiting = "'v \<Rightarrow> ((err + 'a) \<times> 'v) option"

definition at_once :: "('v \<Rightarrow> (err + 'a) \<times> 'v) \<Rightarrow> ('v, 'a) waiting" where
  "at_once f v = Some (f v)"

definition wait_answer :: "err + 'a \<Rightarrow> ('v, 'a) waiting" where
  "wait_answer r v = Some (r, v)"

text \<open>The error and the answer of a call each with what follows it.\<close>

definition wait_then :: "('v, 'a) waiting \<Rightarrow> (err \<Rightarrow> ('v, 'b) waiting) \<Rightarrow> ('a \<Rightarrow> ('v, 'b) waiting) \<Rightarrow> ('v, 'b) waiting" where
  "wait_then m bad ok v = (case m v of
       None \<Rightarrow> None
     | Some (Inl e, v') \<Rightarrow> bad e v'
     | Some (Inr x, v') \<Rightarrow> ok x v')"

definition wait_fail :: "(err \<Rightarrow> err) \<Rightarrow> err \<Rightarrow> ('v, 'a) waiting" where
  "wait_fail f e = wait_answer (Inl (f e))"

subsection \<open>The operations of the client\<close>

definition validateExternalReq :: "alloc_external \<Rightarrow> err option" where
  "validateExternalReq rq =
     (if ae_project rq = '''' then Some (empty_arg ''project_id'')
      else if ae_zone rq = '''' then Some (empty_arg ''zone_id'')
      else if ow_kind (ae_owner rq) = '''' \<or> ow_id (ae_owner rq) = '''' then Some (empty_arg ''owner'')
      else None)"

definition validateInternalReq :: "alloc_internal \<Rightarrow> err option" where
  "validateInternalReq rq =
     (if ai_project rq = '''' then Some (empty_arg ''project_id'')
      else if ai_subnet rq = '''' then Some (empty_arg ''subnet_id'')
      else if ow_kind (ai_owner rq) = '''' \<or> ow_id (ai_owner rq) = '''' then Some (empty_arg ''owner'')
      else None)"

definition createAddressAndWait :: "'v vpc_service \<Rightarrow> 'v retry \<Rightarrow> create_address \<Rightarrow> ('v, pb_address) waiting" where
  "createAddressAndWait S rt rq =
     wait_then (at_once (retry_op rt (sv_create S rq))) (wait_fail (mapAllocErr '''')) (\<lambda>p.
     wait_then (waitOperation S rt p) (wait_fail (mapAllocErr '''')) (\<lambda>resp. wait_answer (case resp of
       NoResponse \<Rightarrow> Inl (OtherErr (''vpc create address: operation '' @ op_id p @ '' returned no response''))
     | ForeignResponse m \<Rightarrow> Inl (OtherErr (''vpc create address: unmarshal operation response: '' @ m))
     | AddressResponse a \<Rightarrow> Inr a)))"

definition SetReference ::
  "'v vpc_service \<Rightarrow> 'v retry \<Rightarrow> string \<Rightarrow> address_owner \<Rightarrow> bool \<Rightarrow> 'v \<Rightarrow> (err + unit) \<times> 'v" where
  "SetReference S rt a owner owned v =
     (if a = '''' then (Inl (empty_arg ''address_id''), v)
      else if ow_kind owner = '''' then (Inl (empty_arg ''owner.Kind''), v)
      else if ow_id owner = '''' then (Inl (empty_arg ''owner.ID''), v)
      else without_answer (rt (capturing (\<lambda>_. Nothing) (\<lambda>e. Inl (set_reference_err a e))
        (sv_set_reference S \<lparr> sq_address = a, sq_type = ow_kind owner, sq_id = ow_id owner,
           sq_name = ow_name owner, sq_owned = owned \<rparr>)) v))"

definition client_ClearReference :: "'v vpc_service \<Rightarrow> 'v retry \<Rightarrow> string \<Rightarrow> 'v \<Rightarrow> (err + unit) \<times> 'v" where
  "client_ClearReference S rt a v =
     (if a = '''' then (Inl (empty_arg ''address_id''), v)
      else without_answer (rt (capturing (\<lambda>_. Nothing) (clear_reference_err a) (sv_clear_reference S a)) v))"

text \<open>An address that is not there is deleted, whether the call or the operation says so.\<close>

definition not_there :: "err \<Rightarrow> bool" where
  "not_there e \<longleftrightarrow> map_option fst (grpc_status e) = Some CodeNotFound"

definition delete_call :: "'v vpc_service \<Rightarrow> 'v retry \<Rightarrow> string \<Rightarrow> 'v \<Rightarrow> (err + captured) \<times> 'v" where
  "delete_call S rt a = rt (capturing TheOperation (\<lambda>e. if not_there e then Inr Nothing else Inl e) (sv_delete S a))"

definition client_FreeIP :: "'v vpc_service \<Rightarrow> 'v retry \<Rightarrow> string \<Rightarrow> ('v, unit) waiting" where
  "client_FreeIP S rt a =
     (if a = '''' then wait_answer (Inl (empty_arg ''address_id''))
      else wait_then (at_once (delete_call S rt a)) (wait_fail (mapAllocErr a)) (\<lambda>got. case got of
          TheOperation p \<Rightarrow> wait_then (waitOperation S rt p)
            (\<lambda>e. if not_there e then wait_answer (Inr ()) else wait_fail (mapAllocErr a) e)
            (\<lambda>_. wait_answer (Inr ()))
        | _ \<Rightarrow> wait_answer (Inr ())))"

text \<open>The value of an address of any family; an address without a family has none.\<close>

definition resolved_value :: "pb_address \<Rightarrow> string" where
  "resolved_value m =
     (case pa_int_v4 m of Some (a, s) \<Rightarrow> a
      | None \<Rightarrow> (case pa_int_v6 m of Some (a, s) \<Rightarrow> a
      | None \<Rightarrow> (case pa_ext_v4 m of Some a \<Rightarrow> a
      | None \<Rightarrow> (case pa_ext_v6 m of Some a \<Rightarrow> a | None \<Rightarrow> ''''))))"

definition resolveAddressValue :: "'v vpc_service \<Rightarrow> 'v retry \<Rightarrow> string \<Rightarrow> 'v \<Rightarrow> (err + string) \<times> 'v" where
  "resolveAddressValue S rt a v =
     (case rt (capturing TheAddress Inl (sv_get S a)) v of
        (Inl e, v') \<Rightarrow> (Inl (mapAllocErr a e), v')
      | (Inr (TheAddress m), v') \<Rightarrow> (Inr (resolved_value m), v')
      | (Inr _, v') \<Rightarrow> (Inr '''', v'))"

text \<open>The reference set here does not carry the name of the owner.\<close>

definition attach_call :: "'v vpc_service \<Rightarrow> 'v retry \<Rightarrow> attach_request \<Rightarrow> 'v \<Rightarrow> (err + captured) \<times> 'v" where
  "attach_call S rt rq = rt (capturing (\<lambda>_. Nothing) (\<lambda>e. Inl (attach_err (ar_address rq) e))
     (sv_set_reference S \<lparr> sq_address = ar_address rq, sq_type = ow_kind (ar_owner rq), sq_id = ow_id (ar_owner rq),
        sq_name = '''', sq_owned = ar_owned rq \<rparr>))"

definition client_AttachExisting ::
  "'v vpc_service \<Rightarrow> 'v retry \<Rightarrow> attach_request \<Rightarrow> 'v \<Rightarrow> (err + alloc_response) \<times> 'v" where
  "client_AttachExisting S rt rq v =
     (if ar_address rq = '''' then (Inl (empty_arg ''address_id''), v)
      else if ow_kind (ar_owner rq) = '''' \<or> ow_id (ar_owner rq) = '''' then (Inl (empty_arg ''owner''), v)
      else (case attach_call S rt rq v of
          (Inl e, v1) \<Rightarrow> (Inl e, v1)
        | (Inr _, v1) \<Rightarrow> (case resolveAddressValue S rt (ar_address rq) v1 of
              (Inl e, v2) \<Rightarrow> (Inl e, v2)
            | (Inr ip, v2) \<Rightarrow> (Inr \<lparr> rs_address_id = ar_address rq, rs_value = ip \<rparr>, v2))))"

definition allocFromCreate ::
  "'v vpc_service \<Rightarrow> 'v retry \<Rightarrow> create_address \<Rightarrow> address_owner \<Rightarrow> (pb_address \<Rightarrow> string) \<Rightarrow>
   ('v, alloc_response) waiting" where
  "allocFromCreate S rt rq owner readIP =
     wait_then (createAddressAndWait S rt rq) (wait_fail id) (\<lambda>addr.
     wait_then (at_once (SetReference S rt (pa_id addr) owner True))
       (\<lambda>e. wait_then (client_FreeIP S rt (pa_id addr)) (\<lambda>_. wait_fail id e) (\<lambda>_. wait_fail id e))
       (\<lambda>_. wait_answer (Inr \<lparr> rs_address_id = pa_id addr, rs_value = readIP addr \<rparr>)))"

definition checked_first :: "err option \<Rightarrow> ('v, 'a) waiting \<Rightarrow> ('v, 'a) waiting" where
  "checked_first e m = (case e of Some x \<Rightarrow> wait_answer (Inl x) | None \<Rightarrow> m)"

definition client_AllocateExternalIP :: "'v vpc_service \<Rightarrow> 'v retry \<Rightarrow> alloc_external \<Rightarrow> ('v, alloc_response) waiting" where
  "client_AllocateExternalIP S rt rq = checked_first (validateExternalReq rq)
     (allocFromCreate S rt \<lparr> cq_project = ae_project rq, cq_name = ae_name rq, cq_spec = ExternalIpv4Spec (ae_zone rq) \<rparr>
        (ae_owner rq) (\<lambda>m. case pa_ext_v4 m of Some a \<Rightarrow> a | None \<Rightarrow> ''''))"

definition client_AllocateExternalIPv6 :: "'v vpc_service \<Rightarrow> 'v retry \<Rightarrow> alloc_external \<Rightarrow> ('v, alloc_response) waiting" where
  "client_AllocateExternalIPv6 S rt rq = checked_first (validateExternalReq rq)
     (allocFromCreate S rt \<lparr> cq_project = ae_project rq, cq_name = ae_name rq, cq_spec = ExternalIpv6Spec (ae_zone rq) \<rparr>
        (ae_owner rq) (\<lambda>m. case pa_ext_v6 m of Some a \<Rightarrow> a | None \<Rightarrow> ''''))"

definition client_AllocateInternalIP :: "'v vpc_service \<Rightarrow> 'v retry \<Rightarrow> alloc_internal \<Rightarrow> ('v, alloc_response) waiting" where
  "client_AllocateInternalIP S rt rq = checked_first (validateInternalReq rq)
     (allocFromCreate S rt \<lparr> cq_project = ai_project rq, cq_name = ai_name rq, cq_spec = InternalIpv4Spec (ai_subnet rq) \<rparr>
        (ai_owner rq) (\<lambda>m. case pa_int_v4 m of Some (a, s) \<Rightarrow> a | None \<Rightarrow> ''''))"

definition client_AllocateInternalIPv6 :: "'v vpc_service \<Rightarrow> 'v retry \<Rightarrow> alloc_internal \<Rightarrow> ('v, alloc_response) waiting" where
  "client_AllocateInternalIPv6 S rt rq = checked_first (validateInternalReq rq)
     (allocFromCreate S rt \<lparr> cq_project = ai_project rq, cq_name = ai_name rq, cq_spec = InternalIpv6Spec (ai_subnet rq) \<rparr>
        (ai_owner rq) (\<lambda>m. case pa_int_v6 m of Some (a, s) \<Rightarrow> a | None \<Rightarrow> ''''))"

text \<open>
  The client as the use-cases see it, for a service whose operations are always waited for to the
  end (\<open>calls_return\<close> below says when that is).
\<close>

definition internal_client :: "'v vpc_service \<Rightarrow> 'v retry \<Rightarrow> 'v address_client" where
  "internal_client S rt = \<lparr>
     AllocateInternalIP = (\<lambda>rq v. the (client_AllocateInternalIP S rt rq v)),
     AllocateInternalIPv6 = (\<lambda>rq v. the (client_AllocateInternalIPv6 S rt rq v)),
     AllocateExternalIP = (\<lambda>rq v. the (client_AllocateExternalIP S rt rq v)),
     AllocateExternalIPv6 = (\<lambda>rq v. the (client_AllocateExternalIPv6 S rt rq v)),
     AttachExisting = client_AttachExisting S rt,
     FreeIP = (\<lambda>a v. the (client_FreeIP S rt a v)),
     ClearReference = client_ClearReference S rt \<rparr>"

subsection \<open>What the client relies on\<close>

text \<open>
  \<^verbatim>\<open>retry.OnUnavailable\<close>: it makes one or more attempts, each from where the last one left the
  service, stops at the first success and returns it.
\<close>

definition attempts :: "nat \<Rightarrow> 'v try_call \<Rightarrow> 'v \<Rightarrow> 'v" where
  "attempts n f = ((\<lambda>v. snd (f v)) ^^ n)"

definition lawful_retry :: "'v retry \<Rightarrow> bool" where
  "lawful_retry rt \<longleftrightarrow> (\<forall>f v. \<exists>n. snd (rt f v) = attempts (Suc n) f v
     \<and> (\<forall>x. fst (rt f v) = Inr x \<longrightarrow> fst (f (attempts n f v)) = Inr x))
   \<and> (\<forall>f v x v'. f v = (Inr x, v') \<longrightarrow> rt f v = (Inr x, v'))"

text \<open>
  The clock and the ticker of the Go runtime: \<open>due\<close> is a lower bound of the time of the next tick.
  A ticker first fires an interval after it was started, each tick moves the bound by an interval (a slow receiver
  drops ticks), and a call moves neither the clock nor the bound back.
\<close>

definition timely :: "'v vpc_service \<Rightarrow> ('v \<Rightarrow> int) \<Rightarrow> bool" where
  "timely S due \<longleftrightarrow>
     (\<forall>v. due (sv_ticker S v) \<ge> sv_now S v + vpcOpPollInterval)
   \<and> (\<forall>v v'. sv_tick S v = (None, v') \<longrightarrow> sv_now S v' \<ge> due v \<and> due v' \<ge> due v + vpcOpPollInterval)
   \<and> (\<forall>i v. sv_now S (snd (sv_operation S i v)) \<ge> sv_now S v \<and> due (snd (sv_operation S i v)) \<ge> due v)"

subsection \<open>The wait returns\<close>

lemma lawful_retry_invariant:
  assumes "lawful_retry rt" and "\<And>v. P v (snd (f v))" and "\<And>v. P v v" and "\<And>u v w. P u v \<Longrightarrow> P v w \<Longrightarrow> P u w"
  shows "P v (snd (rt f v))"
proof -
  have "P v (attempts n f v)" for n
    by (induction n) (use assms(2-4) in \<open>auto simp: attempts_def intro: assms(4)\<close>)
  then show ?thesis using assms(1) by (metis lawful_retry_def)
qed

lemma retry_op_snd: "snd (retry_op rt call v) = snd (rt (capturing TheOperation Inl call) v)"
  by (auto simp: retry_op_def split: prod.splits sum.splits captured.splits)

lemma capturing_snd [simp]: "snd (capturing ok bad call v) = snd (call v)"
  by (simp add: capturing_def split: prod.splits sum.splits)

lemma poll_round_time:
  assumes "lawful_retry rt" and "timely S due" and "poll_round S rt i dl v = (Again, v')"
  shows "sv_now S v' \<ge> due v" and "due v' \<ge> due v + vpcOpPollInterval" and "sv_now S v' \<le> dl"
proof -
  obtain v1 where tick: "sv_tick S v = (None, v1)" and v': "v' = snd (retry_op rt (sv_operation S i) v1)"
    and dl: "sv_now S v' \<le> dl"
    using assms(3) by (auto simp: poll_round_def split: prod.splits option.splits sum.splits if_splits)
  have "sv_now S v1 \<le> sv_now S v' \<and> due v1 \<le> due v'"
    unfolding v' retry_op_snd using assms(2)
    by (intro lawful_retry_invariant [OF assms(1), of "\<lambda>x y. sv_now S x \<le> sv_now S y \<and> due x \<le> due y"])
      (auto simp: timely_def)
  moreover have "sv_now S v1 \<ge> due v \<and> due v1 \<ge> due v + vpcOpPollInterval"
    using assms(2) tick by (auto simp: timely_def)
  ultimately show "sv_now S v' \<ge> due v" "due v' \<ge> due v + vpcOpPollInterval" "sv_now S v' \<le> dl"
    using dl by linarith+
qed

lemma poll_rounds_enough:
  assumes "lawful_retry rt" and "timely S due"
  shows "dl < due v + int n * vpcOpPollInterval \<Longrightarrow> \<exists>r. poll_rounds (Suc n) S rt i dl v = Some r"
proof (induction n arbitrary: v)
  case 0
  then show ?case using poll_round_time [OF assms, of i dl v]
    by (fastforce split: prod.splits round.splits)
next
  case (Suc n)
  show ?case
  proof (cases "poll_round S rt i dl v")
    case (Pair r v')
    show ?thesis
    proof (cases r)
      case Again
      from poll_round_time [OF assms Pair [unfolded Again]] Suc.prems
      have "dl < due v' + int n * vpcOpPollInterval" by (simp add: algebra_simps)
      from Suc.IH [OF this] Pair Again show ?thesis by simp
    qed (simp add: Pair)
  qed
qed

lemma waitOperation_rounds:
  assumes "lawful_retry rt" and "timely S due" and "\<not> op_done p"
  shows "\<exists>r. poll_rounds 301 S rt (op_id p) (sv_now S v + vpcOpPollTimeout) (sv_ticker S v) = Some r
    \<and> waitOperation S rt p v = Some r"
proof -
  have "due (sv_ticker S v) \<ge> sv_now S v + vpcOpPollInterval" using assms(2) by (simp add: timely_def)
  then have "sv_now S v + vpcOpPollTimeout < due (sv_ticker S v) + int 300 * vpcOpPollInterval"
    by (simp add: vpcOpPollTimeout_def vpcOpPollInterval_def)
  from poll_rounds_enough [OF assms(1,2) this] obtain r
    where "poll_rounds (Suc 300) S rt (op_id p) (sv_now S v + vpcOpPollTimeout) (sv_ticker S v) = Some r" by blast
  with poll_rounds_poll [OF this] assms(3) show ?thesis
    by (intro exI [of _ r]) (simp add: waitOperation_def)
qed

subsection \<open>Every call returns\<close>

definition returns :: "('v, 'a) waiting \<Rightarrow> bool" where
  "returns m \<longleftrightarrow> (\<forall>v. m v \<noteq> None)"

lemma returns_intros [intro!]:
  "returns (at_once f)" "returns (wait_answer r)" "returns (wait_fail g e)"
  by (simp_all add: returns_def at_once_def wait_answer_def wait_fail_def)

lemma returns_then [intro!]:
  assumes "returns m" and "\<And>e. returns (bad e)" and "\<And>x. returns (ok x)"
  shows "returns (wait_then m bad ok)"
  using assms by (auto simp: returns_def wait_then_def split: option.splits prod.splits sum.splits)

lemma returns_checked [intro!]: "returns m \<Longrightarrow> returns (checked_first e m)"
  by (auto simp: checked_first_def split: option.split)

lemma returns_wait:
  assumes "lawful_retry rt" and "timely S due"
  shows "returns (waitOperation S rt p)"
proof (cases "op_done p")
  case True
  then show ?thesis by (simp add: returns_def waitOperation_def)
next
  case False
  from waitOperation_rounds [OF assms False] show ?thesis unfolding returns_def by (metis option.distinct(1))
qed

lemma returns_free:
  assumes "lawful_retry rt" and "timely S due"
  shows "returns (client_FreeIP S rt a)"
  unfolding client_FreeIP_def using returns_wait [OF assms]
  by (auto split: captured.split)

lemma returns_allocation:
  assumes "lawful_retry rt" and "timely S due"
  shows "returns (allocFromCreate S rt rq owner readIP)"
  unfolding allocFromCreate_def createAddressAndWait_def
  using returns_wait [OF assms] returns_free [OF assms] by auto

text \<open>C16: every call of the client returns, whatever the network service answers and however long its
  operation takes: a wait ends within 301 rounds of the polling loop.\<close>

theorem calls_return:
  assumes "lawful_retry rt" and "timely S due"
  shows "client_AllocateExternalIP S rt rqx v \<noteq> None \<and> client_AllocateExternalIPv6 S rt rqx v \<noteq> None
    \<and> client_AllocateInternalIP S rt rqi v \<noteq> None \<and> client_AllocateInternalIPv6 S rt rqi v \<noteq> None
    \<and> client_FreeIP S rt a v \<noteq> None
    \<and> (op_done p \<or> (\<exists>r. waitOperation S rt p v = Some r
         \<and> poll_rounds 301 S rt (op_id p) (sv_now S v + vpcOpPollTimeout) (sv_ticker S v) = Some r))"
proof -
  have "returns (client_AllocateExternalIP S rt rqx)" "returns (client_AllocateExternalIPv6 S rt rqx)"
    "returns (client_AllocateInternalIP S rt rqi)" "returns (client_AllocateInternalIPv6 S rt rqi)"
    unfolding client_AllocateExternalIP_def client_AllocateExternalIPv6_def client_AllocateInternalIP_def
      client_AllocateInternalIPv6_def
    using returns_allocation [OF assms] by auto
  with returns_free [OF assms] waitOperation_rounds [OF assms] show ?thesis
    unfolding returns_def by blast
qed

text \<open>
  A network service for the examples: the references set so far and a clock. Its operations never finish, an
  address cannot be read, and a tick comes every interval.
\<close>

definition never_done :: operation where
  "never_done = \<lparr> op_id = ''op1'', op_done = False, op_error = None, op_response = NoResponse \<rparr>"

definition slow_service :: "((string \<times> string) list \<times> int) vpc_service" where
  "slow_service = \<lparr> sv_create = (\<lambda>rq v. (Inr never_done, v)), sv_delete = (\<lambda>a v. (Inr never_done, v)),
     sv_get = (\<lambda>a v. (Inl (Status CodeUnavailable ''down''), v)),
     sv_set_reference = (\<lambda>rq (refs, t). (Inr (), ((sq_address rq, sq_id rq) # refs, t))),
     sv_clear_reference = (\<lambda>a (refs, t). (Inr (), (filter (\<lambda>(b, x). b \<noteq> a) refs, t))),
     sv_operation = (\<lambda>i v. (Inr never_done, v)), sv_ticker = (\<lambda>v. v),
     sv_tick = (\<lambda>(refs, t). (None, (refs, t + vpcOpPollInterval))), sv_now = snd \<rparr>"

definition only_once :: "'v retry" where
  "only_once f = f"

lemma only_once_lawful: "lawful_retry only_once"
  unfolding lawful_retry_def only_once_def by (auto simp: attempts_def intro!: exI [of _ 0])

lemma slow_service_timely: "timely slow_service (\<lambda>v. snd v + vpcOpPollInterval)"
  by (auto simp: timely_def slow_service_def)

theorem calls_return_witness:
  "client_FreeIP slow_service only_once ''adr1'' ([], 0) \<noteq> None
   \<and> (\<exists>r. waitOperation slow_service only_once never_done ([], 0) = Some r)"
  using calls_return [OF only_once_lawful slow_service_timely, of undefined "([], 0)" undefined "''adr1''" never_done]
  unfolding never_done_def operation.simps by blast

subsection \<open>Allocations\<close>

lemma retry_success:
  assumes "lawful_retry rt" and "rt f v = (Inr x, v')"
  shows "\<exists>n. f (attempts n f v) = (Inr x, v')"
proof -
  from assms(1) obtain n where "snd (rt f v) = attempts (Suc n) f v"
    and "\<forall>x. fst (rt f v) = Inr x \<longrightarrow> fst (f (attempts n f v)) = Inr x"
    unfolding lawful_retry_def by blast
  with assms(2) show ?thesis by (intro exI [of _ n]) (auto simp: attempts_def prod_eq_iff)
qed

lemma capturing_Inr:
  "(\<And>e. \<exists>e'. bad e = Inl e') \<Longrightarrow> capturing ok bad call v = (Inr c, v') \<Longrightarrow> \<exists>x. call v = (Inr x, v')"
  by (auto simp: capturing_def split: prod.splits sum.splits) (metis sum.distinct(1))

lemma SetReference_Inr:
  assumes "lawful_retry rt" and "SetReference S rt a owner owned v = (Inr u, v')"
  shows "\<exists>v0. sv_set_reference S \<lparr> sq_address = a, sq_type = ow_kind owner, sq_id = ow_id owner,
      sq_name = ow_name owner, sq_owned = owned \<rparr> v0 = (Inr (), v')"
proof -
  let ?f = "capturing (\<lambda>_. Nothing) (\<lambda>e. Inl (set_reference_err a e)) (sv_set_reference S \<lparr> sq_address = a,
    sq_type = ow_kind owner, sq_id = ow_id owner, sq_name = ow_name owner, sq_owned = owned \<rparr>)"
  from assms(2) obtain c where "rt ?f v = (Inr c, v')"
    by (auto simp: SetReference_def without_answer_def split: if_splits prod.splits sum.splits)
  from retry_success [OF assms(1) this] obtain n where n: "?f (attempts n ?f v) = (Inr c, v')" by blast
  from capturing_Inr [OF _ n] obtain x :: unit where
    "sv_set_reference S \<lparr> sq_address = a, sq_type = ow_kind owner, sq_id = ow_id owner, sq_name = ow_name owner,
       sq_owned = owned \<rparr> (attempts n ?f v) = (Inr x, v')" by auto
  then show ?thesis by (cases x) blast
qed

text \<open>C15: an allocated address is linked to its owner before anyone sees it: the last thing an allocation
  does is the call that sets the owner's reference, which succeeded. If that call fails, the client asks for
  the address to be deleted and answers with the error of the call.\<close>

theorem allocation_linked:
  assumes "lawful_retry rt" and "createAddressAndWait S rt rq v = Some (Inr addr, v1)"
    and "allocFromCreate S rt rq owner readIP v = Some (r, v')"
  shows "(\<exists>v0. r = Inr \<lparr> rs_address_id = pa_id addr, rs_value = readIP addr \<rparr>
      \<and> sv_set_reference S \<lparr> sq_address = pa_id addr, sq_type = ow_kind owner, sq_id = ow_id owner,
           sq_name = ow_name owner, sq_owned = True \<rparr> v0 = (Inr (), v'))
   \<or> (\<exists>e v2 x. r = Inl e \<and> SetReference S rt (pa_id addr) owner True v1 = (Inl e, v2)
      \<and> client_FreeIP S rt (pa_id addr) v2 = Some (x, v'))"
proof (cases "SetReference S rt (pa_id addr) owner True v1")
  case (Pair x v2)
  show ?thesis
  proof (cases x)
    case (Inr u)
    with assms Pair SetReference_Inr [OF assms(1), of S "pa_id addr" owner True v1 u v2] show ?thesis
      by (auto simp: allocFromCreate_def wait_then_def at_once_def wait_answer_def)
  next
    case (Inl e)
    with assms Pair show ?thesis
      by (auto simp: allocFromCreate_def wait_then_def at_once_def wait_answer_def wait_fail_def
          split: option.splits prod.splits sum.splits)
  qed
qed

definition fresh_address :: pb_address where
  "fresh_address = \<lparr> pa_id = ''adr1'', pa_project = ''p1'', pa_name = '''', pa_ext_v4 = None,
     pa_int_v4 = Some (''10.0.0.7'', ''sub1''), pa_int_v6 = None, pa_ext_v6 = None, pa_used = False, pa_used_by = [] \<rparr>"

definition prompt_service :: "((string \<times> string) list \<times> int) vpc_service" where
  "prompt_service = slow_service
     \<lparr> sv_create := (\<lambda>rq v. (Inr (never_done \<lparr> op_done := True, op_response := AddressResponse fresh_address \<rparr>), v)),
       sv_delete := (\<lambda>a v. (Inr (never_done \<lparr> op_done := True \<rparr>), v)) \<rparr>"

definition sample_internal :: alloc_internal where
  "sample_internal = \<lparr> ai_project = ''p1'', ai_name = ''vip'', ai_subnet = ''sub1'', ai_owner = lbAddressOwner ''nlb1'' ''web'' \<rparr>"

theorem allocation_linked_witness:
  "\<exists>v0. sv_set_reference prompt_service \<lparr> sq_address = ''adr1'', sq_type = ''network_load_balancer'', sq_id = ''nlb1'',
      sq_name = ''web'', sq_owned = True \<rparr> v0 = (Inr (), ([(''adr1'', ''nlb1'')], 0))"
proof -
  let ?rq = "\<lparr> cq_project = ''p1'', cq_name = ''vip'', cq_spec = InternalIpv4Spec ''sub1'' \<rparr>"
  let ?own = "lbAddressOwner ''nlb1'' ''web''"
  have c: "createAddressAndWait prompt_service only_once ?rq ([], 0) = Some (Inr fresh_address, ([], 0))"
    by (simp add: createAddressAndWait_def wait_then_def at_once_def wait_answer_def retry_op_def only_once_def
        capturing_def prompt_service_def waitOperation_def never_done_def operationResult_def)
  have a: "allocFromCreate prompt_service only_once ?rq ?own (\<lambda>_. '''') ([], 0)
      = Some (Inr \<lparr> rs_address_id = ''adr1'', rs_value = '''' \<rparr>, ([(''adr1'', ''nlb1'')], 0))"
    using c by (simp add: allocFromCreate_def wait_then_def at_once_def wait_answer_def SetReference_def only_once_def
        capturing_def without_answer_def fresh_address_def lbAddressOwner_def prompt_service_def slow_service_def)
  from allocation_linked [OF only_once_lawful c a] show ?thesis
    by (auto simp: fresh_address_def lbAddressOwner_def)
qed

subsection \<open>Releases\<close>

text \<open>
  A healthy network service: a reference is cleared, or not there; a delete is accepted and finished by the
  first time its operation is read, or there is nothing to delete; tickers tick.
\<close>

definition gone_or_done :: "(err + operation) \<Rightarrow> bool" where
  "gone_or_done r \<longleftrightarrow> (case r of Inl e \<Rightarrow> not_there e
     | Inr p \<Rightarrow> op_done p \<longrightarrow> op_error p = None \<or> map_option fst (op_error p) = Some CodeNotFound)"

definition healthy :: "'v vpc_service \<Rightarrow> bool" where
  "healthy S \<longleftrightarrow>
     (\<forall>a v. case fst (sv_clear_reference S a v) of Inr u \<Rightarrow> True | Inl e \<Rightarrow> not_there e)
   \<and> (\<forall>a v. gone_or_done (fst (sv_delete S a v)))
   \<and> (\<forall>i v. \<exists>p v'. sv_operation S i v = (Inr p, v') \<and> op_done p \<and> gone_or_done (Inr p))
   \<and> (\<forall>v. fst (sv_tick S v) = None)"

lemma healthyD:
  assumes "healthy S"
  shows "sv_clear_reference S a v = (Inl e, v') \<Longrightarrow> not_there e"
    and "gone_or_done (fst (sv_delete S a v))"
    and "\<exists>p v'. sv_operation S i v = (Inr p, v') \<and> op_done p \<and> gone_or_done (Inr p)"
    and "\<exists>v'. sv_tick S v = (None, v')"
  using assms unfolding healthy_def by (metis fst_conv old.sum.simps(5) prod.collapse)+

lemma lawful_first_success: "lawful_retry rt \<Longrightarrow> f v = (Inr x, v') \<Longrightarrow> rt f v = (Inr x, v')"
  unfolding lawful_retry_def by blast

lemma healthy_clear:
  assumes "lawful_retry rt" and "healthy S" and "a \<noteq> ''''"
  shows "fst (client_ClearReference S rt a v) = Inr ()"
proof -
  obtain r v' where c: "sv_clear_reference S a v = (r, v')" by fastforce
  have "\<exists>x. capturing (\<lambda>_. Nothing) (clear_reference_err a) (sv_clear_reference S a) v = (Inr x, v')"
    using healthyD(1) [OF assms(2), of a v] c
    by (cases r) (auto simp: capturing_def clear_reference_err_def not_there_def)
  then show ?thesis using lawful_first_success [OF assms(1)] assms(3)
    by (fastforce simp: client_ClearReference_def without_answer_def)
qed

definition deleted :: "(err + op_response) \<Rightarrow> bool" where
  "deleted r \<longleftrightarrow> (case r of Inl e \<Rightarrow> not_there e | Inr x \<Rightarrow> True)"

lemma done_deleted: "op_done p \<Longrightarrow> gone_or_done (Inr p) \<Longrightarrow> deleted (operationResult p)"
  by (auto simp: gone_or_done_def deleted_def operationResult_def not_there_def split: option.split)

lemma healthy_poll:
  assumes "lawful_retry rt" and "healthy S"
  shows "\<exists>r v'. poll S rt i dl v = Some (r, v') \<and> deleted r"
proof -
  obtain v1 where t: "sv_tick S v = (None, v1)" using healthyD(4) [OF assms(2)] by blast
  obtain p v2 where p: "sv_operation S i v1 = (Inr p, v2)" "op_done p" "gone_or_done (Inr p)"
    using healthyD(3) [OF assms(2)] by blast
  have "rt (capturing TheOperation Inl (sv_operation S i)) v1 = (Inr (TheOperation p), v2)"
    by (rule lawful_first_success [OF assms(1)]) (simp add: capturing_def p(1))
  with t p done_deleted [OF p(2,3)] show ?thesis
    by (subst poll.simps) (simp add: poll_round_def retry_op_def)
qed

lemma healthy_free:
  assumes "lawful_retry rt" and "healthy S" and "a \<noteq> ''''"
  shows "\<exists>v'. client_FreeIP S rt a v = Some (Inr (), v')"
proof -
  obtain r v1 where d: "sv_delete S a v = (r, v1)" by fastforce
  then have g: "gone_or_done r" using healthyD(2) [OF assms(2), of a v] by simp
  show ?thesis
  proof (cases r)
    case (Inl e)
    have "delete_call S rt a v = (Inr Nothing, v1)" unfolding delete_call_def
      using d g Inl by (intro lawful_first_success [OF assms(1)]) (simp add: capturing_def gone_or_done_def)
    with assms(3) show ?thesis by (simp add: client_FreeIP_def wait_then_def at_once_def wait_answer_def)
  next
    case (Inr p)
    have c: "delete_call S rt a v = (Inr (TheOperation p), v1)" unfolding delete_call_def
      using d Inr by (intro lawful_first_success [OF assms(1)]) (simp add: capturing_def)
    obtain x v2 where w: "waitOperation S rt p v1 = Some (x, v2)" and x: "deleted x"
    proof (cases "op_done p")
      case True
      with done_deleted [of p] g Inr that show ?thesis by (simp add: waitOperation_def)
    next
      case False
      from healthy_poll [OF assms(1,2), of "op_id p" "sv_now S v1 + vpcOpPollTimeout" "sv_ticker S v1"] False that
      show ?thesis by (auto simp: waitOperation_def)
    qed
    with c assms(3) show ?thesis
      by (cases x) (simp_all add: client_FreeIP_def wait_then_def at_once_def wait_answer_def deleted_def)
  qed
qed

text \<open>C17: over a healthy network service the client is the one the runner of stuck load balancers relies on to
  work off its backlog: it answers every release of a named address with success, also of one that
  is gone already.\<close>

theorem healthy_cooperative:
  assumes "lawful_retry rt" and "healthy S"
  shows "cooperative (internal_client S rt)"
  unfolding cooperative_def
proof (intro allI impI conjI)
  fix a :: string and v assume a: "a \<noteq> ''''"
  from healthy_clear [OF assms a] show "fst (ClearReference (internal_client S rt) a v) = Inr ()"
    by (simp add: internal_client_def)
  from healthy_free [OF assms a, of v] show "fst (FreeIP (internal_client S rt) a v) = Inr ()"
    by (auto simp: internal_client_def)
qed

definition forgetful_service :: "((string \<times> string) list \<times> int) vpc_service" where
  "forgetful_service = slow_service \<lparr> sv_delete := (\<lambda>a v. (Inl (Status CodeNotFound ''gone''), v)),
     sv_operation := (\<lambda>i v. (Inr (never_done \<lparr> op_done := True \<rparr>), v)) \<rparr>"

theorem healthy_cooperative_witness: "cooperative (internal_client forgetful_service only_once)"
proof (rule healthy_cooperative [OF only_once_lawful])
  show "healthy forgetful_service"
    by (auto simp: healthy_def forgetful_service_def slow_service_def never_done_def gone_or_done_def not_there_def)
qed

subsection \<open>A link that is not undone\<close>

definition linked_specs :: "vip_spec list" where
  "linked_specs = [(new_spec ''IPV4'' SrcAddressLink) \<lparr> fs_address := ''adr9'' \<rparr>]"

definition linked_world :: "((string \<times> string) list \<times> int) world" where
  "linked_world = \<lparr> w_db = empty_db, w_vpc = ([], 0), w_slots = [], w_calls = [] \<rparr>"

text \<open>The client answers a link whose address cannot be read back with an error, although the reference is
  set; the creation then has nothing to release. It ends with an error and without a load balancer, and
  the tenant's address stays in use by it.\<close>

theorem failed_link_keeps_reference:
  "\<exists>e w'. doCreate (\<lambda>xs. xs) sample_peers (Some (internal_client slow_service only_once)) sample_lb sample_principal
      linked_specs linked_world = (Inl e, w')
    \<and> d_lbs (w_db w') = [] \<and> w_vpc w' = ([(''adr9'', ''nlb1'')], 0) \<and> length (w_calls w') = 1"
proof -
  let ?r = "doCreate (\<lambda>xs. xs) sample_peers (Some (internal_client slow_service only_once)) sample_lb sample_principal
      linked_specs linked_world"
  have "\<not> is_ok (fst ?r) \<and> d_lbs (w_db (snd ?r)) = [] \<and> w_vpc (snd ?r) = ([(''adr9'', ''nlb1'')], 0)
      \<and> length (w_calls (snd ?r)) = 1"
    by code_simp
  then show ?thesis
    by (cases "fst ?r") (auto simp: is_ok_iff intro!: exI [of _ "snd ?r"] prod_eqI)
qed

end
