(* ===== verification/Authz_Filter.thy ===== *)
theory Authz_Filter
  imports Peer_Clients
begin

text \<open>
  The filter of the lists (\<^verbatim>\<open>internal/authzfilter\<close>): which objects of a type the caller may see,
  asked of the identity service (\<^verbatim>\<open>AuthorizeService.ListObjects\<close>, a parameter) and kept for a time
  to live. The cache is the list of its entries; which entry makes room when it is full is left open by the language (the
  first of a \<^verbatim>\<open>range\<close> over a map) and is a parameter, as are the readings of the clock.
\<close>

subsection \<open>Decisions\<close>

record decision =
  dc_bypass :: bool
  dc_empty :: bool
  dc_ids :: "string list"
  dc_cached :: bool
  dc_open :: bool

definition no_decision :: decision where
  "no_decision = \<lparr> dc_bypass = False, dc_empty = False, dc_ids = [], dc_cached = False, dc_open = False \<rparr>"

record filter_config =
  fc_enabled :: bool
  fc_timeout :: int
  fc_ttl :: int
  fc_max :: int
  fc_open :: bool

definition NewFGAFilter :: "filter_config \<Rightarrow> filter_config" where
  "NewFGAFilter c = c
     \<lparr> fc_timeout := (if fc_timeout c \<le> 0 then 500 * 1000000 else fc_timeout c),
       fc_ttl := (if fc_ttl c \<le> 0 then 5 * 1000000000 else fc_ttl c),
       fc_max := (if fc_max c \<le> 0 then 10000 else fc_max c) \<rparr>"

definition DefaultConfig :: filter_config where
  "DefaultConfig = \<lparr> fc_enabled = True, fc_timeout = 500 * 1000000, fc_ttl = 5 * 1000000000, fc_max = 10000,
     fc_open = False \<rparr>"

definition ResourceTypeLoadBalancer :: string where "ResourceTypeLoadBalancer = ''lb_network_load_balancer''"
definition ResourceTypeListener :: string where "ResourceTypeListener = ''lb_listener''"
definition ResourceTypeTargetGroup :: string where "ResourceTypeTargetGroup = ''lb_target_group''"
definition ActionLoadBalancerList :: string where "ActionLoadBalancerList = ''loadbalancer.networkLoadBalancers.list''"
definition ActionListenerList :: string where "ActionListenerList = ''loadbalancer.listeners.list''"
definition ActionTargetGroupList :: string where "ActionTargetGroupList = ''loadbalancer.targetGroups.list''"

lemmas action_defs = ResourceTypeLoadBalancer_def ResourceTypeListener_def ResourceTypeTargetGroup_def
  ActionLoadBalancerList_def ActionListenerList_def ActionTargetGroupList_def

subsection \<open>The cache\<close>

record cache_entry =
  ce_decision :: decision
  ce_expires :: int

type_synonym cache = "(string \<times> cache_entry) list"

definition cacheKey :: "string \<Rightarrow> string \<Rightarrow> string \<Rightarrow> string" where
  "cacheKey subject ty action = subject @ ''|'' @ ty @ ''|'' @ action"

definition without_key :: "string \<Rightarrow> cache \<Rightarrow> cache" where
  "without_key k c = filter (\<lambda>e. fst e \<noteq> k) c"

definition getCache :: "int \<Rightarrow> string \<Rightarrow> cache \<Rightarrow> decision option \<times> cache" where
  "getCache now k c =
     (case map_of c k of
        None \<Rightarrow> (None, c)
      | Some e \<Rightarrow> if now > ce_expires e then (None, without_key k c) else (Some (ce_decision e), c))"

definition putCache :: "filter_config \<Rightarrow> (cache \<Rightarrow> string) \<Rightarrow> int \<Rightarrow> string \<Rightarrow> decision \<Rightarrow> cache \<Rightarrow> cache" where
  "putCache cfg victim now k d c =
     (let c = (if int (length c) \<ge> fc_max cfg then without_key (victim c) c else c) in
      (k, \<lparr> ce_decision = d, ce_expires = now + fc_ttl cfg \<rparr>) # without_key k c)"

definition Invalidate :: "string \<Rightarrow> cache \<Rightarrow> cache" where
  "Invalidate subject c =
     (let prefix = subject @ ''|'' in
      filter (\<lambda>e. \<not> (length (fst e) \<ge> length prefix \<and> take (length prefix) (fst e) = prefix)) c)"

subsection \<open>The filter\<close>

text \<open>\<^verbatim>\<open>Code.String()\<close>.\<close>

fun code_text :: "code \<Rightarrow> string" where
  "code_text CodeUnknown = ''Unknown''"
| "code_text CodeInvalidArgument = ''InvalidArgument''"
| "code_text CodeNotFound = ''NotFound''"
| "code_text CodeAlreadyExists = ''AlreadyExists''"
| "code_text CodePermissionDenied = ''PermissionDenied''"
| "code_text CodeFailedPrecondition = ''FailedPrecondition''"
| "code_text CodeUnavailable = ''Unavailable''"
| "code_text CodeInternal = ''Internal''"
| "code_text CodeDeadlineExceeded = ''DeadlineExceeded''"
| "code_text CodeUnauthenticated = ''Unauthenticated''"
| "code_text CodeResourceExhausted = ''ResourceExhausted''"

text \<open>The answer of the identity service: a wildcard, or the identifiers.\<close>

record list_objects =
  lo_wildcard :: bool
  lo_ids :: "string list"

type_synonym authorize = "string \<Rightarrow> string \<Rightarrow> string \<Rightarrow> int \<Rightarrow> err + list_objects"

definition handleErr :: "filter_config \<Rightarrow> string \<Rightarrow> err \<Rightarrow> err + decision" where
  "handleErr cfg timeout_text e =
     (if fc_open cfg then Inr (no_decision \<lparr> dc_bypass := True, dc_open := True \<rparr>)
      else if e = DeadlineExceeded
      then Inl (Status CodeUnavailable (''list filter: iam.ListObjects deadline exceeded after '' @ timeout_text))
      else (case grpc_status e of
          Some (c, m) \<Rightarrow>
            if c \<noteq> CodeUnknown then Inl (Status CodeUnavailable (''list filter: iam.ListObjects '' @ code_text c @ '': '' @ m))
            else Inl (Status CodeUnavailable (''list filter: iam.ListObjects: '' @ error_text e))
        | None \<Rightarrow> Inl (Status CodeUnavailable (''list filter: iam.ListObjects: '' @ error_text e))))"

definition decision_of :: "list_objects \<Rightarrow> decision" where
  "decision_of a =
     (if lo_wildcard a then no_decision \<lparr> dc_bypass := True \<rparr>
      else no_decision \<lparr> dc_ids := sort_strings (lo_ids a), dc_empty := (lo_ids a = []) \<rparr>)"

text \<open>
  One call of the filter: \<open>t\<close> is the clock when the cache is read, \<open>t'\<close> when it is written, \<open>shown\<close> the
  text of the timeout.
\<close>

record filter_moment =
  fm_read :: int
  fm_written :: int
  fm_victim :: "cache \<Rightarrow> string"
  fm_shown :: string

definition ListAllowedIDs ::
  "filter_config \<Rightarrow> authorize option \<Rightarrow> filter_moment \<Rightarrow> string \<Rightarrow> string \<Rightarrow> string \<Rightarrow> cache \<Rightarrow>
   (err + decision) \<times> cache" where
  "ListAllowedIDs cfg cli m subject ty action c =
     (if \<not> fc_enabled cfg \<or> cli = None then (Inr (no_decision \<lparr> dc_bypass := True \<rparr>), c)
      else if subject = '''' then (Inl (Status CodeUnauthenticated ''list filter: subject required''), c)
      else if ty = '''' \<or> action = '''' then (Inl (OtherErr ''authzfilter: resourceType and action required''), c)
      else (let k = cacheKey subject ty action in
        case getCache (fm_read m) k c of
          (Some d, c1) \<Rightarrow> (Inr (d \<lparr> dc_cached := True \<rparr>), c1)
        | (None, c1) \<Rightarrow>
            (case the cli subject ty action (fc_max cfg) of
               Inl e \<Rightarrow> (handleErr cfg (fm_shown m) e, c1)
             | Inr a \<Rightarrow> (Inr (decision_of a), putCache cfg (fm_victim m) (fm_written m) k (decision_of a) c1))))"

text \<open>
  \<^verbatim>\<open>Resolve\<close>, over any implementation of the interface \<^verbatim>\<open>Filter\<close>: no filter lets everything through, an empty subject
  goes to the filter as it is, an error that is no status is answered as unavailable.
\<close>

type_synonym 's object_filter = "string \<Rightarrow> string \<Rightarrow> string \<Rightarrow> 's \<Rightarrow> (err + decision) \<times> 's"

definition BypassFilter :: "'s object_filter" where
  "BypassFilter subject ty action s = (Inr (no_decision \<lparr> dc_bypass := True \<rparr>), s)"

definition SubjectFromCtx :: "principal \<Rightarrow> string" where
  "SubjectFromCtx p = FGASubjectFromPrincipal (pr_type p) (pr_id p)"

definition Resolve ::
  "'s object_filter option \<Rightarrow> principal \<Rightarrow> string \<Rightarrow> string \<Rightarrow> 's \<Rightarrow> (err + decision) \<times> 's" where
  "Resolve flt p ty action s =
     (case flt of
        None \<Rightarrow> (Inr (no_decision \<lparr> dc_bypass := True \<rparr>), s)
      | Some f \<Rightarrow> (case f (SubjectFromCtx p) ty action s of
            (Inr d, s') \<Rightarrow> (Inr d, s')
          | (Inl e, s') \<Rightarrow> (Inl (if grpc_status e = None
              then Status CodeUnavailable (''list filter: '' @ error_text e) else e), s')))"

subsection \<open>The contract of a filter\<close>

text \<open>
  What a list relies on: a decision about a type and an action that is asked for is backed by something
  the identity service said about this caller, and nobody is anonymous.
\<close>

definition listed_action :: "string \<Rightarrow> string \<Rightarrow> bool" where
  "listed_action ty action \<longleftrightarrow> (ty, action) \<in> {(ResourceTypeLoadBalancer, ActionLoadBalancerList),
     (ResourceTypeListener, ActionListenerList), (ResourceTypeTargetGroup, ActionTargetGroupList)}"

locale filter_contract =
  fixes allowed :: "'s object_filter"
    and good :: "'s \<Rightarrow> bool"
    and backed :: "string \<Rightarrow> string \<Rightarrow> string \<Rightarrow> decision \<Rightarrow> bool"
  assumes keeps_good: "good s \<Longrightarrow> listed_action ty action \<Longrightarrow> good (snd (allowed subject ty action s))"
    and backs: "good s \<Longrightarrow> listed_action ty action \<Longrightarrow> fst (allowed subject ty action s) = Inr d \<Longrightarrow>
      subject \<noteq> '''' \<and> backed subject ty action d"
begin

lemma Resolve_good: "good s \<Longrightarrow> listed_action ty action \<Longrightarrow> good (snd (Resolve (Some allowed) p ty action s))"
  using keeps_good [of s ty action "SubjectFromCtx p"] by (auto simp: Resolve_def split: prod.splits sum.splits)

lemma Resolve_backed:
  "good s \<Longrightarrow> listed_action ty action \<Longrightarrow> fst (Resolve (Some allowed) p ty action s) = Inr d \<Longrightarrow>
   SubjectFromCtx p \<noteq> '''' \<and> backed (SubjectFromCtx p) ty action d"
  using backs [of s ty action "SubjectFromCtx p" d] by (auto simp: Resolve_def split: prod.splits sum.splits)

end

subsection \<open>The filter keeps the contract\<close>

text \<open>
  \<open>iam t\<close> is what the identity service answers at time \<open>t\<close>. A decision is backed if the service gave it not
  longer ago than the time to live and the timeout of a call.
\<close>

definition strict :: "filter_config \<Rightarrow> filter_config" where
  "strict c = (NewFGAFilter c) \<lparr> fc_enabled := True, fc_open := False \<rparr>"

definition said :: "(int \<Rightarrow> authorize) \<Rightarrow> int \<Rightarrow> string \<Rightarrow> string \<Rightarrow> string \<Rightarrow> int \<Rightarrow> decision \<Rightarrow> bool" where
  "said iam mx subject ty action t d \<longleftrightarrow> (\<exists>a. iam t subject ty action mx = Inr a \<and> d = decision_of a)"

definition entry_backed :: "(int \<Rightarrow> authorize) \<Rightarrow> filter_config \<Rightarrow> int \<Rightarrow> string \<times> cache_entry \<Rightarrow> bool" where
  "entry_backed iam c now e \<longleftrightarrow> (\<forall>subject ty action. listed_action ty action \<longrightarrow> fst e = cacheKey subject ty action \<longrightarrow>
     (\<exists>t \<le> now. said iam (fc_max c) subject ty action t (ce_decision (snd e))
        \<and> ce_expires (snd e) \<le> t + fc_ttl c + fc_timeout c))"

definition cache_backed :: "(int \<Rightarrow> authorize) \<Rightarrow> filter_config \<Rightarrow> int \<Rightarrow> cache \<Rightarrow> bool" where
  "cache_backed iam c now cache \<longleftrightarrow> (\<forall>e \<in> set cache. entry_backed iam c now e)"

definition moment_ok :: "filter_config \<Rightarrow> filter_moment \<Rightarrow> int \<Rightarrow> bool" where
  "moment_ok c m t \<longleftrightarrow> fm_read m \<le> t \<and> t \<le> fm_written m \<and> fm_written m \<le> t + fc_timeout c"

definition recently_said :: "(int \<Rightarrow> authorize) \<Rightarrow> filter_config \<Rightarrow> int \<Rightarrow> int \<Rightarrow> string \<Rightarrow> string \<Rightarrow> string \<Rightarrow> decision \<Rightarrow> bool" where
  "recently_said iam c now limit subject ty action d \<longleftrightarrow>
     (\<exists>t d'. now \<le> t + fc_ttl c + fc_timeout c \<and> t \<le> limit \<and> said iam (fc_max c) subject ty action t d'
        \<and> (d = d' \<or> d = d' \<lparr> dc_cached := True \<rparr>))"

text \<open>The key tells the subjects of a list apart, whatever characters they contain.\<close>

lemma action_tails:
  "take 9 (rev (cacheKey s ty ActionLoadBalancerList)) = rev ''cers.list''"
  "take 9 (rev (cacheKey s ty ActionListenerList)) = rev ''ners.list''"
  "take 9 (rev (cacheKey s ty ActionTargetGroupList)) = rev ''oups.list''"
  by (simp_all add: cacheKey_def action_defs)

lemma key_suffixes:
  assumes "listed_action ty action" and "listed_action ty' action'"
    and "cacheKey s ty action = cacheKey s' ty' action'"
  shows "s = s' \<and> ty = ty' \<and> action = action'"
proof -
  have "take 9 (rev (cacheKey s ty action)) = take 9 (rev (cacheKey s' ty' action'))" using assms(3) by simp
  then have "ty = ty' \<and> action = action'"
    using assms(1,2) unfolding listed_action_def by (elim insertE emptyE) (simp_all add: action_tails)
  with assms(3) show ?thesis by (simp add: cacheKey_def)
qed
lemma getCache_backed:
  assumes "cache_backed iam c now cache" and "getCache t k cache = (r, cache')"
  shows "cache_backed iam c now cache'"
    and "r = Some d \<Longrightarrow> \<exists>e. entry_backed iam c now (k, e) \<and> ce_decision e = d \<and> t \<le> ce_expires e"
proof -
  from assms show "cache_backed iam c now cache'"
    by (auto simp: getCache_def cache_backed_def without_key_def split: option.splits if_splits)
  assume "r = Some d"
  with assms(2) obtain e where e: "map_of cache k = Some e" "ce_decision e = d" "t \<le> ce_expires e"
    by (auto simp: getCache_def split: option.splits if_splits)
  with map_of_SomeD [OF e(1)] assms(1) show "\<exists>e. entry_backed iam c now (k, e) \<and> ce_decision e = d \<and> t \<le> ce_expires e"
    unfolding cache_backed_def by blast
qed

lemma putCache_backed:
  assumes "cache_backed iam c now cache" and "entry_backed iam c now (k, \<lparr> ce_decision = d, ce_expires = t + fc_ttl c \<rparr>)"
  shows "cache_backed iam c now (putCache c victim t k d cache)"
  using assms by (auto simp: putCache_def Let_def cache_backed_def without_key_def)

definition filter_good :: "(int \<Rightarrow> authorize) \<Rightarrow> filter_config \<Rightarrow> filter_moment \<Rightarrow> int \<Rightarrow> cache \<Rightarrow> bool" where
  "filter_good iam c m t cache \<longleftrightarrow> moment_ok (strict c) m t \<and> cache_backed iam (strict c) t cache"

lemma fresh_entry_backed:
  assumes "moment_ok c m t" and "iam t subject ty action (fc_max c) = Inr a" and "listed_action ty action"
  shows "entry_backed iam c t (cacheKey subject ty action,
    \<lparr> ce_decision = decision_of a, ce_expires = fm_written m + fc_ttl c \<rparr>)"
  unfolding entry_backed_def fst_conv snd_conv
proof (intro allI impI)
  fix subject' ty' action'
  assume "listed_action ty' action'" and "cacheKey subject ty action = cacheKey subject' ty' action'"
  from key_suffixes [OF assms(3) this] assms(1,2)
  show "\<exists>t0\<le>t. said iam (fc_max c) subject' ty' action' t0 (ce_decision \<lparr>ce_decision = decision_of a, ce_expires = fm_written m + fc_ttl c\<rparr>)
      \<and> ce_expires \<lparr>ce_decision = decision_of a, ce_expires = fm_written m + fc_ttl c\<rparr> \<le> t0 + fc_ttl c + fc_timeout c"
    by (intro exI [of _ t]) (simp add: said_def moment_ok_def)
qed

lemma ListAllowedIDs_cases:
  assumes "ListAllowedIDs (strict c) (Some cli) m subject ty action cache = (r, cache')"
  shows "(cache' = cache \<and> (\<exists>e. r = Inl e))
    \<or> (\<exists>d c1. getCache (fm_read m) (cacheKey subject ty action) cache = (Some d, c1) \<and> subject \<noteq> ''''
         \<and> cache' = c1 \<and> r = Inr (d \<lparr> dc_cached := True \<rparr>))
    \<or> (\<exists>c1 e. getCache (fm_read m) (cacheKey subject ty action) cache = (None, c1) \<and> cache' = c1 \<and> r = Inl e)
    \<or> (\<exists>c1 a. getCache (fm_read m) (cacheKey subject ty action) cache = (None, c1) \<and> subject \<noteq> ''''
         \<and> cli subject ty action (fc_max (strict c)) = Inr a \<and> r = Inr (decision_of a)
         \<and> cache' = putCache (strict c) (fm_victim m) (fm_written m) (cacheKey subject ty action) (decision_of a) c1)"
  using assms by (auto simp: ListAllowedIDs_def Let_def strict_def handleErr_def
      split: if_splits prod.splits option.splits sum.splits)

interpretation fga_filter: filter_contract "ListAllowedIDs (strict c) (Some (iam t)) m"
  "filter_good iam c m t" "recently_said iam (strict c) (fm_read m) t" for c iam t m
proof unfold_locales
  fix s subject ty action d
  assume good: "filter_good iam c m t s" and listed: "listed_action ty action"
  then have m: "moment_ok (strict c) m t" and b: "cache_backed iam (strict c) t s"
    by (simp_all add: filter_good_def)
  obtain r s' where call: "ListAllowedIDs (strict c) (Some (iam t)) m subject ty action s = (r, s')" by fastforce
  note cases = ListAllowedIDs_cases [OF call]
  have "cache_backed iam (strict c) t s'"
    using cases getCache_backed(1) [OF b] b putCache_backed [OF _ fresh_entry_backed [OF m _ listed]] by blast
  with call m show "filter_good iam c m t (snd (ListAllowedIDs (strict c) (Some (iam t)) m subject ty action s))"
    by (simp add: filter_good_def)
  assume "fst (ListAllowedIDs (strict c) (Some (iam t)) m subject ty action s) = Inr d"
  with call have r: "r = Inr d" by simp
  from cases r consider
      (hit) d0 c1 where "getCache (fm_read m) (cacheKey subject ty action) s = (Some d0, c1)" "subject \<noteq> ''''"
        "d = d0 \<lparr> dc_cached := True \<rparr>"
    | (asked) a where "subject \<noteq> ''''" "iam t subject ty action (fc_max (strict c)) = Inr a" "d = decision_of a"
    by auto
  then show "subject \<noteq> '''' \<and> recently_said iam (strict c) (fm_read m) t subject ty action d"
  proof cases
    case hit
    from getCache_backed(2) [OF b hit(1) refl] obtain e where
      e: "entry_backed iam (strict c) t (cacheKey subject ty action, e)" "ce_decision e = d0" "fm_read m \<le> ce_expires e"
      by blast
    from e(1) listed have "\<exists>t0 \<le> t. said iam (fc_max (strict c)) subject ty action t0 (ce_decision e)
        \<and> ce_expires e \<le> t0 + fc_ttl (strict c) + fc_timeout (strict c)"
      unfolding entry_backed_def fst_conv snd_conv by blast
    then obtain t0 where t0: "t0 \<le> t" "said iam (fc_max (strict c)) subject ty action t0 (ce_decision e)"
      "ce_expires e \<le> t0 + fc_ttl (strict c) + fc_timeout (strict c)" by blast
    from t0(3) e(3) have "fm_read m \<le> t0 + fc_ttl (strict c) + fc_timeout (strict c)" by linarith
    with t0(1,2) e(2) hit(2,3) show ?thesis unfolding recently_said_def by blast
  next
    case asked
    have "0 < fc_ttl (strict c)" "0 < fc_timeout (strict c)" by (simp_all add: strict_def NewFGAFilter_def)
    with asked m show ?thesis unfolding recently_said_def said_def moment_ok_def
      by (auto intro!: exI [of _ t] exI [of _ "decision_of a"])
  qed
qed

lemma decision_backs:
  assumes "recently_said iam c now limit subject ty action d" and "dc_bypass d \<or> i \<in> set (dc_ids d)"
  shows "\<exists>t a. now \<le> t + fc_ttl c + fc_timeout c \<and> t \<le> limit \<and> iam t subject ty action (fc_max c) = Inr a
    \<and> (lo_wildcard a \<or> i \<in> set (lo_ids a))"
  using assms by (fastforce simp: recently_said_def said_def decision_of_def no_decision_def split: if_splits)

subsection \<open>The size of the cache\<close>

text \<open>One entry per key, and no more than the bound.\<close>

definition cache_sized :: "filter_config \<Rightarrow> cache \<Rightarrow> bool" where
  "cache_sized c cache \<longleftrightarrow> distinct (map fst cache) \<and> int (length cache) \<le> fc_max c"

lemma without_key_length: "length (without_key k c) \<le> length c"
  by (simp add: without_key_def)

lemma without_key_shorter: "k \<in> fst ` set c \<Longrightarrow> length (without_key k c) < length c"
  unfolding without_key_def using length_filter_less [of _ c "\<lambda>e. fst e \<noteq> k"] by force

lemma without_key_distinct: "distinct (map fst c) \<Longrightarrow> distinct (map fst (without_key k c))"
  by (simp add: without_key_def distinct_map_filter)

lemma putCache_sized:
  assumes "cache_sized cfg c" and "c \<noteq> [] \<longrightarrow> victim c \<in> fst ` set c" and "0 < fc_max cfg"
  shows "cache_sized cfg (putCache cfg victim t k d c)"
proof -
  let ?c = "if int (length c) \<ge> fc_max cfg then without_key (victim c) c else c"
  have "int (length ?c) < fc_max cfg"
  proof (cases "int (length c) \<ge> fc_max cfg")
    case True
    with assms(3) have "c \<noteq> []" by auto
    with assms without_key_shorter [of "victim c" c] True show ?thesis by (auto simp: cache_sized_def)
  qed simp
  moreover have "distinct (map fst (without_key k ?c))" "k \<notin> fst ` set (without_key k ?c)"
    using assms(1) by (auto simp: cache_sized_def without_key_distinct) (auto simp: without_key_def)
  ultimately show ?thesis using without_key_length [of k ?c]
    by (simp add: putCache_def Let_def cache_sized_def)
qed

lemma getCache_sized: "cache_sized cfg c \<Longrightarrow> getCache t k c = (r, c') \<Longrightarrow> cache_sized cfg c' \<and> set c' \<subseteq> set c"
  using without_key_length [of k c]
  by (auto simp: getCache_def cache_sized_def without_key_distinct split: option.splits if_splits)
    (auto simp: without_key_def)

lemma NewFGAFilter_max: "0 < fc_max (NewFGAFilter c)"
  by (simp add: NewFGAFilter_def)

text \<open>C37: the cache of the filter never holds more entries than its bound and one per key, whatever is asked and whichever
  entry makes room.\<close>

theorem cache_bounded:
  assumes "cache_sized (NewFGAFilter c) cache" and "\<forall>ca. ca \<noteq> [] \<longrightarrow> fm_victim m ca \<in> fst ` set ca"
  shows "cache_sized (NewFGAFilter c) (snd (ListAllowedIDs (NewFGAFilter c) cli m subject ty action cache))"
proof -
  obtain r c1 where g: "getCache (fm_read m) (cacheKey subject ty action) cache = (r, c1)" by fastforce
  from getCache_sized [OF assms(1) g] have c1: "cache_sized (NewFGAFilter c) c1" by blast
  with assms(2) have "cache_sized (NewFGAFilter c) (putCache (NewFGAFilter c) (fm_victim m) (fm_written m)
      (cacheKey subject ty action) d c1)" for d
    by (intro putCache_sized NewFGAFilter_max) blast+
  with assms(1) g c1 show ?thesis
    by (auto simp: ListAllowedIDs_def Let_def split: option.splits sum.splits)
qed

definition sample_moment :: filter_moment where
  "sample_moment = \<lparr> fm_read = 0, fm_written = 1, fm_victim = (\<lambda>c. case c of [] \<Rightarrow> '''' | e # _ \<Rightarrow> fst e),
     fm_shown = ''500ms'' \<rparr>"

lemma sample_victim: "\<forall>ca. ca \<noteq> [] \<longrightarrow> fm_victim sample_moment ca \<in> fst ` set ca"
  by (simp add: sample_moment_def split: list.split)

theorem cache_bounded_witness:
  "cache_sized (NewFGAFilter (DefaultConfig \<lparr> fc_max := 1 \<rparr>)) (snd (ListAllowedIDs (NewFGAFilter (DefaultConfig \<lparr> fc_max := 1 \<rparr>))
     (Some (\<lambda>s ty a mx. Inr \<lparr> lo_wildcard = False, lo_ids = [''nlb1''] \<rparr>)) sample_moment ''user:u1''
     ResourceTypeListener ActionListenerList
     [(''user:u2|x'', \<lparr> ce_decision = no_decision, ce_expires = 9 \<rparr>)]))"
  by (rule cache_bounded [OF _ sample_victim]) (simp add: cache_sized_def NewFGAFilter_def DefaultConfig_def)

end
