(* ===== verification/Listing.thy ===== *)
theory Listing
  imports Authz_Filter System
begin

text \<open>
  The lists of the public API: the filter of the rows a caller may see
  (\<^verbatim>\<open>internal/authzfilter\<close>: the answers of the identity service behind a cache with a time to live),
  the paginated statements of the three readers (\<^verbatim>\<open>internal/repo/kacho/pg\<close>) and the three
  use-cases that combine them.
\<close>

subsection \<open>Pages\<close>

text \<open>
  The opaque token of a page: absent, a position (the creation time and the identifier of the last row
  seen), or a text that does not decode. The base64 text itself is not modelled.
\<close>

datatype page_token = NoToken | TokenAt int string | BadToken string

type_synonym cursor = "int \<times> string"

definition decodePageToken :: "page_token \<Rightarrow> err + cursor option" where
  "decodePageToken t = (case t of NoToken \<Rightarrow> Inr None | TokenAt c i \<Rightarrow> Inr (Some (c, i))
     | BadToken why \<Rightarrow> Inl (Wrapped ErrInvalidArg (''page_token: '' @ why)))"

definition encodePageToken :: "cursor \<Rightarrow> page_token" where
  "encodePageToken c = TokenAt (fst c) (snd c)"

definition pageSizeOrDefault :: "int \<Rightarrow> err + nat" where
  "pageSizeOrDefault p =
     (if p = 0 then Inr 50
      else if p < 0 \<or> p > 1000
      then Inl (Violations (field_violation ''page_size'' ''page_size must be in range [1, 1000]''))
      else Inr (nat p))"

text \<open>\<^verbatim>\<open>(created_at, id) > ($1, $2)\<close>, and the order of the rows.\<close>

definition cursor_less :: "cursor \<Rightarrow> cursor \<Rightarrow> bool" where
  "cursor_less a b \<longleftrightarrow> fst a < fst b \<or> fst a = fst b \<and> string_less (snd a) (snd b)"

definition after :: "cursor option \<Rightarrow> cursor \<Rightarrow> bool" where
  "after cur k = (case cur of None \<Rightarrow> True | Some c \<Rightarrow> cursor_less c k)"

text \<open>The statement, with one row more than a page to see whether there is another one.\<close>

definition keyset_rows :: "('r \<Rightarrow> cursor) \<Rightarrow> ('r \<Rightarrow> bool) \<Rightarrow> cursor option \<Rightarrow> 'r list \<Rightarrow> 'r list" where
  "keyset_rows key P cur t =
     isort (\<lambda>a b. \<not> cursor_less (key b) (key a)) (filter (\<lambda>r. P r \<and> after cur (key r)) t)"

definition keyset_page ::
  "('r \<Rightarrow> cursor) \<Rightarrow> ('r \<Rightarrow> bool) \<Rightarrow> nat \<Rightarrow> cursor option \<Rightarrow> 'r list \<Rightarrow> 'r list \<times> page_token" where
  "keyset_page key P n cur t =
     (let found = take (n + 1) (keyset_rows key P cur t) in
      if length found > n then (take n found, encodePageToken (key (found ! (n - 1)))) else (found, NoToken))"

subsection \<open>The lists of the readers\<close>

text \<open>The condition on a column that holds only when the filter's value is set.\<close>

definition wanted :: "string \<Rightarrow> string \<Rightarrow> bool" where
  "wanted v column \<longleftrightarrow> v = '''' \<or> column = v"

record list_filter =
  lf_project :: string
  lf_parent :: string
  lf_name :: string
  lf_allowed :: "string list option"

definition allowed_row :: "list_filter \<Rightarrow> string \<Rightarrow> bool" where
  "allowed_row f i = (case lf_allowed f of None \<Rightarrow> True | Some ids \<Rightarrow> i \<in> set ids)"

text \<open>The parts the three functions share: the size, the empty allow-list, the token, the statement.\<close>

definition list_page ::
  "('r \<Rightarrow> cursor) \<Rightarrow> ('r \<Rightarrow> bool) \<Rightarrow> list_filter \<Rightarrow> int \<Rightarrow> page_token \<Rightarrow> 'r list \<Rightarrow> err + 'r list \<times> page_token" where
  "list_page key P f sz tok t =
     attempt (pageSizeOrDefault sz) (\<lambda>n.
     if lf_allowed f = Some [] then Inr ([], NoToken)
     else attempt (decodePageToken tok) (\<lambda>cur. Inr (keyset_page key P n cur t)))"

definition lb_cursor :: "lb_row \<Rightarrow> cursor" where "lb_cursor r = (lb_created r, lb_id r)"
definition ls_cursor :: "listener_row \<Rightarrow> cursor" where "ls_cursor r = (ls_created r, ls_id r)"
definition tg_cursor :: "tg_row \<Rightarrow> cursor" where "tg_cursor r = (tg_created r, tg_id r)"

definition lb_listed :: "list_filter \<Rightarrow> lb_row \<Rightarrow> bool" where
  "lb_listed f r \<longleftrightarrow> wanted (lf_project f) (lb_project r) \<and> wanted (lf_name f) (lb_name r) \<and> allowed_row f (lb_id r)"

definition ls_listed :: "list_filter \<Rightarrow> listener_row \<Rightarrow> bool" where
  "ls_listed f r \<longleftrightarrow> wanted (lf_project f) (ls_project r) \<and> wanted (lf_parent f) (ls_lb r)
     \<and> wanted (lf_name f) (ls_name r) \<and> allowed_row f (ls_id r)"

definition tg_listed :: "list_filter \<Rightarrow> tg_row \<Rightarrow> bool" where
  "tg_listed f r \<longleftrightarrow> wanted (lf_project f) (tg_project r) \<and> wanted (lf_name f) (tg_name r) \<and> allowed_row f (tg_id r)"

definition LB_List :: "list_filter \<Rightarrow> int \<Rightarrow> page_token \<Rightarrow> db \<Rightarrow> err + lb_row list \<times> page_token" where
  "LB_List f sz tok d = list_page lb_cursor (lb_listed f) f sz tok (d_lbs d)"

definition Listener_List :: "list_filter \<Rightarrow> int \<Rightarrow> page_token \<Rightarrow> db \<Rightarrow> err + listener_row list \<times> page_token" where
  "Listener_List f sz tok d = list_page ls_cursor (ls_listed f) f sz tok (d_listeners d)"

definition TG_List :: "list_filter \<Rightarrow> int \<Rightarrow> page_token \<Rightarrow> db \<Rightarrow> err + tg_row list \<times> page_token" where
  "TG_List f sz tok d = list_page tg_cursor (tg_listed f) f sz tok (d_tgs d)"

text \<open>The lists of a project or of a load balancer.\<close>

definition of_project :: "string \<Rightarrow> list_filter" where
  "of_project p = \<lparr> lf_project = p, lf_parent = '''', lf_name = '''', lf_allowed = None \<rparr>"

definition LB_ListByProject :: "string \<Rightarrow> int \<Rightarrow> page_token \<Rightarrow> db \<Rightarrow> err + lb_row list \<times> page_token" where
  "LB_ListByProject p = LB_List (of_project p)"

definition TG_ListByProject :: "string \<Rightarrow> int \<Rightarrow> page_token \<Rightarrow> db \<Rightarrow> err + tg_row list \<times> page_token" where
  "TG_ListByProject p = TG_List (of_project p)"

definition Listener_ListByLB :: "string \<Rightarrow> int \<Rightarrow> page_token \<Rightarrow> db \<Rightarrow> err + listener_row list \<times> page_token" where
  "Listener_ListByLB i = Listener_List ((of_project '''') \<lparr> lf_parent := i \<rparr>)"

subsection \<open>Walking the pages\<close>

text \<open>What a client does with the tokens: at most \<open>k\<close> calls.\<close>

fun walk_pages ::
  "nat \<Rightarrow> (page_token \<Rightarrow> err + 'r list \<times> page_token) \<Rightarrow> page_token \<Rightarrow> (err + 'r list) option" where
  "walk_pages 0 f t = None"
| "walk_pages (Suc k) f t =
     (case f t of
        Inl e \<Rightarrow> Some (Inl e)
      | Inr (rs, t') \<Rightarrow> (if t' = NoToken then Some (Inr rs)
          else map_option (\<lambda>m. attempt m (\<lambda>more. Inr (rs @ more))) (walk_pages k f t')))"

text \<open>The interface of an order of positions, and what follows for a walk over sorted rows.\<close>

locale position_order =
  fixes before :: "'k \<Rightarrow> 'k \<Rightarrow> bool"
  assumes irreflexive: "\<not> before k k"
    and transitive: "before j k \<Longrightarrow> before k l \<Longrightarrow> before j l"
    and total: "j \<noteq> k \<Longrightarrow> before j k \<or> before k j"
begin

lemma asymmetric: "before j k \<Longrightarrow> \<not> before k j"
  using irreflexive transitive by blast

lemma sorted_insert:
  assumes "sorted_wrt (\<lambda>a b. before (key a) (key b)) ys" and "key x \<notin> key ` set ys"
  shows "sorted_wrt (\<lambda>a b. before (key a) (key b)) (insert_by (\<lambda>a b. \<not> before (key b) (key a)) x ys)"
  using assms
proof (induction ys)
  case (Cons y ys)
  show ?case
  proof (cases "before (key y) (key x)")
    case True
    with Cons show ?thesis by auto
  next
    case False
    with Cons.prems total [of "key x" "key y"] have "before (key x) (key y)" by auto
    with Cons.prems False show ?thesis by (auto intro: transitive)
  qed
qed simp

lemma sorted_isort:
  "distinct (map key xs) \<Longrightarrow> sorted_wrt (\<lambda>a b. before (key a) (key b)) (isort (\<lambda>a b. \<not> before (key b) (key a)) xs)"
proof (induction xs)
  case (Cons x xs)
  then show ?case using sorted_insert [of key "isort (\<lambda>a b. \<not> before (key b) (key a)) xs" x] by (simp add: isort_def)
    (metis (mono_tags, lifting) isort_def set_isort)
qed (simp add: isort_def)

lemma filter_insert:
  assumes "sorted_wrt (\<lambda>a b. before (key a) (key b)) ys" and "key x \<notin> key ` set ys"
  shows "filter Q (insert_by (\<lambda>a b. \<not> before (key b) (key a)) x ys)
    = (if Q x then insert_by (\<lambda>a b. \<not> before (key b) (key a)) x (filter Q ys) else filter Q ys)"
  using assms
proof (induction ys)
  case (Cons y ys)
  show ?case
  proof (cases "before (key y) (key x)")
    case True
    with Cons show ?thesis by auto
  next
    case False
    with Cons.prems total [of "key x" "key y"] have xy: "before (key x) (key y)" by auto
    have "insert_by (\<lambda>a b. \<not> before (key b) (key a)) x (filter Q ys) = x # filter Q ys"
    proof (cases "filter Q ys")
      case (Cons z zs)
      then have "z \<in> set (filter Q ys)" by simp
      then have "z \<in> set ys" by simp
      with Cons.prems(1) have "before (key y) (key z)" by auto
      with xy have "\<not> before (key z) (key x)" using asymmetric transitive by blast
      with Cons show ?thesis by simp
    qed simp
    with xy False show ?thesis by (auto dest: asymmetric)
  qed
qed simp

lemma filter_isort:
  "distinct (map key xs) \<Longrightarrow>
   filter Q (isort (\<lambda>a b. \<not> before (key b) (key a)) xs) = isort (\<lambda>a b. \<not> before (key b) (key a)) (filter Q xs)"
proof (induction xs)
  case (Cons x xs)
  let ?s = "isort (\<lambda>a b. \<not> before (key b) (key a)) xs"
  have "sorted_wrt (\<lambda>a b. before (key a) (key b)) ?s" "key x \<notin> key ` set ?s"
    using Cons.prems sorted_isort [of key xs] by auto
  from filter_insert [OF this] Cons show ?case by (simp add: isort_def)
qed (simp add: isort_def)

lemma sorted_unique:
  assumes "sorted_wrt (\<lambda>a b. before (key a) (key b)) xs" and "sorted_wrt (\<lambda>a b. before (key a) (key b)) ys"
    and "set xs = set ys"
  shows "xs = ys"
  using assms
proof (induction xs arbitrary: ys)
  case (Cons x xs)
  then obtain y zs where ys: "ys = y # zs" by (cases ys) auto
  have "x = y"
    using Cons.prems ys by (metis asymmetric list.set_intros(1) set_ConsD sorted_wrt.simps(2))
  moreover have "x \<notin> set xs" "y \<notin> set zs" using Cons.prems ys irreflexive by fastforce+
  ultimately have "set xs = set zs" using Cons.prems(3) ys by auto
  with Cons ys \<open>x = y\<close> show ?case by simp
qed simp

lemma filter_after_nth:
  assumes "sorted_wrt (\<lambda>a b. before (key a) (key b)) xs" and "i < length xs"
  shows "filter (\<lambda>r. before (key (xs ! i)) (key r)) xs = drop (Suc i) xs"
  using assms
proof (induction xs arbitrary: i)
  case (Cons x xs)
  show ?case
  proof (cases i)
    case 0
    with Cons.prems show ?thesis by (simp add: irreflexive)
  next
    case (Suc j)
    with Cons.prems have "before (key x) (key (xs ! j))" by simp
    with Suc Cons show ?thesis by (auto dest: asymmetric)
  qed
qed simp

end

lemma string_less_irreflexive [simp]: "\<not> string_less s s"
  by (induction s) auto

lemma string_less_transitive: "string_less s t \<Longrightarrow> string_less t u \<Longrightarrow> string_less s u"
proof (induction s t arbitrary: u rule: string_less.induct)
  case (2 y ys)
  then show ?case by (cases u) auto
next
  case (4 x xs y ys)
  then show ?case by (cases u) (auto split: if_splits)
qed auto

lemma string_less_total: "s \<noteq> t \<Longrightarrow> string_less s t \<or> string_less t s"
  by (induction s t rule: string_less.induct) (auto simp: not_less_iff_gr_or_eq code_of_def)

interpretation cursor: position_order cursor_less
proof unfold_locales
  show "\<not> cursor_less k k" for k by (simp add: cursor_less_def)
  show "cursor_less j k \<Longrightarrow> cursor_less k l \<Longrightarrow> cursor_less j l" for j k l
    by (auto simp: cursor_less_def intro: string_less_transitive)
  show "j \<noteq> k \<Longrightarrow> cursor_less j k \<or> cursor_less k j" for j k
    using string_less_total [of "snd j" "snd k"] by (auto simp: cursor_less_def prod_eq_iff)
qed

subsection \<open>One page after the other\<close>

definition token_of :: "cursor option \<Rightarrow> page_token" where
  "token_of cur = (case cur of None \<Rightarrow> NoToken | Some c \<Rightarrow> encodePageToken c)"

lemma decode_token_of [simp]: "decodePageToken (token_of cur) = Inr cur"
  by (simp add: token_of_def decodePageToken_def encodePageToken_def split: option.split)

lemma keyset_rows_sorted:
  assumes "distinct (map key t)"
  shows "sorted_wrt (\<lambda>a b. cursor_less (key a) (key b)) (keyset_rows key P cur t)"
    and "set (keyset_rows key P cur t) = {r \<in> set t. P r \<and> after cur (key r)}"
  using cursor.sorted_isort [OF distinct_map_filter [OF assms]] by (simp_all add: keyset_rows_def)

lemma keyset_rows_next:
  fixes t :: "'r list"
  assumes "distinct (map key t)" and "i < length (keyset_rows key P cur t)"
  shows "keyset_rows key P (Some (key (keyset_rows key P cur t ! i))) t = drop (Suc i) (keyset_rows key P cur t)"
proof -
  let ?S = "keyset_rows key P cur t" and ?Q = "\<lambda>r. P r \<and> after cur (key r)"
  let ?c = "key (?S ! i)"
  have "?S ! i \<in> set ?S" using assms(2) by simp
  then have c: "after cur ?c" using keyset_rows_sorted(2) [OF assms(1)] by blast
  have mono: "after cur k" if "cursor_less ?c k" for k
    using c that cursor.transitive [of _ ?c k] by (cases cur) (simp_all add: after_def)
  have "(P r \<and> after (Some ?c) (key r)) = (?Q r \<and> cursor_less ?c (key r))" for r
    using mono [of "key r"] by (auto simp: after_def [of "Some ?c"])
  then have "filter (\<lambda>r. P r \<and> after (Some ?c) (key r)) t = filter (\<lambda>r. cursor_less ?c (key r)) (filter ?Q t)"
    by simp
  then have "keyset_rows key P (Some ?c) t = filter (\<lambda>r. cursor_less ?c (key r)) ?S"
    using cursor.filter_isort [OF distinct_map_filter [OF assms(1)], of "\<lambda>r. cursor_less ?c (key r)" ?Q]
    by (simp add: keyset_rows_def)
  also have "\<dots> = drop (Suc i) ?S"
    by (rule cursor.filter_after_nth [OF keyset_rows_sorted(1) [OF assms(1)] assms(2)])
  finally show ?thesis .
qed

lemma keyset_page_split:
  fixes t :: "'r list"
  assumes "distinct (map key t)" and "0 < n" and "S = keyset_rows key P cur t"
  shows "length S \<le> n \<Longrightarrow> keyset_page key P n cur t = (S, NoToken)"
    and "length S > n \<Longrightarrow> keyset_page key P n cur t = (take n S, token_of (Some (key (S ! (n - 1)))))
      \<and> keyset_rows key P (Some (key (S ! (n - 1)))) t = drop n S"
  using keyset_rows_next [OF assms(1), of "n - 1" P cur] assms(2)
  by (simp_all add: assms(3) [symmetric] keyset_page_def Let_def token_of_def min_def)

lemma walk_pages_complete:
  fixes t :: "'r list"
  assumes "distinct (map key t)" and "pageSizeOrDefault sz = Inr n" and "lf_allowed f \<noteq> Some []"
  shows "length (keyset_rows key P cur t) < k \<Longrightarrow>
    walk_pages k (\<lambda>tok. list_page key P f sz tok t) (token_of cur) = Some (Inr (keyset_rows key P cur t))"
proof (induction k arbitrary: cur)
  case (Suc k)
  let ?S = "keyset_rows key P cur t"
  have n: "0 < n" using assms(2) by (auto simp: pageSizeOrDefault_def split: if_splits)
  have page: "list_page key P f sz (token_of cur) t = Inr (keyset_page key P n cur t)"
    using assms(2,3) by (simp add: list_page_def)
  show ?case
  proof (cases "length ?S \<le> n")
    case True
    from keyset_page_split(1) [OF assms(1) n refl True] page show ?thesis by simp
  next
    case False
    let ?c = "key (?S ! (n - 1))"
    have p: "keyset_page key P n cur t = (take n ?S, token_of (Some ?c))"
      and r: "keyset_rows key P (Some ?c) t = drop n ?S"
      using keyset_page_split(2) [OF assms(1) n refl, of P cur] False by auto
    have "walk_pages k (\<lambda>tok. list_page key P f sz tok t) (token_of (Some ?c)) = Some (Inr (drop n ?S))"
      using Suc.IH [of "Some ?c"] Suc.prems n False unfolding r by simp
    with page p show ?thesis by (simp add: token_of_def encodePageToken_def)
  qed
qed simp

lemma cursor_distinct: "distinct (map i xs) \<Longrightarrow> distinct (map (\<lambda>r. (c r, i r)) xs)"
  by (induction xs) auto

subsection \<open>The use-cases\<close>

record list_request =
  lq_project :: string
  lq_parent :: string
  lq_filter :: string
  lq_size :: int
  lq_token :: page_token

text \<open>The parser of the filter is a library's: the text of its error, or the name if there is one.\<close>

definition ParseNameFilter :: "(string \<Rightarrow> string + string option) \<Rightarrow> string \<Rightarrow> err + string" where
  "ParseNameFilter parse raw = (case parse raw of
       Inl m \<Rightarrow> Inl (Status CodeInvalidArgument m)
     | Inr None \<Rightarrow> Inr ''''
     | Inr (Some v) \<Rightarrow> Inr v)"

text \<open>
  The three use-cases differ in the object type, the text of a missing project and the reader.
  The state is that of the filter and the world.
\<close>

definition list_usecase ::
  "(string \<Rightarrow> string + string option) \<Rightarrow> 's object_filter option \<Rightarrow> principal \<Rightarrow> string \<Rightarrow> string \<Rightarrow> err \<Rightarrow>
   (list_filter \<Rightarrow> int \<Rightarrow> page_token \<Rightarrow> db \<Rightarrow> err + 'r list \<times> page_token) \<Rightarrow> list_request \<Rightarrow> 's \<Rightarrow> 'v world \<Rightarrow>
   (err + 'r list \<times> page_token) \<times> 's \<times> 'v world" where
  "list_usecase parse flt pr ty action missing lister rq s w =
     (if lq_project rq = '''' then (Inl missing, s, w)
      else case ParseNameFilter parse (lq_filter rq) of
        Inl e \<Rightarrow> (Inl e, s, w)
      | Inr name \<Rightarrow>
         (case Resolve flt pr ty action s of
            (Inl e, s') \<Rightarrow> (Inl e, s', w)
          | (Inr dec, s') \<Rightarrow>
              if \<not> dc_bypass dec \<and> dc_empty dec then (Inr ([], NoToken), s', w)
              else (case reading (lister \<lparr> lf_project = lq_project rq, lf_parent = lq_parent rq, lf_name = name,
                          lf_allowed = (if dc_bypass dec then None else Some (dc_ids dec)) \<rparr>
                          (lq_size rq) (lq_token rq)) w of
                      (r, w') \<Rightarrow> (r, s', w'))))"

definition ListLoadBalancers_Execute where
  "ListLoadBalancers_Execute parse flt pr rq = list_usecase parse flt pr ResourceTypeLoadBalancer ActionLoadBalancerList
     (err_invalid_arg ''project_id'' ''required'') LB_List rq"

definition ListListeners_Run where
  "ListListeners_Run parse flt pr rq = list_usecase parse flt pr ResourceTypeListener ActionListenerList
     (Status CodeInvalidArgument ''project_id required'') Listener_List rq"

definition ListTargetGroups_Execute where
  "ListTargetGroups_Execute parse flt pr rq = list_usecase parse flt pr ResourceTypeTargetGroup ActionTargetGroupList
     (err_invalid_arg ''project_id'' ''required'') TG_List rq"

subsection \<open>Properties\<close>

lemma list_page_rows:
  assumes "list_page key P f sz tok t = Inr (rs, tok')"
  shows "set rs \<subseteq> {r \<in> set t. P r}" and "length rs \<le> 1000"
proof -
  have rows: "set (keyset_rows key P cur t) \<subseteq> {r \<in> set t. P r}" for cur
    by (auto simp: keyset_rows_def)
  have "set (fst (keyset_page key P n cur t)) \<subseteq> {r \<in> set t. P r} \<and> length (fst (keyset_page key P n cur t)) \<le> n" for n cur
    using rows [of cur] by (auto simp: keyset_page_def Let_def dest!: in_set_takeD)
  note page = this
  consider (none) "rs = []" | (page) n cur where "pageSizeOrDefault sz = Inr n" "rs = fst (keyset_page key P n cur t)"
    using assms by (auto simp: list_page_def split: if_splits) (metis fst_conv)
  then have "set rs \<subseteq> {r \<in> set t. P r} \<and> length rs \<le> 1000"
  proof cases
    case (page n cur)
    then have "n \<le> 1000" by (auto simp: pageSizeOrDefault_def split: if_splits)
    with \<open>rs = _\<close> \<open>\<And>n cur. set (fst (keyset_page key P n cur t)) \<subseteq> {r \<in> set t. P r} \<and> length (fst (keyset_page key P n cur t)) \<le> n\<close> [of n cur]
    show ?thesis by auto
  qed simp
  then show "set rs \<subseteq> {r \<in> set t. P r}" "length rs \<le> 1000" by blast+
qed

text \<open>What a walk over the pages of a table must give: every row of the filter, once, in the order of the positions.\<close>

definition walked :: "('r \<Rightarrow> cursor) \<Rightarrow> ('r \<Rightarrow> bool) \<Rightarrow> 'r list \<Rightarrow> (err + 'r list) option \<Rightarrow> bool" where
  "walked key P t res \<longleftrightarrow> (\<exists>rows. res = Some (Inr rows) \<and> set rows = {r \<in> set t. P r} \<and> distinct rows
     \<and> sorted_wrt (\<lambda>a b. cursor_less (key a) (key b)) rows)"

lemma sorted_distinct: "sorted_wrt (\<lambda>a b. cursor_less (key a) (key b)) xs \<Longrightarrow> distinct xs"
  by (induction xs) (auto dest: bspec simp: cursor.irreflexive)

lemma list_walked:
  fixes t :: "'r list"
  assumes "distinct (map key t)" and "0 \<le> sz" and "sz \<le> 1000" and "lf_allowed f = Some [] \<longrightarrow> (\<forall>r. \<not> P r)"
  shows "walked key P t (walk_pages (Suc (length t)) (\<lambda>tok. list_page key P f sz tok t) NoToken)"
proof -
  have "\<exists>n. pageSizeOrDefault sz = Inr n" using assms(2,3) by (simp add: pageSizeOrDefault_def)
  then obtain n where n: "pageSizeOrDefault sz = Inr n" by blast
  let ?S = "keyset_rows key P None t"
  note S = keyset_rows_sorted [OF assms(1), of P None]
  have "walk_pages (Suc (length t)) (\<lambda>tok. list_page key P f sz tok t) NoToken = Some (Inr ?S)"
  proof (cases "lf_allowed f = Some []")
    case True
    with n assms(4) show ?thesis by (simp add: list_page_def keyset_rows_def isort_def)
  next
    case False
    have "length ?S < Suc (length t)" by (simp add: keyset_rows_def less_Suc_eq_le)
    from walk_pages_complete [OF assms(1) n False this] show ?thesis by (simp add: token_of_def)
  qed
  with S show ?thesis by (auto simp: walked_def after_def intro: sorted_distinct)
qed

text \<open>C12: a client that follows the tokens of a list until there is none gets, on a table that does not change, every row
  that the filter admits exactly once and in the order of creation, for every page size the API takes.\<close>

theorem lists_complete:
  assumes "db_ok d" and "0 \<le> sz" and "sz \<le> 1000"
  shows "walked lb_cursor (lb_listed f) (d_lbs d)
      (walk_pages (Suc (length (d_lbs d))) (\<lambda>tok. LB_List f sz tok d) NoToken)
    \<and> walked ls_cursor (ls_listed f) (d_listeners d)
      (walk_pages (Suc (length (d_listeners d))) (\<lambda>tok. Listener_List f sz tok d) NoToken)
    \<and> walked tg_cursor (tg_listed f) (d_tgs d)
      (walk_pages (Suc (length (d_tgs d))) (\<lambda>tok. TG_List f sz tok d) NoToken)"
proof -
  have "distinct (map lb_id (d_lbs d))" "distinct (map ls_id (d_listeners d))" "distinct (map tg_id (d_tgs d))"
    using db_ok_keyed [OF assms(1)] by (simp_all add: well_keyed_def)
  then have keys: "distinct (map lb_cursor (d_lbs d))" "distinct (map ls_cursor (d_listeners d))"
    "distinct (map tg_cursor (d_tgs d))"
    by (simp_all add: lb_cursor_def [abs_def] ls_cursor_def [abs_def] tg_cursor_def [abs_def] cursor_distinct)
  show ?thesis unfolding LB_List_def Listener_List_def TG_List_def
    by (intro conjI list_walked keys assms(2,3)) (simp_all add: lb_listed_def ls_listed_def tg_listed_def allowed_row_def)
qed

theorem lists_complete_witness:
  "\<exists>rows. walk_pages 1 (\<lambda>tok. LB_List (of_project ''p1'') 1 tok empty_db) NoToken = Some (Inr rows)"
  using lists_complete [OF empty_ok, of 1 "of_project ''p1''"] by (auto simp: walked_def empty_db_def)

lemma list_usecase_Inr:
  assumes "list_usecase parse flt pr ty action missing lister rq s w = (Inr (rs, tok), s', w')" and "rs \<noteq> []"
  shows "\<exists>dec name. fst (Resolve flt pr ty action s) = Inr dec \<and> lq_project rq \<noteq> ''''
    \<and> lister \<lparr> lf_project = lq_project rq, lf_parent = lq_parent rq, lf_name = name,
               lf_allowed = (if dc_bypass dec then None else Some (dc_ids dec)) \<rparr>
        (lq_size rq) (lq_token rq) (begin_tx w) = Inr (rs, tok)"
  using assms
  by (auto simp: list_usecase_def reading_def saga_map_err_def run_read_def Let_def split: if_splits sum.splits prod.splits
      fault.splits)

text \<open>What the caller may see: the identity service said so at a time between the two.\<close>

definition may_see :: "(int \<Rightarrow> authorize) \<Rightarrow> filter_config \<Rightarrow> string \<Rightarrow> string \<Rightarrow> string \<Rightarrow> int \<Rightarrow> int \<Rightarrow> string \<Rightarrow> bool" where
  "may_see iam c subject ty action from until i \<longleftrightarrow> (\<exists>t0 a. from \<le> t0 + fc_ttl c + fc_timeout c \<and> t0 \<le> until
     \<and> iam t0 subject ty action (fc_max c) = Inr a \<and> (lo_wildcard a \<or> i \<in> set (lo_ids a)))"

text \<open>A reader's list gives only rows of its table, of the project and among the identifiers of the filter.\<close>

definition admits ::
  "(list_filter \<Rightarrow> int \<Rightarrow> page_token \<Rightarrow> db \<Rightarrow> err + 'r list \<times> page_token) \<Rightarrow> (db \<Rightarrow> 'r list) \<Rightarrow> ('r \<Rightarrow> string) \<Rightarrow>
   ('r \<Rightarrow> string) \<Rightarrow> bool" where
  "admits lister tbl project i \<longleftrightarrow> (\<forall>f sz tok d rs tok'. lister f sz tok d = Inr (rs, tok') \<longrightarrow>
     (\<forall>r \<in> set rs. r \<in> set (tbl d) \<and> wanted (lf_project f) (project r) \<and> allowed_row f (i r)))"

lemma lists_admit:
  "admits LB_List d_lbs lb_project lb_id" "admits Listener_List d_listeners ls_project ls_id"
  "admits TG_List d_tgs tg_project tg_id"
  unfolding admits_def LB_List_def Listener_List_def TG_List_def
  by (auto dest!: list_page_rows(1) simp: lb_listed_def ls_listed_def tg_listed_def)

lemma list_shown:
  assumes "filter_good iam c m t s" and "listed_action ty action"
    and "list_usecase parse (Some (ListAllowedIDs (strict c) (Some (iam t)) m)) pr ty action missing lister rq s w
      = (Inr (rs, tok), s', w')" and "r \<in> set rs"
    and "admits lister tbl project i"
  shows "r \<in> set (tbl (begin_tx w)) \<and> project r = lq_project rq \<and> SubjectFromCtx pr \<noteq> ''''
    \<and> may_see iam (strict c) (SubjectFromCtx pr) ty action (fm_read m) t (i r)"
proof -
  have "rs \<noteq> []" using assms(4) by auto
  from list_usecase_Inr [OF assms(3) this] obtain dec name where
    dec: "fst (Resolve (Some (ListAllowedIDs (strict c) (Some (iam t)) m)) pr ty action s) = Inr dec"
    and ne: "lq_project rq \<noteq> ''''"
    and l: "lister \<lparr> lf_project = lq_project rq, lf_parent = lq_parent rq, lf_name = name,
               lf_allowed = (if dc_bypass dec then None else Some (dc_ids dec)) \<rparr>
        (lq_size rq) (lq_token rq) (begin_tx w) = Inr (rs, tok)" (is "lister ?f _ _ _ = _")
    by blast
  from assms(4,5) l have r: "r \<in> set (tbl (begin_tx w))"
    and "wanted (lq_project rq) (project r) \<and> allowed_row ?f (i r)"
    unfolding admits_def by fastforce+
  with ne have "project r = lq_project rq" "allowed_row ?f (i r)" by (auto simp: wanted_def)
  then have "dc_bypass dec \<or> i r \<in> set (dc_ids dec)" by (auto simp: allowed_row_def split: if_splits)
  with fga_filter.Resolve_backed [OF assms(1,2) dec] decision_backs r \<open>project r = lq_project rq\<close>
  show ?thesis unfolding may_see_def by blast
qed

lemma listed_actions:
  "listed_action ResourceTypeLoadBalancer ActionLoadBalancerList"
  "listed_action ResourceTypeListener ActionListenerList"
  "listed_action ResourceTypeTargetGroup ActionTargetGroupList"
  by (simp_all add: listed_action_def)

text \<open>C13: a list shows a row only to a caller with an identity, only of the project asked for, and only if the identity service
  has said that this caller may list it, no longer ago than the time to live of the cache and the timeout of a
  call: for a filter that is on and fails closed, whatever is in its cache.\<close>

theorem list_no_leak:
  assumes "filter_good iam c m t s"
    and "flt = Some (ListAllowedIDs (strict c) (Some (iam t)) m)" and "subject = SubjectFromCtx pr"
  shows "(\<forall>lbs tok s' w' r. ListLoadBalancers_Execute parse flt pr rq s w = (Inr (lbs, tok), s', w') \<and> r \<in> set lbs \<longrightarrow>
      r \<in> set (d_lbs (begin_tx w)) \<and> lb_project r = lq_project rq \<and> subject \<noteq> ''''
      \<and> may_see iam (strict c) subject ResourceTypeLoadBalancer ActionLoadBalancerList (fm_read m) t (lb_id r))
    \<and> (\<forall>lss tok s' w' r. ListListeners_Run parse flt pr rq s w = (Inr (lss, tok), s', w') \<and> r \<in> set lss \<longrightarrow>
      r \<in> set (d_listeners (begin_tx w)) \<and> ls_project r = lq_project rq \<and> subject \<noteq> ''''
      \<and> may_see iam (strict c) subject ResourceTypeListener ActionListenerList (fm_read m) t (ls_id r))
    \<and> (\<forall>tgs tok s' w' r. ListTargetGroups_Execute parse flt pr rq s w = (Inr (tgs, tok), s', w') \<and> r \<in> set tgs \<longrightarrow>
      r \<in> set (d_tgs (begin_tx w)) \<and> tg_project r = lq_project rq \<and> subject \<noteq> ''''
      \<and> may_see iam (strict c) subject ResourceTypeTargetGroup ActionTargetGroupList (fm_read m) t (tg_id r))"
  unfolding assms(2,3) ListLoadBalancers_Execute_def ListListeners_Run_def ListTargetGroups_Execute_def
proof (intro conjI allI impI; elim conjE)
  fix lbs tok s' w' r
  assume "list_usecase parse (Some (ListAllowedIDs (strict c) (Some (iam t)) m)) pr ResourceTypeLoadBalancer
    ActionLoadBalancerList (err_invalid_arg ''project_id'' ''required'') LB_List rq s w = (Inr (lbs, tok), s', w')"
    and "r \<in> set lbs"
  from list_shown [OF assms(1) listed_actions(1) this lists_admit(1)]
  show "r \<in> set (d_lbs (begin_tx w))" "lb_project r = lq_project rq" "SubjectFromCtx pr \<noteq> ''''"
    "may_see iam (strict c) (SubjectFromCtx pr) ResourceTypeLoadBalancer ActionLoadBalancerList (fm_read m) t (lb_id r)"
    by blast+
next
  fix lss tok s' w' r
  assume "list_usecase parse (Some (ListAllowedIDs (strict c) (Some (iam t)) m)) pr ResourceTypeListener
    ActionListenerList (Status CodeInvalidArgument ''project_id required'') Listener_List rq s w = (Inr (lss, tok), s', w')"
    and "r \<in> set lss"
  from list_shown [OF assms(1) listed_actions(2) this lists_admit(2)]
  show "r \<in> set (d_listeners (begin_tx w))" "ls_project r = lq_project rq" "SubjectFromCtx pr \<noteq> ''''"
    "may_see iam (strict c) (SubjectFromCtx pr) ResourceTypeListener ActionListenerList (fm_read m) t (ls_id r)"
    by blast+
next
  fix tgs tok s' w' r
  assume "list_usecase parse (Some (ListAllowedIDs (strict c) (Some (iam t)) m)) pr ResourceTypeTargetGroup
    ActionTargetGroupList (err_invalid_arg ''project_id'' ''required'') TG_List rq s w = (Inr (tgs, tok), s', w')"
    and "r \<in> set tgs"
  from list_shown [OF assms(1) listed_actions(3) this lists_admit(3)]
  show "r \<in> set (d_tgs (begin_tx w))" "tg_project r = lq_project rq" "SubjectFromCtx pr \<noteq> ''''"
    "may_see iam (strict c) (SubjectFromCtx pr) ResourceTypeTargetGroup ActionTargetGroupList (fm_read m) t (tg_id r)"
    by blast+
qed

definition sample_iam :: "int \<Rightarrow> authorize" where
  "sample_iam t subject ty action mx = Inr \<lparr> lo_wildcard = False, lo_ids = [''nlb1''] \<rparr>"

definition sample_list_request :: list_request where
  "sample_list_request = \<lparr> lq_project = ''p1'', lq_parent = '''', lq_filter = '''', lq_size = 10, lq_token = NoToken \<rparr>"

definition sample_flt :: "cache object_filter option" where
  "sample_flt = Some (ListAllowedIDs (strict DefaultConfig) (Some (sample_iam 1)) sample_moment)"

theorem list_no_leak_witness:
  "\<exists>r tok s' w'. ListLoadBalancers_Execute (\<lambda>raw. Inr None) sample_flt sample_principal sample_list_request []
      ((sample_world []) \<lparr> w_db := sample_db \<rparr>) = (Inr ([r], tok), s', w')
    \<and> lb_project r = ''p1''
    \<and> may_see sample_iam (strict DefaultConfig) (SubjectFromCtx sample_principal) ResourceTypeLoadBalancer
        ActionLoadBalancerList 0 1 (lb_id r)"
proof -
  let ?w = "(sample_world []) \<lparr> w_db := sample_db \<rparr> :: string list world"
  let ?r = "ListLoadBalancers_Execute (\<lambda>raw. Inr None) sample_flt sample_principal sample_list_request [] ?w"
  have "map_option (\<lambda>x. length (fst x)) (case fst ?r of Inl e \<Rightarrow> None | Inr x \<Rightarrow> Some x) = Some 1"
    by code_simp
  then obtain r tok s' w' where call: "?r = (Inr ([r], tok), s', w')"
    by (cases ?r) (auto simp: length_Suc_conv split: sum.splits)
  have "filter_good sample_iam DefaultConfig sample_moment 1 []"
    by (simp add: filter_good_def moment_ok_def cache_backed_def sample_moment_def strict_def NewFGAFilter_def DefaultConfig_def)
  from list_no_leak [OF this sample_flt_def refl, where parse = "\<lambda>raw. Inr None" and pr = sample_principal
      and rq = sample_list_request and w = ?w] call
  have "lb_project r = lq_project sample_list_request"
    "may_see sample_iam (strict DefaultConfig) (SubjectFromCtx sample_principal) ResourceTypeLoadBalancer
        ActionLoadBalancerList (fm_read sample_moment) 1 (lb_id r)"
    by (metis list.set_intros(1))+
  with call show ?thesis by (simp add: sample_list_request_def sample_moment_def)
qed

end
