(* ===== verification/Confinement.thy ===== *)
theory Confinement
  imports World_Invariants
begin

text \<open>
  How far a call reaches. \<open>outside L S G\<close> is what the database holds outside the load balancers
  \<open>L\<close> (with their listeners and attachments), the listeners \<open>S\<close> and the target groups \<open>G\<close> (with their
  targets). Each call changes nothing outside the one object it names, or the one it creates; only the
  status that the trigger derives from the children may change on another load balancer.
\<close>

definition lb_core :: "lb_row \<Rightarrow> lb_row" where
  "lb_core r = r \<lparr> lb_status := LBStatusInactive, lb_xmin := 0 \<rparr>"

definition outside ::
  "string set \<Rightarrow> string set \<Rightarrow> string set \<Rightarrow> db \<Rightarrow>
   lb_row list \<times> listener_row list \<times> attached_row list \<times> tg_row list \<times> target_row list" where
  "outside L S G d =
     (map lb_core (filter (\<lambda>r. lb_id r \<notin> L) (d_lbs d)),
      filter (\<lambda>l. ls_lb l \<notin> L \<and> ls_id l \<notin> S) (d_listeners d),
      filter (\<lambda>a. at_lb a \<notin> L) (d_attached d),
      filter (\<lambda>g. tg_id g \<notin> G) (d_tgs d),
      filter (\<lambda>t. tr_group t \<notin> G) (d_targets d))"

definition same :: "(db \<Rightarrow> 'o) \<Rightarrow> db \<Rightarrow> db \<Rightarrow> bool" where
  "same view d d' \<longleftrightarrow> view d' = view d"

text \<open>Nobody else writes while the call runs; transactions may still fail.\<close>

definition solitary :: "'v world \<Rightarrow> bool" where
  "solitary w \<longleftrightarrow> (\<forall>s \<in> set (w_slots w). sl_others s = (\<lambda>d. d))"

definition steady :: "(db \<Rightarrow> 'o) \<Rightarrow> 'o \<Rightarrow> 'v world \<Rightarrow> bool" where
  "steady view o0 w \<longleftrightarrow> solitary w \<and> view (w_db w) = o0"

lemma solitary_begin: "solitary w \<Longrightarrow> begin_tx w = w_db w \<lparr> d_tx := Suc (d_tx (w_db w)) \<rparr>"
  by (cases "w_slots w") (simp_all add: begin_tx_def Let_def next_slot_def quiet_def solitary_def)

lemma solitary_settle: "solitary w \<Longrightarrow> solitary (settle w d)"
  using set_drop_subset [of 1 "w_slots w"] unfolding solitary_def by (simp only: settle_simps) blast

lemma outside_begin [simp]: "outside L S G (d \<lparr> d_tx := n \<rparr>) = outside L S G d"
  by (simp add: outside_def)

text \<open>The contract of the workers once more, met by the worlds that keep the outside of the object.\<close>

interpretation far: kept_by_workers "steady (outside L S G) v :: 'v world \<Rightarrow> bool" "same (outside L S G)"
  for L S G v
proof unfold_locales
  fix w :: "'v world" and d' x cs assume w: "steady (outside L S G) v w"
  then have c: "solitary w" and v: "outside L S G (w_db w) = v" by (simp_all add: steady_def)
  show "steady (outside L S G) v (settle w (begin_tx w))"
    by (simp add: steady_def solitary_settle [OF c] solitary_begin [OF c] v)
  show "same (outside L S G) (begin_tx w) d' \<Longrightarrow> steady (outside L S G) v (settle w d')"
    by (simp add: steady_def same_def solitary_settle [OF c] solitary_begin [OF c] v)
  show "steady (outside L S G) v (w \<lparr> w_vpc := x, w_calls := cs \<rparr>)"
    using w by (simp add: steady_def solitary_def)
qed

subsection \<open>Statements\<close>

lemma filter_map_if:
  "(\<And>r. Q r \<Longrightarrow> \<not> P r \<and> \<not> P (f r)) \<Longrightarrow> filter P (map (\<lambda>r. if Q r then f r else r) t) = filter P t"
  by (induction t) auto

lemma untouched_tbl_upd:
  "(\<And>r. key r = k \<Longrightarrow> \<not> P r \<and> \<not> P (f r)) \<Longrightarrow> filter P (tbl_upd key k f t) = filter P t"
  unfolding tbl_upd_def by (rule filter_map_if)

lemma untouched_tbl_del: "(\<And>r. key r = k \<Longrightarrow> \<not> P r) \<Longrightarrow> filter P (tbl_del key k t) = filter P t"
  by (induction t) (auto simp: tbl_del_def)

lemma core_tbl_upd:
  "(\<And>r. P (f r) = P r \<and> c (f r) = c r) \<Longrightarrow> map c (filter P (tbl_upd key k f t)) = map c (filter P t)"
  by (induction t) (auto simp: tbl_upd_def)

named_theorems far_statements

lemma far_emit [simp]:
  "outside L S G (emit_outbox k i p a m d) = outside L S G d" "outside L S G (emit_fga ev x d) = outside L S G d"
  by (simp_all add: outside_def emit_outbox_def emit_fga_def)

lemma far_recompute [simp]: "outside L S G (lb_status_recompute i d) = outside L S G d"
  by (auto simp: lb_status_recompute_def Let_def outside_def emit_outbox_def lb_core_def
      intro!: core_tbl_upd split: option.split)

lemma far_insert_lb [far_statements]:
  "insert_lb r d = Inr d' \<Longrightarrow> lb_id r \<in> L \<Longrightarrow> outside L S G d' = outside L S G d"
  by (auto simp: insert_lb_def outside_def)

lemma far_update_lb [far_statements]:
  "update_lb i f d = Inr d' \<Longrightarrow> i \<in> L \<Longrightarrow> (\<And>r. lb_id (f r) = lb_id r) \<Longrightarrow> outside L S G d' = outside L S G d"
  by (auto simp: update_lb_def Let_def outside_def untouched_tbl_upd split: option.splits)

lemma far_delete_lb [far_statements]:
  "delete_lb i d = Inr d' \<Longrightarrow> i \<in> L \<Longrightarrow> outside L S G d' = outside L S G d"
  by (auto simp: delete_lb_def outside_def untouched_tbl_del)

lemma far_insert_listener [far_statements]:
  "insert_listener r d = Inr d' \<Longrightarrow> ls_id r \<in> S \<or> ls_lb r \<in> L \<Longrightarrow> outside L S G d' = outside L S G d"
  by (auto simp: insert_listener_def) (simp_all add: outside_def)
lemma far_update_listener [far_statements]:
  "update_listener i f d = Inr d' \<Longrightarrow> i \<in> S \<Longrightarrow> (\<And>r. ls_id (f r) = ls_id r) \<Longrightarrow>
   outside L S G d' = outside L S G d"
  by (auto simp: update_listener_def Let_def split: option.splits if_splits) (simp_all add: outside_def untouched_tbl_upd)

lemma far_delete_listener [simp]: "i \<in> S \<Longrightarrow> outside L S G (delete_listener i d) = outside L S G d"
  by (auto simp: delete_listener_def split: option.splits) (simp add: outside_def untouched_tbl_del)

lemma far_insert_attached [far_statements]:
  "insert_attached a d = Inr d' \<Longrightarrow> at_lb a \<in> L \<Longrightarrow> outside L S G d' = outside L S G d"
  by (auto simp: insert_attached_def) (simp add: outside_def)

lemma far_delete_attached [far_statements]:
  "delete_attached i g d = Inr d' \<Longrightarrow> i \<in> L \<Longrightarrow> outside L S G d' = outside L S G d"
  by (auto simp: delete_attached_def split: option.splits)
     (auto simp: outside_def at_key_def intro: untouched_tbl_del)

lemma far_insert_tg [far_statements]:
  "insert_tg r d = Inr d' \<Longrightarrow> tg_id r \<in> G \<Longrightarrow> outside L S G d' = outside L S G d"
  by (auto simp: insert_tg_def outside_def)

lemma far_update_tg [far_statements]:
  "update_tg i f d = Inr d' \<Longrightarrow> i \<in> G \<Longrightarrow> (\<And>r. tg_id (f r) = tg_id r) \<Longrightarrow> outside L S G d' = outside L S G d"
  by (auto simp: update_tg_def Let_def outside_def untouched_tbl_upd split: option.splits)

lemma far_delete_tg [far_statements]:
  "delete_tg i d = Inr d' \<Longrightarrow> i \<in> G \<Longrightarrow> outside L S G d' = outside L S G d"
  by (auto simp: delete_tg_def outside_def untouched_tbl_del)

lemma far_insert_target [far_statements]:
  "insert_target_nothing r d = Inr (b, d') \<Longrightarrow> tr_group r \<in> G \<Longrightarrow> outside L S G d' = outside L S G d"
  by (auto simp: insert_target_nothing_def outside_def split: if_splits)

subsection \<open>Transactions\<close>

lemma same_bind:
  assumes "within (same view) m" and "\<And>x. within (same view) (k x)"
  shows "within (same view) (tx_bind m k)"
  using assms unfolding within_def same_def tx_bind_def by fastforce

lemma same_tx:
  "within (same view) (tx_return x)" "within (same view) m \<Longrightarrow> within (same view) (tx_map_err f m)"
  "(\<And>d. view (h d) = view d) \<Longrightarrow> within (same view) (tx_emit h)"
  "within (same view) (\<lambda>d. attempt (g d) (\<lambda>b. Inr (b, d)))"
  by (auto simp: within_def same_def tx_return_def tx_map_err_def tx_emit_def)

lemma same_if: "within S m \<Longrightarrow> within S n \<Longrightarrow> within S (if b then m else n)"
  by simp

lemma same_ignoring: "within (same view) m \<Longrightarrow> within (same view) (tx_ignoring s m)"
  by (auto simp: within_def same_def tx_ignoring_def split: sum.splits if_splits)

lemma same_read: "(\<And>d x d'. m d = Inr (x, d') \<Longrightarrow> view d' = view d) \<Longrightarrow> within (same view) m"
  by (auto simp: within_def same_def)

lemma far_update_lb_returning:
  "i \<in> L \<Longrightarrow> (\<And>r. lb_id (f r) = lb_id r) \<Longrightarrow> update_lb_returning me i f d = Inr (r, d') \<Longrightarrow>
   outside L S G d' = outside L S G d"
  by (auto simp: update_lb_returning_def far_update_lb split: option.splits)

lemma far_update_listener_returning:
  "i \<in> S \<Longrightarrow> (\<And>r. ls_id (f r) = ls_id r) \<Longrightarrow> update_listener_returning me i f d = Inr (r, d') \<Longrightarrow>
   outside L S G d' = outside L S G d"
  by (auto simp: update_listener_returning_def far_update_listener split: option.splits)

lemma far_update_tg_returning:
  "i \<in> G \<Longrightarrow> (\<And>r. tg_id (f r) = tg_id r) \<Longrightarrow> update_tg_returning me i f d = Inr (r, d') \<Longrightarrow>
   outside L S G d' = outside L S G d"
  by (auto simp: update_tg_returning_def far_update_tg split: option.splits)

lemma far_LB:
  assumes "i \<in> L"
  shows "lb_id lb = i \<Longrightarrow> within (same (outside L S G)) (LB_Insert lb)"
    "lb_id lb = i \<Longrightarrow> within (same (outside L S G)) (LB_Update lb v)"
    "within (same (outside L S G)) (LB_AttachVIP i f a ai o1)"
    "within (same (outside L S G)) (LB_SetStatusCAS i s t)"
    "within (same (outside L S G)) (LB_MarkDeleting i)"
    "within (same (outside L S G)) (LB_Delete i)"
    "within (same (outside L S G)) (LB_MoveProject i p)"
proof -
  note up = far_update_lb_returning [OF assms]
  show "lb_id lb = i \<Longrightarrow> within (same (outside L S G)) (LB_Insert lb)"
    using assms by (intro same_read) (auto simp: LB_Insert_def new_lb_row_def load_balancer.defs intro: far_insert_lb)
  show "lb_id lb = i \<Longrightarrow> within (same (outside L S G)) (LB_Update lb v)"
    using assms by (intro same_read)
      (auto simp: LB_Update_def split: option.splits if_splits elim!: far_update_lb_returning [rotated 2])
  show "within (same (outside L S G)) (LB_AttachVIP i f a ai o1)"
    by (intro same_read) (auto simp: LB_AttachVIP_def split: option.splits if_splits elim!: up [rotated])
  show "within (same (outside L S G)) (LB_SetStatusCAS i s t)"
    by (intro same_read) (auto simp: LB_SetStatusCAS_def Let_def split: option.splits if_splits elim!: up [rotated])
  show "within (same (outside L S G)) (LB_MarkDeleting i)"
    by (intro same_read) (auto simp: LB_MarkDeleting_def split: option.splits if_splits elim!: up [rotated])
  show "within (same (outside L S G)) (LB_Delete i)"
    using assms by (intro same_read) (auto simp: LB_Delete_def far_delete_lb split: option.splits)
  show "within (same (outside L S G)) (LB_MoveProject i p)"
  proof (rule same_read)
    fix d r d' assume "LB_MoveProject i p d = Inr (r, d')"
    then obtain d1 where u: "update_lb_returning (\<lambda>e. mapPgErr e ''NetworkLoadBalancer'' i) i
          (\<lambda>r. r \<lparr> lb_project := p, lb_updated := d_now d \<rparr>) d = Inr (r, d1)"
      and d': "d' = d1 \<lparr> d_listeners := map (\<lambda>l. if ls_lb l = i
          then l \<lparr> ls_project := p, ls_updated := d_now d, ls_xmin := d_tx d \<rparr> else l) (d_listeners d1) \<rparr>"
      by (auto simp: LB_MoveProject_def split: option.splits if_splits)
    have "outside L S G d' = outside L S G d1" unfolding d' using assms by (auto simp: outside_def intro!: filter_map_if)
    also have "\<dots> = outside L S G d" by (rule up [OF _ u]) simp
    finally show "outside L S G d' = outside L S G d" .
  qed
qed

lemma far_listener:
  assumes "i \<in> S"
  shows "ls_id l = i \<Longrightarrow> within (same (outside L S G)) (Listener_Insert l)"
    "ls_id l = i \<Longrightarrow> within (same (outside L S G)) (Listener_Update l v)"
    "within (same (outside L S G)) (Listener_SetStatusCAS i s t)"
    "within (same (outside L S G)) (Listener_Delete i)"
proof -
  note up = far_update_listener_returning [OF assms]
  show "ls_id l = i \<Longrightarrow> within (same (outside L S G)) (Listener_Insert l)"
    using assms by (intro same_read)
      (auto simp: Listener_Insert_def Let_def new_listener_row_def listener.defs split: option.splits if_splits
        intro: far_insert_listener)
  show "ls_id l = i \<Longrightarrow> within (same (outside L S G)) (Listener_Update l v)"
    using assms by (intro same_read)
      (auto simp: Listener_Update_def split: option.splits if_splits elim!: far_update_listener_returning [rotated 2])
  show "within (same (outside L S G)) (Listener_SetStatusCAS i s t)"
    by (intro same_read) (auto simp: Listener_SetStatusCAS_def Let_def split: option.splits if_splits elim!: up [rotated])
  show "within (same (outside L S G)) (Listener_Delete i)"
    using assms by (intro same_read) (auto simp: Listener_Delete_def split: option.splits)
qed

lemma far_attached:
  assumes "i \<in> L"
  shows "within (same (outside L S G)) (Attached_Attach i g pr)"
    "within (same (outside L S G)) (Attached_Detach i g)"
proof -
  have zero: "attach_zero_rows i g d = Inr (x, d') \<Longrightarrow> d' = d" for d x d'
    by (auto simp: attach_zero_rows_def split: option.splits if_splits sum.splits)
  show "within (same (outside L S G)) (Attached_Attach i g pr)"
    using assms by (intro same_read)
      (auto simp: Attached_Attach_def Let_def split: if_splits intro: far_insert_attached dest!: zero)
  show "within (same (outside L S G)) (Attached_Detach i g)"
    using assms by (intro same_read) (auto simp: Attached_Detach_def intro: far_delete_attached)
qed

lemma far_add_one: "add_one_target n d = Inr (b, d') \<Longrightarrow> tr_group n \<in> G \<Longrightarrow> outside L S G d' = outside L S G d"
  by (auto simp: add_one_target_def split: if_splits intro: far_insert_target)
     (auto simp: outside_def reactivates_def reactivate_row_def intro!: filter_map_if)

lemma group_new_target [simp]: "tr_group (new_target_row g n i t) = g"
  by (simp add: new_target_row_def split: prod.split)

lemma far_add_loop: "add_targets_loop g ts n d = Inr (m, d') \<Longrightarrow> g \<in> G \<Longrightarrow> outside L S G d' = outside L S G d"
proof (induction g ts n d rule: add_targets_loop.induct)
  case (2 g i t ts n d)
  then obtain b d1 where a: "add_one_target (new_target_row g (d_now d) i t) d = Inr (b, d1)"
    and r: "add_targets_loop g ts (if b then Suc n else n) d1 = Inr (m, d')" by auto
  have "outside L S G d1 = outside L S G d" using a 2(3) by (auto intro: far_add_one)
  with 2(1) [OF a _ r 2(3)] show ?case by simp
qed simp

lemma far_tg:
  assumes "i \<in> G"
  shows "tg_id g = i \<Longrightarrow> within (same (outside L S G)) (TG_Insert g us)"
    "tg_id g = i \<Longrightarrow> within (same (outside L S G)) (TG_Update g v)"
    "within (same (outside L S G)) (TG_AddTargets i ts)"
    "within (same (outside L S G)) (TG_RemoveTargetsMarkDraining i us)"
    "within (same (outside L S G)) (TG_MoveProject i p)"
    "within (same (outside L S G)) (TG_Delete i)"
proof -
  note up = far_update_tg_returning [OF assms]
  have add: "TG_AddTargets i ts d = Inr (n, d') \<Longrightarrow> outside L S G d' = outside L S G d" for ts d n d'
    using assms by (auto simp: TG_AddTargets_def split: if_splits option.splits intro: far_add_loop)
  then show "within (same (outside L S G)) (TG_AddTargets i ts)" by (rule same_read)
  show "within (same (outside L S G)) (TG_Insert g us)" if g: "tg_id g = i"
  proof (rule same_read)
    fix d r d' assume "TG_Insert g us d = Inr (r, d')"
    then obtain d1 where n: "insert_tg (new_tg_row d g) d = Inr d1"
      and r: "d' = d1 \<or> (\<exists>n. TG_AddTargets i (zip us (tg_targets g)) d1 = Inr (n, d'))"
      unfolding TG_Insert_def g by (auto split: if_splits)
    have "outside L S G d1 = outside L S G d"
      using far_insert_tg [OF n] assms g by (simp add: new_tg_row_def target_group.defs)
    with r show "outside L S G d' = outside L S G d" by (auto dest: add)
  qed
  show "tg_id g = i \<Longrightarrow> within (same (outside L S G)) (TG_Update g v)"
    using assms by (intro same_read)
      (auto simp: TG_Update_def split: option.splits if_splits elim!: far_update_tg_returning [rotated 2])
  show "within (same (outside L S G)) (TG_RemoveTargetsMarkDraining i us)"
    using assms by (intro same_read)
      (auto simp: TG_RemoveTargetsMarkDraining_def outside_def marks_draining_def split: if_splits
        intro!: filter_map_if)
  show "within (same (outside L S G)) (TG_MoveProject i p)"
    by (intro same_read) (auto simp: TG_MoveProject_def split: option.splits if_splits elim!: up [rotated])
  show "within (same (outside L S G)) (TG_Delete i)"
    using assms by (intro same_read) (auto simp: TG_Delete_def far_delete_tg split: option.splits)
qed

lemmas same_parts = same_bind same_tx same_if same_ignoring

subsection \<open>Calls\<close>

lemma far_lb_txs:
  assumes "i \<in> L"
  shows "lb_id lb = i \<Longrightarrow> within (same (outside L S G)) (finalize_tx lb pr)"
    "lb_id lb = i \<Longrightarrow> within (same (outside L S G)) (update_tx lb v b)"
    "within (same (outside L S G)) (start_tx i s)" "within (same (outside L S G)) (stop_tx i s)"
    "within (same (outside L S G)) (move_tx i p q)" "within (same (outside L S G)) (lb_delete_tx i p)"
    "within (same (outside L S G)) (attach_tx i g p)" "within (same (outside L S G)) (detach_tx i g p)"
  unfolding finalize_tx_def update_tx_def start_tx_def stop_tx_def move_tx_def lb_delete_tx_def attach_tx_def
    detach_tx_def updated_event_def attach_event_def
  using assms by (intro same_parts far_LB far_attached; simp)+

lemma far_listener_txs:
  assumes "i \<in> S"
  shows "ls_id l = i \<Longrightarrow> within (same (outside L S G)) (create_listener_tx l lb s)"
    "ls_id l = i \<Longrightarrow> within (same (outside L S G)) (update_listener_tx l v b)"
    "ls_id cur = i \<Longrightarrow> within (same (outside L S G)) (mark_listener_tx cur)"
    "ls_id cur = i \<Longrightarrow> within (same (outside L S G)) (delete_listener_tx cur)"
  unfolding create_listener_tx_def update_listener_tx_def mark_listener_tx_def delete_listener_tx_def
    listener_event_def parent_event_def
  using assms by (intro same_parts far_listener; simp)+

lemma far_tg_txs:
  assumes "i \<in> G"
  shows "tg_id g = i \<Longrightarrow> within (same (outside L S G)) (create_tg_tx g us pr)"
    "tg_id g = i \<Longrightarrow> within (same (outside L S G)) (update_tg_tx g v b)"
    "within (same (outside L S G)) (delete_tg_tx i p)" "within (same (outside L S G)) (move_tg_tx i p q)"
    "within (same (outside L S G)) (add_targets_tx i row ts)"
    "within (same (outside L S G)) (remove_targets_tx i row us)"
  unfolding create_tg_tx_def update_tg_tx_def delete_tg_tx_def move_tg_tx_def add_targets_tx_def remove_targets_tx_def
    tg_event_def targets_event_def
  using assms by (intro same_parts far_tg; simp)+

text \<open>The object a call names or creates.\<close>

fun lb_subject :: "lb_rpc \<Rightarrow> string" where
  "lb_subject (LbCreate i rq) = i"
| "lb_subject (LbUpdate rq) = ur_id rq"
| "lb_subject (LbDelete i) = i"
| "lb_subject (LbStart i) = i"
| "lb_subject (LbStop i) = i"
| "lb_subject (LbMove i dst) = i"
| "lb_subject (LbAttach i a) = i"
| "lb_subject (LbDetach i g) = i"
| "lb_subject (LbTargetStates now i g) = i"

fun listener_subject :: "listener_rpc \<Rightarrow> string" where
  "listener_subject (LsCreate i rq) = i"
| "listener_subject (LsUpdate rq) = lu_id rq"
| "listener_subject (LsDelete i) = i"

fun tg_subject :: "tg_rpc \<Rightarrow> string" where
  "tg_subject (TgCreate i ids rq) = i"
| "tg_subject (TgUpdate rq) = ug_id rq"
| "tg_subject (TgDelete i) = i"
| "tg_subject (TgMove i dst) = i"
| "tg_subject (TgAddTargets i pbs ids) = i"
| "tg_subject (TgRemoveTargets i pbs) = i"

lemma lb_call_confined:
  assumes "solitary w"
  shows "outside {lb_subject c} {} {} (w_db (snd (lb_handler en op c w))) = outside {lb_subject c} {} {} (w_db w)"
proof -
  have "lb_txs_within (same (outside {lb_subject c} {} {})) (en_principal en) c"
    by (cases c) (simp_all add: far_LB far_lb_txs)
  from far.kept_lb_handler [OF this, unfolded preserves_def steady_def] assms show ?thesis by blast
qed

lemma listener_call_confined:
  assumes "solitary w"
  shows "outside {} {listener_subject c} {} (w_db (snd (listener_handler en op c w))) =
    outside {} {listener_subject c} {} (w_db w)"
proof -
  have "listener_txs_within (same (outside {} {listener_subject c} {})) c"
    by (cases c) (simp_all add: far_listener_txs same_tx(3))
  from far.kept_listener_handler [OF this, unfolded preserves_def steady_def] assms show ?thesis by blast
qed

lemma tg_call_confined:
  assumes "solitary w"
  shows "outside {} {} {tg_subject c} (w_db (snd (tg_handler en op c w))) = outside {} {} {tg_subject c} (w_db w)"
proof -
  have "tg_txs_within (same (outside {} {} {tg_subject c})) (en_principal en) c"
    by (cases c) (simp_all add: far_tg_txs)
  from far.kept_tg_handler [OF this, unfolded preserves_def steady_def] assms show ?thesis by blast
qed

text \<open>A new listener belongs to the load balancer the request names.\<close>

lemma listener_create_confined:
  assumes "solitary w"
  shows "outside {lr_lb rq} {} {} (w_db (snd (listener_handler en op (LsCreate i rq) w))) =
    outside {lr_lb rq} {} {} (w_db w)"
proof -
  have "within (same (outside {lr_lb rq} {} {})) (Listener_Insert l)" if "ls_lb l = lr_lb rq" for l
    using that by (intro same_read)
      (auto simp: Listener_Insert_def Let_def new_listener_row_def listener.defs split: option.splits if_splits
        dest!: tbl_get_key elim!: far_insert_listener)
  then have "listener_txs_within (same (outside {lr_lb rq} {} {})) (LsCreate i rq)"
    unfolding listener_txs_within.simps create_listener_tx_def listener_event_def parent_event_def
    by (intro allI impI same_parts) simp_all
  from far.kept_listener_handler [OF this, unfolded preserves_def steady_def] assms show ?thesis by blast
qed

subsection \<open>A creation with an identifier in use\<close>

definition lb_ids :: "db \<Rightarrow> string set" where
  "lb_ids d = lb_id ` set (d_lbs d)"

definition tg_ids :: "db \<Rightarrow> string set" where
  "tg_ids d = tg_id ` set (d_tgs d)"

lemma ids_outside: "outside {} {} {} d' = outside {} {} {} d \<Longrightarrow> lb_ids d' = lb_ids d \<and> tg_ids d' = tg_ids d"
proof -
  assume "outside {} {} {} d' = outside {} {} {} d"
  then have "map lb_id (map lb_core (d_lbs d')) = map lb_id (map lb_core (d_lbs d))" "d_tgs d' = d_tgs d"
    by (simp_all add: outside_def)
  moreover have "lb_id \<circ> lb_core = lb_id" by (simp add: fun_eq_iff lb_core_def)
  ultimately show ?thesis by (metis lb_ids_def tg_ids_def list.map_comp list.set_map)
qed

lemma LB_Insert_twice:
  assumes "lb_id lb \<in> lb_ids d"
  shows "LB_Insert lb d \<noteq> Inr x"
proof
  assume "LB_Insert lb d = Inr x"
  then have "all_ok (lb_uniques (d_lbs d) (new_lb_row d lb))" by (cases x) (auto simp: LB_Insert_def insert_lb_def)
  with assms show False by (auto simp: lb_uniques_apart lb_ids_def new_lb_row_def load_balancer.defs)
qed

lemma TG_Insert_twice:
  assumes "tg_id g \<in> tg_ids d"
  shows "TG_Insert g us d \<noteq> Inr x"
proof
  assume "TG_Insert g us d = Inr x"
  then have "all_ok (tg_uniques (d_tgs d) (new_tg_row d g))" by (cases x) (auto simp: TG_Insert_def insert_tg_def)
  with assms show False by (auto simp: all_ok_def tg_uniques_def tg_ids_def new_tg_row_def target_group.defs)
qed
lemma run_tx_refused:
  assumes "\<And>x. body (begin_tx w) \<noteq> Inr x" and "steady view v w" and "view (begin_tx w) = view (w_db w)"
  shows "steady view v (snd (run_tx body w))"
proof -
  obtain r w' where r: "run_tx body w = (r, w')" by fastforce
  from run_tx_cases [OF r] assms(1) have "w' = settle w (begin_tx w)" by auto
  with assms(2,3) r show ?thesis by (simp add: steady_def solitary_settle)
qed

lemma steady_all: "steady (outside {} {} {}) v w \<Longrightarrow> outside {} {} {} (begin_tx w) = outside {} {} {} (w_db w)"
  by (simp add: steady_def solitary_begin)

lemma steady_ids:
  assumes "steady (outside {} {} {}) (outside {} {} {} d) w"
  shows "lb_ids (begin_tx w) = lb_ids d \<and> tg_ids (begin_tx w) = tg_ids d"
  using steady_all [OF assms] assms by (intro ids_outside) (simp only: steady_def)
abbreviation untouched :: "db \<Rightarrow> 'v world \<Rightarrow> bool" where
  "untouched d \<equiv> steady (outside {} {} {}) (outside {} {} {} d)"

lemma create_refused:
  assumes w: "untouched d w" and "lb_id lb \<in> lb_ids d"
  shows "untouched d (snd (doCreate vs p cl lb pr specs w))"
proof (cases "peer_checks p lb")
  case (Inr u)
  let ?body = "tx_bind (LB_Insert (lb \<lparr> lb_status := LBStatusCreating \<rparr>)) (\<lambda>_. tx_return ())"
  have no: "?body (begin_tx w) \<noteq> Inr x" for x
    using LB_Insert_twice [of "lb \<lparr> lb_status := LBStatusCreating \<rparr>" "begin_tx w"] assms(2) steady_ids [OF w]
    by (auto simp: tx_bind_def)
  obtain r w' where r: "run_tx ?body w = (r, w')" by fastforce
  have "untouched d (snd (run_tx ?body w))" by (rule run_tx_refused [OF _ w steady_all [OF w]]) (rule no)
  then have "untouched d w'" using r by simp
  moreover have "r \<noteq> Inr x" for x using run_tx_Inr no r by metis
  ultimately show ?thesis using r Inr
    by (cases r) (simp_all add: doCreate_def Let_def saga_bind_def saga_check_def insertHandle_def saga_map_err_def)
qed (use w in \<open>simp add: doCreate_def saga_bind_def saga_check_def\<close>)

lemma create_tg_refused:
  assumes w: "untouched d w" and "tg_id tg \<in> tg_ids d"
  shows "untouched d (snd (doCreateTG p tg us pr w))"
proof -
  have no: "create_tg_tx tg us pr (begin_tx w) \<noteq> Inr x" for x
    using TG_Insert_twice [of tg "begin_tx w"] assms(2) steady_ids [OF w] by (auto simp: create_tg_tx_def tx_bind_def)
  have "untouched d (snd (writing (create_tg_tx tg us pr) w))"
  proof -
    have "untouched d (snd (run_tx (create_tg_tx tg us pr) w))"
      by (rule run_tx_refused [OF _ w steady_all [OF w]]) (rule no)
    then show ?thesis by (auto simp: writing_def saga_map_err_def split: prod.splits)
  qed
  then show ?thesis using w
    by (auto simp: doCreateTG_def saga_bind_def saga_check_def split: sum.splits)
qed

lemma finish_snd [simp]: "snd (finish m w) = snd (m w)"
  by (simp add: finish_def saga_bind_def saga_return_def split: prod.splits sum.splits)
lemma lb_create_existing:
  assumes "solitary w" and "i \<in> lb_ids (w_db w)"
  shows "outside {} {} {} (w_db (snd (lb_handler en op (LbCreate i rq) w))) = outside {} {} {} (w_db w)"
proof -
  have w: "untouched (w_db w) w" using assms(1) by (simp add: steady_def)
  obtain r w1 where c: "Create_Execute (en_peers en) i op rq w = (r, w1)" by fastforce
  have w1: "untouched (w_db w) w1" by (rule far.keptD [OF far.kept_sync(1) w c])
  have "untouched (w_db w) (snd (lb_handler en op (LbCreate i rq) w))"
  proof (cases r)
    case (Inr y)
    obtain lb specs where y: "y = (lb, specs)" by fastforce
    with c Inr have "lb_id lb = i" by (simp add: Create_Execute_yields)
    with create_refused [OF w1, of lb] assms(2) c Inr y show ?thesis by (simp add: saga_bind_def)
  qed (use c w1 in \<open>simp add: saga_bind_def\<close>)
  then show ?thesis by (simp add: steady_def)
qed

lemma tg_create_existing:
  assumes "solitary w" and "i \<in> tg_ids (w_db w)"
  shows "outside {} {} {} (w_db (snd (tg_handler en op (TgCreate i us rq) w))) = outside {} {} {} (w_db w)"
proof -
  have w: "untouched (w_db w) w" using assms(1) by (simp add: steady_def)
  obtain r w1 where c: "CreateTG_Execute (en_peers en) i op rq w = (r, w1)" by fastforce
  have w1: "untouched (w_db w) w1" by (rule far.keptD [OF far.kept_sync_tg(1) w c])
  have "untouched (w_db w) (snd (tg_handler en op (TgCreate i us rq) w))"
  proof (cases r)
    case (Inr tg)
    with c have "tg_id tg = i" by (simp add: CreateTG_Execute_yields)
    with create_tg_refused [OF w1, of tg] assms(2) c Inr show ?thesis by (simp add: saga_bind_def)
  qed (use c w1 in \<open>simp add: saga_bind_def\<close>)
  then show ?thesis by (simp add: steady_def)
qed

subsection \<open>The project of a new object\<close>

definition lb_owned :: "string \<Rightarrow> string \<Rightarrow> db \<Rightarrow> bool" where
  "lb_owned n p d \<longleftrightarrow> (\<forall>r \<in> set (d_lbs d). lb_id r = n \<longrightarrow> lb_project r = p)"

definition tg_owned :: "string \<Rightarrow> string \<Rightarrow> db \<Rightarrow> bool" where
  "tg_owned n p d \<longleftrightarrow> (\<forall>g \<in> set (d_tgs d). tg_id g = n \<longrightarrow> tg_project g = p)"

definition keeping :: "(db \<Rightarrow> bool) \<Rightarrow> db \<Rightarrow> db \<Rightarrow> bool" where
  "keeping Q d d' \<longleftrightarrow> (Q d \<longrightarrow> Q d')"

definition holding :: "(db \<Rightarrow> bool) \<Rightarrow> 'v world \<Rightarrow> bool" where
  "holding Q w \<longleftrightarrow> solitary w \<and> Q (w_db w)"

lemma owned_begin [simp]: "lb_owned n p (d \<lparr> d_tx := k \<rparr>) = lb_owned n p d" "tg_owned n p (d \<lparr> d_tx := k \<rparr>) = tg_owned n p d"
  by (simp_all add: lb_owned_def tg_owned_def)

interpretation lbs: kept_by_workers "holding (lb_owned n p) :: 'v world \<Rightarrow> bool" "keeping (lb_owned n p)" for n p
  by unfold_locales (simp_all add: holding_def keeping_def solitary_begin solitary_settle, simp add: solitary_def)

interpretation tgs: kept_by_workers "holding (tg_owned n p) :: 'v world \<Rightarrow> bool" "keeping (tg_owned n p)" for n p
  by unfold_locales (simp_all add: holding_def keeping_def solitary_begin solitary_settle, simp add: solitary_def)

lemma keeping_bind:
  assumes "within (keeping Q) m" and "\<And>x. within (keeping Q) (k x)"
  shows "within (keeping Q) (tx_bind m k)"
  using assms unfolding within_def keeping_def tx_bind_def by fastforce

lemma keeping_parts:
  "within (keeping Q) (tx_return x)" "(\<And>d. Q d \<Longrightarrow> Q (h d)) \<Longrightarrow> within (keeping Q) (tx_emit h)"
  "(\<And>d y d'. m d = Inr (y, d') \<Longrightarrow> Q d \<Longrightarrow> Q d') \<Longrightarrow> within (keeping Q) m"
  by (auto simp: within_def keeping_def tx_return_def tx_emit_def)

lemma owned_emit [simp]:
  "lb_owned n p (emit_outbox k i q a m d) = lb_owned n p d" "lb_owned n p (emit_fga ev x d) = lb_owned n p d"
  "tg_owned n p (emit_outbox k i q a m d) = tg_owned n p d" "tg_owned n p (emit_fga ev x d) = tg_owned n p d"
  by (simp_all add: lb_owned_def tg_owned_def emit_outbox_def emit_fga_def)

lemma owned_update_lb:
  "update_lb_returning me i f d = Inr (r, d') \<Longrightarrow> (\<And>r. lb_id (f r) = lb_id r \<and> lb_project (f r) = lb_project r) \<Longrightarrow>
   lb_owned n p d \<Longrightarrow> lb_owned n p d'"
  by (auto simp: update_lb_returning_def update_lb_def Let_def lb_owned_def set_tbl_upd split: option.splits if_splits)

lemma lb_create_owned:
  assumes "solitary w" and "lb_owned i (cr_project rq) (w_db w)"
  shows "lb_owned i (cr_project rq) (w_db (snd (lb_handler en op (LbCreate i rq) w)))"
proof -
  let ?S = "keeping (lb_owned i (cr_project rq))"
  have ins: "within ?S (LB_Insert lb)" if "lb_project lb = cr_project rq" for lb
    using that by (intro keeping_parts(3))
      (auto simp: LB_Insert_def insert_lb_def lb_owned_def new_lb_row_def load_balancer.defs)
  have vip: "within ?S (LB_AttachVIP i f a ai o1)" for f a ai o1
    by (intro keeping_parts(3)) (auto simp: LB_AttachVIP_def set_vip_simps split: option.splits if_splits
      elim!: owned_update_lb)
  have cas: "within ?S (LB_SetStatusCAS i s t)" for s t
    by (intro keeping_parts(3)) (auto simp: LB_SetStatusCAS_def Let_def split: option.splits if_splits
      elim!: owned_update_lb)
  have del: "within ?S (LB_Delete i)"
    by (intro keeping_parts(3)) (auto simp: LB_Delete_def delete_lb_def lb_owned_def split: option.splits)
  have "lb_txs_within ?S (en_principal en) (LbCreate i rq)"
    using cas by (auto simp: ins vip del finalize_tx_def intro!: keeping_bind keeping_parts(1,2))
  from lbs.kept_lb_handler [OF this, unfolded preserves_def holding_def] assms show ?thesis by blast
qed

lemma owned_targets: "add_targets_loop g ts k d = Inr (m, d') \<Longrightarrow> d_tgs d' = d_tgs d"
proof (induction g ts k d rule: add_targets_loop.induct)
  case (2 g i t ts k d)
  then obtain b d1 where a: "add_one_target (new_target_row g (d_now d) i t) d = Inr (b, d1)"
    and r: "add_targets_loop g ts (if b then Suc k else k) d1 = Inr (m, d')" by auto
  have "d_tgs d1 = d_tgs d" using a by (auto simp: add_one_target_def insert_target_nothing_def split: if_splits)
  with 2(1) [OF a _ r] show ?case by simp
qed simp

lemma tg_create_owned:
  assumes "solitary w" and "tg_owned i (cg_project rq) (w_db w)"
  shows "tg_owned i (cg_project rq) (w_db (snd (tg_handler en op (TgCreate i us rq) w)))"
proof -
  have "within (keeping (tg_owned i (cg_project rq))) (TG_Insert g ids)" if "tg_project g = cg_project rq" for g ids
  proof (rule keeping_parts(3))
    fix d r d' assume "TG_Insert g ids d = Inr (r, d')" and o: "tg_owned i (cg_project rq) d"
    then have "d_tgs d' = d_tgs d @ [new_tg_row d g]"
      by (auto simp: TG_Insert_def insert_tg_def TG_AddTargets_def split: if_splits option.splits dest!: owned_targets)
    with o that show "tg_owned i (cg_project rq) d'" by (auto simp: tg_owned_def new_tg_row_def target_group.defs)
  qed
  then have "tg_txs_within (keeping (tg_owned i (cg_project rq))) (en_principal en) (TgCreate i us rq)"
    by (auto simp: create_tg_tx_def tg_event_def intro!: keeping_bind keeping_parts(1,2))
  from tgs.kept_tg_handler [OF this, unfolded preserves_def holding_def] assms show ?thesis by blast
qed

end
