(* ===== verification/Lro_Recovery.thy ===== *)
theory Lro_Recovery
  imports Peer_Clients Jobs
begin

text \<open>
  The recovery of orphaned operations (\<^verbatim>\<open>internal/operationresolver/resolver.go\<close> and
  \<^verbatim>\<open>cmd/kacho-loadbalancer/recovery.go\<close>): an operation whose worker died is given an outcome from what
  is committed. The engine that finds the orphans and writes the outcome is a library's; the reading of a
  row is the reader of the repository, its conversion to a message the identity.
\<close>

subsection \<open>The metadata of an operation\<close>

text \<open>The types the resolver knows, each with the identifier of its resource; none, one that does not decode, one of another service.\<close>

datatype metadata =
  NoMetadata
| UndecodableMetadata string
| OtherMetadata
| CreateNetworkLoadBalancerMetadata string
| UpdateNetworkLoadBalancerMetadata string
| DeleteNetworkLoadBalancerMetadata string
| StartNetworkLoadBalancerMetadata string
| StopNetworkLoadBalancerMetadata string
| MoveNetworkLoadBalancerMetadata string
| AttachNetworkLoadBalancerTargetGroupMetadata string
| DetachNetworkLoadBalancerTargetGroupMetadata string
| CreateListenerMetadata string
| UpdateListenerMetadata string
| DeleteListenerMetadata string
| CreateTargetGroupMetadata string
| UpdateTargetGroupMetadata string
| DeleteTargetGroupMetadata string
| MoveTargetGroupMetadata string
| AddTargetsMetadata string
| RemoveTargetsMetadata string

datatype kind = KindCreate | KindUpdate | KindDelete

text \<open>The response of a finished operation: empty, or the resource.\<close>

datatype resource = LoadBalancerResource lb_row | ListenerResource listener_row | TargetGroupResource tg_row

datatype resolver_result = Skip | Interrupted | Finished_as "resource option"

subsection \<open>The resolver\<close>

type_synonym 'v reader = "string \<Rightarrow> ('v, resource) saga"

definition resolveExistence :: "kind \<Rightarrow> string \<Rightarrow> 'v reader option \<Rightarrow> ('v, resolver_result) saga" where
  "resolveExistence k i rd w =
     (case rd of
        None \<Rightarrow> (Inr Skip, w)
      | Some get \<Rightarrow>
          (case get i w of
             (Inr rec, w') \<Rightarrow> (Inr (if k = KindDelete then Interrupted else Finished_as (Some rec)), w')
           | (Inl e, w') \<Rightarrow>
               if is_err e ErrNotFound then (Inr (if k = KindDelete then Finished_as None else Interrupted), w')
               else (Inl (wrapping (''operationresolver: get '' @ go_quote i) e), w')))"

record 'v readers =
  rd_lb :: "'v reader option"
  rd_listener :: "'v reader option"
  rd_tg :: "'v reader option"

definition Resolve_op :: "'v readers \<Rightarrow> metadata \<Rightarrow> ('v, resolver_result) saga" where
  "Resolve_op rs m =
     (case m of
        NoMetadata \<Rightarrow> saga_return Skip
      | UndecodableMetadata url \<Rightarrow> saga_return Skip
      | CreateNetworkLoadBalancerMetadata i \<Rightarrow> resolveExistence KindCreate i (rd_lb rs)
      | UpdateNetworkLoadBalancerMetadata i \<Rightarrow> resolveExistence KindUpdate i (rd_lb rs)
      | DeleteNetworkLoadBalancerMetadata i \<Rightarrow> resolveExistence KindDelete i (rd_lb rs)
      | StartNetworkLoadBalancerMetadata i \<Rightarrow> resolveExistence KindUpdate i (rd_lb rs)
      | StopNetworkLoadBalancerMetadata i \<Rightarrow> resolveExistence KindUpdate i (rd_lb rs)
      | MoveNetworkLoadBalancerMetadata i \<Rightarrow> resolveExistence KindUpdate i (rd_lb rs)
      | AttachNetworkLoadBalancerTargetGroupMetadata i \<Rightarrow> resolveExistence KindUpdate i (rd_lb rs)
      | DetachNetworkLoadBalancerTargetGroupMetadata i \<Rightarrow> resolveExistence KindUpdate i (rd_lb rs)
      | CreateListenerMetadata i \<Rightarrow> resolveExistence KindCreate i (rd_listener rs)
      | UpdateListenerMetadata i \<Rightarrow> resolveExistence KindUpdate i (rd_listener rs)
      | DeleteListenerMetadata i \<Rightarrow> resolveExistence KindDelete i (rd_listener rs)
      | CreateTargetGroupMetadata i \<Rightarrow> resolveExistence KindCreate i (rd_tg rs)
      | UpdateTargetGroupMetadata i \<Rightarrow> resolveExistence KindUpdate i (rd_tg rs)
      | DeleteTargetGroupMetadata i \<Rightarrow> resolveExistence KindDelete i (rd_tg rs)
      | MoveTargetGroupMetadata i \<Rightarrow> resolveExistence KindUpdate i (rd_tg rs)
      | AddTargetsMetadata i \<Rightarrow> resolveExistence KindUpdate i (rd_tg rs)
      | RemoveTargetsMetadata i \<Rightarrow> resolveExistence KindUpdate i (rd_tg rs)
      | OtherMetadata \<Rightarrow> saga_return Skip)"

text \<open>The readers of the composition root.\<close>

definition lbReader :: "'v reader" where
  "lbReader i = run_read (\<lambda>d. attempt (LB_Get i d) (\<lambda>r. Inr (LoadBalancerResource r)))"

definition lstReader :: "'v reader" where
  "lstReader i = run_read (\<lambda>d. attempt (Listener_Get i d) (\<lambda>r. Inr (ListenerResource r)))"

definition tgReader :: "'v reader" where
  "tgReader i = run_read (\<lambda>d. attempt (TG_Get i d) (\<lambda>r. Inr (TargetGroupResource r)))"

definition recovery_readers :: "'v readers" where
  "recovery_readers = \<lparr> rd_lb = Some lbReader, rd_listener = Some lstReader, rd_tg = Some tgReader \<rparr>"

definition recover :: "metadata \<Rightarrow> ('v, resolver_result) saga" where
  "recover = Resolve_op recovery_readers"

subsection \<open>Properties\<close>

text \<open>What an operation is about: its kind and how its resource is read.\<close>

definition target_of :: "metadata \<Rightarrow> (kind \<times> (db \<Rightarrow> err + resource)) option" where
  "target_of m =
     (let lb = (\<lambda>i d. attempt (LB_Get i d) (\<lambda>r. Inr (LoadBalancerResource r)));
          ls = (\<lambda>i d. attempt (Listener_Get i d) (\<lambda>r. Inr (ListenerResource r)));
          tg = (\<lambda>i d. attempt (TG_Get i d) (\<lambda>r. Inr (TargetGroupResource r))) in
      case m of
        CreateNetworkLoadBalancerMetadata i \<Rightarrow> Some (KindCreate, lb i)
      | DeleteNetworkLoadBalancerMetadata i \<Rightarrow> Some (KindDelete, lb i)
      | UpdateNetworkLoadBalancerMetadata i \<Rightarrow> Some (KindUpdate, lb i)
      | StartNetworkLoadBalancerMetadata i \<Rightarrow> Some (KindUpdate, lb i)
      | StopNetworkLoadBalancerMetadata i \<Rightarrow> Some (KindUpdate, lb i)
      | MoveNetworkLoadBalancerMetadata i \<Rightarrow> Some (KindUpdate, lb i)
      | AttachNetworkLoadBalancerTargetGroupMetadata i \<Rightarrow> Some (KindUpdate, lb i)
      | DetachNetworkLoadBalancerTargetGroupMetadata i \<Rightarrow> Some (KindUpdate, lb i)
      | CreateListenerMetadata i \<Rightarrow> Some (KindCreate, ls i)
      | UpdateListenerMetadata i \<Rightarrow> Some (KindUpdate, ls i)
      | DeleteListenerMetadata i \<Rightarrow> Some (KindDelete, ls i)
      | CreateTargetGroupMetadata i \<Rightarrow> Some (KindCreate, tg i)
      | UpdateTargetGroupMetadata i \<Rightarrow> Some (KindUpdate, tg i)
      | DeleteTargetGroupMetadata i \<Rightarrow> Some (KindDelete, tg i)
      | MoveTargetGroupMetadata i \<Rightarrow> Some (KindUpdate, tg i)
      | AddTargetsMetadata i \<Rightarrow> Some (KindUpdate, tg i)
      | RemoveTargetsMetadata i \<Rightarrow> Some (KindUpdate, tg i)
      | _ \<Rightarrow> None)"

lemma recover_unfold:
  "recover m = (case target_of m of None \<Rightarrow> saga_return Skip
     | Some (k, read) \<Rightarrow> resolveExistence k (case m of
         CreateNetworkLoadBalancerMetadata i \<Rightarrow> i | UpdateNetworkLoadBalancerMetadata i \<Rightarrow> i
       | DeleteNetworkLoadBalancerMetadata i \<Rightarrow> i | StartNetworkLoadBalancerMetadata i \<Rightarrow> i
       | StopNetworkLoadBalancerMetadata i \<Rightarrow> i | MoveNetworkLoadBalancerMetadata i \<Rightarrow> i
       | AttachNetworkLoadBalancerTargetGroupMetadata i \<Rightarrow> i | DetachNetworkLoadBalancerTargetGroupMetadata i \<Rightarrow> i
       | CreateListenerMetadata i \<Rightarrow> i | UpdateListenerMetadata i \<Rightarrow> i | DeleteListenerMetadata i \<Rightarrow> i
       | CreateTargetGroupMetadata i \<Rightarrow> i | UpdateTargetGroupMetadata i \<Rightarrow> i | DeleteTargetGroupMetadata i \<Rightarrow> i
       | MoveTargetGroupMetadata i \<Rightarrow> i | AddTargetsMetadata i \<Rightarrow> i | RemoveTargetsMetadata i \<Rightarrow> i | _ \<Rightarrow> '''')
       (Some (\<lambda>_. run_read read)))"
  by (cases m) (simp_all add: recover_def Resolve_op_def recovery_readers_def target_of_def Let_def lbReader_def
      lstReader_def tgReader_def resolveExistence_def fun_eq_iff)

lemma no_fault_not_missing: "sl_fault (next_slot w) = FailBefore e \<Longrightarrow> run_read f w = (Inl e, settle w (begin_tx w))"
  by (simp add: run_read_def Let_def)

text \<open>C14: recovery tells the truth about what is committed and changes nothing: an operation it reports as finished with a
  resource has that resource in the database at that moment, a deletion it reports as finished has none, and one it
  reports as interrupted is a deletion whose resource is still there or another operation whose resource is not.\<close>

theorem recovery_truthful:
  assumes "recover m w = (Inr r, w')" and "r \<noteq> Skip"
    and "\<forall>e. sl_fault (next_slot w) = FailBefore e \<longrightarrow> \<not> is_err e ErrNotFound"
  shows "\<exists>k read. target_of m = Some (k, read) \<and> w' = settle w (begin_tx w)
    \<and> (case r of Finished_as (Some x) \<Rightarrow> k \<noteq> KindDelete \<and> read (begin_tx w) = Inr x
       | Finished_as None \<Rightarrow> k = KindDelete \<and> \<not> is_ok (read (begin_tx w))
       | Interrupted \<Rightarrow> (k = KindDelete) = is_ok (read (begin_tx w))
       | Skip \<Rightarrow> False)"
proof -
  obtain k read where t: "target_of m = Some (k, read)"
    using assms(1,2) by (cases "target_of m") (auto simp: recover_unfold saga_return_def)
  then have res: "resolveExistence k i (Some (\<lambda>_. run_read read)) w = (Inr r, w')" for i
    using assms(1) unfolding recover_unfold by (auto simp: resolveExistence_def split: prod.splits sum.splits if_splits)
  have nf: "sl_fault (next_slot w) \<noteq> FailBefore e" for e
    using res [of "''''"] assms(3) no_fault_not_missing [of w e read]
    by (auto simp: resolveExistence_def split: if_splits)
  then have "run_read read w = (read (begin_tx w), settle w (begin_tx w))"
    by (auto simp: run_read_def Let_def split: fault.split)
  with res [of "''''"] t show ?thesis
    by (cases "read (begin_tx w)") (auto simp: resolveExistence_def split: if_splits)
qed

theorem recovery_truthful_witness:
  "\<exists>x. recover (CreateNetworkLoadBalancerMetadata ''nlb1'') stuck_world = (Inr (Finished_as (Some x)), settle stuck_world (begin_tx stuck_world))
    \<and> attempt (LB_Get ''nlb1'' (begin_tx stuck_world)) (\<lambda>r. Inr (LoadBalancerResource r)) = Inr x"
proof -
  let ?m = "CreateNetworkLoadBalancerMetadata ''nlb1''"
  have "\<exists>y. recover ?m stuck_world = (Inr (Finished_as (Some (LoadBalancerResource y))), snd (recover ?m stuck_world))"
    by (simp add: recover_unfold target_of_def resolveExistence_def run_read_def Let_def LB_Get_def next_slot_def quiet_def
        alone_begin stuck_world_def vip_world_def stuck_db_def vip_db_def new_lb_row_def sample_lb_def
        NewLoadBalancer_def set_vip_def load_balancer.defs lb_row.defs)
  then obtain y w' where c: "recover ?m stuck_world = (Inr (Finished_as (Some (LoadBalancerResource y))), w')" by blast
  have "\<forall>e. sl_fault (next_slot stuck_world) = FailBefore e \<longrightarrow> \<not> is_err e ErrNotFound"
    by (simp add: next_slot_def stuck_world_def vip_world_def quiet_def)
  from recovery_truthful [OF c _ this] c show ?thesis by (auto simp: target_of_def)
qed

text \<open>C39: a creation whose worker died after it inserted the handle is reported as finished with the half-made load
  balancer as its response; the runner of stuck rows then deletes that load balancer.\<close>

theorem recovered_creation_vanishes:
  assumes "tbl_get lb_id (d_lbs (w_db w)) i = Some row" and "lb_status row = LBStatusCreating"
    and "row \<in> set (stuck_rows age (w_db w))" and "length (stuck_rows age (w_db w)) \<le> 100"
    and "clearable age w" and "cooperative c"
  shows "fst (recover (CreateNetworkLoadBalancerMetadata i) w) = Inr (Finished_as (Some (LoadBalancerResource row)))
    \<and> tbl_get lb_id (d_lbs (w_db (freeip_tick (Some c) age (\<lambda>_. False) w))) i = None"
proof
  have slots: "w_slots w = []" using assms(5) by (simp add: clearable_def)
  show "fst (recover (CreateNetworkLoadBalancerMetadata i) w) = Inr (Finished_as (Some (LoadBalancerResource row)))"
    using assms(1) slots by (simp add: recover_unfold target_of_def resolveExistence_def run_read_def Let_def LB_Get_def
        next_slot_def quiet_def alone_begin)
  from reconcile_loop_clears [OF assms(6,5), of 100 0] assms(4) obtain w' where
    w': "freeip_tick (Some c) age (\<lambda>_. False) w = w'" and none: "stuck_rows age (w_db w') = []"
    and rest: "filter (\<lambda>r. \<not> stuck age (d_now (w_db w')) r) (d_lbs (w_db w'))
        = filter (\<lambda>r. \<not> stuck age (d_now (w_db w)) r) (d_lbs (w_db w))"
    by (auto simp: freeip_tick_def reconcileOnce_def freeIPMaxPerTick_def)
  have "d_lbs (w_db w') = filter (\<lambda>r. \<not> stuck age (d_now (w_db w')) r) (d_lbs (w_db w'))"
    using none by (auto simp: stuck_rows_def filter_empty_conv intro!: filter_True [symmetric])
  then have lbs: "set (d_lbs (w_db w')) = {r \<in> set (d_lbs (w_db w)). \<not> stuck age (d_now (w_db w)) r}"
    using rest by (metis set_filter)
  have "lb_id r \<noteq> i" if "r \<in> set (d_lbs (w_db w'))" for r
  proof
    assume "lb_id r = i"
    moreover have "r \<in> set (d_lbs (w_db w))" using that lbs by auto
    moreover have "distinct (map lb_id (d_lbs (w_db w)))" using assms(5) by (simp add: clearable_def)
    ultimately have "tbl_get lb_id (d_lbs (w_db w)) i = Some r" by (simp add: tbl_get_distinct)
    with assms(1,3) that lbs show False by (auto simp: stuck_rows_def)
  qed
  then show "tbl_get lb_id (d_lbs (w_db (freeip_tick (Some c) age (\<lambda>_. False) w))) i = None"
    by (auto simp: tbl_get_None w')
qed

definition half_made :: lb_row where
  "half_made = new_lb_row (empty_db \<lparr> d_tx := 1 \<rparr>) (sample_lb \<lparr> lb_status := LBStatusCreating \<rparr>)"

definition half_made_world :: "string list world" where
  "half_made_world = vip_world \<lparr> w_db := empty_db \<lparr> d_now := 1000000000, d_lbs := [half_made] \<rparr> \<rparr>"

theorem recovered_creation_vanishes_witness:
  "fst (recover (CreateNetworkLoadBalancerMetadata ''nlb1'') half_made_world)
      = Inr (Finished_as (Some (LoadBalancerResource half_made)))
   \<and> tbl_get lb_id (d_lbs (w_db (freeip_tick (Some (sample_client False)) 300000000 (\<lambda>_. False) half_made_world))) ''nlb1'' = None"
proof -
  have row: "lb_id half_made = ''nlb1''" "lb_status half_made = LBStatusCreating" "stuck 300000000 1000000000 half_made"
    by (simp_all add: half_made_def new_lb_row_def sample_lb_def NewLoadBalancer_def load_balancer.defs lb_row.defs
        stuck_def empty_db_def)
  then show ?thesis
    by (intro recovered_creation_vanishes [OF _ _ _ _ _ sample_cooperative])
      (simp_all add: half_made_world_def vip_world_def stuck_rows_def clearable_def has_listener_def has_attached_def
        empty_db_def)
qed

end
