(* ===== verification/Views.thy ===== *)
theory Views
  imports Target_Group_Usecases
begin

text \<open>
  How rows become messages and JSON columns (\<^verbatim>\<open>internal/dto/type2pb\<close>, \<^verbatim>\<open>repo/kacho/pg/dto\<close>). A message
  of a load balancer is lean: no address, no origin. The registry of \<^verbatim>\<open>internal/dto\<close> only finds the
  conversion for a pair of types. Times are in microseconds, a message has whole seconds.
\<close>

subsection \<open>Messages\<close>

datatype pb_lb_status = PbLbStatusUnspecified | PbLbCreating | PbLbStarting | PbLbActive | PbLbStopping
  | PbLbStopped | PbLbDeleting | PbLbInactive
datatype pb_listener_status = PbListenerStatusUnspecified | PbListenerCreating | PbListenerActive
  | PbListenerUpdating | PbListenerDeleting
datatype pb_protocol = PbProtocolUnspecified | PbTCP | PbUDP
datatype pb_tg_status = PbTgStatusUnspecified | PbTgActive | PbTgDeleting

record lb_message =
  lm_id :: string
  lm_project :: string
  lm_created :: int
  lm_name :: string
  lm_description :: string
  lm_labels :: labels
  lm_region :: string
  lm_status :: pb_lb_status
  lm_type :: pb_type
  lm_affinity :: pb_affinity
  lm_placement :: pb_placement
  lm_disabled_zones :: "string list"
  lm_protection :: bool
  lm_v4_address_id :: string
  lm_v6_address_id :: string

record listener_message =
  sm_id :: string
  sm_project :: string
  sm_lb :: string
  sm_created :: int
  sm_name :: string
  sm_description :: string
  sm_labels :: labels
  sm_protocol :: pb_protocol
  sm_port :: int64
  sm_target_port :: int64
  sm_proxy_v2 :: bool
  sm_default_tg :: string
  sm_status :: pb_listener_status

record tg_message =
  gm_id :: string
  gm_project :: string
  gm_created :: int
  gm_name :: string
  gm_description :: string
  gm_labels :: labels
  gm_region :: string
  gm_targets :: "pb_target list"
  gm_health :: "pb_health_check option"
  gm_dereg :: int32
  gm_slow :: int32
  gm_status :: pb_tg_status

definition time_toPb :: "int \<Rightarrow> int" where
  "time_toPb t = t div 1000000"

text \<open>A nil map and an empty one are the same message.\<close>

definition labels_toPb :: "labels \<Rightarrow> labels" where
  "labels_toPb l = (case LabelsToMap l of None \<Rightarrow> [] | Some m \<Rightarrow> m)"

fun lbStatusToPb :: "lb_status \<Rightarrow> pb_lb_status" where
  "lbStatusToPb LBStatusCreating = PbLbCreating"
| "lbStatusToPb LBStatusStarting = PbLbStarting"
| "lbStatusToPb LBStatusActive = PbLbActive"
| "lbStatusToPb LBStatusStopping = PbLbStopping"
| "lbStatusToPb LBStatusStopped = PbLbStopped"
| "lbStatusToPb LBStatusDeleting = PbLbDeleting"
| "lbStatusToPb LBStatusInactive = PbLbInactive"

fun lbTypeToPb :: "lb_type \<Rightarrow> pb_type" where
  "lbTypeToPb LBTypeExternal = PbExternal"
| "lbTypeToPb LBTypeInternal = PbInternal"

fun lbPlacementToPb :: "placement_type \<Rightarrow> pb_placement" where
  "lbPlacementToPb PlacementUnspecified = PbPlacementUnspecified"
| "lbPlacementToPb PlacementZonal = PbZonal"
| "lbPlacementToPb PlacementRegional = PbRegional"

definition lbAffinityToPb :: "string \<Rightarrow> err + pb_affinity" where
  "lbAffinityToPb a =
     (if a = SessionAffinity5Tuple then Inr PbFiveTuple
      else if a = SessionAffinityClientIPOnly then Inr PbClientIpOnly
      else Inl (OtherErr (''unknown SessionAffinity: '' @ a)))"

definition lb_toPb :: "lb_row \<Rightarrow> err + lb_message" where
  "lb_toPb r =
     attempt (lbAffinityToPb (lb_affinity r)) (\<lambda>affinity.
       Inr \<lparr> lm_id = lb_id r, lm_project = lb_project r, lm_created = time_toPb (lb_created r), lm_name = lb_name r,
             lm_description = lb_description r, lm_labels = labels_toPb (lb_labels r), lm_region = lb_region r,
             lm_status = lbStatusToPb (lb_status r), lm_type = lbTypeToPb (lb_type r), lm_affinity = affinity,
             lm_placement = lbPlacementToPb (lb_placement r), lm_disabled_zones = lb_disabled_zones r,
             lm_protection = lb_protection r, lm_v4_address_id = lb_addr_id_v4 r, lm_v6_address_id = lb_addr_id_v6 r \<rparr>)"

definition listenerProtocolToPb :: "string \<Rightarrow> err + pb_protocol" where
  "listenerProtocolToPb p =
     (if p = ProtoTCP then Inr PbTCP else if p = ProtoUDP then Inr PbUDP
      else Inl (OtherErr (''unknown LbProto: '' @ p)))"

fun listenerStatusToPb :: "listener_status \<Rightarrow> pb_listener_status" where
  "listenerStatusToPb ListenerStatusCreating = PbListenerCreating"
| "listenerStatusToPb ListenerStatusActive = PbListenerActive"
| "listenerStatusToPb ListenerStatusUpdating = PbListenerUpdating"
| "listenerStatusToPb ListenerStatusDeleting = PbListenerDeleting"

definition listener_toPb :: "listener_row \<Rightarrow> err + listener_message" where
  "listener_toPb r =
     attempt (listenerProtocolToPb (ls_protocol r)) (\<lambda>protocol.
       Inr \<lparr> sm_id = ls_id r, sm_project = ls_project r, sm_lb = ls_lb r, sm_created = time_toPb (ls_created r),
             sm_name = ls_name r, sm_description = ls_description r, sm_labels = labels_toPb (ls_labels r),
             sm_protocol = protocol, sm_port = scast (ls_port r), sm_target_port = scast (ls_target_port r),
             sm_proxy_v2 = ls_proxy_v2 r, sm_default_tg = (case ls_default_tg r of Some g \<Rightarrow> g | None \<Rightarrow> ''''),
             sm_status = listenerStatusToPb (ls_status r) \<rparr>)"

definition target_toPb :: "target \<Rightarrow> pb_target" where
  "target_toPb t =
     \<lparr> pt_identity =
         (case t_instance t of Some i \<Rightarrow> PbInstance i
          | None \<Rightarrow> (case t_nic t of Some i \<Rightarrow> PbNic i
          | None \<Rightarrow> (case t_ip_ref t of Some r \<Rightarrow> PbIpRef (ipr_subnet r) (ipr_address r)
          | None \<Rightarrow> (case t_external t of
              Some e \<Rightarrow> PbExternalIp (ext_address e) (case ext_zone e of Some z \<Rightarrow> z | None \<Rightarrow> '''')
            | None \<Rightarrow> NoIdentity)))),
       pt_weight = t_weight t \<rparr>"

definition isHealthCheckZero :: "health_check \<Rightarrow> bool" where
  "isHealthCheckZero hc \<longleftrightarrow>
     hc_name hc = '''' \<and> hc_interval hc = 0 \<and> hc_timeout hc = 0 \<and> hc_unhealthy hc = 0 \<and> hc_healthy hc = 0
     \<and> hc_TCP hc = None \<and> hc_HTTP hc = None \<and> hc_HTTPS hc = None \<and> hc_GRPC hc = None"

text \<open>The messages have no options for HTTPS and gRPC.\<close>

definition healthCheckToPb :: "health_check \<Rightarrow> pb_health_check option" where
  "healthCheckToPb hc =
     (if isHealthCheckZero hc then None
      else Some \<lparr> ph_name = hc_name hc, ph_interval = hc_interval hc, ph_timeout = hc_timeout hc,
        ph_unhealthy = scast (hc_unhealthy hc), ph_healthy = scast (hc_healthy hc),
        ph_options = (case hc_TCP hc of Some p \<Rightarrow> PbTcp (scast (tcp_port p))
          | None \<Rightarrow> (case hc_HTTP hc of Some p \<Rightarrow> PbHttp (scast (http_port p)) (http_path p) | None \<Rightarrow> NoProbe)) \<rparr>)"

fun tgStatusToPb :: "tg_status \<Rightarrow> pb_tg_status" where
  "tgStatusToPb TargetGroupStatusActive = PbTgActive"
| "tgStatusToPb TargetGroupStatusDeleting = PbTgDeleting"

definition tg_toPb :: "tg_row \<Rightarrow> tg_message" where
  "tg_toPb r =
     \<lparr> gm_id = tg_id r, gm_project = tg_project r, gm_created = time_toPb (tg_created r), gm_name = tg_name r,
       gm_description = tg_description r, gm_labels = labels_toPb (tg_labels r), gm_region = tg_region r,
       gm_targets = map target_toPb (tg_targets r), gm_health = healthCheckToPb (tg_health r),
       gm_dereg = tg_dereg r, gm_slow = tg_slow r, gm_status = tgStatusToPb (tg_status r) \<rparr>"

definition lbRecordToProto :: "lb_row option \<Rightarrow> err + lb_message" where
  "lbRecordToProto rec =
     (case rec of None \<Rightarrow> Inl (Status CodeInternal ''nil load_balancer record'')
      | Some r \<Rightarrow> mapping_err MapDomainErr (lb_toPb r))"

definition tgRecordToProto :: "tg_row option \<Rightarrow> err + tg_message" where
  "tgRecordToProto rec =
     (case rec of None \<Rightarrow> Inl (Status CodeInternal ''nil target_group record'') | Some r \<Rightarrow> Inr (tg_toPb r))"

subsection \<open>JSON columns\<close>

text \<open>The part of \<^verbatim>\<open>encoding/json\<close> that the columns use: numbers, texts, arrays of numbers, objects.\<close>

datatype jdoc = DocInt int | DocText string | DocInts "int list" | DocObject "(string \<times> jdoc) list"

definition omit_empty :: "bool \<Rightarrow> string \<Rightarrow> jdoc \<Rightarrow> (string \<times> jdoc) list" where
  "omit_empty zero k v = (if zero then [] else [(k, v)])"

definition HCPortOnly :: "hc_tcp \<Rightarrow> jdoc" where
  "HCPortOnly p = DocObject [(''port'', DocInt (sint (tcp_port p)))]"

definition HCPortPath :: "hc_http \<Rightarrow> jdoc" where
  "HCPortPath p = DocObject ((''port'', DocInt (sint (http_port p)))
     # omit_empty (http_path p = '''') ''path'' (DocText (http_path p))
     @ omit_empty (http_statuses p = []) ''expected_statuses'' (DocInts (map sint (http_statuses p))))"

definition HCPortServiceNm :: "hc_grpc \<Rightarrow> jdoc" where
  "HCPortServiceNm p = DocObject ((''port'', DocInt (sint (grpc_port p)))
     # omit_empty (grpc_service p = '''') ''service_name'' (DocText (grpc_service p)))"

text \<open>The first probe that is there is written.\<close>

definition probe_doc :: "health_check \<Rightarrow> (string \<times> jdoc) list" where
  "probe_doc hc =
     (case hc_TCP hc of Some p \<Rightarrow> [(''tcp'', HCPortOnly p)]
      | None \<Rightarrow> (case hc_HTTP hc of Some p \<Rightarrow> [(''http'', HCPortPath p)]
      | None \<Rightarrow> (case hc_HTTPS hc of Some p \<Rightarrow> [(''https'', HCPortPath p)]
      | None \<Rightarrow> (case hc_GRPC hc of Some p \<Rightarrow> [(''grpc'', HCPortServiceNm p)] | None \<Rightarrow> []))))"

definition HealthCheckToJSONB :: "health_check \<Rightarrow> jdoc" where
  "HealthCheckToJSONB hc =
     (if isHealthCheckZero hc then DocObject []
      else DocObject (omit_empty (hc_name hc = '''') ''name'' (DocText (hc_name hc))
        @ omit_empty (hc_interval hc = 0) ''interval_ns'' (DocInt (sint (hc_interval hc)))
        @ omit_empty (hc_timeout hc = 0) ''timeout_ns'' (DocInt (sint (hc_timeout hc)))
        @ omit_empty (hc_unhealthy hc = 0) ''unhealthy_threshold'' (DocInt (sint (hc_unhealthy hc)))
        @ omit_empty (hc_healthy hc = 0) ''healthy_threshold'' (DocInt (sint (hc_healthy hc)))
        @ probe_doc hc))"

text \<open>Reading a field: absent is the zero value, another kind of value or a number out of range is an error.\<close>

definition bad_doc :: err where "bad_doc = OtherErr ''unmarshal health_check''"

definition doc_int :: "(string \<times> jdoc) list \<Rightarrow> string \<Rightarrow> int \<Rightarrow> err + int" where
  "doc_int fs k bits =
     (case map_of fs k of None \<Rightarrow> Inr 0
      | Some (DocInt n) \<Rightarrow> if - bits \<le> n \<and> n < bits then Inr n else Inl bad_doc
      | Some v \<Rightarrow> Inl bad_doc)"

definition doc_text :: "(string \<times> jdoc) list \<Rightarrow> string \<Rightarrow> err + string" where
  "doc_text fs k =
     (case map_of fs k of None \<Rightarrow> Inr '''' | Some (DocText s) \<Rightarrow> Inr s | Some v \<Rightarrow> Inl bad_doc)"

definition doc_int32s :: "(string \<times> jdoc) list \<Rightarrow> string \<Rightarrow> err + int32 list" where
  "doc_int32s fs k =
     (case map_of fs k of None \<Rightarrow> Inr []
      | Some (DocInts ns) \<Rightarrow> if list_all (\<lambda>n. - (2 ^ 31) \<le> n \<and> n < 2 ^ 31) ns then Inr (map word_of_int ns) else Inl bad_doc
      | Some v \<Rightarrow> Inl bad_doc)"

definition doc_object :: "(string \<times> jdoc) list \<Rightarrow> string \<Rightarrow> err + (string \<times> jdoc) list option" where
  "doc_object fs k =
     (case map_of fs k of None \<Rightarrow> Inr None | Some (DocObject o1) \<Rightarrow> Inr (Some o1) | Some v \<Rightarrow> Inl bad_doc)"

definition read_tcp :: "(string \<times> jdoc) list option \<Rightarrow> err + hc_tcp option" where
  "read_tcp o1 = (case o1 of None \<Rightarrow> Inr None
     | Some fs \<Rightarrow> attempt (doc_int fs ''port'' (2 ^ 31)) (\<lambda>p. Inr (Some \<lparr> tcp_port = word_of_int p \<rparr>)))"

definition read_http :: "(string \<times> jdoc) list option \<Rightarrow> err + hc_http option" where
  "read_http o1 = (case o1 of None \<Rightarrow> Inr None
     | Some fs \<Rightarrow> attempt (doc_int fs ''port'' (2 ^ 31)) (\<lambda>p. attempt (doc_text fs ''path'') (\<lambda>path.
         attempt (doc_int32s fs ''expected_statuses'') (\<lambda>st.
           Inr (Some \<lparr> http_port = word_of_int p, http_path = path, http_statuses = st \<rparr>)))))"

definition read_grpc :: "(string \<times> jdoc) list option \<Rightarrow> err + hc_grpc option" where
  "read_grpc o1 = (case o1 of None \<Rightarrow> Inr None
     | Some fs \<Rightarrow> attempt (doc_int fs ''port'' (2 ^ 31)) (\<lambda>p. attempt (doc_text fs ''service_name'') (\<lambda>s.
         Inr (Some \<lparr> grpc_port = word_of_int p, grpc_service = s \<rparr>))))"

definition HealthCheckFromJSONB :: "jdoc \<Rightarrow> err + health_check" where
  "HealthCheckFromJSONB doc =
     (case doc of
        DocObject fs \<Rightarrow>
          if fs = [] then Inr zero_health_check
          else attempt (doc_text fs ''name'') (\<lambda>name. attempt (doc_int fs ''interval_ns'' (2 ^ 63)) (\<lambda>interval.
            attempt (doc_int fs ''timeout_ns'' (2 ^ 63)) (\<lambda>timeout.
            attempt (doc_int fs ''unhealthy_threshold'' (2 ^ 31)) (\<lambda>unhealthy.
            attempt (doc_int fs ''healthy_threshold'' (2 ^ 31)) (\<lambda>healthy.
            attempt (attempt (doc_object fs ''tcp'') read_tcp) (\<lambda>tcp. attempt (attempt (doc_object fs ''http'') read_http) (\<lambda>http.
            attempt (attempt (doc_object fs ''https'') read_http) (\<lambda>https. attempt (attempt (doc_object fs ''grpc'') read_grpc) (\<lambda>grpc.
              Inr \<lparr> hc_name = name, hc_interval = word_of_int interval, hc_timeout = word_of_int timeout,
                    hc_unhealthy = word_of_int unhealthy, hc_healthy = word_of_int healthy,
                    hc_TCP = tcp, hc_HTTP = (if tcp \<noteq> None then None else http),
                    hc_HTTPS = (if tcp \<noteq> None \<or> http \<noteq> None then None else https),
                    hc_GRPC = (if tcp \<noteq> None \<or> http \<noteq> None \<or> https \<noteq> None then None else grpc) \<rparr>)))))))))
      | _ \<Rightarrow> Inl bad_doc)"

text \<open>Labels: an object of texts.\<close>

definition LabelsToJSONB :: "labels \<Rightarrow> jdoc" where
  "LabelsToJSONB l = DocObject (case LabelsToMap l of None \<Rightarrow> [] | Some m \<Rightarrow> map (\<lambda>(k, v). (k, DocText v)) m)"

fun doc_texts :: "(string \<times> jdoc) list \<Rightarrow> err + labels" where
  "doc_texts [] = Inr []"
| "doc_texts ((k, v) # fs) =
     (case v of DocText s \<Rightarrow> attempt (doc_texts fs) (\<lambda>l. Inr ((k, s) # l)) | _ \<Rightarrow> Inl bad_doc)"

definition LabelsFromJSONB :: "jdoc option \<Rightarrow> err + labels" where
  "LabelsFromJSONB doc =
     (case doc of None \<Rightarrow> Inr [] | Some (DocObject fs) \<Rightarrow> doc_texts fs | Some v \<Rightarrow> Inl bad_doc)"

subsection \<open>Facts\<close>

lemma map_of_omit [simp]:
  "map_of (omit_empty zero k v @ fs) j = (if \<not> zero \<and> j = k then Some v else map_of fs j)"
  "map_of (omit_empty zero k v) j = (if \<not> zero \<and> j = k then Some v else None)"
  by (auto simp: omit_empty_def)

lemma sint_range [simp]: "- 2147483648 \<le> sint (w :: int32)" "sint (w :: int32) < 2147483648"
  "- 9223372036854775808 \<le> sint (v :: int64)" "sint (v :: int64) < 9223372036854775808"
  using sint_ge [of w] sint_lt [of w] sint_ge [of v] sint_lt [of v] by simp_all

lemma doc_int_there:
  "map_of fs k = (if z then None else Some (DocInt (sint (w :: int32)))) \<Longrightarrow> (z \<Longrightarrow> w = 0) \<Longrightarrow> doc_int fs k 2147483648 = Inr (sint w)"
  "map_of fs k = (if z then None else Some (DocInt (sint (v :: int64)))) \<Longrightarrow> (z \<Longrightarrow> v = 0) \<Longrightarrow> doc_int fs k 9223372036854775808 = Inr (sint v)"
  by (auto simp: doc_int_def)

lemma doc_text_there:
  "map_of fs k = (if z then None else Some (DocText s)) \<Longrightarrow> (z \<Longrightarrow> s = '''') \<Longrightarrow> doc_text fs k = Inr s"
  by (auto simp: doc_text_def)

lemma doc_ints_there:
  "map_of fs k = (if z then None else Some (DocInts (map sint ns))) \<Longrightarrow> (z \<Longrightarrow> ns = []) \<Longrightarrow> doc_int32s fs k = Inr ns"
  by (auto simp: doc_int32s_def list_all_iff comp_def)

lemma read_probes:
  "read_tcp (Some [(''port'', DocInt (sint (tcp_port t)))]) = Inr (Some t)"
  "HCPortPath h = DocObject fs \<Longrightarrow> read_http (Some fs) = Inr (Some h)"
  "HCPortServiceNm g = DocObject gs \<Longrightarrow> read_grpc (Some gs) = Inr (Some g)"
proof -
  show "read_tcp (Some [(''port'', DocInt (sint (tcp_port t)))]) = Inr (Some t)"
    by (simp add: read_tcp_def doc_int_def)
  assume h: "HCPortPath h = DocObject fs"
  have "doc_int fs ''port'' 2147483648 = Inr (sint (http_port h))" "doc_text fs ''path'' = Inr (http_path h)"
    "doc_int32s fs ''expected_statuses'' = Inr (http_statuses h)"
    using h unfolding HCPortPath_def
    by (auto simp del: map_of_append intro!: doc_int_there(1) [where z = False] doc_text_there [where z = "http_path h = ''''"]
        doc_ints_there [where z = "http_statuses h = []"])
  then show "read_http (Some fs) = Inr (Some h)" by (simp add: read_http_def)
next
  assume g: "HCPortServiceNm g = DocObject gs"
  have "doc_int gs ''port'' 2147483648 = Inr (sint (grpc_port g))" "doc_text gs ''service_name'' = Inr (grpc_service g)"
    using g unfolding HCPortServiceNm_def
    by (auto simp del: map_of_append intro!: doc_int_there(1) [where z = False] doc_text_there [where z = "grpc_service g = ''''"])
  then show "read_grpc (Some gs) = Inr (Some g)" by (simp add: read_grpc_def)
qed

lemma HealthCheckFromJSONB_fields:
  assumes "fs \<noteq> []" and "doc_text fs ''name'' = Inr name" and "doc_int fs ''interval_ns'' 9223372036854775808 = Inr interval"
    and "doc_int fs ''timeout_ns'' 9223372036854775808 = Inr timeout" and "doc_int fs ''unhealthy_threshold'' 2147483648 = Inr unhealthy"
    and "doc_int fs ''healthy_threshold'' 2147483648 = Inr healthy" and "attempt (doc_object fs ''tcp'') read_tcp = Inr tcp"
    and "attempt (doc_object fs ''http'') read_http = Inr http" and "attempt (doc_object fs ''https'') read_http = Inr https"
    and "attempt (doc_object fs ''grpc'') read_grpc = Inr grpc"
  shows "HealthCheckFromJSONB (DocObject fs) = Inr
    \<lparr> hc_name = name, hc_interval = word_of_int interval, hc_timeout = word_of_int timeout,
      hc_unhealthy = word_of_int unhealthy, hc_healthy = word_of_int healthy,
      hc_TCP = tcp, hc_HTTP = (if tcp \<noteq> None then None else http),
      hc_HTTPS = (if tcp \<noteq> None \<or> http \<noteq> None then None else https),
      hc_GRPC = (if tcp \<noteq> None \<or> http \<noteq> None \<or> https \<noteq> None then None else grpc) \<rparr>"
  using assms(1-6) by (simp add: HealthCheckFromJSONB_def assms(7-) del: attempt_eq_Inr)

lemma HealthCheck_doc:
  assumes "probe_count hc \<le> 1"
  shows "HealthCheckFromJSONB (HealthCheckToJSONB hc) = Inr hc"
proof (cases "isHealthCheckZero hc")
  case True
  then have "hc = zero_health_check" by (simp add: isHealthCheckZero_def zero_health_check_def)
  with True show ?thesis by (simp add: HealthCheckToJSONB_def HealthCheckFromJSONB_def)
next
  case False
  let ?pre = "omit_empty (hc_name hc = '''') ''name'' (DocText (hc_name hc))
        @ omit_empty (hc_interval hc = 0) ''interval_ns'' (DocInt (sint (hc_interval hc)))
        @ omit_empty (hc_timeout hc = 0) ''timeout_ns'' (DocInt (sint (hc_timeout hc)))
        @ omit_empty (hc_unhealthy hc = 0) ''unhealthy_threshold'' (DocInt (sint (hc_unhealthy hc)))
        @ omit_empty (hc_healthy hc = 0) ''healthy_threshold'' (DocInt (sint (hc_healthy hc)))"
  let ?fs = "?pre @ probe_doc hc"
  have probes: "map_of (probe_doc hc) k = None" if "k \<notin> {''tcp'', ''http'', ''https'', ''grpc''}" for k
    using that by (auto simp: probe_doc_def split: option.splits)
  have ne: "?fs \<noteq> []"
    using False by (auto simp: isHealthCheckZero_def omit_empty_def probe_doc_def split: option.splits if_splits)
  have f1: "doc_text ?fs ''name'' = Inr (hc_name hc)"
    by (rule doc_text_there [where z = "hc_name hc = ''''"]) (simp_all add: probes del: map_of_append)
  have f2: "doc_int ?fs ''interval_ns'' 9223372036854775808 = Inr (sint (hc_interval hc))"
    by (rule doc_int_there(2) [where z = "hc_interval hc = 0"]) (simp_all add: probes del: map_of_append)
  have f3: "doc_int ?fs ''timeout_ns'' 9223372036854775808 = Inr (sint (hc_timeout hc))"
    by (rule doc_int_there(2) [where z = "hc_timeout hc = 0"]) (simp_all add: probes del: map_of_append)
  have f4: "doc_int ?fs ''unhealthy_threshold'' 2147483648 = Inr (sint (hc_unhealthy hc))"
    by (rule doc_int_there(1) [where z = "hc_unhealthy hc = 0"]) (simp_all add: probes del: map_of_append)
  have f5: "doc_int ?fs ''healthy_threshold'' 2147483648 = Inr (sint (hc_healthy hc))"
    by (rule doc_int_there(1) [where z = "hc_healthy hc = 0"]) (simp_all add: probes del: map_of_append)
  have obj: "doc_object ?fs k = doc_object (probe_doc hc) k" if "k \<in> {''tcp'', ''http'', ''https'', ''grpc''}" for k
    using that by (auto simp: doc_object_def simp del: map_of_append)
  have one: "\<And>k. attempt (doc_object (probe_doc hc) ''tcp'') read_tcp = Inr (hc_TCP hc)"
    "attempt (doc_object (probe_doc hc) ''http'') read_http = Inr (hc_HTTP hc)"
    "attempt (doc_object (probe_doc hc) ''https'') read_http = Inr (hc_HTTPS hc)"
    "attempt (doc_object (probe_doc hc) ''grpc'') read_grpc = Inr (hc_GRPC hc)"
    using assms read_probes(1) read_probes(2) read_probes(3)
    by (auto simp: probe_count_def probe_doc_def doc_object_def HCPortOnly_def HCPortPath_def HCPortServiceNm_def
        read_tcp_def [of None] read_http_def [of None] read_grpc_def [of None] split: option.splits if_splits)
  have obj4: "doc_object ?fs ''tcp'' = doc_object (probe_doc hc) ''tcp''" "doc_object ?fs ''http'' = doc_object (probe_doc hc) ''http''"
    "doc_object ?fs ''https'' = doc_object (probe_doc hc) ''https''" "doc_object ?fs ''grpc'' = doc_object (probe_doc hc) ''grpc''"
    by (rule obj, simp)+
  note one = one [folded obj4]
  have excl: "hc_TCP hc \<noteq> None \<Longrightarrow> hc_HTTP hc = None \<and> hc_HTTPS hc = None \<and> hc_GRPC hc = None"
    "hc_HTTP hc \<noteq> None \<Longrightarrow> hc_HTTPS hc = None \<and> hc_GRPC hc = None" "hc_HTTPS hc \<noteq> None \<Longrightarrow> hc_GRPC hc = None"
    using assms by (auto simp: probe_count_def split: if_splits)
  have "HealthCheckToJSONB hc = DocObject ?fs" using False by (simp add: HealthCheckToJSONB_def)
  then have "HealthCheckFromJSONB (HealthCheckToJSONB hc) = HealthCheckFromJSONB (DocObject ?fs)" by simp
  also have "\<dots> = Inr hc"
    by (subst HealthCheckFromJSONB_fields [OF ne f1 f2 f3 f4 f5 one]) (use excl in \<open>auto intro!: health_check.equality\<close>)
  finally show ?thesis .
qed

lemma scast_sint_64: "sint (scast (w :: int32) :: int64) = sint w"
  by transfer simp

lemma wide_back:
  assumes "sint (n :: int32) = sint (v :: int64)"
  shows "scast n = v"
proof -
  have "(word_of_int (sint (scast n :: int64)) :: int64) = word_of_int (sint v)"
    by (simp only: scast_sint_64 assms)
  then show ?thesis by simp
qed

lemma HealthThreshold_value: "HealthThresholdFromProto f v = Inr n \<Longrightarrow> sint n = sint v"
  using sint_ucast_32 [of v] by (auto simp: HealthThresholdFromProto_def split: if_splits)

lemma health_check_echo:
  assumes "healthCheckFromPb pb = Inr hc"
  shows "probe_count hc \<le> 1" and "healthCheckToPb hc = (if isHealthCheckZero hc then None else Some pb)"
  using assms
  by (cases "ph_options pb";
      auto simp: healthCheckFromPb_def Let_def zero_health_check_def probe_count_def healthCheckToPb_def
        dest!: HealthThreshold_value LbPortFromProto_value dest: wide_back intro!: pb_health_check.equality)+

lemma target_echo:
  assumes "Target_Validate (targetFromPb (Some m)) = []"
    and "first_violation (target_checks (new_target_row g now i (targetFromPb (Some m)))) = None"
  shows "target_toPb (scanTarget (new_target_row g now i (targetFromPb (Some m)))) = m"
proof -
  have e: "IPAddress_Validate a = [] \<Longrightarrow> a \<noteq> ''''" for a
    by (auto simp: IPAddress_Validate_def field_violation_def)
  have x: "TargetExternalIP_Validate e = [] \<Longrightarrow> ext_address e \<noteq> ''''" for e
    using e by (auto simp: TargetExternalIP_Validate_def split: if_splits)
  show ?thesis
    using assms e x
    by (cases "pt_identity m")
       (auto simp: targetFromPb_def Let_def new_target_row_def splitTargetIdentity_def nullableStr_def opt_string_def
         scanTarget_def target_toPb_def target_checks_def Target_Validate_def TargetIPRef_Validate_def field_violation_def
         validateIdentityOneOf_def identity_count_def opt_text_def intro!: pb_target.equality split: if_splits)
qed

subsection \<open>Properties\<close>

text \<open>C27: what a client writes is what it reads. A health check that is accepted survives the narrowing to the
  domain, the JSON column and the way back to the message unchanged (an empty one comes back as none), and so
  does a target whose row the database takes.
\<close>

theorem wire_roundtrip:
  assumes "healthCheckFromPb pb = Inr hc" and "Target_Validate (targetFromPb (Some m)) = []"
    and "first_violation (target_checks (new_target_row g now i (targetFromPb (Some m)))) = None"
  shows "HealthCheckFromJSONB (HealthCheckToJSONB hc) = Inr hc
    \<and> healthCheckToPb hc = (if isHealthCheckZero hc then None else Some pb)
    \<and> target_toPb (scanTarget (new_target_row g now i (targetFromPb (Some m)))) = m"
  using HealthCheck_doc [OF health_check_echo(1) [OF assms(1)]] health_check_echo(2) [OF assms(1)]
    target_echo [OF assms(2,3)] by simp

definition sample_probe :: pb_health_check where
  "sample_probe = \<lparr> ph_name = ''hc'', ph_interval = 2000000000, ph_timeout = 1000000000, ph_unhealthy = 3, ph_healthy = 2,
     ph_options = PbHttp 8080 ''/healthz'' \<rparr>"

definition sample_backend :: pb_target where
  "sample_backend = \<lparr> pt_identity = PbExternalIp ''203.0.113.9'' ''z1'', pt_weight = 10 \<rparr>"

theorem wire_roundtrip_witness:
  "\<exists>hc. healthCheckFromPb sample_probe = Inr hc \<and> healthCheckToPb hc = Some sample_probe
     \<and> HealthCheckFromJSONB (HealthCheckToJSONB hc) = Inr hc
     \<and> target_toPb (scanTarget (new_target_row ''tg1'' 0 ''t1'' (targetFromPb (Some sample_backend)))) = sample_backend"
proof -
  have h: "is_ok (healthCheckFromPb sample_probe)" by code_simp
  then obtain hc where hc: "healthCheckFromPb sample_probe = Inr hc" by (auto simp: is_ok_iff)
  have z: "\<not> isHealthCheckZero hc"
    using hc by (auto simp: isHealthCheckZero_def healthCheckFromPb_def sample_probe_def zero_health_check_def Let_def)
  have t: "Target_Validate (targetFromPb (Some sample_backend)) = []" by code_simp
  have c: "first_violation (target_checks (new_target_row ''tg1'' 0 ''t1'' (targetFromPb (Some sample_backend)))) = None"
    by code_simp
  show ?thesis using wire_roundtrip [OF hc t c] hc z by auto
qed

text \<open>Every row the database takes has a message, and the message says nothing of what is internal: the addresses
  themselves, where they came from and the families of a load balancer, the old address columns of a listener.
\<close>

theorem views_lean:
  assumes "first_violation (lb_checks r) = None" and "first_violation (listener_checks l) = None"
  shows "(\<exists>m. lb_toPb r = Inr m \<and> (\<forall>a4 a6 o4 o6 fam.
            lb_toPb (r \<lparr> lb_addr_v4 := a4, lb_addr_v6 := a6, lb_origin_v4 := o4, lb_origin_v6 := o6, lb_families := fam \<rparr>)
              = Inr m))
    \<and> (\<exists>m. listener_toPb l = Inr m \<and> (\<forall>ip aid al sn or.
            listener_toPb (l \<lparr> ls_ip_version := ip, ls_address_id := aid, ls_allocated := al, ls_subnet := sn, ls_origin := or \<rparr>)
              = Inr m))"
proof -
  have "\<exists>a. lbAffinityToPb (lb_affinity r) = Inr a"
    using assms(1) unfolding first_violation_None
    by (auto simp: lb_checks_def lbAffinityToPb_def SessionAffinity5Tuple_def SessionAffinityClientIPOnly_def)
  moreover have "\<exists>p. listenerProtocolToPb (ls_protocol l) = Inr p"
    using assms(2) unfolding first_violation_None
    by (auto simp: listener_checks_def listenerProtocolToPb_def ProtoTCP_def ProtoUDP_def)
  ultimately show ?thesis by (auto simp: lb_toPb_def listener_toPb_def)
qed

definition sample_listener_row :: listener_row where
  "sample_listener_row = listener.extend
     \<lparr> ls_id = ''lst1'', ls_project = ''p1'', ls_lb = ''nlb1'', ls_region = ''r1'', ls_name = ''web'', ls_description = '''',
       ls_labels = [], ls_protocol = ''TCP'', ls_port = 80, ls_target_port = 8080, ls_ip_version = ''IPV4'',
       ls_address_id = None, ls_allocated = '''', ls_subnet = None, ls_proxy_v2 = False, ls_default_tg = None,
       ls_status = ListenerStatusActive, ls_origin = VipOriginAuto \<rparr> (listener_row.fields 0 0 1)"

theorem views_lean_witness:
  "is_ok (lb_toPb (new_lb_row (empty_db \<lparr> d_tx := 1 \<rparr>) sample_lb)) \<and> is_ok (listener_toPb sample_listener_row)"
proof -
  have "first_violation (lb_checks (new_lb_row (empty_db \<lparr> d_tx := 1 \<rparr>) sample_lb)) = None" by code_simp
  moreover have "first_violation (listener_checks sample_listener_row) = None" by code_simp
  ultimately show ?thesis by (auto simp: is_ok_iff dest: views_lean)
qed

end
