(* ===== verification/Reads.thy ===== *)
theory Reads
  imports Views Listener_Usecases
begin

text \<open>
  The calls that only read, and the operations: \<^verbatim>\<open>get.go\<close> and \<^verbatim>\<open>list_operations.go\<close> of the three
  resources and \<^verbatim>\<open>internal/apps/kacho/api/operation\<close>. The table of operations belongs to the shared
  library; its repository is a parameter over a state of its own, and what the code relies on is
  \<open>repo_law\<close>.
\<close>

subsection \<open>Get\<close>

definition GetLoadBalancer_Execute :: "peers \<Rightarrow> string \<Rightarrow> ('v, lb_message) saga" where
  "GetLoadBalancer_Execute p i =
     saga_bind (saga_check (require_id p ''network_load_balancer_id'' ''network load balancer'' i)) (\<lambda>_.
     saga_bind (reading (LB_Get i)) (\<lambda>r. saga_check (lbRecordToProto (Some r))))"

definition listenerRecordToPb :: "listener_row \<Rightarrow> err + listener_message" where
  "listenerRecordToPb r = mapping_err MapDomainErr (listener_toPb r)"

definition GetListener_Run :: "peers \<Rightarrow> string \<Rightarrow> ('v, listener_message) saga" where
  "GetListener_Run p i =
     saga_bind (saga_check (require_plain p ''listener_id'' ''listener'' i)) (\<lambda>_.
     saga_bind (reading (Listener_Get i)) (\<lambda>r. saga_check (listenerRecordToPb r)))"

definition GetTargetGroup_Execute :: "peers \<Rightarrow> string \<Rightarrow> ('v, tg_message) saga" where
  "GetTargetGroup_Execute p i =
     saga_bind (saga_check (require_id p ''target_group_id'' ''target group'' i)) (\<lambda>_.
     saga_bind (reading (TG_Get i)) (\<lambda>r. saga_check (tgRecordToProto (Some r))))"

subsection \<open>Operations\<close>

text \<open>An operation of the library; results and metadata are opaque.\<close>

record lro =
  lro_id :: string
  lro_description :: string
  lro_created :: int
  lro_created_by :: string
  lro_modified :: int
  lro_done :: bool
  lro_metadata :: string
  lro_principal :: principal
  lro_display :: string
  lro_error :: "string option"
  lro_response :: "string option"

datatype pb_result = NoResult | ResultError string | ResultResponse string

record operation_message =
  om_id :: string
  om_description :: string
  om_created :: int
  om_created_by :: string
  om_modified :: int
  om_done :: bool
  om_metadata :: string
  om_principal_type :: string
  om_principal_id :: string
  om_principal_name :: string
  om_result :: pb_result

definition OperationToProto :: "lro option \<Rightarrow> operation_message option" where
  "OperationToProto oo =
     (case oo of None \<Rightarrow> None
      | Some x \<Rightarrow> Some \<lparr> om_id = lro_id x, om_description = lro_description x, om_created = lro_created x,
          om_created_by = lro_created_by x, om_modified = lro_modified x, om_done = lro_done x, om_metadata = lro_metadata x,
          om_principal_type = pr_type (lro_principal x), om_principal_id = pr_id (lro_principal x),
          om_principal_name = lro_display x,
          om_result = (case lro_error x of Some e \<Rightarrow> ResultError e
            | None \<Rightarrow> (case lro_response x of Some r \<Rightarrow> ResultResponse r | None \<Rightarrow> NoResult)) \<rparr>)"

text \<open>The errors of the repository: its two sentinels, or another error.\<close>

datatype op_err = OpNotFound | OpAlreadyDone | OpOther err

text \<open>\<open>ro_owned\<close>: whether the repository checks owners at all (\<^verbatim>\<open>operations.AsOwned\<close>).\<close>

record ('s, 'w) op_repo =
  ro_owned :: bool
  ro_GetOwned :: "string \<Rightarrow> 'w \<Rightarrow> 's \<Rightarrow> op_err + lro"
  ro_Get :: "string \<Rightarrow> 's \<Rightarrow> op_err + lro"
  ro_Cancel :: "string \<Rightarrow> 's \<Rightarrow> (op_err + unit) \<times> 's"
  ro_List :: "string \<Rightarrow> int64 \<Rightarrow> string \<Rightarrow> 's \<Rightarrow> op_err + lro list \<times> string"

definition op_missing :: "string \<Rightarrow> err" where
  "op_missing i = Status CodeNotFound (''operation '' @ i @ '' not found'')"

definition op_answer :: "lro \<Rightarrow> err + operation_message" where
  "op_answer x = (case OperationToProto (Some x) of Some m \<Rightarrow> Inr m | None \<Rightarrow> Inl (Status CodeInternal ''''))"

definition GetOperation_Run ::
  "('s, 'w) op_repo \<Rightarrow> (principal \<Rightarrow> 'w) \<Rightarrow> principal \<Rightarrow> string \<Rightarrow> 's \<Rightarrow> err + operation_message" where
  "GetOperation_Run R owner_of pr i s =
     (if i = '''' then Inl (Status CodeInvalidArgument ''operation_id required'')
      else if \<not> ro_owned R then Inl (Status CodeInternal ''operation get failed'')
      else case ro_GetOwned R i (owner_of pr) s of
        Inl OpNotFound \<Rightarrow> Inl (op_missing i)
      | Inl e \<Rightarrow> Inl (Status CodeInternal ''operation get failed'')
      | Inr x \<Rightarrow> op_answer x)"

definition CancelOperation_Run ::
  "('s, 'w) op_repo \<Rightarrow> (principal \<Rightarrow> 'w) \<Rightarrow> principal \<Rightarrow> string \<Rightarrow> 's \<Rightarrow> (err + operation_message) \<times> 's" where
  "CancelOperation_Run R owner_of pr i s =
     (let failed = Status CodeInternal ''operation cancel failed'' in
      if i = '''' then (Inl (Status CodeInvalidArgument ''operation_id required''), s)
      else if \<not> ro_owned R then (Inl failed, s)
      else case ro_GetOwned R i (owner_of pr) s of
        Inl OpNotFound \<Rightarrow> (Inl (op_missing i), s)
      | Inl e \<Rightarrow> (Inl failed, s)
      | Inr x \<Rightarrow>
          (case ro_Cancel R i s of
             (Inl OpNotFound, s1) \<Rightarrow> (Inl (op_missing i), s1)
           | (Inl OpAlreadyDone, s1) \<Rightarrow>
               (Inl (Status CodeFailedPrecondition (''operation '' @ i @ '' already completed'')), s1)
           | (Inl e, s1) \<Rightarrow> (Inl failed, s1)
           | (Inr u, s1) \<Rightarrow>
               (case ro_Get R i s1 of
                  Inl OpNotFound \<Rightarrow> (Inl (op_missing i), s1)
                | Inl e \<Rightarrow> (Inl (Status CodeInternal ''operation reload after cancel failed''), s1)
                | Inr y \<Rightarrow> (op_answer y, s1))))"

text \<open>The histories of a resource.\<close>

fun list_error :: "op_err \<Rightarrow> err" where
  "list_error (OpOther e) = MapDomainErr e"
| "list_error e = Status CodeInternal ''internal error''"

definition operation_page :: "(op_err \<Rightarrow> err) \<Rightarrow> op_err + lro list \<times> string \<Rightarrow> err + operation_message list \<times> string" where
  "operation_page f r =
     (case r of Inl e \<Rightarrow> Inl (f e)
      | Inr (xs, next) \<Rightarrow> Inr (List.map_filter (OperationToProto \<circ> Some) xs, next))"

definition ListLoadBalancerOperations_Execute ::
  "('s, 'w) op_repo \<Rightarrow> peers \<Rightarrow> string \<Rightarrow> int64 \<Rightarrow> string \<Rightarrow> 's \<Rightarrow> err + operation_message list \<times> string" where
  "ListLoadBalancerOperations_Execute R p i sz token s =
     attempt (require_id p ''network_load_balancer_id'' ''network load balancer'' i) (\<lambda>_.
       operation_page list_error (ro_List R i sz token s))"

definition ListListenerOperations_Run ::
  "('s, 'w) op_repo \<Rightarrow> peers \<Rightarrow> string \<Rightarrow> int64 \<Rightarrow> string \<Rightarrow> 's \<Rightarrow> err + operation_message list \<times> string" where
  "ListListenerOperations_Run R p i sz token s =
     attempt (require_plain p ''listener_id'' ''listener'' i) (\<lambda>_.
       operation_page (\<lambda>e. Status CodeInternal ''operation list failed'') (ro_List R i sz token s))"

definition ListTargetGroupOperations_Execute ::
  "('s, 'w) op_repo \<Rightarrow> peers \<Rightarrow> string \<Rightarrow> int64 \<Rightarrow> string \<Rightarrow> 's \<Rightarrow> err + operation_message list \<times> string" where
  "ListTargetGroupOperations_Execute R p i sz token s =
     attempt (require_id p ''target_group_id'' ''target group'' i) (\<lambda>_.
       operation_page list_error (ro_List R i sz token s))"

subsection \<open>Properties\<close>

text \<open>
  What the code relies on: an owner's read gives the operation that is there if it is that owner's and
  is not found otherwise, and a cancellation touches one operation.
\<close>

definition repo_law :: "('s, 'w) op_repo \<Rightarrow> (lro \<Rightarrow> 'w) \<Rightarrow> bool" where
  "repo_law R whose \<longleftrightarrow>
     (\<forall>i w s x. ro_Get R i s = Inr x \<longrightarrow> ro_GetOwned R i w s = (if whose x = w then Inr x else Inl OpNotFound)) \<and>
     (\<forall>i w s. ro_Get R i s = Inl OpNotFound \<longrightarrow> ro_GetOwned R i w s = Inl OpNotFound) \<and>
     (\<forall>i j s. j \<noteq> i \<longrightarrow> ro_Get R j (snd (ro_Cancel R i s)) = ro_Get R j s)"

text \<open>C24: an operation is its owner's. To another caller it is as if it did not exist: reading and cancelling give
  the answer for an unknown name, and nothing changes; and no cancellation touches another operation.
\<close>

theorem operations_private:
  assumes "repo_law R whose" and "ro_owned R" and "i \<noteq> ''''"
    and "ro_Get R i s = Inl OpNotFound \<or> (\<exists>x. ro_Get R i s = Inr x \<and> whose x \<noteq> owner_of pr)"
  shows "GetOperation_Run R owner_of pr i s = Inl (op_missing i)
    \<and> CancelOperation_Run R owner_of pr i s = (Inl (op_missing i), s)
    \<and> (\<forall>pr' j. j \<noteq> i \<longrightarrow> ro_Get R j (snd (CancelOperation_Run R owner_of pr' i s)) = ro_Get R j s)"
proof -
  from assms(1,4) have "ro_GetOwned R i (owner_of pr) s = Inl OpNotFound"
    by (auto simp: repo_law_def)
  moreover have "ro_Get R j (snd (CancelOperation_Run R owner_of pr' i s)) = ro_Get R j s" if "j \<noteq> i" for pr' j
  proof -
    have "snd (CancelOperation_Run R owner_of pr' i s) \<in> {s, snd (ro_Cancel R i s)}"
      by (auto simp: CancelOperation_Run_def Let_def split: sum.splits op_err.splits prod.splits)
    with assms(1) that show ?thesis by (auto simp: repo_law_def)
  qed
  ultimately show ?thesis
    using assms(2,3) by (simp add: GetOperation_Run_def CancelOperation_Run_def Let_def)
qed

text \<open>A repository on a list, with two operations of two callers.\<close>

definition plain_ops :: "(lro list, string) op_repo" where
  "plain_ops =
     (let get = (\<lambda>i s. case tbl_get lro_id s i of None \<Rightarrow> Inl OpNotFound | Some x \<Rightarrow> Inr x) in
      \<lparr> ro_owned = True,
        ro_GetOwned = (\<lambda>i w s. case get i s of Inl e \<Rightarrow> Inl e
          | Inr x \<Rightarrow> if lro_created_by x = w then Inr x else Inl OpNotFound),
        ro_Get = get,
        ro_Cancel = (\<lambda>i s. case get i s of Inl e \<Rightarrow> (Inl e, s)
          | Inr x \<Rightarrow> if lro_done x then (Inl OpAlreadyDone, s)
              else (Inr (), tbl_upd lro_id i (\<lambda>x. x \<lparr> lro_done := True, lro_error := Some ''CANCELLED'' \<rparr>) s)),
        ro_List = (\<lambda>r n t s. Inr (s, '''')) \<rparr>)"

definition op_of :: "string \<Rightarrow> string \<Rightarrow> lro" where
  "op_of i w = \<lparr> lro_id = i, lro_description = '''', lro_created = 0, lro_created_by = w, lro_modified = 0, lro_done = False,
     lro_metadata = '''', lro_principal = \<lparr> pr_type = ''user'', pr_id = w \<rparr>, lro_display = '''', lro_error = None,
     lro_response = None \<rparr>"

lemma plain_ops_law: "repo_law plain_ops lro_created_by"
  unfolding repo_law_def plain_ops_def Let_def
  by (auto simp: tbl_get_upd split: option.splits if_splits)

theorem operations_private_witness:
  "GetOperation_Run plain_ops pr_id \<lparr> pr_type = ''user'', pr_id = ''u2'' \<rparr> ''op1'' [op_of ''op1'' ''u1'', op_of ''op2'' ''u2'']
     = Inl (op_missing ''op1'')
   \<and> is_ok (fst (CancelOperation_Run plain_ops pr_id \<lparr> pr_type = ''user'', pr_id = ''u1'' \<rparr> ''op1''
       [op_of ''op1'' ''u1'', op_of ''op2'' ''u2'']))"
proof -
  have "ro_Get plain_ops ''op1'' [op_of ''op1'' ''u1'', op_of ''op2'' ''u2''] = Inr (op_of ''op1'' ''u1'')"
    "ro_owned plain_ops" "lro_created_by (op_of ''op1'' ''u1'') = ''u1''"
    by (simp_all add: plain_ops_def op_of_def)
  then have "GetOperation_Run plain_ops pr_id \<lparr> pr_type = ''user'', pr_id = ''u2'' \<rparr> ''op1''
      [op_of ''op1'' ''u1'', op_of ''op2'' ''u2''] = Inl (op_missing ''op1'')"
    using operations_private [OF plain_ops_law, of "''op1''" "[op_of ''op1'' ''u1'', op_of ''op2'' ''u2'']" pr_id
      "\<lparr> pr_type = ''user'', pr_id = ''u2'' \<rparr>"] by simp
  moreover have "is_ok (fst (CancelOperation_Run plain_ops pr_id \<lparr> pr_type = ''user'', pr_id = ''u1'' \<rparr> ''op1''
       [op_of ''op1'' ''u1'', op_of ''op2'' ''u2'']))" by code_simp
  ultimately show ?thesis by blast
qed

end
