(* ===== verification/Announce.thy ===== *)
theory Announce
  imports Usecase_Steps
begin

text \<open>
  The feedback of the data plane (\<^verbatim>\<open>internal/apps/kacho/api/announce\<close>, \<^verbatim>\<open>domain/announce.go\<close>,
  \<^verbatim>\<open>repo/kacho/pg/announce_store.go\<close>): per zone and address family, whether the address of a load
  balancer is announced. The rows live in a table of their own (migration 0010) whose foreign key takes
  them away together with their load balancer.
\<close>

subsection \<open>Zones, rows and messages\<close>

record announce_zone =
  zn_zone :: string
  zn_ipv :: string
  zn_bgp :: bool
  zn_route :: string
  zn_vrf :: string
  zn_kernel :: bool
  zn_infra :: int64

record announce_row =
  zr_lb :: string
  zr_zone :: announce_zone
  zr_updated :: int

record announce_state =
  as_lb :: string
  as_v4 :: string
  as_v6 :: string
  as_zones :: "announce_row list"
  as_observed :: "int option"

text \<open>The enumeration of the messages; a number without a name is possible on the wire.\<close>

datatype ip_version_pb = IpVersion_UNSPECIFIED | IpVersion_IPV4 | IpVersion_IPV6 | IpVersion_Other int32

record zone_message =
  zm_zone :: string
  zm_ipv :: ip_version_pb
  zm_bgp :: bool
  zm_route :: string
  zm_vrf :: string
  zm_kernel :: bool
  zm_infra :: int64

record announce_message =
  am_lb :: string
  am_v4 :: string
  am_v6 :: string
  am_zones :: "zone_message list"
  am_observed :: "int option"

record report_request =
  pq_lb :: string
  pq_zones :: "zone_message list"

definition announce_ipVersionFromProto :: "ip_version_pb \<Rightarrow> string" where
  "announce_ipVersionFromProto v =
     (case v of IpVersion_IPV4 \<Rightarrow> IPVersionV4 | IpVersion_IPV6 \<Rightarrow> IPVersionV6 | _ \<Rightarrow> '''')"

definition announce_ipVersionToProto :: "string \<Rightarrow> ip_version_pb" where
  "announce_ipVersionToProto s =
     (if s = IPVersionV4 then IpVersion_IPV4 else if s = IPVersionV6 then IpVersion_IPV6 else IpVersion_UNSPECIFIED)"

definition zoneFromProto :: "zone_message \<Rightarrow> announce_zone" where
  "zoneFromProto z =
     \<lparr> zn_zone = zm_zone z, zn_ipv = announce_ipVersionFromProto (zm_ipv z), zn_bgp = zm_bgp z, zn_route = zm_route z,
       zn_vrf = zm_vrf z, zn_kernel = zm_kernel z, zn_infra = zm_infra z \<rparr>"

definition zoneToProto :: "announce_zone \<Rightarrow> zone_message" where
  "zoneToProto z =
     \<lparr> zm_zone = zn_zone z, zm_ipv = announce_ipVersionToProto (zn_ipv z), zm_bgp = zn_bgp z, zm_route = zn_route z,
       zm_vrf = zn_vrf z, zm_kernel = zn_kernel z, zm_infra = zn_infra z \<rparr>"

definition stateToProto :: "announce_state \<Rightarrow> announce_message" where
  "stateToProto s =
     \<lparr> am_lb = as_lb s, am_v4 = as_v4 s, am_v6 = as_v6 s,
       am_zones = map (zoneToProto \<circ> zr_zone) (as_zones s), am_observed = as_observed s \<rparr>"

subsection \<open>The store\<close>

definition zr_key :: "announce_row \<Rightarrow> string \<times> string \<times> string" where
  "zr_key r = (zr_lb r, zn_zone (zr_zone r), zn_ipv (zr_zone r))"

text \<open>The database with the table of announcements.\<close>

record announce_db =
  ad_db :: db
  ad_rows :: "announce_row list"

text \<open>\<^verbatim>\<open>INSERT ... ON CONFLICT ... DO UPDATE\<close> of one zone.\<close>

definition upsert_zone :: "string \<Rightarrow> announce_zone \<Rightarrow> announce_db \<Rightarrow> err + announce_db" where
  "upsert_zone lb z s =
     (let r = \<lparr> zr_lb = lb, zr_zone = z, zr_updated = d_now (ad_db s) \<rparr> in
      attempt (sql_guard ''23514'' [(''load_balancer_announce_state_ip_version_check'',
          zn_ipv z \<in> {'''', IPVersionV4, IPVersionV6})]) (\<lambda>_.
      if tbl_get zr_key (ad_rows s) (zr_key r) \<noteq> None
      then Inr (s \<lparr> ad_rows := tbl_upd zr_key (zr_key r) (\<lambda>_. r) (ad_rows s) \<rparr>)
      else attempt (sql_guard ''23503'' [(''load_balancer_announce_state_load_balancer_id_fkey'',
          tbl_get lb_id (d_lbs (ad_db s)) lb \<noteq> None)]) (\<lambda>_.
        Inr (s \<lparr> ad_rows := ad_rows s @ [r] \<rparr>))))"

fun upsert_zones :: "string \<Rightarrow> announce_zone list \<Rightarrow> announce_db \<Rightarrow> err + announce_db" where
  "upsert_zones lb [] s = Inr s"
| "upsert_zones lb (z # zs) s =
     attempt (mapping_err (\<lambda>e. mapPgErr e ''load balancer'' lb) (upsert_zone lb z s)) (upsert_zones lb zs)"

text \<open>The whole report is one transaction, unless there is nothing to report.\<close>

definition ReportZones :: "fault \<Rightarrow> string \<Rightarrow> announce_zone list \<Rightarrow> announce_db \<Rightarrow> (err + unit) \<times> announce_db" where
  "ReportZones flt lb zs s =
     (if zs = [] then (Inr (), s)
      else case flt of
        FailBefore e \<Rightarrow> (Inl (mapPgErr e ''AnnounceState'' lb), s)
      | _ \<Rightarrow>
          (case upsert_zones lb zs s of
             Inl e \<Rightarrow> (Inl e, s)
           | Inr s' \<Rightarrow> (case flt of
                 FailCommit e \<Rightarrow> (Inl (mapPgErr e ''AnnounceState'' lb), s)
               | LostAck e \<Rightarrow> (Inl (mapPgErr e ''AnnounceState'' lb), s')
               | _ \<Rightarrow> (Inr (), s'))))"

definition zone_before :: "announce_row \<Rightarrow> announce_row \<Rightarrow> bool" where
  "zone_before a b \<longleftrightarrow>
     string_less (zn_zone (zr_zone a)) (zn_zone (zr_zone b))
     \<or> zn_zone (zr_zone a) = zn_zone (zr_zone b) \<and> \<not> string_less (zn_ipv (zr_zone b)) (zn_ipv (zr_zone a))"

fun latest :: "int option \<Rightarrow> announce_row list \<Rightarrow> int option" where
  "latest m [] = m"
| "latest m (r # rs) =
     latest (case m of None \<Rightarrow> Some (zr_updated r)
                     | Some t \<Rightarrow> Some (if t < zr_updated r then zr_updated r else t)) rs"

text \<open>
  Two statements, each on the state it finds: the load balancer, then its rows. \<open>None\<close> is a missing
  load balancer.
\<close>

definition LoadState :: "string \<Rightarrow> err option \<Rightarrow> db \<Rightarrow> err option \<Rightarrow> announce_row list \<Rightarrow> err + announce_state option" where
  "LoadState lb flt1 d flt2 rows =
     (case flt1 of
        Some e \<Rightarrow> Inl (mapPgErr e ''load balancer'' lb)
      | None \<Rightarrow>
          (case tbl_get lb_id (d_lbs d) lb of
             None \<Rightarrow> Inr None
           | Some r \<Rightarrow>
               (case flt2 of
                  Some e \<Rightarrow> Inl (mapPgErr e ''AnnounceState'' lb)
                | None \<Rightarrow>
                    let zs = isort zone_before (filter (\<lambda>z. zr_lb z = lb) rows) in
                    Inr (Some \<lparr> as_lb = lb, as_v4 = lb_addr_v4 r, as_v6 = lb_addr_v6 r,
                                as_zones = zs, as_observed = latest None zs \<rparr>))))"

subsection \<open>The use-cases\<close>

definition announce_id_ok :: "bool \<Rightarrow> peers \<Rightarrow> string \<Rightarrow> err + unit" where
  "announce_id_ok configured p i =
     (if \<not> configured then Inl (Status CodeUnavailable ''announce store not configured'')
      else if i = '''' then Inl (err_invalid_arg ''network_load_balancer_id'' ''required'')
      else case p_valid_id p ''network load balancer'' i of Some e \<Rightarrow> Inl (MapDomainErr e) | None \<Rightarrow> Inr ())"

definition GetAnnounceState ::
  "bool \<Rightarrow> peers \<Rightarrow> string \<Rightarrow> err option \<Rightarrow> db \<Rightarrow> err option \<Rightarrow> announce_row list \<Rightarrow> err + announce_message" where
  "GetAnnounceState configured p i flt1 d flt2 rows =
     attempt (announce_id_ok configured p i) (\<lambda>_.
     attempt (mapping_err MapDomainErr (LoadState i flt1 d flt2 rows)) (\<lambda>found.
       case found of
         None \<Rightarrow> Inl (Status CodeNotFound (''NetworkLoadBalancer '' @ i @ '' not found''))
       | Some st \<Rightarrow> Inr (stateToProto st)))"

fun zones_from_proto :: "zone_message list \<Rightarrow> err + announce_zone list" where
  "zones_from_proto [] = Inr []"
| "zones_from_proto (z # zs) =
     (if zm_zone z = '''' then Inl (err_invalid_arg ''zones.zone_id'' ''required'')
      else attempt (zones_from_proto zs) (\<lambda>ds. Inr (zoneFromProto z # ds)))"

definition ReportAnnounceState ::
  "bool \<Rightarrow> peers \<Rightarrow> fault \<Rightarrow> report_request \<Rightarrow> announce_db \<Rightarrow> (err + unit) \<times> announce_db" where
  "ReportAnnounceState configured p flt rq s =
     (case attempt (announce_id_ok configured p (pq_lb rq)) (\<lambda>_. zones_from_proto (pq_zones rq)) of
        Inl e \<Rightarrow> (Inl e, s)
      | Inr zs \<Rightarrow> (case ReportZones flt (pq_lb rq) zs s of (r, s') \<Rightarrow> (mapping_err MapDomainErr r, s')))"

text \<open>What the rest of the system does to the database; the rows of a load balancer go with it.\<close>

definition cascade :: "(db \<Rightarrow> db) \<Rightarrow> announce_db \<Rightarrow> announce_db" where
  "cascade f s =
     (let d = f (ad_db s) in
      \<lparr> ad_db = d, ad_rows = filter (\<lambda>r. tbl_get lb_id (d_lbs d) (zr_lb r) \<noteq> None) (ad_rows s) \<rparr>)"

datatype announce_event = AnnReport bool peers fault report_request | AnnOthers "db \<Rightarrow> db"

fun announce_step :: "announce_event \<Rightarrow> announce_db \<Rightarrow> announce_db" where
  "announce_step (AnnReport configured p flt rq) s = snd (ReportAnnounceState configured p flt rq s)"
| "announce_step (AnnOthers f) s = cascade f s"

subsection \<open>Facts\<close>

definition zm_key :: "zone_message \<Rightarrow> string \<times> ip_version_pb" where
  "zm_key z = (zm_zone z, zm_ipv z)"

definition ipv_ok :: "string \<Rightarrow> bool" where
  "ipv_ok v \<longleftrightarrow> v \<in> {'''', IPVersionV4, IPVersionV6}"

text \<open>The integrity of the table: its primary key, its foreign key, its check, and no row from the future.\<close>

definition announce_ok :: "announce_db \<Rightarrow> bool" where
  "announce_ok s \<longleftrightarrow> distinct (map zr_key (ad_rows s))
     \<and> (\<forall>r \<in> set (ad_rows s). tbl_get lb_id (d_lbs (ad_db s)) (zr_lb r) \<noteq> None \<and> ipv_ok (zn_ipv (zr_zone r))
          \<and> zr_updated r \<le> d_now (ad_db s))"

definition plain_ipv :: "ip_version_pb \<Rightarrow> ip_version_pb" where
  "plain_ipv v = (case v of IpVersion_Other n \<Rightarrow> IpVersion_UNSPECIFIED | _ \<Rightarrow> v)"

definition plain_zone :: "zone_message \<Rightarrow> zone_message" where
  "plain_zone z = z \<lparr> zm_ipv := plain_ipv (zm_ipv z) \<rparr>"

lemma ipv_neq: "IPVersionV4 \<noteq> IPVersionV6" "IPVersionV4 \<noteq> ''''" "IPVersionV6 \<noteq> ''''"
  by (simp_all add: IPVersionV4_def IPVersionV6_def)

lemma ipv_there: "announce_ipVersionToProto (announce_ipVersionFromProto v) = plain_ipv v"
  using ipv_neq by (cases v) (simp_all add: announce_ipVersionToProto_def announce_ipVersionFromProto_def plain_ipv_def)

lemma ipv_back: "ipv_ok s \<Longrightarrow> announce_ipVersionFromProto (announce_ipVersionToProto s) = s"
  by (auto simp: announce_ipVersionToProto_def announce_ipVersionFromProto_def ipv_ok_def)

lemma ipv_from_ok: "ipv_ok (announce_ipVersionFromProto v)"
  by (cases v) (simp_all add: announce_ipVersionFromProto_def ipv_ok_def)

lemma zone_there: "zoneToProto (zoneFromProto z) = plain_zone z"
  by (simp add: zoneToProto_def zoneFromProto_def ipv_there plain_zone_def)

lemma ipv_pb_iff: "ipv_ok s \<Longrightarrow> announce_ipVersionToProto s = v \<longleftrightarrow> plain_ipv v = v \<and> s = announce_ipVersionFromProto v"
  using ipv_neq
  by (cases v) (auto simp: announce_ipVersionToProto_def announce_ipVersionFromProto_def ipv_ok_def plain_ipv_def)

definition row_of :: "string \<Rightarrow> announce_db \<Rightarrow> announce_zone \<Rightarrow> announce_row" where
  "row_of lb s z = \<lparr> zr_lb = lb, zr_zone = z, zr_updated = d_now (ad_db s) \<rparr>"

lemma row_of_key [simp]: "zr_key (row_of lb s z) = (lb, zn_zone z, zn_ipv z)"
  by (simp add: row_of_def zr_key_def)

lemma row_of_parts [simp]:
  "zr_lb (row_of lb s z) = lb" "zr_zone (row_of lb s z) = z" "zr_updated (row_of lb s z) = d_now (ad_db s)"
  by (simp_all add: row_of_def)

lemma upsert_zone_cases:
  assumes "upsert_zone lb z s = Inr s'"
  obtains (old) x where "ipv_ok (zn_ipv z)" and "tbl_get zr_key (ad_rows s) (lb, zn_zone z, zn_ipv z) = Some x"
      and "s' = s \<lparr> ad_rows := tbl_upd zr_key (lb, zn_zone z, zn_ipv z) (\<lambda>_. row_of lb s z) (ad_rows s) \<rparr>"
    | (new) "ipv_ok (zn_ipv z)" and "tbl_get zr_key (ad_rows s) (lb, zn_zone z, zn_ipv z) = None"
      and "tbl_get lb_id (d_lbs (ad_db s)) lb \<noteq> None" and "s' = s \<lparr> ad_rows := ad_rows s @ [row_of lb s z] \<rparr>"
  using assms
  unfolding upsert_zone_def Let_def row_of_def [symmetric] row_of_key attempt_eq_Inr sql_guard_Inr ipv_ok_def
  by (cases "tbl_get zr_key (ad_rows s) (lb, zn_zone z, zn_ipv z)") auto

text \<open>What an upsert does to the table, read by key.\<close>

lemma upsert_zone_Inr:
  assumes "upsert_zone lb z s = Inr s'"
  shows "ad_db s' = ad_db s"
    and "tbl_get zr_key (ad_rows s') k =
      (if k = (lb, zn_zone z, zn_ipv z) then Some (row_of lb s z) else tbl_get zr_key (ad_rows s) k)"
  using assms by (auto elim!: upsert_zone_cases simp: table_simps split: option.splits)

lemma upsert_zone_ok:
  assumes "upsert_zone lb z s = Inr s'" and "announce_ok s"
  shows "announce_ok s'"
  using assms(1)
proof (cases rule: upsert_zone_cases)
  case (old x)
  from tbl_get_Some_in [OF old(2)] have "x \<in> set (ad_rows s)" "zr_lb x = lb" by (auto simp: zr_key_def)
  with old assms(2) show ?thesis
    by (auto simp: announce_ok_def tbl_upd_keys set_tbl_upd)
next
  case new
  from new(2) have "(lb, zn_zone z, zn_ipv z) \<notin> zr_key ` set (ad_rows s)" by (auto simp: tbl_get_None)
  with new assms(2) show ?thesis by (auto simp: announce_ok_def)
qed

lemma upsert_zones_Inr:
  assumes "upsert_zones lb zs s = Inr s'"
  shows "ad_db s' = ad_db s"
    and "tbl_get zr_key (ad_rows s') k =
      (case map_of (rev (map (\<lambda>z. ((lb, zn_zone z, zn_ipv z), row_of lb s z)) zs)) k of
         Some r \<Rightarrow> Some r | None \<Rightarrow> tbl_get zr_key (ad_rows s) k)"
    and "announce_ok s \<Longrightarrow> announce_ok s'"
  using assms
proof (induction zs arbitrary: s)
  case Nil
  { case 1 then show ?case by simp next case 2 then show ?case by simp next case 3 then show ?case by simp }
next
  case (Cons z zs)
  { case 1 with Cons.IH(1) show ?case by (auto simp: mapping_err_Inr upsert_zone_Inr(1)) }
  { case 2
    then obtain s1 where s1: "upsert_zone lb z s = Inr s1" "upsert_zones lb zs s1 = Inr s'"
      by (auto simp: mapping_err_Inr)
    have "row_of lb s1 = row_of lb s" by (rule ext) (simp add: row_of_def upsert_zone_Inr(1) [OF s1(1)])
    with Cons.IH(2) [OF s1(2)] upsert_zone_Inr(2) [OF s1(1)] show ?case
      by (auto simp: map_add_def map_of_append split: option.splits) }
  { case 3 with Cons.IH(3) show ?case by (auto simp: mapping_err_Inr intro: upsert_zone_ok) }
qed

lemma ReportZones_cases:
  "ReportZones flt lb zs s = (r, s') \<Longrightarrow> s' = s \<or> upsert_zones lb zs s = Inr s'"
  by (auto simp: ReportZones_def split: if_splits fault.splits sum.splits)

lemma ReportZones_Inr:
  "ReportZones flt lb zs s = (Inr u, s') \<Longrightarrow> upsert_zones lb zs s = Inr s'"
  by (auto simp: ReportZones_def split: if_splits fault.splits sum.splits)

lemma zones_from_proto_Inr:
  "zones_from_proto zs = Inr ds \<Longrightarrow> ds = map zoneFromProto zs"
  by (induction zs arbitrary: ds) (auto split: if_splits)

lemma report_step_ok: "announce_ok s \<Longrightarrow> announce_ok (snd (ReportAnnounceState configured p flt rq s))"
  by (auto simp: ReportAnnounceState_def split: sum.splits prod.splits dest!: ReportZones_cases dest: upsert_zones_Inr(3))

lemma cascade_ok: "announce_ok s \<Longrightarrow> d_now (ad_db s) \<le> d_now (f (ad_db s)) \<Longrightarrow> announce_ok (cascade f s)"
  by (auto simp: announce_ok_def cascade_def Let_def distinct_map_filter intro: order.trans)

text \<open>The answer of a read: what the message shows for a zone and a family.\<close>

definition announced :: "string \<Rightarrow> announce_row list \<Rightarrow> string \<times> ip_version_pb \<Rightarrow> zone_message option" where
  "announced lb rows k =
     (if plain_ipv (snd k) = snd k
      then map_option (zoneToProto \<circ> zr_zone) (tbl_get zr_key rows (lb, fst k, announce_ipVersionFromProto (snd k)))
      else None)"

lemma distinct_isort:
  assumes "distinct (map f xs)"
  shows "distinct (map f (isort le xs))"
proof (rule card_distinct)
  have "card (set (map f (isort le xs))) = card (set (map f xs))" by simp
  also have "\<dots> = length (map f (isort le xs))" using distinct_card [OF assms] by simp
  finally show "card (set (map f (isort le xs))) = length (map f (isort le xs))" .
qed

lemma shown_key:
  assumes "ipv_ok (zn_ipv (zr_zone r))" and "zr_lb r = lb"
  shows "zm_key (zoneToProto (zr_zone r)) = k \<longleftrightarrow>
    plain_ipv (snd k) = snd k \<and> zr_key r = (lb, fst k, announce_ipVersionFromProto (snd k))"
  using ipv_pb_iff [OF assms(1), of "snd k"] assms(2)
  by (cases k) (auto simp: zm_key_def zoneToProto_def zr_key_def)

lemma shown_rows:
  fixes lb :: string
  assumes "announce_ok s"
  defines "zs \<equiv> isort zone_before (filter (\<lambda>z. zr_lb z = lb) (ad_rows s))"
  shows "distinct (map zm_key (map (zoneToProto \<circ> zr_zone) zs))"
    and "tbl_get zm_key (map (zoneToProto \<circ> zr_zone) zs) k = announced lb (ad_rows s) k"
proof -
  have ok: "ipv_ok (zn_ipv (zr_zone r))" if "r \<in> set (ad_rows s)" for r
    using assms(1) that by (auto simp: announce_ok_def)
  have d: "distinct (map zr_key (ad_rows s))" using assms(1) by (simp add: announce_ok_def)
  have "inj_on (zm_key \<circ> zoneToProto \<circ> zr_zone) (set (filter (\<lambda>z. zr_lb z = lb) (ad_rows s)))"
  proof (rule inj_onI)
    fix a b assume ab: "a \<in> set (filter (\<lambda>z. zr_lb z = lb) (ad_rows s))" "b \<in> set (filter (\<lambda>z. zr_lb z = lb) (ad_rows s))"
      and e: "(zm_key \<circ> zoneToProto \<circ> zr_zone) a = (zm_key \<circ> zoneToProto \<circ> zr_zone) b"
    have "zr_key a = zr_key b"
      using ab e shown_key [OF ok, of a lb "zm_key (zoneToProto (zr_zone b))"]
        shown_key [OF ok, of b lb "zm_key (zoneToProto (zr_zone b))"] by auto
    with ab d show "a = b" by (auto simp: distinct_map inj_on_def)
  qed
  then have "distinct (map (zm_key \<circ> zoneToProto \<circ> zr_zone) (filter (\<lambda>z. zr_lb z = lb) (ad_rows s)))"
    using d by (simp add: distinct_map)
  from distinct_isort [OF this, of zone_before]
  show dz: "distinct (map zm_key (map (zoneToProto \<circ> zr_zone) zs))" by (simp add: zs_def comp_assoc)
  let ?K = "(lb, fst k, announce_ipVersionFromProto (snd k))"
  have "tbl_get zm_key (map (zoneToProto \<circ> zr_zone) zs) k = Some z \<longleftrightarrow> announced lb (ad_rows s) k = Some z" for z
  proof -
    have "tbl_get zm_key (map (zoneToProto \<circ> zr_zone) zs) k = Some z \<longleftrightarrow>
        (\<exists>r \<in> set (ad_rows s). zr_lb r = lb \<and> z = zoneToProto (zr_zone r) \<and> zm_key (zoneToProto (zr_zone r)) = k)"
      unfolding tbl_get_distinct [OF dz] by (auto simp: zs_def)
    also have "\<dots> \<longleftrightarrow> (\<exists>r \<in> set (ad_rows s). zr_key r = ?K \<and> z = zoneToProto (zr_zone r) \<and> plain_ipv (snd k) = snd k)"
      by (rule bex_cong) (use shown_key [OF ok, of _ lb k] in \<open>auto simp: zr_key_def\<close>)
    also have "\<dots> \<longleftrightarrow> announced lb (ad_rows s) k = Some z"
      unfolding announced_def using tbl_get_distinct [OF d, of ?K] by auto
    finally show ?thesis .
  qed
  then show "tbl_get zm_key (map (zoneToProto \<circ> zr_zone) zs) k = announced lb (ad_rows s) k"
    by (metis option.exhaust)
qed

lemma latest_now:
  assumes "\<forall>r \<in> set rs. zr_updated r \<le> n"
  shows "latest (Some n) rs = Some n"
    and "m = None \<or> (\<exists>t \<le> n. m = Some t) \<Longrightarrow> \<exists>r \<in> set rs. zr_updated r = n \<Longrightarrow> latest m rs = Some n"
proof -
  show a: "latest (Some n) rs = Some n" using assms by (induction rs) auto
  show "latest m rs = Some n" if "m = None \<or> (\<exists>t \<le> n. m = Some t)" "\<exists>r \<in> set rs. zr_updated r = n"
    using assms that
  proof (induction rs arbitrary: m)
    case (Cons r rs)
    let ?m = "case m of None \<Rightarrow> Some (zr_updated r) | Some t \<Rightarrow> Some (if t < zr_updated r then zr_updated r else t)"
    have le: "\<exists>t \<le> n. ?m = Some t" using Cons.prems by (auto split: option.splits)
    show ?case
    proof (cases "\<exists>r \<in> set rs. zr_updated r = n")
      case True
      with Cons.IH [of ?m] Cons.prems(1) le show ?thesis by simp
    next
      case False
      with Cons.prems have "zr_updated r = n" by auto
      with Cons.prems have "?m = Some n" by (auto split: option.splits)
      moreover have "latest (Some n) rs = Some n" using Cons.prems(1) by (induction rs) auto
      ultimately show ?thesis by simp
    qed
  qed simp
qed

lemma GetAnnounceState_eq:
  assumes "announce_ok s" and "announce_id_ok configured p i = Inr ()" and "tbl_get lb_id (d_lbs (ad_db s)) i = Some r"
  shows "\<exists>m. GetAnnounceState configured p i None (ad_db s) None (ad_rows s) = Inr m
    \<and> am_lb m = i \<and> am_v4 m = lb_addr_v4 r \<and> am_v6 m = lb_addr_v6 r
    \<and> am_observed m = latest None (isort zone_before (filter (\<lambda>z. zr_lb z = i) (ad_rows s)))
    \<and> distinct (map zm_key (am_zones m)) \<and> (\<forall>k. tbl_get zm_key (am_zones m) k = announced i (ad_rows s) k)"
  using assms shown_rows [OF assms(1), of i]
  by (simp add: GetAnnounceState_def LoadState_def Let_def stateToProto_def)

lemma map_of_rev_find:
  assumes "\<And>z. P z \<longleftrightarrow> K = kf z"
  shows "map_of (rev (map (\<lambda>z. (kf z, g z)) zs)) K = map_option g (find P (rev zs))"
  by (induction zs rule: rev_induct) (simp_all add: assms)

lemma announced_rows:
  assumes "upsert_zones lb (map zoneFromProto zs) s = Inr s'"
  shows "announced lb (ad_rows s') k =
    (case map_of (rev (map (\<lambda>z. (zm_key (plain_zone z), plain_zone z)) zs)) k of
       Some z \<Rightarrow> Some z | None \<Rightarrow> announced lb (ad_rows s) k)"
proof (cases "plain_ipv (snd k) = snd k")
  case True
  let ?K = "(lb, fst k, announce_ipVersionFromProto (snd k))"
  have inj: "announce_ipVersionFromProto (zm_ipv z) = announce_ipVersionFromProto (snd k) \<longleftrightarrow> plain_ipv (zm_ipv z) = snd k" for z
    using True ipv_there [of "zm_ipv z"] ipv_there [of "snd k"] by (metis ipv_from_ok ipv_pb_iff)
  have "map_of (rev (map (\<lambda>z. ((lb, zn_zone (zoneFromProto z), zn_ipv (zoneFromProto z)), row_of lb s (zoneFromProto z))) zs)) ?K
      = map_option (\<lambda>z. row_of lb s (zoneFromProto z)) (find (\<lambda>z. k = zm_key (plain_zone z)) (rev zs))"
    by (rule map_of_rev_find) (cases k, use inj in \<open>force simp: zoneFromProto_def zm_key_def plain_zone_def\<close>)
  moreover have "map_of (rev (map (\<lambda>z. (zm_key (plain_zone z), plain_zone z)) zs)) k
      = map_option plain_zone (find (\<lambda>z. k = zm_key (plain_zone z)) (rev zs))"
    by (rule map_of_rev_find) simp
  ultimately show ?thesis
    using True upsert_zones_Inr(2) [OF assms, of ?K]
    by (auto simp: announced_def comp_def zone_there split: option.splits)
next
  case False
  have "map_of (rev (map (\<lambda>z. (zm_key (plain_zone z), plain_zone z)) zs)) k = None"
    using False by (auto simp: map_of_eq_None_iff zm_key_def plain_zone_def plain_ipv_def split: ip_version_pb.splits)
  with False show ?thesis by (simp add: announced_def)
qed

lemma upsert_zones_lb:
  assumes "upsert_zones lb zs s = Inr s'" and "zs \<noteq> []" and "announce_ok s"
  shows "\<exists>r. tbl_get lb_id (d_lbs (ad_db s')) lb = Some r" and "\<exists>r \<in> set (ad_rows s'). zr_lb r = lb \<and> zr_updated r = d_now (ad_db s)"
proof -
  let ?z = "last zs"
  have "map_of (rev (map (\<lambda>z. ((lb, zn_zone z, zn_ipv z), row_of lb s z)) zs)) (lb, zn_zone ?z, zn_ipv ?z) = Some (row_of lb s ?z)"
    using assms(2) by (cases zs rule: rev_cases) auto
  with upsert_zones_Inr(2) [OF assms(1), of "(lb, zn_zone ?z, zn_ipv ?z)"]
  have r: "row_of lb s ?z \<in> set (ad_rows s')" by (auto dest: tbl_get_Some_in)
  then show "\<exists>r \<in> set (ad_rows s'). zr_lb r = lb \<and> zr_updated r = d_now (ad_db s)" by force
  from r upsert_zones_Inr(3) [OF assms(1,3)] show "\<exists>r. tbl_get lb_id (d_lbs (ad_db s')) lb = Some r"
    by (auto simp: announce_ok_def)
qed

subsection \<open>Properties\<close>

text \<open>C25: the table of announcements stays sound whatever reports come, with whatever failures of the database, and
  whatever the rest of the system does in between: one row for a zone and a family, no row without its load
  balancer, only the two families or none, and no row from the future.
\<close>

theorem announce_integrity:
  assumes "announce_ok s" and "\<And>f d. AnnOthers f \<in> set es \<Longrightarrow> d_now d \<le> d_now (f d)"
  shows "announce_ok (fold announce_step es s)"
  using assms
proof (induction es arbitrary: s)
  case (Cons e es)
  have "announce_ok (announce_step e s)"
    using Cons.prems by (cases e) (auto intro: report_step_ok cascade_ok)
  with Cons show ?case by simp
qed simp

text \<open>C26: what was reported is what is read. After an accepted report that names zones, a read finds for every zone and
  family the last thing the report says of it, and what was there before where the report says nothing; it is
  observed now. Families without a name are read as unspecified.
\<close>

theorem report_then_get:
  assumes "announce_ok s" and "ReportAnnounceState configured p flt rq s = (Inr (), s')" and "pq_zones rq \<noteq> []"
  shows "\<exists>m. GetAnnounceState configured p (pq_lb rq) None (ad_db s') None (ad_rows s') = Inr m
    \<and> am_lb m = pq_lb rq \<and> am_observed m = Some (d_now (ad_db s)) \<and> distinct (map zm_key (am_zones m))
    \<and> (\<forall>k. tbl_get zm_key (am_zones m) k =
         (case map_of (rev (map (\<lambda>z. (zm_key (plain_zone z), plain_zone z)) (pq_zones rq))) k of
            Some z \<Rightarrow> Some z | None \<Rightarrow> announced (pq_lb rq) (ad_rows s) k))"
proof -
  let ?lb = "pq_lb rq"
  let ?zs = "map zoneFromProto (pq_zones rq)"
  from assms(2) have id: "announce_id_ok configured p ?lb = Inr ()" and up: "upsert_zones ?lb ?zs s = Inr s'"
    by (auto simp: ReportAnnounceState_def split: sum.splits prod.splits dest!: ReportZones_Inr zones_from_proto_Inr)
  have ne: "?zs \<noteq> []" using assms(3) by simp
  note ok = upsert_zones_Inr(3) [OF up assms(1)]
  obtain r where r: "tbl_get lb_id (d_lbs (ad_db s')) ?lb = Some r" using upsert_zones_lb(1) [OF up ne assms(1)] by blast
  have "latest None (isort zone_before (filter (\<lambda>z. zr_lb z = ?lb) (ad_rows s'))) = Some (d_now (ad_db s))"
  proof (rule latest_now(2))
    show "\<forall>r \<in> set (isort zone_before (filter (\<lambda>z. zr_lb z = ?lb) (ad_rows s'))). zr_updated r \<le> d_now (ad_db s)"
      using ok upsert_zones_Inr(1) [OF up] by (auto simp: announce_ok_def)
  qed (use upsert_zones_lb(2) [OF up ne assms(1)] in auto)
  with GetAnnounceState_eq [OF ok id r] announced_rows [OF up] show ?thesis by auto
qed

definition bgp_zone :: "string \<Rightarrow> ip_version_pb \<Rightarrow> bool \<Rightarrow> zone_message" where
  "bgp_zone z v up = \<lparr> zm_zone = z, zm_ipv = v, zm_bgp = up, zm_route = ''r1'', zm_vrf = ''vrf1'', zm_kernel = up, zm_infra = 7 \<rparr>"

definition sample_report :: report_request where
  "sample_report = \<lparr> pq_lb = ''nlb1'', pq_zones =
     [bgp_zone ''z2'' IpVersion_IPV4 True, bgp_zone ''z1'' IpVersion_IPV4 False, bgp_zone ''z1'' IpVersion_IPV4 True] \<rparr>"

definition sample_announcements :: announce_db where
  "sample_announcements = \<lparr> ad_db = sample_db, ad_rows = [] \<rparr>"

definition told :: "(err + unit) \<times> announce_db" where
  "told = ReportAnnounceState True sample_peers NoFault sample_report sample_announcements"

lemma sample_announcements_ok: "announce_ok sample_announcements"
  by (simp add: announce_ok_def sample_announcements_def)

theorem announce_integrity_witness:
  "announce_ok (fold announce_step
     [AnnReport True sample_peers NoFault sample_report, AnnOthers (\<lambda>d. d \<lparr> d_lbs := [] \<rparr>)] sample_announcements)
   \<and> length (ad_rows (snd told)) = 2
   \<and> ad_rows (cascade (\<lambda>d. d \<lparr> d_lbs := [] \<rparr>) (snd told)) = []"
proof -
  have "announce_ok (fold announce_step
     [AnnReport True sample_peers NoFault sample_report, AnnOthers (\<lambda>d. d \<lparr> d_lbs := [] \<rparr>)] sample_announcements)"
    by (rule announce_integrity [OF sample_announcements_ok]) auto
  moreover have "length (ad_rows (snd told)) = 2" by code_simp
  moreover have "ad_rows (cascade (\<lambda>d. d \<lparr> d_lbs := [] \<rparr>) (snd told)) = []" by code_simp
  ultimately show ?thesis by simp
qed

theorem report_then_get_witness:
  "\<exists>m. GetAnnounceState True sample_peers ''nlb1'' None (ad_db (snd told)) None (ad_rows (snd told)) = Inr m
    \<and> tbl_get zm_key (am_zones m) (''z1'', IpVersion_IPV4) = Some (bgp_zone ''z1'' IpVersion_IPV4 True)
    \<and> am_observed m = Some (d_now sample_db)"
proof -
  have t: "ReportAnnounceState True sample_peers NoFault sample_report sample_announcements = (Inr (), snd told)"
    by code_simp
  have k: "map_of (rev (map (\<lambda>z. (zm_key (plain_zone z), plain_zone z)) (pq_zones sample_report))) (''z1'', IpVersion_IPV4)
      = Some (bgp_zone ''z1'' IpVersion_IPV4 True)"
    by code_simp
  have "pq_zones sample_report \<noteq> []" "pq_lb sample_report = ''nlb1''" "ad_db sample_announcements = sample_db"
    by (simp_all add: sample_report_def sample_announcements_def)
  with report_then_get [OF sample_announcements_ok t] k show ?thesis
    by (metis (no_types, lifting) option.case(2))
qed

end
