(* ===== verification/Go_Text.thy ===== *)
theory Go_Text
  imports Net_Addr
begin

text \<open>
  The functions on text that the configuration uses, from the standard library of Go (packages
  \<^verbatim>\<open>strings\<close> and \<^verbatim>\<open>net/url\<close>). Case and white space are those of ASCII. Of \<^verbatim>\<open>url.Parse\<close> (release 1.26, which
  refuses a colon in a host name) the scheme, the host, the raw query and every way to fail are kept.
\<close>

subsection \<open>Package strings\<close>

definition is_space :: "char \<Rightarrow> bool" where
  "is_space c \<longleftrightarrow> c = CHR '' '' \<or> 9 \<le> (of_char c :: nat) \<and> (of_char c :: nat) \<le> 13"

definition TrimSpace :: "string \<Rightarrow> string" where
  "TrimSpace s = rev (dropWhile is_space (rev (dropWhile is_space s)))"

definition ToLower :: "string \<Rightarrow> string" where
  "ToLower s = map to_lower s"

definition to_upper :: "char \<Rightarrow> char" where
  "to_upper c = (if of_char c \<ge> (97::nat) \<and> of_char c \<le> (122::nat) then char_of (of_char c - (32::nat)) else c)"

definition ToUpper :: "string \<Rightarrow> string" where
  "ToUpper s = map to_upper s"

definition EqualFold :: "string \<Rightarrow> string \<Rightarrow> bool" where
  "EqualFold a b \<longleftrightarrow> ToLower a = ToLower b"

text \<open>\<^verbatim>\<open>Cut\<close> at a character: what is before it, what is after it, and whether it is there.\<close>

definition Cut :: "string \<Rightarrow> char \<Rightarrow> string \<times> string \<times> bool" where
  "Cut s c = (takeWhile (\<lambda>x. x \<noteq> c) s, drop 1 (dropWhile (\<lambda>x. x \<noteq> c) s), c \<in> set s)"

definition HasPrefix :: "string \<Rightarrow> string \<Rightarrow> bool" where
  "HasPrefix s p \<longleftrightarrow> take (length p) s = p"

definition HasSuffix :: "string \<Rightarrow> string \<Rightarrow> bool" where
  "HasSuffix s p \<longleftrightarrow> length p \<le> length s \<and> drop (length s - length p) s = p"

text \<open>\<^verbatim>\<open>Fields\<close>; the first argument collects the current word in reverse.\<close>

fun fields_from :: "string \<Rightarrow> string \<Rightarrow> string list" where
  "fields_from acc [] = (if acc = [] then [] else [rev acc])"
| "fields_from acc (c # cs) =
     (if is_space c then (if acc = [] then [] else [rev acc]) @ fields_from [] cs
      else fields_from (c # acc) cs)"

definition Fields :: "string \<Rightarrow> string list" where
  "Fields s = fields_from [] s"

text \<open>\<^verbatim>\<open>ReplaceAll\<close> of a text that is not empty.\<close>

function ReplaceAll :: "string \<Rightarrow> string \<Rightarrow> string \<Rightarrow> string" where
  "ReplaceAll s old new =
     (if s = [] then []
      else if old \<noteq> [] \<and> HasPrefix s old then new @ ReplaceAll (drop (length old) s) old new
      else hd s # ReplaceAll (tl s) old new)"
  by pat_completeness auto
termination by (relation "measure (\<lambda>(s, old, new). length s)") (auto simp: Suc_le_eq)

declare ReplaceAll.simps [simp del]

subsection \<open>Package net/url\<close>

record url =
  url_scheme :: string
  url_host :: string
  url_query :: string

fun scheme_from :: "string \<Rightarrow> string \<Rightarrow> (string \<times> string) option" where
  "scheme_from before [] = Some ('''', rev before)"
| "scheme_from before (c # cs) =
     (if lower_letter c \<or> upper_letter c then scheme_from (c # before) cs
      else if digit c \<or> c \<in> set ''+-.''
      then (if before = [] then Some ('''', c # cs) else scheme_from (c # before) cs)
      else if c = CHR '':'' then (if before = [] then None else Some (rev before, cs))
      else Some ('''', rev before @ c # cs))"

text \<open>\<^verbatim>\<open>getScheme\<close>: the scheme and the rest; no scheme when another character comes before the colon.\<close>

definition getScheme :: "string \<Rightarrow> (string \<times> string) option" where
  "getScheme s = scheme_from [] s"

definition validOptionalPort :: "string \<Rightarrow> bool" where
  "validOptionalPort p \<longleftrightarrow> p = [] \<or> hd p = CHR '':'' \<and> list_all (\<lambda>c. digit c) (tl p)"

definition host_char :: "char \<Rightarrow> bool" where
  "host_char c \<longleftrightarrow> lower_letter c \<or> upper_letter c \<or> digit c
     \<or> c \<in> set ''!$&()*+,;=:[]<>-_.~'' \<or> c = CHR 0x27 \<or> c = CHR 0x22 \<or> of_char c \<ge> (128 :: nat)"

text \<open>\<^verbatim>\<open>unescape\<close>: \<open>ok\<close> says which plain characters and which escapes are allowed; in a query a plus is a
  space.\<close>

definition hex_pair :: "char \<Rightarrow> char \<Rightarrow> nat option" where
  "hex_pair a b = (case (hex_val a, hex_val b) of (Some x, Some y) \<Rightarrow> Some (16 * x + y) | _ \<Rightarrow> None)"

fun unescape :: "(char \<Rightarrow> bool) \<Rightarrow> (nat \<Rightarrow> bool) \<Rightarrow> bool \<Rightarrow> string \<Rightarrow> string option" where
  "unescape plain esc in_query [] = Some []"
| "unescape plain esc in_query (c # cs) =
     (if c = CHR ''%'' then
        (case cs of
           a # b # rest \<Rightarrow> (case hex_pair a b of
               None \<Rightarrow> None
             | Some v \<Rightarrow> if esc v then map_option (Cons (char_of v)) (unescape plain esc in_query rest) else None)
         | _ \<Rightarrow> None)
      else if plain c
      then map_option (Cons (if in_query \<and> c = CHR ''+'' then CHR '' '' else c)) (unescape plain esc in_query cs)
      else None)"

definition unescape_any :: "string \<Rightarrow> string option" where
  "unescape_any s = unescape (\<lambda>c. True) (\<lambda>v. True) False s"

definition QueryUnescape :: "string \<Rightarrow> string option" where
  "QueryUnescape s = unescape (\<lambda>c. True) (\<lambda>v. True) True s"

definition unescape_host :: "string \<Rightarrow> string option" where
  "unescape_host s = unescape host_char (\<lambda>v. v = 37 \<or> v \<ge> 128) False s"

text \<open>In the zone of an IPv6 literal an escape may stand for a space or a character of a host.\<close>

definition unescape_zone :: "string \<Rightarrow> string option" where
  "unescape_zone s = unescape host_char (\<lambda>v. v = 37 \<or> v = 32 \<or> host_char (char_of v)) False s"

text \<open>Around the last occurrence of a character.\<close>

definition last_cut :: "string \<Rightarrow> char \<Rightarrow> (string \<times> string) option" where
  "last_cut s c =
     (if c \<in> set s
      then Some (rev (drop 1 (dropWhile (\<lambda>x. x \<noteq> c) (rev s))), rev (takeWhile (\<lambda>x. x \<noteq> c) (rev s)))
      else None)"

fun index_of :: "string \<Rightarrow> string \<Rightarrow> nat option" where
  "index_of p [] = (if p = [] then Some 0 else None)"
| "index_of p (c # cs) = (if HasPrefix (c # cs) p then Some 0 else map_option Suc (index_of p cs))"

text \<open>The host: an IPv6 literal in brackets, perhaps with a zone, or a name; then a port.\<close>

definition parseHost :: "string \<Rightarrow> string option" where
  "parseHost host =
     (if CHR ''['' \<in> set host then
        if \<not> HasPrefix host ''['' \<or> CHR ''['' \<in> set (tl host) then None
        else (case last_cut (tl host) (CHR '']'') of
           None \<Rightarrow> None
         | Some (name, port) \<Rightarrow>
             if \<not> validOptionalPort port then None
             else (case (case index_of ''%25'' name of
                 None \<Rightarrow> unescape_host name
               | Some k \<Rightarrow> (case (unescape_host (take k name), unescape_zone (drop k name)) of
                   (Some a, Some b) \<Rightarrow> Some (a @ b) | _ \<Rightarrow> None)) of
                 None \<Rightarrow> None
               | Some literal \<Rightarrow> (case (ParseAddr literal, unescape_host port) of
                     (Some (Addr6 b z), Some port) \<Rightarrow> Some (''['' @ literal @ '']'' @ port) | _ \<Rightarrow> None)))
      else (case last_cut host (CHR '':'') of
        None \<Rightarrow> unescape_host host
      | Some (name, port) \<Rightarrow>
          if CHR '':'' \<notin> set name \<and> validOptionalPort ('':'' @ port) then unescape_host host else None))"

definition userinfo_char :: "char \<Rightarrow> bool" where
  "userinfo_char c \<longleftrightarrow> lower_letter c \<or> upper_letter c \<or> digit c
     \<or> c \<in> set ''-._:~!$&()*+,;=%@'' \<or> c = CHR 0x27"

definition parseAuthority :: "string \<Rightarrow> string option" where
  "parseAuthority authority =
     (case last_cut authority (CHR ''@'') of
        None \<Rightarrow> parseHost authority
      | Some (userinfo, rest) \<Rightarrow>
          (case parseHost rest of
             None \<Rightarrow> None
           | Some host \<Rightarrow>
               if \<not> list_all userinfo_char userinfo then None
               else (case Cut userinfo (CHR '':'') of (name, password, _) \<Rightarrow>
                 if unescape_any name = None \<or> unescape_any password = None then None else Some host)))"

definition parse_url :: "string \<Rightarrow> url option" where
  "parse_url s =
     (if list_ex (\<lambda>c. of_char c < (32 :: nat) \<or> of_char c = (127 :: nat)) s then None
      else if s = ''*'' then Some \<lparr> url_scheme = '''', url_host = '''', url_query = '''' \<rparr>
      else case getScheme s of
        None \<Rightarrow> None
      | Some (scheme, rest) \<Rightarrow>
          let scheme = ToLower scheme;
              (rest, query) = (if HasSuffix rest ''?'' \<and> length (filter (\<lambda>c. c = CHR ''?'') rest) = 1
                 then (butlast rest, '''') else (case Cut rest (CHR ''?'') of (a, b, _) \<Rightarrow> (a, b))) in
          if \<not> HasPrefix rest ''/'' \<and> scheme \<noteq> ''''
          then Some \<lparr> url_scheme = scheme, url_host = '''', url_query = query \<rparr>
          else if \<not> HasPrefix rest ''/'' \<and> CHR '':'' \<in> set (fst (Cut rest (CHR ''/''))) then None
          else if (scheme \<noteq> '''' \<or> \<not> HasPrefix rest ''///'') \<and> HasPrefix rest ''//''
          then (let authority = takeWhile (\<lambda>c. c \<noteq> CHR ''/'') (drop 2 rest);
                    path = dropWhile (\<lambda>c. c \<noteq> CHR ''/'') (drop 2 rest) in
                case parseAuthority authority of
                  None \<Rightarrow> None
                | Some host \<Rightarrow> if unescape_any path = None then None
                    else Some \<lparr> url_scheme = scheme, url_host = host, url_query = query \<rparr>)
          else if unescape_any rest = None then None
          else Some \<lparr> url_scheme = scheme, url_host = '''', url_query = query \<rparr>)"

text \<open>\<^verbatim>\<open>url.Parse\<close>: the fragment is cut off first, and must unescape.\<close>

definition url_Parse :: "string \<Rightarrow> url option" where
  "url_Parse s =
     (case Cut s (CHR ''#'') of (u, frag, _) \<Rightarrow>
        (case parse_url u of
           None \<Rightarrow> None
         | Some r \<Rightarrow> if frag \<noteq> '''' \<and> unescape_any frag = None then None else Some r))"

text \<open>\<^verbatim>\<open>Query\<close>: the pairs in order; what does not parse is left out.\<close>

lemma rest_shorter: "s \<noteq> [] \<Longrightarrow> length (drop 1 (dropWhile P s)) < length s"
  using length_dropWhile_le [of P s] by (cases s) (simp_all del: length_dropWhile_le, linarith?)

function split_amp :: "string \<Rightarrow> string list" where
  "split_amp s = (if s = [] then [] else case Cut s (CHR ''&'') of (k, rest, _) \<Rightarrow> k # split_amp rest)"
  by pat_completeness auto
termination
  by (relation "measure length") (use rest_shorter in \<open>auto simp: Cut_def\<close>)

declare split_amp.simps [simp del]

definition query_pair :: "string \<Rightarrow> (string \<times> string) option" where
  "query_pair kv =
     (if kv = '''' \<or> CHR '';'' \<in> set kv then None
      else case Cut kv (CHR ''='') of (k, v, _) \<Rightarrow>
        (case (QueryUnescape k, QueryUnescape v) of (Some k, Some v) \<Rightarrow> Some (k, v) | _ \<Rightarrow> None))"

definition url_Query :: "url \<Rightarrow> (string \<times> string) list" where
  "url_Query u = List.map_filter query_pair (split_amp (url_query u))"

end
