(* ===== verification/Config.thy ===== *)
theory Config
  imports Go_Text Authz_Filter
begin

text \<open>
  The configuration (\<^verbatim>\<open>internal/apps/kacho/config\<close>): its sections, the defaults, loading and the
  validation that refuses an unsafe production configuration. Durations are in nanoseconds. Of the
  transport settings that belong to the shared library only \<^verbatim>\<open>Enable\<close> is read. The reader of the
  file and of the environment (a library) is a parameter that turns the defaults into a configuration.
\<close>

subsection \<open>The sections\<close>

record logger_config = lg_level :: string

record api_server_config =
  as_endpoint :: string
  as_internal_endpoint :: string
  as_graceful_shutdown :: int
  as_grpc_gateway :: bool

record metrics_config =
  mt_enable :: bool
  mt_address :: string

record healthcheck_config = hc_check_enable :: bool

record postgres_config =
  pg_url :: string
  pg_max_conns :: int32
  pg_conn_lifetime :: int
  pg_slave_url :: string
  pg_password_from_env :: string

record repository_config =
  rp_type :: string
  rp_postgres :: postgres_config

record authn_client_config =
  ac_verify :: string
  ac_ca_files :: "string list"

record authn_tls_config =
  ak_key_file :: string
  ak_cert_file :: string
  ak_client :: authn_client_config

record authn_config =
  an_type :: string
  an_tls :: authn_tls_config

record extapi_endpoint =
  ee_addr :: string
  ee_internal_addr :: string
  ee_dial_duration :: int
  ee_tls :: bool

record extapi_config =
  ea_def_dial_duration :: int
  ea_vpc :: extapi_endpoint
  ea_compute :: extapi_endpoint
  ea_iam :: extapi_endpoint
  ea_geo :: extapi_endpoint

record list_filter_config =
  lf_enabled :: bool
  lf_timeout :: int
  lf_cache_ttl :: int
  lf_cache_max_entries :: int
  lf_fail_open :: bool

record authz_iam_config =
  ia_addr :: string
  ia_dial_deadline :: int
  ia_request_timeout :: int

record authz_cache_config =
  ca_enable :: bool
  ca_ttl :: int

record listen_invalidator_config =
  li_enable :: bool
  li_channel :: string
  li_iam_dsn :: string

record authz_config =
  az_iam :: authz_iam_config
  az_cache :: authz_cache_config
  az_listen_invalidator :: listen_invalidator_config
  az_list_filter :: list_filter_config
  az_breakglass :: bool
  az_trusted_forwarders :: "string list"

record register_drainer_config =
  rd_enable :: bool
  rd_batch_size :: int
  rd_poll_fallback :: int
  rd_max_attempts :: int
  rd_backoff_min :: int
  rd_backoff_max :: int

record fga_config =
  fa_register_drainer :: register_drainer_config
  fa_require_iam :: bool

record mtls_config =
  ml_server :: bool
  ml_iam_register :: bool
  ml_iam_project :: bool
  ml_vpc :: bool
  ml_compute :: bool
  ml_geo :: bool

record target_drain_config = td_interval :: int

record free_ip_config =
  fr_interval :: int
  fr_age_threshold :: int

record jobs_config =
  jb_target_drain :: target_drain_config
  jb_free_ip :: free_ip_config

record internal_lifecycle_config = il_max_streams :: int

record config =
  cf_mode_raw :: string
  cf_logger :: logger_config
  cf_api_server :: api_server_config
  cf_metrics :: metrics_config
  cf_healthcheck :: healthcheck_config
  cf_repository :: repository_config
  cf_authn :: authn_config
  cf_extapi :: extapi_config
  cf_authz :: authz_config
  cf_fga :: fga_config
  cf_mtls :: mtls_config
  cf_jobs :: jobs_config
  cf_internal_lifecycle :: internal_lifecycle_config

subsection \<open>Defaults\<close>

definition second :: int where "second = 1000000000"

definition default_endpoint :: extapi_endpoint where
  "default_endpoint = \<lparr> ee_addr = '''', ee_internal_addr = '''', ee_dial_duration = 0, ee_tls = False \<rparr>"

definition RegisterDefaults :: config where
  "RegisterDefaults =
     \<lparr> cf_mode_raw = ''production'',
       cf_logger = \<lparr> lg_level = ''DEBUG'' \<rparr>,
       cf_api_server = \<lparr> as_endpoint = ''tcp://0.0.0.0:9090'', as_internal_endpoint = ''tcp://0.0.0.0:9091'',
         as_graceful_shutdown = 10 * second, as_grpc_gateway = False \<rparr>,
       cf_metrics = \<lparr> mt_enable = True, mt_address = '':9101'' \<rparr>,
       cf_healthcheck = \<lparr> hc_check_enable = True \<rparr>,
       cf_repository = \<lparr> rp_type = ''POSTGRES'', rp_postgres = \<lparr> pg_url = '''', pg_max_conns = 0,
         pg_conn_lifetime = 0, pg_slave_url = '''', pg_password_from_env = '''' \<rparr> \<rparr>,
       cf_authn = \<lparr> an_type = ''none'', an_tls = \<lparr> ak_key_file = '''', ak_cert_file = '''',
         ak_client = \<lparr> ac_verify = ''skip'', ac_ca_files = [] \<rparr> \<rparr> \<rparr>,
       cf_extapi = \<lparr> ea_def_dial_duration = 10 * second, ea_vpc = default_endpoint,
         ea_compute = default_endpoint, ea_iam = default_endpoint, ea_geo = default_endpoint \<rparr>,
       cf_authz = \<lparr>
         az_iam = \<lparr> ia_addr = '''', ia_dial_deadline = 3 * second, ia_request_timeout = 500 * 1000000 \<rparr>,
         az_cache = \<lparr> ca_enable = True, ca_ttl = 5 * second \<rparr>,
         az_listen_invalidator = \<lparr> li_enable = False, li_channel = ''kacho_iam_subjects'', li_iam_dsn = '''' \<rparr>,
         az_list_filter = \<lparr> lf_enabled = True, lf_timeout = 500 * 1000000, lf_cache_ttl = 5 * second,
           lf_cache_max_entries = 10000, lf_fail_open = False \<rparr>,
         az_breakglass = False, az_trusted_forwarders = [] \<rparr>,
       cf_fga = \<lparr> fa_register_drainer = \<lparr> rd_enable = True, rd_batch_size = 32, rd_poll_fallback = 30 * second,
         rd_max_attempts = 10, rd_backoff_min = 1 * second, rd_backoff_max = 30 * second \<rparr>,
         fa_require_iam = False \<rparr>,
       cf_mtls = \<lparr> ml_server = False, ml_iam_register = False, ml_iam_project = False, ml_vpc = False,
         ml_compute = False, ml_geo = False \<rparr>,
       cf_jobs = \<lparr> jb_target_drain = \<lparr> td_interval = 10 * second \<rparr>,
         jb_free_ip = \<lparr> fr_interval = 30 * second, fr_age_threshold = 300 * second \<rparr> \<rparr>,
       cf_internal_lifecycle = \<lparr> il_max_streams = 32 \<rparr> \<rparr>"

subsection \<open>Mode\<close>

datatype mode = ModeDev | ModeProduction

definition mode_String :: "mode option \<Rightarrow> string" where
  "mode_String m = (case m of Some ModeDev \<Rightarrow> ''dev'' | Some ModeProduction \<Rightarrow> ''production'' | None \<Rightarrow> ''unknown'')"

text \<open>\<open>None\<close> is an unknown mode: an error, and the value that is neither.\<close>

definition ParseMode :: "string \<Rightarrow> mode option" where
  "ParseMode s =
     (let m = ToLower (TrimSpace s) in
      if m \<in> {''dev'', ''development''} then Some ModeDev
      else if m \<in> {'''', ''production'', ''prod''} then Some ModeProduction
      else None)"

definition Mode :: "config \<Rightarrow> mode option" where
  "Mode c = ParseMode (cf_mode_raw c)"

subsection \<open>Validation\<close>

text \<open>One constructor for each complaint; the texts are only printed.\<close>

datatype config_error =
  BadMode
| BadLogLevel
| EndpointRequired string
| EndpointUnparsable string
| EndpointScheme string
| EndpointHost string
| EndpointPort string
| BadGracefulShutdown
| RepositoryTypeEmpty
| RepositoryTypeUnknown
| PostgresUrlRequired
| BadMaxConns
| AuthnFilesRequired
| BadAuthnType
| IamAddrRequired
| BreakglassForbidden
| DeadAuthnTls
| InsecureServer
| InsecureAuthzEdge
| InsecurePeer string
| ListFilterRequired
| FailOpenForbidden
| ForwardersRequired
| InsecurePostgres
| BadDrainInterval
| BadFreeIPInterval
| BadAgeThreshold
| BadMaxStreams
| BadFile

definition validLogLevels :: "string list" where
  "validLogLevels = [''FATAL'', ''ERROR'', ''WARN'', ''INFO'', ''DEBUG'']"

definition complain :: "config_error \<Rightarrow> bool \<Rightarrow> config_error list" where
  "complain e b = (if b then [e] else [])"

definition validateEndpoint :: "string \<Rightarrow> string \<Rightarrow> config_error list" where
  "validateEndpoint field raw =
     (let raw = TrimSpace raw in
      if raw = '''' then [EndpointRequired field]
      else case url_Parse raw of
        None \<Rightarrow> [EndpointUnparsable field]
      | Some u \<Rightarrow>
          if url_scheme u \<noteq> ''tcp'' then [EndpointScheme field]
          else if url_host u = '''' then [EndpointHost field]
          else if CHR '':'' \<notin> set (url_host u) then [EndpointPort field]
          else [])"

text \<open>The mode of a keyword string: the value of the first word whose key is \<^verbatim>\<open>sslmode\<close>.\<close>

fun keyword_sslmode :: "string list \<Rightarrow> string" where
  "keyword_sslmode [] = ''''"
| "keyword_sslmode (t # ts) =
     (case Cut t (CHR ''='') of (k, v, found) \<Rightarrow>
        if found \<and> EqualFold (TrimSpace k) ''sslmode'' then v else keyword_sslmode ts)"

definition postgresSSLSecure :: "string \<Rightarrow> bool" where
  "postgresSSLSecure dsn =
     (let mode = (case url_Parse dsn of
          Some u \<Rightarrow> (case map_of (url_Query u) ''sslmode'' of
              Some m \<Rightarrow> m | None \<Rightarrow> keyword_sslmode (Fields dsn))
        | None \<Rightarrow> keyword_sslmode (Fields dsn)) in
      ToLower (TrimSpace mode) \<in> {''require'', ''verify-ca'', ''verify-full''})"

record peer_edge =
  pe_name :: string
  pe_addr :: string
  pe_secure :: bool

definition edge_addr :: "extapi_endpoint \<Rightarrow> string" where
  "edge_addr e = (if TrimSpace (ee_addr e) \<noteq> '''' then TrimSpace (ee_addr e) else TrimSpace (ee_internal_addr e))"

definition peerEdges :: "config \<Rightarrow> peer_edge list" where
  "peerEdges c =
     (let x = cf_extapi c; m = cf_mtls c in
      [\<lparr> pe_name = ''vpc'', pe_addr = edge_addr (ea_vpc x), pe_secure = ml_vpc m \<or> ee_tls (ea_vpc x) \<rparr>,
       \<lparr> pe_name = ''compute'', pe_addr = edge_addr (ea_compute x), pe_secure = ml_compute m \<or> ee_tls (ea_compute x) \<rparr>,
       \<lparr> pe_name = ''geo'', pe_addr = edge_addr (ea_geo x), pe_secure = ml_geo m \<or> ee_tls (ea_geo x) \<rparr>,
       \<lparr> pe_name = ''iam-project'', pe_addr = edge_addr (ea_iam x), pe_secure = ml_iam_project m \<or> ee_tls (ea_iam x) \<rparr>])"

definition validate_production :: "config \<Rightarrow> config_error list" where
  "validate_production c =
     (let z = cf_authz c; m = cf_mtls c; u = TrimSpace (pg_url (rp_postgres (cf_repository c))) in
      complain DeadAuthnTls (EqualFold (TrimSpace (an_type (cf_authn c))) ''tls'')
      @ complain InsecureServer (\<not> ml_server m)
      @ complain InsecureAuthzEdge (\<not> ml_iam_register m)
      @ concat (map (\<lambda>e. complain (InsecurePeer (pe_name e)) (pe_addr e \<noteq> '''' \<and> \<not> pe_secure e)) (peerEdges c))
      @ complain ListFilterRequired (\<not> lf_enabled (az_list_filter z))
      @ complain FailOpenForbidden (lf_fail_open (az_list_filter z))
      @ complain ForwardersRequired (ml_server m \<and> az_trusted_forwarders z = [])
      @ complain InsecurePostgres (u \<noteq> '''' \<and> \<not> postgresSSLSecure u))"

definition validate_general :: "config \<Rightarrow> config_error list" where
  "validate_general c =
     (let s = cf_api_server c; r = cf_repository c; ty = ToUpper (TrimSpace (rp_type r));
          a = cf_authn c; at = ToLower (TrimSpace (an_type a)) in
      complain BadMode (Mode c = None)
      @ complain BadLogLevel (ToUpper (TrimSpace (lg_level (cf_logger c))) \<notin> set validLogLevels)
      @ validateEndpoint ''api-server.endpoint'' (as_endpoint s)
      @ validateEndpoint ''api-server.internal-endpoint'' (as_internal_endpoint s)
      @ complain BadGracefulShutdown (as_graceful_shutdown s \<le> 0)
      @ (if ty = ''POSTGRES'' then [] else if ty = '''' then [RepositoryTypeEmpty] else [RepositoryTypeUnknown])
      @ complain PostgresUrlRequired (TrimSpace (pg_url (rp_postgres r)) = '''')
      @ complain BadMaxConns (sint (pg_max_conns (rp_postgres r)) < 0)
      @ (if at \<in> {''none'', ''''} then []
         else if at = ''tls''
         then complain AuthnFilesRequired (ak_key_file (an_tls a) = '''' \<or> ak_cert_file (an_tls a) = '''')
         else [BadAuthnType]))"

definition Validate :: "config \<Rightarrow> config_error list" where
  "Validate c =
     (let production = (Mode c = Some ModeProduction); j = cf_jobs c in
      validate_general c
      @ complain IamAddrRequired (ia_addr (az_iam (cf_authz c)) = '''' \<and> production)
      @ complain BreakglassForbidden (az_breakglass (cf_authz c) \<and> production)
      @ (if production then validate_production c else [])
      @ complain BadDrainInterval (td_interval (jb_target_drain j) \<le> 0)
      @ complain BadFreeIPInterval (fr_interval (jb_free_ip j) \<le> 0)
      @ complain BadAgeThreshold (fr_age_threshold (jb_free_ip j) \<le> 0)
      @ complain BadMaxStreams (il_max_streams (cf_internal_lifecycle c) \<le> 0))"

subsection \<open>Loading\<close>

definition expandPasswordFromEnv :: "(string \<Rightarrow> string) \<Rightarrow> config \<Rightarrow> config" where
  "expandPasswordFromEnv getenv c =
     (let p = rp_postgres (cf_repository c); name = TrimSpace (pg_password_from_env p) in
      if name = '''' then c
      else let pass = getenv name in
        if pass = '''' then c
        else let placeholder = ''$('' @ name @ '')'' in
          c \<lparr> cf_repository := cf_repository c \<lparr> rp_postgres := p
                \<lparr> pg_url := ReplaceAll (pg_url p) placeholder pass,
                  pg_slave_url := ReplaceAll (pg_slave_url p) placeholder pass \<rparr> \<rparr> \<rparr>)"

text \<open>\<open>read\<close> overlays the file and the environment on the defaults.\<close>

definition Load :: "(string \<Rightarrow> config \<Rightarrow> config option) \<Rightarrow> (string \<Rightarrow> string) \<Rightarrow> string \<Rightarrow> config_error list + config" where
  "Load read getenv path =
     (case read (TrimSpace path) RegisterDefaults of
        None \<Rightarrow> Inl [BadFile]
      | Some c \<Rightarrow> let c = expandPasswordFromEnv getenv c in
          if Validate c = [] then Inr c else Inl (Validate c))"

end
