(* ===== verification/Permissions.thy ===== *)
theory Permissions
  imports Confinement Peer_Clients Service
begin

text \<open>
  Authorization of the calls (\<^verbatim>\<open>internal/check\<close>): the table from a method to the relation the caller
  must hold, the object it must hold it on and the name of the permission; the adapter of the check
  client; the construction of the interceptor; and the service behind the interceptor.

  The interceptor itself and \<^verbatim>\<open>StaticExtractor\<close> belong to the shared library and are parameters. What
  the package says of them is stated as \<open>static_extractor_law\<close> and \<open>enforcing\<close>: a static extractor
  pairs its type with the identifier it reads; a call passes only if its method is in the table and the
  entry is public, is left to the list filter, or the check of the relation on the extracted object
  answered yes (possibly from a cache of positive answers).

  Of each request message only the field that its extractor reads is kept.
\<close>

subsection \<open>Messages and entries\<close>

datatype rpc_message =
  GetNetworkLoadBalancerRequest string
| ListNetworkLoadBalancersRequest string
| CreateNetworkLoadBalancerRequest string
| UpdateNetworkLoadBalancerRequest string
| DeleteNetworkLoadBalancerRequest string
| StartNetworkLoadBalancerRequest string
| StopNetworkLoadBalancerRequest string
| MoveNetworkLoadBalancerRequest string
| AttachNetworkLoadBalancerTargetGroupRequest string
| DetachNetworkLoadBalancerTargetGroupRequest string
| GetTargetStatesRequest string
| ListNetworkLoadBalancerOperationsRequest string
| GetListenerRequest string
| ListListenersRequest string
| CreateListenerRequest string
| UpdateListenerRequest string
| DeleteListenerRequest string
| ListListenerOperationsRequest string
| GetTargetGroupRequest string
| ListTargetGroupsRequest string
| CreateTargetGroupRequest string
| UpdateTargetGroupRequest string
| DeleteTargetGroupRequest string
| MoveTargetGroupRequest string
| AddTargetsRequest string
| RemoveTargetsRequest string
| ListTargetGroupOperationsRequest string
| GetLoadBalancerAnnounceStateRequest string
| ReportLoadBalancerAnnounceStateRequest string

type_synonym extractor = "rpc_message \<Rightarrow> (string \<times> string) option"

text \<open>The reader of a field is a type assertion on the request: \<open>None\<close> is its panic.\<close>

type_synonym static_extractor = "string \<Rightarrow> (rpc_message \<Rightarrow> string option) \<Rightarrow> extractor"

record rpc_entry =
  re_relation :: string
  re_permission :: string
  re_scope_filtered :: bool
  re_public :: bool
  re_extract :: "extractor option"

definition objectTypeProject :: string where "objectTypeProject = ''project''"
definition objectTypeLoadBalancer :: string where "objectTypeLoadBalancer = ''lb_network_load_balancer''"
definition objectTypeListener :: string where "objectTypeListener = ''lb_listener''"
definition objectTypeTargetGroup :: string where "objectTypeTargetGroup = ''lb_target_group''"
definition objectTypeCluster :: string where "objectTypeCluster = ''cluster''"
definition clusterSingletonRoot :: string where "clusterSingletonRoot = ''cluster_kacho_root''"

definition relationViewer :: string where "relationViewer = ''viewer''"
definition relationEditor :: string where "relationEditor = ''editor''"
definition relationVGet :: string where "relationVGet = ''v_get''"
definition relationVList :: string where "relationVList = ''v_list''"
definition relationVUpdate :: string where "relationVUpdate = ''v_update''"
definition relationVDelete :: string where "relationVDelete = ''v_delete''"
definition relationAnnounceWriter :: string where "relationAnnounceWriter = ''announce_writer''"
definition relationSystemViewer :: string where "relationSystemViewer = ''system_viewer''"

lemmas relation_defs = relationViewer_def relationEditor_def relationVGet_def relationVList_def
  relationVUpdate_def relationVDelete_def relationAnnounceWriter_def relationSystemViewer_def

definition staticClusterFloor :: extractor where
  "staticClusterFloor m = Some (objectTypeCluster, clusterSingletonRoot)"

definition nlb_method :: "string \<Rightarrow> string" where
  "nlb_method m = ''/kacho.cloud.loadbalancer.v1.NetworkLoadBalancerService/'' @ m"

definition listener_method :: "string \<Rightarrow> string" where
  "listener_method m = ''/kacho.cloud.loadbalancer.v1.ListenerService/'' @ m"

definition tg_method :: "string \<Rightarrow> string" where
  "tg_method m = ''/kacho.cloud.loadbalancer.v1.TargetGroupService/'' @ m"

definition operation_method :: "string \<Rightarrow> string" where
  "operation_method m = ''/kacho.cloud.operation.OperationService/'' @ m"

definition lifecycle_method :: "string \<Rightarrow> string" where
  "lifecycle_method m = ''/kacho.cloud.loadbalancer.v1.InternalResourceLifecycleService/'' @ m"

definition announce_method :: "string \<Rightarrow> string" where
  "announce_method m = ''/kacho.cloud.loadbalancer.v1.InternalLoadBalancerAnnounceService/'' @ m"

definition entry :: "string \<Rightarrow> string \<Rightarrow> extractor \<Rightarrow> rpc_entry" where
  "entry relation permission extract = \<lparr> re_relation = relation, re_permission = permission,
     re_scope_filtered = False, re_public = False, re_extract = Some extract \<rparr>"

definition scope_filtered :: "rpc_entry \<Rightarrow> rpc_entry" where
  "scope_filtered e = e \<lparr> re_scope_filtered := True \<rparr>"

definition public_entry :: rpc_entry where
  "public_entry = \<lparr> re_relation = '''', re_permission = '''', re_scope_filtered = False,
     re_public = True, re_extract = None \<rparr>"

subsection \<open>The table\<close>

definition nlb_permissions :: "static_extractor \<Rightarrow> (string \<times> rpc_entry) list" where
  "nlb_permissions se =
     [(nlb_method ''Get'', entry relationVGet ''loadbalancer.networkLoadBalancers.get''
        (se objectTypeLoadBalancer (\<lambda>m. case m of GetNetworkLoadBalancerRequest i \<Rightarrow> Some i | _ \<Rightarrow> None))),
      (nlb_method ''List'', scope_filtered (entry relationViewer ''loadbalancer.networkLoadBalancers.list''
        (se objectTypeProject (\<lambda>m. case m of ListNetworkLoadBalancersRequest i \<Rightarrow> Some i | _ \<Rightarrow> None)))),
      (nlb_method ''Create'', entry relationEditor ''loadbalancer.networkLoadBalancers.create''
        (se objectTypeProject (\<lambda>m. case m of CreateNetworkLoadBalancerRequest i \<Rightarrow> Some i | _ \<Rightarrow> None))),
      (nlb_method ''Update'', entry relationVUpdate ''loadbalancer.networkLoadBalancers.update''
        (se objectTypeLoadBalancer (\<lambda>m. case m of UpdateNetworkLoadBalancerRequest i \<Rightarrow> Some i | _ \<Rightarrow> None))),
      (nlb_method ''Delete'', entry relationVDelete ''loadbalancer.networkLoadBalancers.delete''
        (se objectTypeLoadBalancer (\<lambda>m. case m of DeleteNetworkLoadBalancerRequest i \<Rightarrow> Some i | _ \<Rightarrow> None))),
      (nlb_method ''Start'', entry relationVUpdate ''loadbalancer.networkLoadBalancers.start''
        (se objectTypeLoadBalancer (\<lambda>m. case m of StartNetworkLoadBalancerRequest i \<Rightarrow> Some i | _ \<Rightarrow> None))),
      (nlb_method ''Stop'', entry relationVUpdate ''loadbalancer.networkLoadBalancers.stop''
        (se objectTypeLoadBalancer (\<lambda>m. case m of StopNetworkLoadBalancerRequest i \<Rightarrow> Some i | _ \<Rightarrow> None))),
      (nlb_method ''Move'', entry relationVUpdate ''loadbalancer.networkLoadBalancers.move''
        (se objectTypeLoadBalancer (\<lambda>m. case m of MoveNetworkLoadBalancerRequest i \<Rightarrow> Some i | _ \<Rightarrow> None))),
      (nlb_method ''AttachTargetGroup'', entry relationVUpdate ''loadbalancer.networkLoadBalancers.attachTargetGroup''
        (se objectTypeLoadBalancer (\<lambda>m. case m of AttachNetworkLoadBalancerTargetGroupRequest i \<Rightarrow> Some i | _ \<Rightarrow> None))),
      (nlb_method ''DetachTargetGroup'', entry relationVUpdate ''loadbalancer.networkLoadBalancers.detachTargetGroup''
        (se objectTypeLoadBalancer (\<lambda>m. case m of DetachNetworkLoadBalancerTargetGroupRequest i \<Rightarrow> Some i | _ \<Rightarrow> None))),
      (nlb_method ''GetTargetStates'', entry relationVGet ''loadbalancer.networkLoadBalancers.getTargetStates''
        (se objectTypeLoadBalancer (\<lambda>m. case m of GetTargetStatesRequest i \<Rightarrow> Some i | _ \<Rightarrow> None))),
      (nlb_method ''ListOperations'', entry relationVList ''loadbalancer.networkLoadBalancers.listOperations''
        (se objectTypeLoadBalancer (\<lambda>m. case m of ListNetworkLoadBalancerOperationsRequest i \<Rightarrow> Some i | _ \<Rightarrow> None)))]"

definition listener_permissions :: "static_extractor \<Rightarrow> (string \<times> rpc_entry) list" where
  "listener_permissions se =
     [(listener_method ''Get'', entry relationVGet ''loadbalancer.listeners.get''
        (se objectTypeListener (\<lambda>m. case m of GetListenerRequest i \<Rightarrow> Some i | _ \<Rightarrow> None))),
      (listener_method ''List'', scope_filtered (entry relationViewer ''loadbalancer.listeners.list''
        (se objectTypeProject (\<lambda>m. case m of ListListenersRequest i \<Rightarrow> Some i | _ \<Rightarrow> None)))),
      (listener_method ''Create'', entry relationEditor ''loadbalancer.listeners.create''
        (se objectTypeLoadBalancer (\<lambda>m. case m of CreateListenerRequest i \<Rightarrow> Some i | _ \<Rightarrow> None))),
      (listener_method ''Update'', entry relationVUpdate ''loadbalancer.listeners.update''
        (se objectTypeListener (\<lambda>m. case m of UpdateListenerRequest i \<Rightarrow> Some i | _ \<Rightarrow> None))),
      (listener_method ''Delete'', entry relationVDelete ''loadbalancer.listeners.delete''
        (se objectTypeListener (\<lambda>m. case m of DeleteListenerRequest i \<Rightarrow> Some i | _ \<Rightarrow> None))),
      (listener_method ''ListOperations'', entry relationVList ''loadbalancer.listeners.listOperations''
        (se objectTypeListener (\<lambda>m. case m of ListListenerOperationsRequest i \<Rightarrow> Some i | _ \<Rightarrow> None)))]"

definition target_group_permissions :: "static_extractor \<Rightarrow> (string \<times> rpc_entry) list" where
  "target_group_permissions se =
     [(tg_method ''Get'', entry relationVGet ''loadbalancer.targetGroups.get''
        (se objectTypeTargetGroup (\<lambda>m. case m of GetTargetGroupRequest i \<Rightarrow> Some i | _ \<Rightarrow> None))),
      (tg_method ''List'', scope_filtered (entry relationViewer ''loadbalancer.targetGroups.list''
        (se objectTypeProject (\<lambda>m. case m of ListTargetGroupsRequest i \<Rightarrow> Some i | _ \<Rightarrow> None)))),
      (tg_method ''Create'', entry relationEditor ''loadbalancer.targetGroups.create''
        (se objectTypeProject (\<lambda>m. case m of CreateTargetGroupRequest i \<Rightarrow> Some i | _ \<Rightarrow> None))),
      (tg_method ''Update'', entry relationVUpdate ''loadbalancer.targetGroups.update''
        (se objectTypeTargetGroup (\<lambda>m. case m of UpdateTargetGroupRequest i \<Rightarrow> Some i | _ \<Rightarrow> None))),
      (tg_method ''Delete'', entry relationVDelete ''loadbalancer.targetGroups.delete''
        (se objectTypeTargetGroup (\<lambda>m. case m of DeleteTargetGroupRequest i \<Rightarrow> Some i | _ \<Rightarrow> None))),
      (tg_method ''Move'', entry relationVUpdate ''loadbalancer.targetGroups.move''
        (se objectTypeTargetGroup (\<lambda>m. case m of MoveTargetGroupRequest i \<Rightarrow> Some i | _ \<Rightarrow> None))),
      (tg_method ''AddTargets'', entry relationVUpdate ''loadbalancer.targetGroups.addTargets''
        (se objectTypeTargetGroup (\<lambda>m. case m of AddTargetsRequest i \<Rightarrow> Some i | _ \<Rightarrow> None))),
      (tg_method ''RemoveTargets'', entry relationVUpdate ''loadbalancer.targetGroups.removeTargets''
        (se objectTypeTargetGroup (\<lambda>m. case m of RemoveTargetsRequest i \<Rightarrow> Some i | _ \<Rightarrow> None))),
      (tg_method ''ListOperations'', entry relationVList ''loadbalancer.targetGroups.listOperations''
        (se objectTypeTargetGroup (\<lambda>m. case m of ListTargetGroupOperationsRequest i \<Rightarrow> Some i | _ \<Rightarrow> None)))]"

definition internal_permissions :: "static_extractor \<Rightarrow> (string \<times> rpc_entry) list" where
  "internal_permissions se =
     [(operation_method ''Get'', public_entry),
      (operation_method ''Cancel'', public_entry),
      (lifecycle_method ''Subscribe'', entry relationSystemViewer '''' staticClusterFloor),
      (announce_method ''GetAnnounceState'', entry relationVGet ''''
        (se objectTypeLoadBalancer (\<lambda>m. case m of GetLoadBalancerAnnounceStateRequest i \<Rightarrow> Some i | _ \<Rightarrow> None))),
      (announce_method ''ReportAnnounceState'', entry relationAnnounceWriter ''''
        (se objectTypeLoadBalancer (\<lambda>m. case m of ReportLoadBalancerAnnounceStateRequest i \<Rightarrow> Some i | _ \<Rightarrow> None)))]"

definition PermissionMap :: "static_extractor \<Rightarrow> (string \<times> rpc_entry) list" where
  "PermissionMap se =
     nlb_permissions se @ listener_permissions se @ target_group_permissions se @ internal_permissions se"

definition catalogOnlyOperationPermissions :: "string list" where
  "catalogOnlyOperationPermissions =
     [''loadbalancer.operations.get'', ''loadbalancer.operations.cancel'', ''loadbalancer.operations.list'']"

definition Catalog :: "static_extractor \<Rightarrow> string list" where
  "Catalog se = filter (\<lambda>p. p \<noteq> '''') (map (re_permission \<circ> snd) (PermissionMap se)) @ catalogOnlyOperationPermissions"

subsection \<open>The interceptor\<close>

type_synonym check_client = "string \<Rightarrow> string \<Rightarrow> string \<Rightarrow> err + bool"

definition NewIAMCheckClient :: "check_client option \<Rightarrow> check_client option" where
  "NewIAMCheckClient peer = peer"

definition IAMCheckClient_Check :: "check_client option \<Rightarrow> check_client" where
  "IAMCheckClient_Check c subject relation obj =
     (case c of None \<Rightarrow> Inl (OtherErr ''check: IAMCheckClient.peer is nil'')
      | Some peer \<Rightarrow> peer subject relation obj)"

record check_options =
  co_check :: "check_client option"
  co_breakglass :: bool

text \<open>The interceptor of the library: the table, the client (none in breakglass mode), then the caller,
  the method and the message.\<close>

type_synonym interceptor = "string \<Rightarrow> string \<Rightarrow> rpc_message \<Rightarrow> err + unit"
type_synonym interceptor_maker =
  "(string \<Rightarrow> rpc_entry option) \<Rightarrow> check_client option \<Rightarrow> interceptor"

definition NewInterceptor ::
  "static_extractor \<Rightarrow> interceptor_maker \<Rightarrow> check_options \<Rightarrow> err + interceptor" where
  "NewInterceptor se icpt opts =
     (if co_breakglass opts then Inr (icpt (map_of (PermissionMap se)) None)
      else case co_check opts of
        None \<Rightarrow> Inl (OtherErr ''check: IAM CheckClient not configured and Breakglass=false'')
      | Some peer \<Rightarrow> Inr (icpt (map_of (PermissionMap se))
          (Some (IAMCheckClient_Check (NewIAMCheckClient (Some peer))))))"

definition static_extractor_law :: "static_extractor \<Rightarrow> bool" where
  "static_extractor_law se \<longleftrightarrow> (\<forall>ty f m. se ty f m = map_option (Pair ty) (f m))"

definition enforcing :: "interceptor_maker \<Rightarrow> bool" where
  "enforcing icpt \<longleftrightarrow>
     (\<forall>tbl check subject m msg. icpt tbl (Some check) subject m msg = Inr () \<longrightarrow>
        (\<exists>e. tbl m = Some e \<and>
           (re_public e \<or> re_scope_filtered e \<or>
            (\<exists>ex ty i. re_extract e = Some ex \<and> ex msg = Some (ty, i) \<and>
               check subject (re_relation e) (FGAObjectRef ty i) = Inr True))))"

subsection \<open>The calls behind it\<close>

fun lb_wire :: "lb_rpc \<Rightarrow> string \<times> rpc_message" where
  "lb_wire (LbCreate i rq) = (nlb_method ''Create'', CreateNetworkLoadBalancerRequest (cr_project rq))"
| "lb_wire (LbUpdate rq) = (nlb_method ''Update'', UpdateNetworkLoadBalancerRequest (ur_id rq))"
| "lb_wire (LbDelete i) = (nlb_method ''Delete'', DeleteNetworkLoadBalancerRequest i)"
| "lb_wire (LbStart i) = (nlb_method ''Start'', StartNetworkLoadBalancerRequest i)"
| "lb_wire (LbStop i) = (nlb_method ''Stop'', StopNetworkLoadBalancerRequest i)"
| "lb_wire (LbMove i dst) = (nlb_method ''Move'', MoveNetworkLoadBalancerRequest i)"
| "lb_wire (LbAttach i a) = (nlb_method ''AttachTargetGroup'', AttachNetworkLoadBalancerTargetGroupRequest i)"
| "lb_wire (LbDetach i g) = (nlb_method ''DetachTargetGroup'', DetachNetworkLoadBalancerTargetGroupRequest i)"
| "lb_wire (LbTargetStates now i g) = (nlb_method ''GetTargetStates'', GetTargetStatesRequest i)"

fun listener_wire :: "listener_rpc \<Rightarrow> string \<times> rpc_message" where
  "listener_wire (LsCreate i rq) = (listener_method ''Create'', CreateListenerRequest (lr_lb rq))"
| "listener_wire (LsUpdate rq) = (listener_method ''Update'', UpdateListenerRequest (lu_id rq))"
| "listener_wire (LsDelete i) = (listener_method ''Delete'', DeleteListenerRequest i)"

fun tg_wire :: "tg_rpc \<Rightarrow> string \<times> rpc_message" where
  "tg_wire (TgCreate i ids rq) = (tg_method ''Create'', CreateTargetGroupRequest (cg_project rq))"
| "tg_wire (TgUpdate rq) = (tg_method ''Update'', UpdateTargetGroupRequest (ug_id rq))"
| "tg_wire (TgDelete i) = (tg_method ''Delete'', DeleteTargetGroupRequest i)"
| "tg_wire (TgMove i dst) = (tg_method ''Move'', MoveTargetGroupRequest i)"
| "tg_wire (TgAddTargets i pbs ids) = (tg_method ''AddTargets'', AddTargetsRequest i)"
| "tg_wire (TgRemoveTargets i pbs) = (tg_method ''RemoveTargets'', RemoveTargetsRequest i)"

fun wire :: "activity \<Rightarrow> (string \<times> rpc_message) option" where
  "wire (LbCall op c) = Some (lb_wire c)"
| "wire (ListenerCall op c) = Some (listener_wire c)"
| "wire (TgCall op c) = Some (tg_wire c)"
| "wire _ = None"

text \<open>A call goes through the interceptor first; a tick of a runner does not.\<close>

definition serve :: "interceptor \<Rightarrow> string \<Rightarrow> 'v env \<Rightarrow> activity \<Rightarrow> 'v world \<Rightarrow> 'v world" where
  "serve auth subject en a w =
     (case wire a of
        None \<Rightarrow> perform en a w
      | Some (m, msg) \<Rightarrow> (case auth subject m msg of Inl e \<Rightarrow> w | Inr u \<Rightarrow> perform en a w))"

subsection \<open>Facts\<close>

text \<open>The services have different prefixes, so a method is looked up by its last part.\<close>

lemma method_inj [simp]:
  "nlb_method m = nlb_method n \<longleftrightarrow> m = n" "listener_method m = listener_method n \<longleftrightarrow> m = n"
  "tg_method m = tg_method n \<longleftrightarrow> m = n" "operation_method m = operation_method n \<longleftrightarrow> m = n"
  "lifecycle_method m = lifecycle_method n \<longleftrightarrow> m = n" "announce_method m = announce_method n \<longleftrightarrow> m = n"
  by (simp_all add: nlb_method_def listener_method_def tg_method_def operation_method_def lifecycle_method_def
      announce_method_def)

lemma method_apart [simp]:
  "nlb_method m \<noteq> listener_method n" "nlb_method m \<noteq> tg_method n" "listener_method m \<noteq> nlb_method n"
  "listener_method m \<noteq> tg_method n" "tg_method m \<noteq> nlb_method n" "tg_method m \<noteq> listener_method n"
  "nlb_method m \<noteq> operation_method n" "listener_method m \<noteq> operation_method n" "tg_method m \<noteq> operation_method n"
  "nlb_method m \<noteq> lifecycle_method n" "listener_method m \<noteq> lifecycle_method n" "tg_method m \<noteq> lifecycle_method n"
  "nlb_method m \<noteq> announce_method n" "listener_method m \<noteq> announce_method n" "tg_method m \<noteq> announce_method n"
  by (simp_all add: nlb_method_def listener_method_def tg_method_def operation_method_def lifecycle_method_def
      announce_method_def)

lemmas table_defs = PermissionMap_def nlb_permissions_def listener_permissions_def target_group_permissions_def
  internal_permissions_def

definition write_relations :: "string list" where
  "write_relations = [relationEditor, relationVUpdate, relationVDelete]"

text \<open>The entry of a call: the relation it needs and the object it needs it on.\<close>

definition guarded_by :: "static_extractor \<Rightarrow> string \<times> rpc_message \<Rightarrow> string list \<Rightarrow> string \<Rightarrow> string \<Rightarrow> bool" where
  "guarded_by se c rels ty i \<longleftrightarrow>
     (\<exists>e ex. map_of (PermissionMap se) (fst c) = Some e \<and> re_relation e \<in> set rels \<and> \<not> re_public e
        \<and> \<not> re_scope_filtered e \<and> re_extract e = Some ex \<and> ex (snd c) = Some (ty, i))"

lemma lb_guarded:
  assumes "static_extractor_law se"
  shows "guarded_by se (lb_wire (LbCreate i rq)) write_relations objectTypeProject (cr_project rq)"
    "guarded_by se (lb_wire (LbUpdate urq)) write_relations objectTypeLoadBalancer (ur_id urq)"
    "guarded_by se (lb_wire (LbDelete i)) write_relations objectTypeLoadBalancer i"
    "guarded_by se (lb_wire (LbStart i)) write_relations objectTypeLoadBalancer i"
    "guarded_by se (lb_wire (LbStop i)) write_relations objectTypeLoadBalancer i"
    "guarded_by se (lb_wire (LbMove i dst)) write_relations objectTypeLoadBalancer i"
    "guarded_by se (lb_wire (LbAttach i a)) write_relations objectTypeLoadBalancer i"
    "guarded_by se (lb_wire (LbDetach i g)) write_relations objectTypeLoadBalancer i"
  using assms by (simp_all add: guarded_by_def table_defs entry_def scope_filtered_def static_extractor_law_def
      write_relations_def)

lemma listener_guarded:
  assumes "static_extractor_law se"
  shows "guarded_by se (listener_wire (LsCreate i rq)) write_relations objectTypeLoadBalancer (lr_lb rq)"
    "guarded_by se (listener_wire (LsUpdate urq)) write_relations objectTypeListener (lu_id urq)"
    "guarded_by se (listener_wire (LsDelete i)) write_relations objectTypeListener i"
  using assms by (simp_all add: guarded_by_def table_defs entry_def scope_filtered_def static_extractor_law_def
      write_relations_def)

lemma tg_guarded:
  assumes "static_extractor_law se"
  shows "guarded_by se (tg_wire (TgCreate i ids rq)) write_relations objectTypeProject (cg_project rq)"
    "guarded_by se (tg_wire (TgUpdate urq)) write_relations objectTypeTargetGroup (ug_id urq)"
    "guarded_by se (tg_wire (TgDelete i)) write_relations objectTypeTargetGroup i"
    "guarded_by se (tg_wire (TgMove i dst)) write_relations objectTypeTargetGroup i"
    "guarded_by se (tg_wire (TgAddTargets i pbs ids)) write_relations objectTypeTargetGroup i"
    "guarded_by se (tg_wire (TgRemoveTargets i pbs)) write_relations objectTypeTargetGroup i"
  using assms by (simp_all add: guarded_by_def table_defs entry_def scope_filtered_def static_extractor_law_def
      write_relations_def)

text \<open>The catalogue has thirty different names, and only the two calls on operations are public.\<close>

lemma catalog_complete: "distinct (Catalog se) \<and> length (Catalog se) = 30"
  by (simp add: Catalog_def table_defs entry_def scope_filtered_def public_entry_def catalogOnlyOperationPermissions_def)

lemma public_calls:
  "map fst (filter (re_public \<circ> snd) (PermissionMap se)) = [operation_method ''Get'', operation_method ''Cancel'']"
  by (simp add: table_defs entry_def scope_filtered_def public_entry_def)

text \<open>The lists are the only calls left to the list filter.\<close>

lemma filtered_calls:
  "map fst (filter (re_scope_filtered \<circ> snd) (PermissionMap se)) =
   [nlb_method ''List'', listener_method ''List'', tg_method ''List'']"
  by (simp add: table_defs entry_def scope_filtered_def public_entry_def)

subsection \<open>What a checked call can change\<close>

lemma serve_checked:
  assumes "enforcing icpt" and "NewInterceptor se icpt \<lparr> co_check = Some chk, co_breakglass = False \<rparr> = Inr auth"
    and "auth subject (fst c) (snd c) = Inr u" and "guarded_by se c rels ty i"
  shows "\<exists>rel \<in> set rels. chk subject rel (FGAObjectRef ty i) = Inr True"
proof -
  have "icpt (map_of (PermissionMap se)) (Some (IAMCheckClient_Check (Some chk))) subject (fst c) (snd c) = Inr ()"
    using assms(2,3) by (auto simp: NewInterceptor_def NewIAMCheckClient_def)
  with assms(1) obtain e where e: "map_of (PermissionMap se) (fst c) = Some e"
    and p: "re_public e \<or> re_scope_filtered e \<or> (\<exists>ex ty i. re_extract e = Some ex \<and> ex (snd c) = Some (ty, i) \<and>
              IAMCheckClient_Check (Some chk) subject (re_relation e) (FGAObjectRef ty i) = Inr True)"
    unfolding enforcing_def by blast
  with assms(4) show ?thesis by (auto simp: guarded_by_def IAMCheckClient_Check_def)
qed

text \<open>
  \<open>granted ty i d d'\<close>: between \<open>d\<close> and \<open>d'\<close> only the object \<open>i\<close> of type \<open>ty\<close> changed (for a load
  balancer with its listeners and attachments, for a target group with its targets), or, for a
  project, one new load balancer or target group of the project appeared.
\<close>

definition granted :: "string \<Rightarrow> string \<Rightarrow> db \<Rightarrow> db \<Rightarrow> bool" where
  "granted ty i d d' \<longleftrightarrow>
     ty = objectTypeLoadBalancer \<and> outside {i} {} {} d' = outside {i} {} {} d
   \<or> ty = objectTypeListener \<and> outside {} {i} {} d' = outside {} {i} {} d
   \<or> ty = objectTypeTargetGroup \<and> outside {} {} {i} d' = outside {} {} {i} d
   \<or> ty = objectTypeProject \<and> (\<exists>n.
        n \<notin> lb_ids d \<and> outside {n} {} {} d' = outside {n} {} {} d \<and> lb_owned n i d'
      \<or> n \<notin> tg_ids d \<and> outside {} {} {n} d' = outside {} {} {n} d \<and> tg_owned n i d')"

lemma granted_one:
  "outside {i} {} {} d' = outside {i} {} {} d \<Longrightarrow> granted objectTypeLoadBalancer i d d'"
  "outside {} {i} {} d' = outside {} {i} {} d \<Longrightarrow> granted objectTypeListener i d d'"
  "outside {} {} {i} d' = outside {} {} {i} d \<Longrightarrow> granted objectTypeTargetGroup i d d'"
  by (simp_all add: granted_def)

lemma lb_call_granted:
  assumes "static_extractor_law se" and "solitary w"
    and "outside {} {} {} (w_db (snd (lb_handler en op c w))) \<noteq> outside {} {} {} (w_db w)"
  shows "\<exists>ty i. guarded_by se (lb_wire c) write_relations ty i \<and> granted ty i (w_db w) (w_db (snd (lb_handler en op c w)))"
proof -
  let ?d' = "w_db (snd (lb_handler en op c w))"
  note g = granted_one(1) [OF lb_call_confined [OF assms(2), of c en op]]
  show ?thesis
  proof (cases c)
  case (LbCreate n rq)
  have "n \<notin> lb_ids (w_db w)" using assms(3) lb_create_existing [OF assms(2)] unfolding LbCreate by blast
  moreover from this have "lb_owned n (cr_project rq) (w_db w)" by (auto simp: lb_ids_def lb_owned_def)
  ultimately have "granted objectTypeProject (cr_project rq) (w_db w) ?d'"
    using lb_create_owned [OF assms(2)] lb_call_confined [OF assms(2), of c] unfolding LbCreate granted_def lb_subject.simps
    by blast
  with lb_guarded(1) [OF assms(1)] show ?thesis unfolding LbCreate by blast
next
  case (LbTargetStates now i g)
  have "outside {} {} {} (w_db (snd (lb_handler en op c w))) = outside {} {} {} (w_db w)"
    using far.kept_lb_handler [of "{}" "{}" "{}" en c, unfolded preserves_def steady_def] assms(2)
    unfolding LbTargetStates lb_txs_within.simps by blast
  with assms(3) show ?thesis by contradiction
qed (insert g, simp only: lb_subject.simps, blast intro: lb_guarded [OF assms(1)])+
qed

lemma listener_call_granted:
  assumes "static_extractor_law se" and "solitary w"
  shows "\<exists>ty i. guarded_by se (listener_wire c) write_relations ty i
    \<and> granted ty i (w_db w) (w_db (snd (listener_handler en op c w)))"
proof (cases c)
  case (LsCreate n rq)
  from granted_one(1) [OF listener_create_confined [OF assms(2), of rq en op n]] listener_guarded(1) [OF assms(1)]
  show ?thesis unfolding LsCreate by blast
qed (insert granted_one(2) [OF listener_call_confined [OF assms(2), of c en op]], simp only: listener_subject.simps,
  blast intro: listener_guarded [OF assms(1)])+

lemma tg_call_granted:
  assumes "static_extractor_law se" and "solitary w"
    and "outside {} {} {} (w_db (snd (tg_handler en op c w))) \<noteq> outside {} {} {} (w_db w)"
  shows "\<exists>ty i. guarded_by se (tg_wire c) write_relations ty i \<and> granted ty i (w_db w) (w_db (snd (tg_handler en op c w)))"
proof (cases c)
  case (TgCreate n us rq)
  have "n \<notin> tg_ids (w_db w)" using assms(3) tg_create_existing [OF assms(2)] unfolding TgCreate by blast
  moreover from this have "tg_owned n (cg_project rq) (w_db w)" by (auto simp: tg_ids_def tg_owned_def)
  ultimately have "granted objectTypeProject (cg_project rq) (w_db w) (w_db (snd (tg_handler en op c w)))"
    using tg_create_owned [OF assms(2)] tg_call_confined [OF assms(2), of c] unfolding TgCreate granted_def tg_subject.simps
    by blast
  with tg_guarded(1) [OF assms(1)] show ?thesis unfolding TgCreate by blast
qed (insert granted_one(3) [OF tg_call_confined [OF assms(2), of c en op]], simp only: tg_subject.simps,
  blast intro: tg_guarded [OF assms(1)])+

subsection \<open>Properties\<close>


text \<open>An interceptor as described, and an identity service that grants one thing.\<close>

definition plain_extractor :: static_extractor where
  "plain_extractor ty f m = map_option (Pair ty) (f m)"

definition plain_icpt :: interceptor_maker where
  "plain_icpt tbl check subject m msg =
     (case tbl m of
        None \<Rightarrow> Inl (Status CodePermissionDenied ''not in the table'')
      | Some e \<Rightarrow>
          if re_public e \<or> re_scope_filtered e then Inr ()
          else case (check, re_extract e) of
            (Some chk, Some ex) \<Rightarrow> (case ex msg of
                None \<Rightarrow> Inl (Status CodeInternal ''panic'')
              | Some (ty, i) \<Rightarrow> (case chk subject (re_relation e) (FGAObjectRef ty i) of
                  Inr True \<Rightarrow> Inr () | _ \<Rightarrow> Inl (Status CodePermissionDenied ''denied'')))
          | _ \<Rightarrow> Inl (Status CodePermissionDenied ''denied''))"

definition grants :: check_client where
  "grants subject relation obj = Inr ((subject, relation, obj) = (''user:u1'', ''editor'', ''project:p1''))"

lemma plain_laws: "static_extractor_law plain_extractor" "enforcing plain_icpt"
proof -
  show "static_extractor_law plain_extractor" by (simp add: static_extractor_law_def plain_extractor_def)
  show "enforcing plain_icpt"
    unfolding enforcing_def plain_icpt_def
    by (auto split: option.splits if_splits prod.splits sum.splits bool.splits)
qed

definition plain_auth :: interceptor where
  "plain_auth = plain_icpt (map_of (PermissionMap plain_extractor)) (Some (IAMCheckClient_Check (Some grants)))"

definition served :: "string \<Rightarrow> db" where
  "served subject = w_db (serve plain_auth subject sample_env (LbCall None (LbCreate ''nlb1'' wanted_lb)) (sample_world []))"


end
