(* ===== verification/Composition.thy ===== *)
theory Composition
  imports Config Permissions
begin

text \<open>
  The start of the process (\<^verbatim>\<open>cmd/kacho-loadbalancer/main.go\<close>, \<^verbatim>\<open>wiring.go\<close>, \<^verbatim>\<open>clients/builder.go\<close>,
  \<^verbatim>\<open>internal/fgaboot\<close>): from a configuration to the connections to the other services, the interceptors
  and the list filter. Dialling, building transport credentials and the boot gate are libraries': they
  are parameters that may fail. What has no influence on the security of the process (logging, metrics,
  health, signals, the listening sockets) is left out.
\<close>

subsection \<open>Connections\<close>

datatype creds = CredsMTLS | CredsTLS | CredsInsecure

record conn =
  cn_name :: string
  cn_addr :: string
  cn_creds :: creds

definition buildCreds :: "bool \<Rightarrow> creds" where
  "buildCreds use_tls = (if use_tls then CredsTLS else CredsInsecure)"

record build_options =
  bo_endpoint :: string
  bo_tls :: bool
  bo_retries :: nat
  bo_dial_timeout :: int
  bo_keepalive :: int
  bo_user_agent :: string
  bo_mtls :: "creds option"

definition withDefaults :: "build_options \<Rightarrow> build_options" where
  "withDefaults o1 =
     o1 \<lparr> bo_retries := (if bo_retries o1 = 0 then 3 else bo_retries o1),
         bo_dial_timeout := (if bo_dial_timeout o1 = 0 then 10 * second else bo_dial_timeout o1),
         bo_keepalive := (if bo_keepalive o1 = 0 then 30 * second else bo_keepalive o1),
         bo_user_agent := (if bo_user_agent o1 = '''' then ''kacho-nlb'' else bo_user_agent o1) \<rparr>"

text \<open>\<open>dial\<close> says whether the library connects with these options and credentials.\<close>

definition Build :: "(build_options \<Rightarrow> creds \<Rightarrow> bool) \<Rightarrow> string \<Rightarrow> build_options \<Rightarrow> conn option" where
  "Build dial name opts =
     (if TrimSpace (bo_endpoint opts) = '''' then None
      else let opts = withDefaults opts;
               creds = (case bo_mtls opts of Some c \<Rightarrow> c | None \<Rightarrow> buildCreds (bo_tls opts)) in
        if \<not> dial opts creds then None
        else Some \<lparr> cn_name = name, cn_addr = bo_endpoint opts, cn_creds = creds \<rparr>)"

record peer_dial_spec =
  ds_name :: string
  ds_addr :: string
  ds_tls :: bool
  ds_mtls :: bool

fun firstNonEmpty :: "string list \<Rightarrow> string" where
  "firstNonEmpty [] = ''''"
| "firstNonEmpty (v # vs) = (if TrimSpace v \<noteq> '''' then v else firstNonEmpty vs)"

definition peerDialSpecs :: "config \<Rightarrow> peer_dial_spec list" where
  "peerDialSpecs c =
     (let x = cf_extapi c; m = cf_mtls c;
          public = (\<lambda>e. firstNonEmpty [ee_addr e, ee_internal_addr e]);
          private = (\<lambda>e. firstNonEmpty [ee_internal_addr e, ee_addr e]) in
      [\<lparr> ds_name = ''iam-public'', ds_addr = public (ea_iam x), ds_tls = ee_tls (ea_iam x), ds_mtls = ml_iam_project m \<rparr>,
       \<lparr> ds_name = ''iam-internal'', ds_addr = private (ea_iam x), ds_tls = ee_tls (ea_iam x), ds_mtls = ml_iam_register m \<rparr>,
       \<lparr> ds_name = ''geo'', ds_addr = public (ea_geo x), ds_tls = ee_tls (ea_geo x), ds_mtls = ml_geo m \<rparr>,
       \<lparr> ds_name = ''compute'', ds_addr = public (ea_compute x), ds_tls = ee_tls (ea_compute x), ds_mtls = ml_compute m \<rparr>,
       \<lparr> ds_name = ''vpc-public'', ds_addr = public (ea_vpc x), ds_tls = ee_tls (ea_vpc x), ds_mtls = ml_vpc m \<rparr>,
       \<lparr> ds_name = ''vpc-internal'', ds_addr = private (ea_vpc x), ds_tls = ee_tls (ea_vpc x), ds_mtls = ml_vpc m \<rparr>])"

definition peerDialDuration :: "config \<Rightarrow> int" where
  "peerDialDuration c =
     (if ea_def_dial_duration (cf_extapi c) > 0 then ea_def_dial_duration (cf_extapi c) else 10 * second)"

text \<open>What the start of the process meets outside: credentials, connections, the database, the ports.\<close>

record boot_env =
  be_creds_ok :: "string \<Rightarrow> bool"
  be_dial :: "build_options \<Rightarrow> creds \<Rightarrow> bool"
  be_server_creds_ok :: bool
  be_pool_ok :: bool
  be_workers_ok :: bool
  be_listen_ok :: bool

text \<open>
  One connection: the outer option is a failure (of the credentials or of the dial), the inner one a
  service that is not configured.
\<close>

definition dialOne :: "boot_env \<Rightarrow> config \<Rightarrow> peer_dial_spec \<Rightarrow> conn option option" where
  "dialOne be c s =
     (let addr = TrimSpace (ds_addr s) in
      if addr = '''' then Some None
      else if ds_mtls s \<and> \<not> be_creds_ok be (ds_name s) then None
      else map_option Some (Build (be_dial be) (ds_name s)
        \<lparr> bo_endpoint = addr, bo_tls = ds_tls s, bo_retries = 0, bo_dial_timeout = peerDialDuration c,
          bo_keepalive = 0, bo_user_agent = '''', bo_mtls = (if ds_mtls s then Some CredsMTLS else None) \<rparr>))"

fun dial_all :: "boot_env \<Rightarrow> config \<Rightarrow> peer_dial_spec list \<Rightarrow> (string \<times> conn option) list option" where
  "dial_all be c [] = Some []"
| "dial_all be c (s # ss) =
     (case dialOne be c s of
        None \<Rightarrow> None
      | Some cc \<Rightarrow> map_option (Cons (ds_name s, cc)) (dial_all be c ss))"

text \<open>The clients: which of them there are.\<close>

record peer_clients =
  pc_conns :: "conn list"
  pc_project :: bool
  pc_check :: bool
  pc_register :: bool
  pc_region :: bool
  pc_zone :: bool
  pc_instance :: bool
  pc_subnet :: bool
  pc_nic :: bool
  pc_address :: bool
  pc_internal_address :: bool
  pc_list_filter :: "filter_config option"

definition buildListFilter :: "config \<Rightarrow> conn option \<Rightarrow> filter_config option" where
  "buildListFilter c iam =
     (let lf = az_list_filter (cf_authz c) in
      if \<not> lf_enabled lf \<or> iam = None then None
      else Some (NewFGAFilter \<lparr> fc_enabled = True, fc_timeout = lf_timeout lf, fc_ttl = lf_cache_ttl lf,
        fc_max = lf_cache_max_entries lf, fc_open = lf_fail_open lf \<rparr>))"

definition dialed_conn :: "(string \<times> conn option) list \<Rightarrow> string \<Rightarrow> conn option" where
  "dialed_conn dialed name = (case map_of dialed name of Some (Some cc) \<Rightarrow> Some cc | _ \<Rightarrow> None)"

definition dialPeers :: "boot_env \<Rightarrow> config \<Rightarrow> peer_clients option" where
  "dialPeers be c =
     (case dial_all be c (peerDialSpecs c) of
        None \<Rightarrow> None
      | Some dialed \<Rightarrow>
          let get = dialed_conn dialed;
              iam_public = get ''iam-public''; iam_internal = get ''iam-internal'';
              geo = get ''geo''; compute = get ''compute'';
              vpc_public = get ''vpc-public''; vpc_internal = get ''vpc-internal'' in
          Some \<lparr> pc_conns = List.map_filter snd dialed,
            pc_project = (iam_public \<noteq> None), pc_check = (iam_internal \<noteq> None),
            pc_register = (iam_internal \<noteq> None), pc_region = (geo \<noteq> None), pc_zone = (geo \<noteq> None),
            pc_instance = (compute \<noteq> None), pc_subnet = (vpc_public \<noteq> None), pc_nic = (vpc_public \<noteq> None),
            pc_address = (vpc_public \<noteq> None),
            pc_internal_address = (vpc_public \<noteq> None \<and> vpc_internal \<noteq> None),
            pc_list_filter = buildListFilter c iam_internal \<rparr>)"

subsection \<open>The boot gate\<close>

definition IsGatedCreate :: "string \<Rightarrow> bool" where
  "IsGatedCreate m \<longleftrightarrow> HasSuffix m ''/Create'' \<and> \<not> contains m ''.Internal''"

text \<open>A chain answers a peer's message; \<open>gate\<close> is the answer of the gate at the time of the call.\<close>

type_synonym 'p chain = "'p \<Rightarrow> string \<Rightarrow> rpc_message \<Rightarrow> err + unit"

definition GuardCreateUnary :: "err option \<Rightarrow> 'p chain \<Rightarrow> 'p chain" where
  "GuardCreateUnary gate rest peer m msg =
     (if IsGatedCreate m then (case gate of Some e \<Rightarrow> Inl e | None \<Rightarrow> rest peer m msg)
      else rest peer m msg)"

subsection \<open>The process\<close>

text \<open>
  \<open>identify\<close> stands for the two extractors of the library (the certificate's identity, then the principal
  that a trusted forwarder passes on): from the forwarders and the peer it finds the subject.
\<close>

record 'p chains =
  ch_public :: "'p chain"
  ch_internal :: "'p chain"

definition buildInterceptorChains ::
  "(string list \<Rightarrow> 'p \<Rightarrow> string) \<Rightarrow> err option \<Rightarrow> interceptor \<Rightarrow> string list \<Rightarrow> 'p chains" where
  "buildInterceptorChains identify gate auth forwarders =
     (let internal = (\<lambda>peer. auth (identify forwarders peer)) in
      \<lparr> ch_public = GuardCreateUnary gate internal, ch_internal = internal \<rparr>)"

record server =
  sv_config :: config
  sv_peers :: peer_clients
  sv_creds :: creds
  sv_forwarders :: "string list"
  sv_auth :: interceptor

text \<open>
  \<open>TLSServerCreds\<close> of the library gives mutual TLS when it is enabled and nothing otherwise, or fails.
  \<open>chk\<close> is the client of the identity service's check, used when there is a connection to it.
\<close>

definition runServe ::
  "static_extractor \<Rightarrow> interceptor_maker \<Rightarrow> check_client \<Rightarrow> boot_env \<Rightarrow> config_error list + config \<Rightarrow> server option" where
  "runServe se icpt chk be loaded =
     (case loaded of
        Inl es \<Rightarrow> None
      | Inr c \<Rightarrow>
          if \<not> be_pool_ok be then None
          else (case dialPeers be c of
             None \<Rightarrow> None
           | Some peers \<Rightarrow>
               (case NewInterceptor se icpt \<lparr> co_check = (if pc_check peers then Some chk else None),
                       co_breakglass = az_breakglass (cf_authz c) \<rparr> of
                  Inl e \<Rightarrow> None
                | Inr auth \<Rightarrow>
                    if \<not> be_workers_ok be \<or> ml_server (cf_mtls c) \<and> \<not> be_server_creds_ok be \<or> \<not> be_listen_ok be
                    then None
                    else Some \<lparr> sv_config = c, sv_peers = peers,
                      sv_creds = (if ml_server (cf_mtls c) then CredsMTLS else CredsInsecure),
                      sv_forwarders = az_trusted_forwarders (cf_authz c), sv_auth = auth \<rparr>)))"

text \<open>\<^verbatim>\<open>registerGRPCServices\<close>: the services of the public server and those of the internal one, by their methods.\<close>

definition registerGRPCServices :: "(string \<Rightarrow> string) list \<times> (string \<Rightarrow> string) list" where
  "registerGRPCServices = ([operation_method, nlb_method, listener_method, tg_method], [lifecycle_method, announce_method])"

subsection \<open>Facts\<close>

text \<open>Every method of the table of permissions belongs to a registered service, and none of a public service to an
  internal one.\<close>

lemma operation_apart: "operation_method x \<noteq> lifecycle_method y" "operation_method x \<noteq> announce_method y"
  by (simp_all add: operation_method_def lifecycle_method_def announce_method_def)

lemma registered_methods:
  "(\<forall>m \<in> fst ` set (PermissionMap se). \<exists>f \<in> set (fst registerGRPCServices) \<union> set (snd registerGRPCServices). \<exists>x. m = f x)
   \<and> (\<forall>f \<in> set (fst registerGRPCServices). \<forall>g \<in> set (snd registerGRPCServices). \<forall>x y. f x \<noteq> g y)"
  by (auto simp: registerGRPCServices_def table_defs operation_apart)

lemma complain_nil [simp]: "complain e b = [] \<longleftrightarrow> \<not> b"
  by (simp add: complain_def)

text \<open>What a production configuration that passed the validation says.\<close>

lemma validated_production:
  assumes "Validate c = []" and "Mode c = Some ModeProduction"
  shows "ml_server (cf_mtls c)" "ml_iam_register (cf_mtls c)" "\<not> az_breakglass (cf_authz c)"
    "lf_enabled (az_list_filter (cf_authz c))" "\<not> lf_fail_open (az_list_filter (cf_authz c))"
    "az_trusted_forwarders (cf_authz c) \<noteq> []"
    "postgresSSLSecure (TrimSpace (pg_url (rp_postgres (cf_repository c))))"
    "\<forall>e \<in> set (peerEdges c). pe_addr e = '''' \<or> pe_secure e"
proof -
  have v: "validate_production c = []" and b: "\<not> az_breakglass (cf_authz c)"
    and u: "TrimSpace (pg_url (rp_postgres (cf_repository c))) \<noteq> ''''"
    using assms by (simp_all add: Validate_def validate_general_def Let_def)
  note p = v [unfolded validate_production_def Let_def append_is_Nil_conv complain_nil concat_eq_Nil_conv]
  show "ml_server (cf_mtls c)" "ml_iam_register (cf_mtls c)" "\<not> az_breakglass (cf_authz c)"
    "lf_enabled (az_list_filter (cf_authz c))" "\<not> lf_fail_open (az_list_filter (cf_authz c))"
    "az_trusted_forwarders (cf_authz c) \<noteq> []"
    "postgresSSLSecure (TrimSpace (pg_url (rp_postgres (cf_repository c))))"
    using p b u by blast+
  show "\<forall>e \<in> set (peerEdges c). pe_addr e = '''' \<or> pe_secure e"
    using p by simp
qed


lemma firstNonEmpty_pair:
  "TrimSpace (firstNonEmpty [a, b]) = (if TrimSpace a \<noteq> '''' then TrimSpace a else TrimSpace b)"
proof -
  have "TrimSpace [] = []" by (simp add: TrimSpace_def)
  then show ?thesis by simp
qed

lemma public_addr: "TrimSpace (firstNonEmpty [ee_addr e, ee_internal_addr e]) = edge_addr e"
  by (simp only: firstNonEmpty_pair edge_addr_def)

lemma private_addr:
  "TrimSpace (firstNonEmpty [ee_internal_addr e, ee_addr e]) \<noteq> '''' \<longleftrightarrow> edge_addr e \<noteq> ''''"
  by (simp add: firstNonEmpty_pair edge_addr_def del: firstNonEmpty.simps)

lemma production_edges:
  assumes "Validate c = []" and "Mode c = Some ModeProduction"
  shows "edge_addr (ea_vpc (cf_extapi c)) \<noteq> '''' \<Longrightarrow> ml_vpc (cf_mtls c) \<or> ee_tls (ea_vpc (cf_extapi c))"
    and "edge_addr (ea_compute (cf_extapi c)) \<noteq> '''' \<Longrightarrow> ml_compute (cf_mtls c) \<or> ee_tls (ea_compute (cf_extapi c))"
    and "edge_addr (ea_geo (cf_extapi c)) \<noteq> '''' \<Longrightarrow> ml_geo (cf_mtls c) \<or> ee_tls (ea_geo (cf_extapi c))"
    and "edge_addr (ea_iam (cf_extapi c)) \<noteq> '''' \<Longrightarrow> ml_iam_project (cf_mtls c) \<or> ee_tls (ea_iam (cf_extapi c))"
  using validated_production(8) [OF assms]
  by (simp_all only: peerEdges_def Let_def list.set ball_simps peer_edge.simps simp_thms)
text \<open>Every service that would be dialled has a protected transport.\<close>

lemma production_specs:
  assumes "Validate c = []" and "Mode c = Some ModeProduction" and "s \<in> set (peerDialSpecs c)"
    and "TrimSpace (ds_addr s) \<noteq> ''''"
  shows "ds_mtls s \<or> ds_tls s"
  using assms(3,4) production_edges [OF assms(1,2)] validated_production(2) [OF assms(1,2)]
  unfolding peerDialSpecs_def Let_def list.set insert_iff empty_iff
  by (elim disjE) (simp_all only: peer_dial_spec.simps public_addr private_addr simp_thms)

lemma dialOne_creds:
  "dialOne be c s = Some (Some cc) \<Longrightarrow> TrimSpace (ds_addr s) \<noteq> '''' \<and>
     cn_creds cc = (if ds_mtls s then CredsMTLS else buildCreds (ds_tls s))"
  by (auto simp: dialOne_def Build_def withDefaults_def Let_def split: if_splits)

lemma dial_all_conns:
  "dial_all be c ss = Some ds \<Longrightarrow> (n, Some cc) \<in> set ds \<Longrightarrow>
   \<exists>s \<in> set ss. ds_name s = n \<and> dialOne be c s = Some (Some cc)"
  by (induction ss arbitrary: ds) (fastforce split: option.splits)+

lemma buildCreds_secure: "b \<Longrightarrow> buildCreds b \<noteq> CredsInsecure"
  by (simp add: buildCreds_def)

lemma dialPeers_parts:
  assumes "dialPeers be c = Some peers"
  obtains ds where "dial_all be c (peerDialSpecs c) = Some ds" and "pc_conns peers = List.map_filter snd ds"
    and "pc_check peers \<longleftrightarrow> dialed_conn ds ''iam-internal'' \<noteq> None"
    and "pc_list_filter peers = buildListFilter c (dialed_conn ds ''iam-internal'')"
  using assms by (cases "dial_all be c (peerDialSpecs c)") (simp_all add: dialPeers_def Let_def, force)

text \<open>The connection that carries the checks has mutual TLS.\<close>

lemma production_check_conn:
  assumes "Validate c = []" and "Mode c = Some ModeProduction" and "dial_all be c (peerDialSpecs c) = Some ds"
    and "dialed_conn ds ''iam-internal'' = Some cc"
  shows "cn_creds cc = CredsMTLS"
proof -
  have "map_of ds ''iam-internal'' = Some (Some cc)"
    using assms(4) by (simp add: dialed_conn_def split: option.splits)
  from dial_all_conns [OF assms(3) map_of_SomeD [OF this]] obtain s
    where s: "s \<in> set (peerDialSpecs c)" "ds_name s = ''iam-internal''" and d: "dialOne be c s = Some (Some cc)"
    by blast
  from s have "ds_mtls s = ml_iam_register (cf_mtls c)"
    unfolding peerDialSpecs_def Let_def list.set insert_iff empty_iff by (elim disjE) simp_all
  then show ?thesis
    using dialOne_creds [OF d] validated_production(2) [OF assms(1,2)] by simp
qed

lemma production_conns:
  assumes "Validate c = []" and "Mode c = Some ModeProduction" and "dialPeers be c = Some peers"
    and "cc \<in> set (pc_conns peers)"
  shows "cn_creds cc \<noteq> CredsInsecure"
proof -
  obtain ds where ds: "dial_all be c (peerDialSpecs c) = Some ds" and "pc_conns peers = List.map_filter snd ds"
    using dialPeers_parts [OF assms(3)] by metis
  then obtain n where "(n, Some cc) \<in> set ds"
    using assms(4) by (auto simp: List.map_filter_def)
  then obtain s where s: "s \<in> set (peerDialSpecs c)" and d: "dialOne be c s = Some (Some cc)"
    using dial_all_conns [OF ds] by blast
  show ?thesis
    using dialOne_creds [OF d] production_specs [OF assms(1,2) s] buildCreds_secure [of "ds_tls s"] by auto
qed

lemma Load_valid: "Load read getenv path = Inr c \<Longrightarrow> Validate c = []"
  by (auto simp: Load_def Let_def split: option.splits if_splits)

lemma runServe_parts:
  assumes "runServe se icpt chk be (Inr c) = Some sv"
  obtains peers auth where "dialPeers be c = Some peers"
    and "NewInterceptor se icpt \<lparr> co_check = (if pc_check peers then Some chk else None),
           co_breakglass = az_breakglass (cf_authz c) \<rparr> = Inr auth"
    and "sv = \<lparr> sv_config = c, sv_peers = peers,
           sv_creds = (if ml_server (cf_mtls c) then CredsMTLS else CredsInsecure),
           sv_forwarders = az_trusted_forwarders (cf_authz c), sv_auth = auth \<rparr>"
  using assms by (auto simp: runServe_def split: option.splits sum.splits if_splits)

text \<open>Exactly the creations of the three resources wait for the identity service.\<close>

lemma gated_creates:
  "filter IsGatedCreate (map fst (PermissionMap se)) =
     [nlb_method ''Create'', listener_method ''Create'', tg_method ''Create'']"
  by code_simp

subsection \<open>Properties\<close>


text \<open>The defaults with what an operator has to say in production, and a file that has it.\<close>

definition prod_config :: config where
  "prod_config = RegisterDefaults
     \<lparr> cf_repository := \<lparr> rp_type = ''POSTGRES'', rp_postgres = \<lparr> pg_url = ''postgres://u@db/nlb?sslmode=verify-full'',
         pg_max_conns = 0, pg_conn_lifetime = 0, pg_slave_url = '''', pg_password_from_env = '''' \<rparr> \<rparr>,
       cf_extapi := (cf_extapi RegisterDefaults)
         \<lparr> ea_vpc := default_endpoint \<lparr> ee_addr := ''vpc:9090'', ee_tls := True \<rparr>,
           ea_iam := default_endpoint \<lparr> ee_addr := ''iam:9090'' \<rparr> \<rparr>,
       cf_authz := (cf_authz RegisterDefaults)
         \<lparr> az_iam := (az_iam (cf_authz RegisterDefaults)) \<lparr> ia_addr := ''iam:9091'' \<rparr>,
           az_trusted_forwarders := [''api-gateway''] \<rparr>,
       cf_mtls := (cf_mtls RegisterDefaults) \<lparr> ml_server := True, ml_iam_register := True, ml_iam_project := True \<rparr> \<rparr>"

definition plain_boot :: boot_env where
  "plain_boot = \<lparr> be_creds_ok = (\<lambda>n. True), be_dial = (\<lambda>opts c. True), be_server_creds_ok = True,
     be_pool_ok = True, be_workers_ok = True, be_listen_ok = True \<rparr>"

definition prod_server :: "config \<Rightarrow> server option" where
  "prod_server c = runServe plain_extractor plain_icpt grants plain_boot
     (Load (\<lambda>path d. Some c) (\<lambda>v. '''') '''')"


end
