(* ===== verification/Readiness.thy ===== *)
theory Readiness
  imports Composition
begin

text \<open>
  What runs beside the calls and when the process may take traffic: the background workers that are
  started (\<^verbatim>\<open>wiring.go\<close>, \<^verbatim>\<open>backstop.go\<close>), the backfill of the origin of old listeners
  (\<^verbatim>\<open>jobs/viporigin_reconcile.go\<close>), the supervisor and the readiness checks (\<^verbatim>\<open>observability.go\<close>,
  \<^verbatim>\<open>internal/observability/health\<close>), and the reader of the repair of owner tuples
  (\<^verbatim>\<open>repo/kacho/pg/fga_reconcile_adapter.go\<close>). The HTTP server, the metrics and the loops of the shared
  library (drainer, reconcilers, invalidator) are outside.
\<close>

subsection \<open>The origin of old listeners\<close>

text \<open>\<^verbatim>\<open>ListVIPOriginCandidates\<close>: a listener and its address.\<close>

definition ListVIPOriginCandidates :: "db \<Rightarrow> err + (string \<times> string) list" where
  "ListVIPOriginCandidates d =
     Inr (List.map_filter (\<lambda>r. case ls_address_id r of None \<Rightarrow> None
        | Some a \<Rightarrow> if a = '''' then None else Some (ls_id r, a)) (d_listeners d))"

definition SetVIPOrigin :: "string \<Rightarrow> vip_origin \<Rightarrow> unit tx" where
  "SetVIPOrigin i origin =
     tx_stmt (\<lambda>d. update_listener i (\<lambda>r. r \<lparr> ls_origin := origin, ls_updated := d_now d \<rparr>) d)"

definition deriveVIPOrigin :: "client_address \<Rightarrow> string \<Rightarrow> vip_origin" where
  "deriveVIPOrigin a i = (if ca_name a = ListenerAutoAddressName i then VipOriginAuto else VipOriginBYO)"

definition vip_err :: "string \<Rightarrow> err \<Rightarrow> err" where
  "vip_err what e = OtherErr (''vip_origin reconcile: '' @ what @ '': '' @ error_text e)"

fun reconcile_candidates :: "(string \<Rightarrow> err + client_address) \<Rightarrow> (string \<times> string) list \<Rightarrow> ('v, unit) saga" where
  "reconcile_candidates lookup [] = saga_return ()"
| "reconcile_candidates lookup ((i, a) # cs) =
     (case lookup a of
        Inl e \<Rightarrow> if is_err e ErrUnavailable then saga_fail (vip_err (''vpc unavailable for address '' @ a) e)
                 else reconcile_candidates lookup cs
      | Inr addr \<Rightarrow>
          saga_bind (saga_map_err (vip_err (''set '' @ i)) (run_tx (SetVIPOrigin i (deriveVIPOrigin addr i)))) (\<lambda>_.
            reconcile_candidates lookup cs))"

text \<open>Without a client of the network service there must be nothing to do.\<close>

definition Reconcile :: "(string \<Rightarrow> err + client_address) option \<Rightarrow> ('v, unit) saga" where
  "Reconcile client =
     saga_bind (saga_map_err (vip_err ''list candidates'') (run_read ListVIPOriginCandidates)) (\<lambda>cs.
       if cs = [] then saga_return ()
       else case client of
         None \<Rightarrow> saga_fail (OtherErr ''vip_origin reconcile: vpc address client not configured but listeners exist'')
       | Some lookup \<Rightarrow> reconcile_candidates lookup cs)"

text \<open>
  The supervised task: attempts until one succeeds or the process stops, here when the list of attempts
  ends (an attempt is what the client answers at that time). The result is the gate.
\<close>

fun runVIPOriginReconcile ::
  "(string \<Rightarrow> err + client_address) option list \<Rightarrow> 'v world \<Rightarrow> bool \<times> 'v world" where
  "runVIPOriginReconcile [] w = (False, w)"
| "runVIPOriginReconcile (client # rest) w =
     (case Reconcile client w of
        (Inr u, w1) \<Rightarrow> (True, w1)
      | (Inl e, w1) \<Rightarrow> runVIPOriginReconcile rest w1)"

subsection \<open>Readiness\<close>

text \<open>A check answers or takes longer than its budget.\<close>

datatype check_outcome = Answered "err option" | TimedOut

definition runChecker :: "check_outcome \<Rightarrow> bool" where
  "runChecker c = (case c of Answered None \<Rightarrow> True | _ \<Rightarrow> False)"

text \<open>The checks run at the same time; \<open>arrival\<close> is the order in which they finish, which is also what the
  observer is told.\<close>

type_synonym checkers = "(string \<times> check_outcome) list"

definition results :: "(checkers \<Rightarrow> checkers) \<Rightarrow> checkers \<Rightarrow> (string \<times> bool) list" where
  "results arrival cs = map (\<lambda>(n, c). (n, runChecker c)) (arrival cs)"

definition Evaluate :: "(checkers \<Rightarrow> checkers) \<Rightarrow> checkers \<Rightarrow> bool \<times> string list" where
  "Evaluate arrival cs =
     (let up = map_of (rev (results arrival cs));
          down = map fst (filter (\<lambda>(n, c). up n \<noteq> Some True) cs) in
      (down = [], down))"

datatype ready_response = ReadyOK | NotReady "string list" | ShuttingDown

definition ReadyHandler :: "bool \<Rightarrow> (checkers \<Rightarrow> checkers) \<Rightarrow> checkers \<Rightarrow> ready_response" where
  "ReadyHandler shutting arrival cs =
     (if shutting then ShuttingDown
      else case Evaluate arrival cs of (ready, down) \<Rightarrow> if ready then ReadyOK else NotReady down)"

definition LiveHandler :: "bool \<Rightarrow> bool" where
  "LiveHandler shutting \<longleftrightarrow> \<not> shutting"

definition buildReadinessCheckers :: "check_outcome \<Rightarrow> bool \<Rightarrow> bool \<Rightarrow> bool \<Rightarrow> checkers" where
  "buildReadinessCheckers ping gate_ready lro_ready vip_ready =
     [(''database'', ping),
      (''register-drainer'', Answered (if gate_ready then None
         else Some (OtherErr ''register-drainer not connected to kacho-iam''))),
      (''lro-worker'', Answered (if lro_ready then None else Some (OtherErr ''LRO dispatcher loop not running''))),
      (''vip-origin-reconcile'', Answered (if vip_ready then None
         else Some (OtherErr ''vip_origin boot reconcile not complete'')))]"

subsection \<open>The background workers\<close>

text \<open>The constructors of the two runners replace what the validation refuses.\<close>

definition NewTargetDrainRunner :: "int \<Rightarrow> int" where
  "NewTargetDrainRunner interval = (if interval \<le> 0 then 10 * second else interval)"

definition NewFreeIPRunner :: "int \<Rightarrow> int \<Rightarrow> int \<times> int" where
  "NewFreeIPRunner interval age =
     (if interval \<le> 0 then 30 * second else interval, if age \<le> 0 then 300 * second else age)"

text \<open>
  What the construction of the drainer and of its backstop answer is given. The result is the workers and
  whether the boot gate was opened.
\<close>

definition startBackstop :: "err option \<Rightarrow> err + string list" where
  "startBackstop e = (case e of Some e \<Rightarrow> Inl e | None \<Rightarrow> Inr [''fga-register-reconciler'', ''outbox-metrics-collector''])"

definition assembleBackgroundWorkers ::
  "config \<Rightarrow> peer_clients \<Rightarrow> err option \<Rightarrow> err option \<Rightarrow> err + string list \<times> bool" where
  "assembleBackgroundWorkers c peers drainer_err backstop_err =
     (let li = az_listen_invalidator (cf_authz c);
          first = [''lro-reconciler'', ''target-drain'']
            @ (if pc_internal_address peers then [''free-ip-runner''] else [])
            @ (if li_enable li \<and> TrimSpace (li_iam_dsn li) \<noteq> '''' then [''authz-listen-invalidator''] else [])
      in if rd_enable (fa_register_drainer (cf_fga c)) \<and> pc_register peers
         then (case drainer_err of
             Some e \<Rightarrow> Inl e
           | None \<Rightarrow> attempt (startBackstop backstop_err) (\<lambda>back.
               Inr (first @ [''fga-register-drainer''] @ back @ [''vip-origin-reconcile''], True)))
         else Inr (first @ [''vip-origin-reconcile''], False))"

text \<open>\<^verbatim>\<open>superviseBackground\<close>: the error a worker's end means, and whether it stops the process.\<close>

definition superviseBackground :: "bool \<Rightarrow> string \<Rightarrow> err option \<Rightarrow> err option \<times> bool" where
  "superviseBackground stopping name r =
     (if stopping then (None, False)
      else (Some (case r of Some e \<Rightarrow> OtherErr (name @ '': '' @ error_text e)
                  | None \<Rightarrow> OtherErr (name @ '' exited unexpectedly'')), True))"

subsection \<open>The readers of the repair of owner tuples\<close>

definition nlbResourceTables :: "(string \<times> (db \<Rightarrow> (string \<times> string) list)) list" where
  "nlbResourceTables =
     [(''NetworkLoadBalancer'', \<lambda>d. map (\<lambda>r. (lb_id r, lb_project r)) (d_lbs d)),
      (''Listener'', \<lambda>d. map (\<lambda>r. (ls_id r, ls_project r)) (d_listeners d)),
      (''TargetGroup'', \<lambda>d. map (\<lambda>r. (tg_id r, tg_project r)) (d_tgs d))]"

text \<open>Each table is read by a statement of its own, in the state it finds.\<close>

definition ListResources :: "(string \<Rightarrow> db) \<Rightarrow> (string \<times> string \<times> string) list" where
  "ListResources seen = concat (map (\<lambda>(k, rows). map (\<lambda>(i, p). (k, i, p)) (rows (seen k))) nlbResourceTables)"

definition ResourceExists :: "db \<Rightarrow> string \<Rightarrow> string \<Rightarrow> bool" where
  "ResourceExists d k i =
     (case map_of nlbResourceTables k of None \<Rightarrow> False | Some rows \<Rightarrow> i \<in> fst ` set (rows d))"

text \<open>\<^verbatim>\<open>DISTINCT ON (resource_id) ... ORDER BY resource_id, id DESC\<close> among the sent rows.\<close>

fun newest_per_id :: "fga_row list \<Rightarrow> fga_row list" where
  "newest_per_id [] = []"
| "newest_per_id (r # rs) = r # newest_per_id (filter (\<lambda>x. fi_resource (fg_intent x) \<noteq> fi_resource (fg_intent r)) rs)"

definition outbox_before :: "fga_row \<Rightarrow> fga_row \<Rightarrow> bool" where
  "outbox_before a b \<longleftrightarrow>
     string_less (fi_resource (fg_intent a)) (fi_resource (fg_intent b))
     \<or> fi_resource (fg_intent a) = fi_resource (fg_intent b) \<and> fg_seq b \<le> fg_seq a"

definition ListRegistered :: "(fga_row \<Rightarrow> bool) \<Rightarrow> db \<Rightarrow> (string \<times> string) list" where
  "ListRegistered sent d =
     map (\<lambda>r. (fi_kind (fg_intent r), fi_resource (fg_intent r)))
       (filter (\<lambda>r. fg_event r = FGAEventRegister)
         (newest_per_id (isort outbox_before (filter (\<lambda>r. fi_resource (fg_intent r) \<noteq> '''' \<and> sent r) (d_fga d)))))"

subsection \<open>Facts\<close>

text \<open>A validated configuration reaches the runners as it is.\<close>

lemma runners_as_configured:
  assumes "Validate c = []"
  shows "NewTargetDrainRunner (td_interval (jb_target_drain (cf_jobs c))) = td_interval (jb_target_drain (cf_jobs c))"
    and "NewFreeIPRunner (fr_interval (jb_free_ip (cf_jobs c))) (fr_age_threshold (jb_free_ip (cf_jobs c)))
      = (fr_interval (jb_free_ip (cf_jobs c)), fr_age_threshold (jb_free_ip (cf_jobs c)))"
  using assms by (auto simp: Validate_def Let_def NewTargetDrainRunner_def NewFreeIPRunner_def)

text \<open>A listener without what the backfill writes.\<close>

definition stripped :: "listener_row \<Rightarrow> listener_row" where
  "stripped r = r \<lparr> ls_origin := VipOriginAuto, ls_updated := 0, ls_xmin := 0 \<rparr>"

definition same_but_origin :: "db \<Rightarrow> db \<Rightarrow> bool" where
  "same_but_origin d d' \<longleftrightarrow> d_lbs d' = d_lbs d \<and> d_tgs d' = d_tgs d \<and> d_targets d' = d_targets d
     \<and> d_attached d' = d_attached d \<and> map stripped (d_listeners d') = map stripped (d_listeners d)"

lemma same_but_origin_trans: "same_but_origin a b \<Longrightarrow> same_but_origin b c \<Longrightarrow> same_but_origin a c"
  by (simp add: same_but_origin_def)

lemma quiet_run:
  assumes "w_slots w = []"
  shows "run_tx body w = (case body (begin_tx w) of Inl e \<Rightarrow> (Inl e, w \<lparr> w_db := begin_tx w \<rparr>)
      | Inr (x, d') \<Rightarrow> (Inr x, w \<lparr> w_db := d' \<rparr>))"
    and "run_read get w = (get (begin_tx w), w \<lparr> w_db := begin_tx w \<rparr>)"
    and "begin_tx w = w_db w \<lparr> d_tx := Suc (d_tx (w_db w)) \<rparr>"
  using assms by (simp_all add: run_tx_def run_read_def begin_tx_def next_slot_def quiet_def settle_def Let_def
      split: sum.splits prod.splits)

lemma SetVIPOrigin_effect:
  assumes "SetVIPOrigin i origin d = Inr (u, d')"
  shows "same_but_origin d d'"
    and "\<forall>r \<in> set (d_listeners d'). if ls_id r = i then ls_origin r = origin else r \<in> set (d_listeners d)"
proof -
  let ?g = "\<lambda>r. r \<lparr> ls_origin := origin, ls_updated := d_now d, ls_xmin := d_tx d \<rparr>"
  have "d' = d \<lparr> d_listeners := tbl_upd ls_id i ?g (d_listeners d) \<rparr>"
    using assms by (auto simp: SetVIPOrigin_def tx_stmt_def update_listener_def Let_def tbl_upd_absent
        split: option.splits if_splits)
  then show "same_but_origin d d'"
    "\<forall>r \<in> set (d_listeners d'). if ls_id r = i then ls_origin r = origin else r \<in> set (d_listeners d)"
    by (auto simp: same_but_origin_def tbl_upd_def stripped_def)
qed

lemma same_but_origin_tx: "same_but_origin d d' \<Longrightarrow> same_but_origin d (d' \<lparr> d_tx := n \<rparr>)"
  "same_but_origin (d \<lparr> d_tx := n \<rparr>) d' \<longleftrightarrow> same_but_origin d d'" "same_but_origin d d"
  by (simp_all add: same_but_origin_def)

lemma candidates_keep:
  assumes "w_slots w = []" and "reconcile_candidates lookup cs w = (r, w')"
  shows "w_slots w' = [] \<and> same_but_origin (w_db w) (w_db w')"
  using assms
proof (induction cs arbitrary: w)
  case Nil
  then show ?case by (simp add: saga_return_def same_but_origin_tx)
next
  case (Cons c cs)
  obtain i a where c: "c = (i, a)" by fastforce
  show ?case
  proof (cases "lookup a")
    case (Inl e)
    with Cons c show ?thesis by (auto simp: saga_fail_def same_but_origin_tx split: if_splits)
  next
    case (Inr addr)
    let ?tx = "SetVIPOrigin i (deriveVIPOrigin addr i)"
    show ?thesis
    proof (cases "?tx (begin_tx w)")
      case (Inl e)
      with Cons.prems Inr c show ?thesis
        by (auto simp: saga_bind_def saga_map_err_def quiet_run same_but_origin_tx)
    next
      case s: (Inr p)
      obtain d' where p: "p = ((), d')" by (cases p) auto
      from Cons.prems Inr c s p have r: "reconcile_candidates lookup cs (w \<lparr> w_db := d' \<rparr>) = (r, w')"
        by (simp add: saga_bind_def saga_map_err_def quiet_run)
      have "same_but_origin (w_db w) d'"
        using SetVIPOrigin_effect(1) [OF s [unfolded p]] Cons.prems(1) by (simp add: quiet_run(3) same_but_origin_tx)
      with Cons.IH [OF _ r] Cons.prems(1) show ?thesis by (auto intro: same_but_origin_trans)
    qed
  qed
qed

text \<open>What a row must be when its lookup is over.\<close>

definition backfilled :: "(string \<Rightarrow> err + client_address) \<Rightarrow> string \<Rightarrow> listener_row \<Rightarrow> bool" where
  "backfilled lookup a r \<longleftrightarrow>
     (case lookup a of Inr addr \<Rightarrow> ls_origin r = deriveVIPOrigin addr (ls_id r) | Inl e \<Rightarrow> \<not> is_err e ErrUnavailable)"

lemma candidates_done:
  assumes "w_slots w = []" and "reconcile_candidates lookup cs w = (Inr u, w')" and "distinct (map fst cs)"
    and "r \<in> set (d_listeners (w_db w'))"
  shows "(ls_id r \<notin> fst ` set cs \<longrightarrow> r \<in> set (d_listeners (w_db w)))
    \<and> (\<forall>a. (ls_id r, a) \<in> set cs \<longrightarrow> backfilled lookup a r)"
  using assms
proof (induction cs arbitrary: w)
  case Nil
  then show ?case by (simp add: saga_return_def)
next
  case (Cons c cs)
  obtain i a where c: "c = (i, a)" by fastforce
  show ?case
  proof (cases "lookup a")
    case (Inl e)
    with Cons.prems c have e: "\<not> is_err e ErrUnavailable" and rest: "reconcile_candidates lookup cs w = (Inr u, w')"
      by (auto simp: saga_fail_def split: if_splits)
    from Cons.IH [OF Cons.prems(1) rest] Cons.prems(3,4) e Inl c show ?thesis
      by (auto simp: backfilled_def image_iff)
  next
    case (Inr addr)
    let ?tx = "SetVIPOrigin i (deriveVIPOrigin addr i)"
    from Cons.prems Inr c obtain v d' where s: "?tx (begin_tx w) = Inr (v, d')"
      by (cases "?tx (begin_tx w)") (auto simp: saga_bind_def saga_map_err_def quiet_run)
    from Cons.prems Inr c s have rest: "reconcile_candidates lookup cs (w \<lparr> w_db := d' \<rparr>) = (Inr u, w')"
      by (simp add: saga_bind_def saga_map_err_def quiet_run)
    have one: "if ls_id x = i then ls_origin x = deriveVIPOrigin addr i else x \<in> set (d_listeners (w_db w))"
      if "x \<in> set (d_listeners d')" for x
      using SetVIPOrigin_effect(2) [OF s] that Cons.prems(1) by (auto simp: quiet_run(3))
    from Cons.IH [OF _ rest] Cons.prems(1,3,4) have ih:
      "ls_id r \<notin> fst ` set cs \<Longrightarrow> r \<in> set (d_listeners d')" "\<And>b. (ls_id r, b) \<in> set cs \<Longrightarrow> backfilled lookup b r"
      by auto
    show ?thesis
    proof (cases "ls_id r = i")
      case True
      with Cons.prems(3) c have "ls_id r \<notin> fst ` set cs" by auto
      with one [OF ih(1)] True Inr c show ?thesis by (force simp: backfilled_def)
    next
      case False
      with one [OF ih(1)] ih(2) c show ?thesis by auto
    qed
  qed
qed

text \<open>The candidates do not depend on what the backfill writes.\<close>

definition candidate :: "listener_row \<Rightarrow> (string \<times> string) option" where
  "candidate r = (case ls_address_id r of None \<Rightarrow> None | Some a \<Rightarrow> if a = '''' then None else Some (ls_id r, a))"

lemma ListVIPOriginCandidates_candidates:
  "ListVIPOriginCandidates d = Inr (List.map_filter candidate (map stripped (d_listeners d)))"
proof -
  have "candidate (stripped r) = candidate r" for r
    by (simp add: candidate_def stripped_def split: option.splits)
  then show ?thesis
    by (simp add: ListVIPOriginCandidates_def map_filter_def comp_def filter_map candidate_def)
qed

lemma ids_kept: "same_but_origin d d' \<Longrightarrow> map ls_id (d_listeners d') = map ls_id (d_listeners d)"
proof -
  assume "same_but_origin d d'"
  then have "map ls_id (map stripped (d_listeners d')) = map ls_id (map stripped (d_listeners d))"
    by (simp add: same_but_origin_def del: map_map)
  then show ?thesis by (simp add: comp_def stripped_def)
qed

lemma candidates_distinct:
  assumes "distinct (map ls_id rs)"
  shows "distinct (map fst (List.map_filter candidate (map stripped rs)))"
  using assms
proof (induction rs)
  case (Cons r rs)
  have *: "fst p = ls_id x" if "candidate (stripped x) = Some p" for x p
    using that by (auto simp: candidate_def stripped_def split: option.splits if_splits)
  then have "fst ` set (List.map_filter candidate (map stripped rs)) \<subseteq> ls_id ` set rs"
    by (force simp: map_filter_def)
  with Cons show ?case
    by (cases "candidate (stripped r)") (auto simp: map_filter_simps * dest: subsetD)
qed (simp add: map_filter_simps)
lemma Reconcile_keeps:
  assumes "w_slots w = []" and "Reconcile client w = (r, w')"
  shows "w_slots w' = [] \<and> same_but_origin (w_db w) (w_db w')"
proof -
  have start: "same_but_origin (w_db w) (begin_tx w)" by (simp add: quiet_run(3) [OF assms(1)] same_but_origin_tx)
  let ?w = "w \<lparr> w_db := begin_tx w \<rparr>"
  have "w' = ?w \<or> (\<exists>lookup cs r'. reconcile_candidates lookup cs ?w = (r', w'))"
    using assms by (auto simp: Reconcile_def saga_bind_def saga_map_err_def quiet_run ListVIPOriginCandidates_def
        saga_return_def saga_fail_def split: if_splits option.splits)
  then show ?thesis
  proof
    assume "w' = ?w"
    with start assms(1) show ?thesis by simp
  next
    assume "\<exists>lookup cs r'. reconcile_candidates lookup cs ?w = (r', w')"
    then obtain lookup cs r' where "reconcile_candidates lookup cs ?w = (r', w')" by blast
    from candidates_keep [OF _ this] assms(1) start show ?thesis
      by (auto intro: same_but_origin_trans)
  qed
qed

lemma Reconcile_done:
  assumes "w_slots w = []" and "Reconcile client w = (Inr u, w')" and "distinct (map ls_id (d_listeners (w_db w)))"
    and "r \<in> set (d_listeners (w_db w'))" and "ls_address_id r = Some a" and "a \<noteq> ''''"
  shows "\<exists>lookup. client = Some lookup \<and> backfilled lookup a r"
proof -
  let ?cs = "List.map_filter candidate (map stripped (d_listeners (w_db w)))"
  let ?w = "w \<lparr> w_db := begin_tx w \<rparr>"
  have cs: "ListVIPOriginCandidates (begin_tx w) = Inr ?cs"
    by (simp add: ListVIPOriginCandidates_candidates quiet_run(3) [OF assms(1)])
  have same: "map stripped (d_listeners (w_db w')) = map stripped (d_listeners (w_db w))"
    using Reconcile_keeps [OF assms(1,2)] by (simp add: same_but_origin_def)
  have "candidate (stripped r) = Some (ls_id r, a)"
    using assms(5,6) by (simp add: candidate_def stripped_def)
  moreover have "stripped r \<in> set (map stripped (d_listeners (w_db w)))"
    unfolding same [symmetric] using assms(4) by simp
  ultimately have mem: "(ls_id r, a) \<in> set ?cs" by (force simp: map_filter_def)
  then have "?cs \<noteq> []" by auto
  with assms(2) cs obtain lookup where l: "client = Some lookup" and go: "reconcile_candidates lookup ?cs ?w = (Inr u, w')"
    by (auto simp: Reconcile_def saga_bind_def saga_map_err_def quiet_run assms(1) saga_fail_def split: option.splits)
  from candidates_done [OF _ go candidates_distinct [OF assms(3)] assms(4)] assms(1) mem l show ?thesis by auto
qed

lemma attempts_done:
  assumes "w_slots w = []" and "runVIPOriginReconcile attempts w = (opened, w')"
    and "distinct (map ls_id (d_listeners (w_db w)))"
  shows "same_but_origin (w_db w) (w_db w') \<and> (opened \<longrightarrow> (\<exists>client \<in> set attempts. \<forall>r \<in> set (d_listeners (w_db w')). \<forall>a.
    ls_address_id r = Some a \<longrightarrow> a \<noteq> '''' \<longrightarrow> (\<exists>lookup. client = Some lookup \<and> backfilled lookup a r)))"
  using assms
proof (induction attempts arbitrary: w)
  case Nil
  then show ?case by (simp add: same_but_origin_tx)
next
  case (Cons client rest)
  obtain res w1 where r: "Reconcile client w = (res, w1)" by fastforce
  note kept = Reconcile_keeps [OF Cons.prems(1) r]
  show ?case
  proof (cases res)
    case (Inl e)
    with Cons.prems(2) r have "runVIPOriginReconcile rest w1 = (opened, w')" by simp
    from Cons.IH [OF conjunct1 [OF kept] this] ids_kept [OF conjunct2 [OF kept]] Cons.prems(3)
    have *: "same_but_origin (w_db w1) (w_db w')" and **: "opened \<longrightarrow> (\<exists>client \<in> set rest. \<forall>r \<in> set (d_listeners (w_db w')). \<forall>a.
      ls_address_id r = Some a \<longrightarrow> a \<noteq> '''' \<longrightarrow> (\<exists>lookup. client = Some lookup \<and> backfilled lookup a r))" by simp_all
    have "same_but_origin (w_db w) (w_db w')" by (rule same_but_origin_trans [OF conjunct2 [OF kept] *])
    with ** show ?thesis by simp
  next
    case (Inr u)
    with Cons.prems(2) r have w': "w' = w1" by simp
    have "\<forall>r \<in> set (d_listeners (w_db w')). \<forall>a. ls_address_id r = Some a \<longrightarrow> a \<noteq> '''' \<longrightarrow>
        (\<exists>lookup. client = Some lookup \<and> backfilled lookup a r)"
      using Reconcile_done [OF Cons.prems(1) r [unfolded Inr] Cons.prems(3)] w' by blast
    with kept w' show ?thesis by auto
  qed
qed

lemma Evaluate_ready:
  assumes "distinct (map fst cs)" and "set (arrival cs) = set cs"
  shows "fst (Evaluate arrival cs) \<longleftrightarrow> (\<forall>(n, c) \<in> set cs. runChecker c)"
proof -
  let ?up = "map_of (rev (results arrival cs))"
  have set: "set (rev (results arrival cs)) = (\<lambda>(n, c). (n, runChecker c)) ` set cs"
    by (simp add: results_def assms(2))
  have "?up n = Some (runChecker c)" if "(n, c) \<in> set cs" for n c
  proof -
    have "n \<in> fst ` set (rev (results arrival cs))" using that unfolding set by force
    then obtain b where b: "?up n = Some b" by (metis (no_types) map_of_eq_None_iff option.exhaust)
    then have "(n, b) \<in> (\<lambda>(n, c). (n, runChecker c)) ` set cs" using set by (metis map_of_SomeD)
    then obtain c' where "(n, c') \<in> set cs" and "b = runChecker c'" by auto
    moreover from this that assms(1) have "c' = c" by (auto dest: eq_key_imp_eq_value)
    ultimately show ?thesis using b by simp
  qed
  then show ?thesis by (auto simp: Evaluate_def Let_def filter_empty_conv)
qed

lemma ReadyHandler_ready:
  assumes "\<forall>cs. set (arrival cs) = set cs"
  shows "ReadyHandler shutting arrival (buildReadinessCheckers ping gate_ready lro_ready vip_ready) = ReadyOK
    \<longleftrightarrow> \<not> shutting \<and> ping = Answered None \<and> gate_ready \<and> lro_ready \<and> vip_ready"
proof -
  let ?cs = "buildReadinessCheckers ping gate_ready lro_ready vip_ready"
  have "fst (Evaluate arrival ?cs) \<longleftrightarrow> (\<forall>(n, c) \<in> set ?cs. runChecker c)"
    using assms by (intro Evaluate_ready) (simp_all add: buildReadinessCheckers_def)
  also have "\<dots> \<longleftrightarrow> ping = Answered None \<and> gate_ready \<and> lro_ready \<and> vip_ready"
    by (auto simp: buildReadinessCheckers_def runChecker_def split: check_outcome.splits option.splits)
  finally show ?thesis by (auto simp: ReadyHandler_def split: prod.splits)
qed

subsection \<open>The property\<close>

text \<open>C21: A process that reports itself ready is connected to its database and to the register queue, resolves
  operations, is not stopping, and has backfilled: one attempt went through the listeners and every listener
  with an address has the origin its address's name tells, unless the lookup of the address was refused for
  another reason than an outage; nothing else of the database has changed.\<close>
theorem ready_backfilled:
  assumes "w_slots w = []" and "distinct (map ls_id (d_listeners (w_db w)))"
    and "runVIPOriginReconcile attempts w = (opened, w')" and "\<forall>cs. set (arrival cs) = set cs"
    and "ReadyHandler shutting arrival (buildReadinessCheckers ping gate_ready lro_ready opened) = ReadyOK"
  shows "\<not> shutting \<and> ping = Answered None \<and> gate_ready \<and> lro_ready \<and> same_but_origin (w_db w) (w_db w')
    \<and> (\<exists>client \<in> set attempts. \<forall>r \<in> set (d_listeners (w_db w')). \<forall>a. ls_address_id r = Some a \<longrightarrow> a \<noteq> '''' \<longrightarrow>
        (\<exists>lookup. client = Some lookup \<and> backfilled lookup a r))"
  using attempts_done [OF assms(1,3,2)] assms(5) unfolding ReadyHandler_ready [OF assms(4)] by blast

definition old_address :: client_address where
  "old_address = \<lparr> ca_id = ''ad1'', ca_project = ''p1'', ca_name = ''customer'', ca_value = ''203.0.113.7'',
     ca_family = ''IPV4'', ca_external = True, ca_subnet = '''', ca_used_by = None \<rparr>"

definition old_attempts :: "(string \<Rightarrow> err + client_address) option list" where
  "old_attempts = [None, Some (\<lambda>a. Inl (Sentinel ErrUnavailable)), Some (\<lambda>a. Inr old_address)]"

definition old_world :: "string list world" where
  "old_world = listening_world \<lparr> w_db := stopped_db \<lparr> d_listeners :=
     [(new_listener_row empty_db sample_lb second_listener) \<lparr> ls_address_id := Some ''ad1'' \<rparr>] \<rparr> \<rparr>"

theorem ready_backfilled_witness:
  "(\<exists>w'. runVIPOriginReconcile old_attempts old_world = (True, w')
     \<and> ReadyHandler False rev (buildReadinessCheckers (Answered None) True True True) = ReadyOK
     \<and> same_but_origin (w_db old_world) (w_db w')
     \<and> map (\<lambda>r. ls_origin r) (d_listeners (w_db w')) = [VipOriginBYO])"
proof -
  let ?run = "runVIPOriginReconcile old_attempts old_world"
  have f: "fst ?run" "map (\<lambda>r. ls_origin r) (d_listeners (w_db (snd ?run))) = [VipOriginBYO]" by code_simp+
  then have run: "?run = (True, snd ?run)" by (metis prod.collapse)
  have quiet: "w_slots old_world = []" by (simp add: old_world_def listening_world_def)
  have ids: "distinct (map ls_id (d_listeners (w_db old_world)))" by code_simp
  have ready: "ReadyHandler False rev (buildReadinessCheckers (Answered None) True True True) = ReadyOK" by code_simp
  have order: "\<forall>cs :: checkers. set (rev cs) = set cs" by simp
  note all = ready_backfilled [OF quiet ids run order ready]
  have "same_but_origin (w_db old_world) (w_db (snd ?run))"
    by (rule all [THEN conjunct2, THEN conjunct2, THEN conjunct2, THEN conjunct2, THEN conjunct1])
  then show ?thesis by (intro exI [of _ "snd ?run"] conjI run ready f(2))
qed

end
