(* ===== verification/Shutdown.thy ===== *)
theory Shutdown
  imports Readiness
begin

text \<open>
  The life of the process after its start (\<^verbatim>\<open>runServe\<close>, second half): the tasks of the group, the one-time
  shutdown that any of them may trigger, the graceful stop of both servers with its deadline, and the
  end. An event is one thing that happens; \<^verbatim>\<open>proc_step\<close> says what it changes, \<^verbatim>\<open>None\<close> that it cannot happen.
\<close>

subsection \<open>Tasks and state\<close>

datatype task = Worker string | Diagnostic | ServeInternal | ServePublic | ShutdownWaiter

text \<open>A task runs, waits inside the trigger (with the error it will return), or has returned.\<close>

datatype task_state = Running | InTrigger "err option" | Returned "err option"

datatype server_state = Accepting | Stopping | Stopped

text \<open>The body of the \<^verbatim>\<open>sync.Once\<close>: not begun, waiting for the internal server, for the public one, over.\<close>

datatype once = OnceIdle | OnceInternal | OncePublic | OnceOver

text \<open>The body goes through its stages in this order.\<close>

fun once_stage :: "once \<Rightarrow> nat" where
  "once_stage OnceIdle = 0"
| "once_stage OnceInternal = 1"
| "once_stage OncePublic = 2"
| "once_stage OnceOver = 3"

instantiation once :: linorder
begin

definition less_eq_once :: "once \<Rightarrow> once \<Rightarrow> bool" where
  "less_eq_once a b \<longleftrightarrow> once_stage a \<le> once_stage b"

definition less_once :: "once \<Rightarrow> once \<Rightarrow> bool" where
  "less_once a b \<longleftrightarrow> once_stage a < once_stage b"

instance
proof
  fix a b :: once
  show "a \<le> b \<Longrightarrow> b \<le> a \<Longrightarrow> a = b" by (cases a; cases b) (simp_all add: less_eq_once_def)
qed (auto simp: less_eq_once_def less_once_def)

end

record proc =
  ps_signalled :: bool
  ps_ctx :: bool
  ps_shutting :: bool
  ps_once :: once
  ps_internal :: server_state
  ps_public :: server_state
  ps_internal_calls :: nat
  ps_public_calls :: nat
  ps_diag_open :: bool
  ps_tasks :: "(task \<times> task_state) list"
  ps_first :: "err option"

text \<open>The group when all its tasks have been started; the diagnostic task is there when it has an address.\<close>

definition start_tasks :: "string list \<Rightarrow> bool \<Rightarrow> proc" where
  "start_tasks workers diag =
     \<lparr> ps_signalled = False, ps_ctx = False, ps_shutting = False, ps_once = OnceIdle,
       ps_internal = Accepting, ps_public = Accepting, ps_internal_calls = 0, ps_public_calls = 0, ps_diag_open = diag,
       ps_tasks = map (\<lambda>w. (Worker w, Running)) workers @ (if diag then [(Diagnostic, Running)] else [])
         @ [(ServeInternal, Running), (ServePublic, Running), (ShutdownWaiter, Running)],
       ps_first = None \<rparr>"

definition set_task :: "task \<Rightarrow> task_state \<Rightarrow> proc \<Rightarrow> proc" where
  "set_task t x s = s \<lparr> ps_tasks := map (\<lambda>(u, y). (u, if u = t then x else y)) (ps_tasks s) \<rparr>"

definition task_is :: "proc \<Rightarrow> task \<Rightarrow> task_state \<Rightarrow> bool" where
  "task_is s t x \<longleftrightarrow> (t, x) \<in> set (ps_tasks s)"

text \<open>A task returns to the group, which keeps the first error.\<close>

definition give_back :: "task \<Rightarrow> err option \<Rightarrow> proc \<Rightarrow> proc" where
  "give_back t r s =
     (set_task t (Returned r) s) \<lparr> ps_first := (case ps_first s of Some e \<Rightarrow> Some e | None \<Rightarrow> r) \<rparr>"

text \<open>
  \<^verbatim>\<open>triggerShutdown\<close>: the first caller turns readiness off, cancels the context and asks the internal server to
  stop; every caller waits until that is over.
\<close>

definition triggerShutdown :: "proc \<Rightarrow> proc" where
  "triggerShutdown s =
     (if ps_once s = OnceIdle
      then s \<lparr> ps_shutting := True, ps_ctx := True, ps_once := OnceInternal, ps_internal := Stopping \<rparr>
      else s)"

datatype proc_event =
  Signal
| WorkerReturns string "err option"
| DiagnosticFails err
| DiagnosticEnds
| InternalFails err
| InternalEnds
| PublicFails err
| PublicEnds
| WaiterWakes
| InternalStopped
| PublicStopped
| StopTimeout
| TriggerReturns task
| CallArrives bool
| CallEnds bool

definition fails :: "task \<Rightarrow> err \<Rightarrow> proc \<Rightarrow> proc option" where
  "fails t e s =
     (if task_is s t Running then Some (set_task t (InTrigger (Some e)) (triggerShutdown s)) else None)"

definition ends :: "task \<Rightarrow> bool \<Rightarrow> proc \<Rightarrow> proc option" where
  "ends t ok s = (if task_is s t Running \<and> ok then Some (give_back t None s) else None)"

fun proc_step :: "proc_event \<Rightarrow> proc \<Rightarrow> proc option" where
  "proc_step Signal s = Some (s \<lparr> ps_signalled := True, ps_ctx := True \<rparr>)"
| "proc_step (WorkerReturns w r) s =
     (case superviseBackground (ps_ctx s) w r of
        (Some e, True) \<Rightarrow> fails (Worker w) e s
      | (x, _) \<Rightarrow> ends (Worker w) True s)"
| "proc_step (DiagnosticFails e) s =
     fails Diagnostic (OtherErr (''diagnostic listener: '' @ error_text e)) s"
| "proc_step DiagnosticEnds s = ends Diagnostic (\<not> ps_diag_open s) s"
| "proc_step (InternalFails e) s = fails ServeInternal (OtherErr (''internal grpc: '' @ error_text e)) s"
| "proc_step InternalEnds s = ends ServeInternal (ps_internal s \<noteq> Accepting) s"
| "proc_step (PublicFails e) s = fails ServePublic (OtherErr (''public grpc: '' @ error_text e)) s"
| "proc_step PublicEnds s = ends ServePublic (ps_public s \<noteq> Accepting) s"
| "proc_step WaiterWakes s =
     (if task_is s ShutdownWaiter Running \<and> (ps_ctx s \<or> ps_once s \<noteq> OnceIdle)
      then Some (set_task ShutdownWaiter (InTrigger None) (triggerShutdown s)) else None)"
| "proc_step InternalStopped s =
     (if ps_once s = OnceInternal \<and> ps_internal_calls s = 0
      then Some (s \<lparr> ps_once := OncePublic, ps_internal := Stopped, ps_public := Stopping \<rparr>) else None)"
| "proc_step PublicStopped s =
     (if ps_once s = OncePublic \<and> ps_public_calls s = 0
      then Some (s \<lparr> ps_once := OnceOver, ps_public := Stopped \<rparr>) else None)"
| "proc_step StopTimeout s =
     (if ps_once s \<in> {OnceInternal, OncePublic}
      then Some (s \<lparr> ps_once := OnceOver, ps_internal := Stopped, ps_public := Stopped,
             ps_internal_calls := 0, ps_public_calls := 0 \<rparr>)
      else None)"
| "proc_step (TriggerReturns t) s =
     (if ps_once s \<noteq> OnceOver then None
      else case map_of (ps_tasks s) t of
        Some (InTrigger r) \<Rightarrow>
          Some ((give_back t r s) \<lparr> ps_diag_open := (ps_diag_open s \<and> t \<noteq> ShutdownWaiter) \<rparr>)
      | _ \<Rightarrow> None)"
| "proc_step (CallArrives public) s =
     (if public then (if ps_public s = Accepting then Some (s \<lparr> ps_public_calls := Suc (ps_public_calls s) \<rparr>) else None)
      else (if ps_internal s = Accepting then Some (s \<lparr> ps_internal_calls := Suc (ps_internal_calls s) \<rparr>) else None))"
| "proc_step (CallEnds public) s =
     (if public then (if ps_public_calls s > 0 then Some (s \<lparr> ps_public_calls := ps_public_calls s - 1 \<rparr>) else None)
      else (if ps_internal_calls s > 0 then Some (s \<lparr> ps_internal_calls := ps_internal_calls s - 1 \<rparr>) else None))"

fun proc_run :: "proc_event list \<Rightarrow> proc \<Rightarrow> proc option" where
  "proc_run [] s = Some s"
| "proc_run (e # es) s = (case proc_step e s of None \<Rightarrow> None | Some s' \<Rightarrow> proc_run es s')"

text \<open>\<^verbatim>\<open>g.Wait\<close> returns.\<close>

definition exited :: "proc \<Rightarrow> bool" where
  "exited s \<longleftrightarrow> list_all (\<lambda>(t, x). case x of Returned r \<Rightarrow> True | _ \<Rightarrow> False) (ps_tasks s)"

subsection \<open>Facts\<close>

text \<open>The tasks keep their names, which are different.\<close>

definition tasks_ok :: "proc \<Rightarrow> bool" where
  "tasks_ok s \<longleftrightarrow> distinct (map fst (ps_tasks s)) \<and> ShutdownWaiter \<in> fst ` set (ps_tasks s)"

text \<open>The servers are where the one-time body has got to.\<close>

definition servers_ok :: "proc \<Rightarrow> bool" where
  "servers_ok s \<longleftrightarrow>
     (ps_once s = OnceIdle \<longrightarrow> ps_internal s = Accepting \<and> ps_public s = Accepting)
    \<and> (ps_once s = OnceInternal \<longrightarrow> ps_internal s = Stopping \<and> ps_public s = Accepting)
    \<and> (ps_once s = OncePublic \<longrightarrow> ps_internal s = Stopped \<and> ps_public s = Stopping \<and> ps_internal_calls s = 0)
    \<and> (ps_once s = OnceOver \<longrightarrow>
         ps_internal s = Stopped \<and> ps_public s = Stopped \<and> ps_internal_calls s = 0 \<and> ps_public_calls s = 0)
    \<and> (ps_once s \<noteq> OnceIdle \<longrightarrow> ps_shutting s \<and> ps_ctx s)"

text \<open>The context is cancelled for a reason: a signal, or a task that failed.\<close>

definition cause_ok :: "proc \<Rightarrow> bool" where
  "cause_ok s \<longleftrightarrow> (ps_ctx s \<longrightarrow> ps_signalled s \<or> ps_first s \<noteq> None \<or> (\<exists>t e. task_is s t (InTrigger (Some e))))"

definition waiter_ok :: "proc \<Rightarrow> bool" where
  "waiter_ok s \<longleftrightarrow> (\<forall>r. task_is s ShutdownWaiter (Returned r) \<longrightarrow> ps_once s = OnceOver \<and> \<not> ps_diag_open s)
    \<and> (\<forall>r. task_is s ShutdownWaiter (InTrigger r) \<longrightarrow> ps_once s \<noteq> OnceIdle)"

definition proc_ok :: "proc \<Rightarrow> bool" where
  "proc_ok s \<longleftrightarrow> tasks_ok s \<and> servers_ok s \<and> cause_ok s \<and> waiter_ok s"
lemma tasks_set [simp]: "map fst (ps_tasks (set_task t x s)) = map fst (ps_tasks s)"
  by (simp add: set_task_def comp_def case_prod_beta)

lemma names_set [simp]: "fst ` set (ps_tasks (set_task t x s)) = fst ` set (ps_tasks s)"
  by (metis list.set_map tasks_set)

lemma tasks_ok_set [simp]: "tasks_ok (set_task t x s) = tasks_ok s"
  by (simp add: tasks_ok_def)
lemma task_is_set:
  "task_is (set_task t x s) u y \<longleftrightarrow> (if u = t then y = x \<and> t \<in> fst ` set (ps_tasks s) else task_is s u y)"
  by (force simp: task_is_def set_task_def)

lemma task_is_one: "tasks_ok s \<Longrightarrow> task_is s t x \<Longrightarrow> task_is s t y \<Longrightarrow> x = y"
  unfolding task_is_def tasks_ok_def by (meson eq_key_imp_eq_value)

lemma task_is_there: "task_is s t x \<Longrightarrow> t \<in> fst ` set (ps_tasks s)"
  by (force simp: task_is_def)

lemma set_task_fields [simp]:
  "ps_signalled (set_task t x s) = ps_signalled s" "ps_ctx (set_task t x s) = ps_ctx s"
  "ps_shutting (set_task t x s) = ps_shutting s" "ps_once (set_task t x s) = ps_once s"
  "ps_internal (set_task t x s) = ps_internal s" "ps_public (set_task t x s) = ps_public s"
  "ps_internal_calls (set_task t x s) = ps_internal_calls s" "ps_public_calls (set_task t x s) = ps_public_calls s"
  "ps_diag_open (set_task t x s) = ps_diag_open s" "ps_first (set_task t x s) = ps_first s"
  by (simp_all add: set_task_def)

lemma trigger_fields [simp]:
  "ps_signalled (triggerShutdown s) = ps_signalled s" "ps_tasks (triggerShutdown s) = ps_tasks s"
  "ps_first (triggerShutdown s) = ps_first s" "ps_diag_open (triggerShutdown s) = ps_diag_open s"
  "ps_once (triggerShutdown s) = (if ps_once s = OnceIdle then OnceInternal else ps_once s)"
  "task_is (triggerShutdown s) t x = task_is s t x" "tasks_ok (triggerShutdown s) = tasks_ok s"
  by (simp_all add: triggerShutdown_def task_is_def tasks_ok_def)

lemma give_back_fields [simp]:
  "ps_signalled (give_back t r s) = ps_signalled s" "ps_ctx (give_back t r s) = ps_ctx s"
  "ps_diag_open (give_back t r s) = ps_diag_open s" "ps_once (give_back t r s) = ps_once s"
  "ps_first (give_back t r s) = None \<longleftrightarrow> ps_first s = None \<and> r = None"
  "task_is (give_back t r s) u y \<longleftrightarrow> task_is (set_task t (Returned r) s) u y"
  "tasks_ok (give_back t r s) = tasks_ok s" "servers_ok (give_back t r s) = servers_ok s"
  by (simp_all add: give_back_def task_is_def tasks_ok_def servers_ok_def split: option.splits)

lemma servers_ok_trigger: "servers_ok s \<Longrightarrow> servers_ok (triggerShutdown s)"
  by (auto simp: servers_ok_def triggerShutdown_def)

lemma servers_ok_set [simp]: "servers_ok (set_task t x s) = servers_ok s"
  by (simp add: servers_ok_def)

text \<open>A task that fails, one that ends, the waiter and the return from the trigger keep the state sound.\<close>

lemma triggered_ok:
  assumes "proc_ok s" and "task_is s t Running" and "r \<noteq> None \<or> t = ShutdownWaiter"
    and "r = None \<longrightarrow> ps_ctx s \<or> ps_once s \<noteq> OnceIdle"
  shows "proc_ok (set_task t (InTrigger r) (triggerShutdown s))"
proof -
  have one: "x = Running" if "task_is s t x" for x
    using assms(1,2) that by (auto simp: proc_ok_def dest: task_is_one)
  have there: "t \<in> fst ` set (ps_tasks (triggerShutdown s))" using task_is_there [OF assms(2)] by simp
  have "cause_ok (set_task t (InTrigger r) (triggerShutdown s))"
  proof (cases r)
    case (Some e)
    with there show ?thesis by (auto simp: cause_ok_def task_is_set)
  next
    case None
    with assms(1,4) have "ps_ctx s" and "cause_ok s" by (auto simp: proc_ok_def servers_ok_def)
    then consider "ps_signalled s" | "ps_first s \<noteq> None" | u e where "task_is s u (InTrigger (Some e))"
      by (auto simp: cause_ok_def)
    then show ?thesis
    proof cases
      case 3
      with one have "u \<noteq> t" by blast
      with 3 show ?thesis by (auto simp: cause_ok_def task_is_set)
    qed (auto simp: cause_ok_def)
  qed
  moreover have "waiter_ok (set_task t (InTrigger r) (triggerShutdown s))"
    using assms(1) by (auto simp: waiter_ok_def proc_ok_def task_is_set)
  ultimately show ?thesis using assms(1) by (simp add: proc_ok_def servers_ok_trigger)
qed

lemma given_back_cause:
  assumes "proc_ok s" and "task_is s t x" and "x = Running \<and> r = None \<or> x = InTrigger r"
  shows "cause_ok (give_back t r s)"
  unfolding cause_ok_def
proof
  assume "ps_ctx (give_back t r s)"
  with assms(1) consider "ps_signalled s" | "ps_first s \<noteq> None" | u e where "task_is s u (InTrigger (Some e))"
    by (auto simp: cause_ok_def proc_ok_def)
  then show "ps_signalled (give_back t r s) \<or> ps_first (give_back t r s) \<noteq> None
      \<or> (\<exists>u e. task_is (give_back t r s) u (InTrigger (Some e)))"
  proof cases
    case 3
    show ?thesis
    proof (cases "u = t")
      case True
      with 3 assms have "x = InTrigger (Some e)" by (auto simp: proc_ok_def dest: task_is_one)
      with assms(3) show ?thesis by auto
    next
      case False
      with 3 have "task_is (give_back t r s) u (InTrigger (Some e))" by (simp add: task_is_set)
      then show ?thesis by blast
    qed
  qed auto
qed

lemma ended_ok:
  assumes "proc_ok s" and "task_is s t Running" and "t \<noteq> ShutdownWaiter"
  shows "proc_ok (give_back t None s)"
  using assms given_back_cause [OF assms(1,2), of None] by (auto simp: proc_ok_def waiter_ok_def task_is_set)

lemma returned_ok:
  assumes "proc_ok s" and "task_is s t (InTrigger r)" and "ps_once s = OnceOver"
  shows "proc_ok ((give_back t r s) \<lparr> ps_diag_open := (ps_diag_open s \<and> t \<noteq> ShutdownWaiter) \<rparr>)" (is "proc_ok ?s")
proof -
  have same: "task_is ?s u y \<longleftrightarrow> task_is (give_back t r s) u y" for u y by (simp add: task_is_def)
  have "cause_ok ?s" using given_back_cause [OF assms(1,2), of r] by (simp add: cause_ok_def same)
  moreover have "tasks_ok ?s" "servers_ok ?s"
    using assms(1) by (simp_all add: proc_ok_def tasks_ok_def servers_ok_def give_back_def)
  moreover have "waiter_ok ?s" using assms(1,3) by (auto simp: waiter_ok_def proc_ok_def same task_is_set)
  ultimately show ?thesis by (simp add: proc_ok_def)
qed
lemma fails_ok: "proc_ok s \<Longrightarrow> fails t e s = Some s' \<Longrightarrow> proc_ok s'"
  by (auto simp: fails_def split: if_splits intro: triggered_ok)

lemma ends_ok: "proc_ok s \<Longrightarrow> ends t ok s = Some s' \<Longrightarrow> t \<noteq> ShutdownWaiter \<Longrightarrow> proc_ok s'"
  by (auto simp: ends_def split: if_splits intro: ended_ok)

text \<open>A step that moves no task.\<close>

lemma quiet_ok:
  assumes "proc_ok s" and "ps_tasks s' = ps_tasks s" and "ps_first s' = ps_first s" and "ps_diag_open s' = ps_diag_open s"
    and "servers_ok s'" and "ps_once s' = ps_once s \<or> ps_once s \<noteq> OnceIdle \<and> ps_once s \<noteq> OnceOver \<and> ps_once s' \<noteq> OnceIdle"
    and "ps_signalled s' \<or> ps_signalled s' = ps_signalled s \<and> ps_ctx s' = ps_ctx s"
  shows "proc_ok s'"
proof -
  have same: "task_is s' t x = task_is s t x" for t x using assms(2) by (simp add: task_is_def)
  from assms have "tasks_ok s'" by (simp add: proc_ok_def tasks_ok_def)
  moreover from assms have "cause_ok s'" by (auto simp: proc_ok_def cause_ok_def same)
  moreover from assms have "waiter_ok s'" unfolding proc_ok_def waiter_ok_def same by metis
  ultimately show ?thesis using assms(5) by (simp add: proc_ok_def)
qed
lemma proc_step_ok:
  assumes "proc_ok s" and "proc_step ev s = Some s'"
  shows "proc_ok s'"
proof -
  note failing = fails_ok [OF assms(1)] and ending = ends_ok [OF assms(1)] and quiet = quiet_ok [OF assms(1)]
  have servers: "servers_ok s" using assms(1) by (simp add: proc_ok_def)
  show ?thesis
  proof (cases ev)
    case Signal
    with assms(2) servers show ?thesis by (cases "ps_once s"; intro quiet) (simp_all add: servers_ok_def, auto?)
  next
    case (WorkerReturns w r)
    show ?thesis
    proof (cases "ps_ctx s")
      case True
      with assms(2) WorkerReturns show ?thesis by (simp add: superviseBackground_def) (erule ending, simp)
    next
      case False
      with assms(2) WorkerReturns show ?thesis
        by (simp add: superviseBackground_def split: option.splits) (erule failing)+
    qed
  next
    case (DiagnosticFails e)
    with assms(2) show ?thesis by simp (rule failing)
  next
    case DiagnosticEnds
    with assms(2) show ?thesis by simp (erule ending, simp)
  next
    case (InternalFails e)
    with assms(2) show ?thesis by simp (rule failing)
  next
    case InternalEnds
    with assms(2) show ?thesis by simp (erule ending, simp)
  next
    case (PublicFails e)
    with assms(2) show ?thesis by simp (rule failing)
  next
    case PublicEnds
    with assms(2) show ?thesis by simp (erule ending, simp)
  next
    case WaiterWakes
    with assms(2) triggered_ok [OF assms(1), of ShutdownWaiter None] show ?thesis by (simp split: if_splits)
  next
    case InternalStopped
    with assms(2) servers show ?thesis by (cases "ps_once s"; intro quiet) (simp_all add: servers_ok_def split: if_splits, auto?)
  next
    case PublicStopped
    with assms(2) servers show ?thesis by (cases "ps_once s"; intro quiet) (simp_all add: servers_ok_def split: if_splits, auto?)
  next
    case StopTimeout
    with assms(2) servers show ?thesis by (cases "ps_once s"; intro quiet) (simp_all add: servers_ok_def split: if_splits, auto?)
  next
    case (TriggerReturns t)
    with assms(2) obtain r where over: "ps_once s = OnceOver" and t: "map_of (ps_tasks s) t = Some (InTrigger r)"
      by (auto split: if_splits option.splits task_state.splits)
    from t have "task_is s t (InTrigger r)" by (simp add: task_is_def map_of_SomeD)
    from returned_ok [OF assms(1) this over] TriggerReturns assms(2) over t show ?thesis by simp
  next
    case (CallArrives p)
    with assms(2) servers show ?thesis by (cases "ps_once s"; intro quiet) (simp_all add: servers_ok_def split: if_splits, auto?)
  next
    case (CallEnds p)
    with assms(2) servers show ?thesis by (cases "ps_once s"; intro quiet) (simp_all add: servers_ok_def split: if_splits, auto?)
  qed
qed

text \<open>The body of the trigger runs once: no event takes it back.\<close>

lemma step_forward: "proc_step ev s = Some s' \<Longrightarrow> ps_once s \<le> ps_once s'"
proof -
  have fail: "fails t e s = Some s' \<Longrightarrow> ps_once s \<le> ps_once s'" for t e
    by (auto simp: fails_def less_eq_once_def split: if_splits)
  have ending: "ends t ok s = Some s' \<Longrightarrow> ps_once s \<le> ps_once s'" for t ok
    by (auto simp: ends_def split: if_splits)
  assume "proc_step ev s = Some s'"
  then show ?thesis
    by (cases ev) (auto simp: superviseBackground_def less_eq_once_def split: if_splits option.splits task_state.splits
        dest: fail ending intro: fail [unfolded less_eq_once_def] ending [unfolded less_eq_once_def])
qed

lemma run_forward: "proc_run es s = Some s' \<Longrightarrow> ps_once s \<le> ps_once s'"
proof (induction es arbitrary: s)
  case (Cons e es)
  then obtain s1 where "proc_step e s = Some s1" and r: "proc_run es s1 = Some s'" by (auto split: option.splits)
  from step_forward [OF this(1)] Cons.IH [OF r] show ?case by (rule order_trans)
qed simp

lemma run_ok: "proc_ok s \<Longrightarrow> proc_run es s = Some s' \<Longrightarrow> proc_ok s'"
proof (induction es arbitrary: s)
  case (Cons e es)
  then obtain s1 where "proc_step e s = Some s1" and "proc_run es s1 = Some s'" by (auto split: option.splits)
  with Cons.IH proc_step_ok [OF Cons.prems(1)] show ?case by blast
qed simp

lemma start_ok: "distinct ws \<Longrightarrow> proc_ok (start_tasks ws diag)"
  by (auto simp: proc_ok_def servers_ok_def cause_ok_def waiter_ok_def tasks_ok_def start_tasks_def task_is_def comp_def
      distinct_map inj_on_def)

subsection \<open>The way to the end\<close>

text \<open>How much the tasks still have to do.\<close>

definition to_do :: "task_state \<Rightarrow> nat" where
  "to_do x = (case x of Running \<Rightarrow> 2 | InTrigger r \<Rightarrow> 1 | Returned r \<Rightarrow> 0)"

definition left_over :: "proc \<Rightarrow> nat" where
  "left_over s = sum_list (map (to_do \<circ> snd) (ps_tasks s))"

lemma sum_update:
  assumes "distinct (map fst ts)" and "(t, y) \<in> set ts" and "to_do x < to_do y"
  shows "sum_list (map (to_do \<circ> snd) (map (\<lambda>(u, z). (u, if u = t then x else z)) ts)) < sum_list (map (to_do \<circ> snd) ts)"
  using assms
proof (induction ts)
  case (Cons p ts)
  obtain u z where p: "p = (u, z)" by fastforce
  show ?case
  proof (cases "u = t")
    case True
    with Cons.prems p have z: "z = y" and "\<forall>q \<in> set ts. fst q \<noteq> t" by force+
    then have "map (\<lambda>(u, z). (u, if u = t then x else z)) ts = ts" by (intro map_idI) auto
    with True z p Cons.prems(3) show ?thesis by simp
  next
    case False
    with Cons p show ?thesis by simp
  qed
qed simp

lemma left_over_set:
  assumes "tasks_ok s" and "task_is s t y" and "to_do x < to_do y"
  shows "left_over (set_task t x s) < left_over s"
  using assms sum_update [of "ps_tasks s" t y x]
  by (simp add: left_over_def set_task_def tasks_ok_def task_is_def)

lemma left_over_back: "left_over (give_back t r s) = left_over (set_task t (Returned r) s)"
  by (simp add: left_over_def give_back_def)

text \<open>The events that need neither a client nor a signal nor a failure.\<close>

definition on_its_own :: "proc_event \<Rightarrow> bool" where
  "on_its_own e \<longleftrightarrow>
     (case e of WorkerReturns w None \<Rightarrow> True | DiagnosticEnds \<Rightarrow> True | InternalEnds \<Rightarrow> True | PublicEnds \<Rightarrow> True
      | WaiterWakes \<Rightarrow> True | StopTimeout \<Rightarrow> True | TriggerReturns t \<Rightarrow> True | _ \<Rightarrow> False)"

lemma returns_step:
  assumes "proc_ok s" and "ps_once s = OnceOver" and "task_is s t (InTrigger r)"
  shows "\<exists>s'. proc_step (TriggerReturns t) s = Some s' \<and> ps_once s' = OnceOver \<and> left_over s' < left_over s"
proof -
  have ok: "tasks_ok s" using assms(1) by (simp add: proc_ok_def)
  then have "map_of (ps_tasks s) t = Some (InTrigger r)"
    using assms(3) by (simp add: task_is_def tasks_ok_def map_of_eq_Some_iff)
  moreover have "left_over ((give_back t r s) \<lparr> ps_diag_open := b \<rparr>) < left_over s" for b
    using left_over_set [OF ok assms(3), of "Returned r"] left_over_back [of t r s]
    by (simp add: left_over_def to_do_def)
  ultimately show ?thesis using assms(2) by simp
qed

lemma ends_step:
  assumes "proc_ok s" and "ps_once s = OnceOver" and "task_is s t Running" and "ok"
  shows "\<exists>s'. ends t ok s = Some s' \<and> ps_once s' = OnceOver \<and> left_over s' < left_over s"
proof -
  have "tasks_ok s" using assms(1) by (simp add: proc_ok_def)
  from left_over_set [OF this assms(3), of "Returned None"] show ?thesis
    using assms(2-4) by (simp add: ends_def left_over_back to_do_def)
qed

text \<open>Once the trigger is over, some task can go on until all have returned.\<close>

lemma someone_goes_on:
  assumes ok: "proc_ok s" and over: "ps_once s = OnceOver" and "\<not> exited s"
  shows "\<exists>e s'. on_its_own e \<and> proc_step e s = Some s' \<and> ps_once s' = OnceOver \<and> left_over s' < left_over s"
proof -
  have servers: "ps_internal s = Stopped" "ps_public s = Stopped" and ctx: "ps_ctx s"
    using ok over by (auto simp: proc_ok_def servers_ok_def)
  have waiter: "ps_diag_open s = False" if "task_is s ShutdownWaiter (Returned r)" for r
    using ok that by (auto simp: proc_ok_def waiter_ok_def)
  obtain w where w: "task_is s ShutdownWaiter w" using ok by (auto simp: proc_ok_def tasks_ok_def task_is_def)
  from assms(3) obtain u y where u: "task_is s u y" and y: "to_do y > 0"
    by (auto simp: exited_def task_is_def list_all_iff to_do_def split: task_state.splits)
  obtain t x where t: "task_is s t x" "to_do x > 0" and last: "t = ShutdownWaiter \<or> \<not> ps_diag_open s"
  proof (cases "to_do w > 0")
    case False
    then obtain r where "w = Returned r" by (cases w) (auto simp: to_do_def)
    with waiter w that [OF u y] show ?thesis by blast
  qed (use that w in blast)
  show ?thesis
  proof (cases x)
    case Running
    show ?thesis
    proof (cases t)
      case (Worker n)
      have "proc_step (WorkerReturns n None) s = ends t True s" using ctx by (simp add: superviseBackground_def Worker)
      with ends_step [OF ok over t(1) [unfolded Running] TrueI] show ?thesis
        by (intro exI [of _ "WorkerReturns n None"]) (auto simp: on_its_own_def)
    next
      case Diagnostic
      with ends_step [OF ok over t(1) [unfolded Running], of "\<not> ps_diag_open s"] last show ?thesis
        by (intro exI [of _ DiagnosticEnds]) (auto simp: on_its_own_def)
    next
      case ServeInternal
      with ends_step [OF ok over t(1) [unfolded Running], of "ps_internal s \<noteq> Accepting"] servers show ?thesis
        by (intro exI [of _ InternalEnds]) (auto simp: on_its_own_def)
    next
      case ServePublic
      with ends_step [OF ok over t(1) [unfolded Running], of "ps_public s \<noteq> Accepting"] servers show ?thesis
        by (intro exI [of _ PublicEnds]) (auto simp: on_its_own_def)
    next
      case ShutdownWaiter
      have "left_over (set_task t (InTrigger None) s) < left_over s"
        using left_over_set [of s t Running "InTrigger None"] ok t(1) Running by (simp add: proc_ok_def to_do_def)
      then show ?thesis using t(1) Running ShutdownWaiter over ctx
        by (intro exI [of _ WaiterWakes]) (auto simp: on_its_own_def triggerShutdown_def)
    qed
  next
    case (InTrigger r)
    with returns_step [OF ok over] t(1) show ?thesis by (intro exI [of _ "TriggerReturns t"]) (auto simp: on_its_own_def)
  next
    case (Returned r)
    with t(2) show ?thesis by (simp add: to_do_def)
  qed
qed

lemma all_return:
  assumes "proc_ok s" and "ps_once s = OnceOver"
  shows "\<exists>es s'. list_all on_its_own es \<and> length es \<le> left_over s \<and> proc_run es s = Some s' \<and> exited s'"
  using assms
proof (induction "left_over s" arbitrary: s rule: less_induct)
  case less
  show ?case
  proof (cases "exited s")
    case True
    then show ?thesis by (intro exI [of _ "[]"] exI [of _ s]) simp
  next
    case False
    from someone_goes_on [OF less.prems this] obtain e s1
      where e: "on_its_own e" "proc_step e s = Some s1" "ps_once s1 = OnceOver" "left_over s1 < left_over s" by blast
    from less.hyps [OF e(4) proc_step_ok [OF less.prems(1) e(2)] e(3)] obtain es s'
      where "list_all on_its_own es" "length es \<le> left_over s1" "proc_run es s1 = Some s'" "exited s'" by blast
    with e show ?thesis by (intro exI [of _ "e # es"] exI [of _ s']) auto
  qed
qed

lemma left_over_bound: "left_over s \<le> 2 * length (ps_tasks s)"
proof -
  have "sum_list (map (to_do \<circ> snd) ts) \<le> 2 * length ts" for ts :: "(task \<times> task_state) list"
    by (induction ts) (auto simp: to_do_def split: task_state.splits)
  then show ?thesis by (simp add: left_over_def)
qed

lemma step_tasks: "proc_step e s = Some s' \<Longrightarrow> map fst (ps_tasks s') = map fst (ps_tasks s)"
proof -
  have given: "map fst (ps_tasks (give_back t r s)) = map fst (ps_tasks s)" for t r
    using tasks_set [of t "Returned r" s] by (simp add: give_back_def)
  have fail: "fails t x s = Some s' \<Longrightarrow> map fst (ps_tasks s') = map fst (ps_tasks s)" for t x
    by (auto simp: fails_def split: if_splits)
  have ending: "ends t ok s = Some s' \<Longrightarrow> map fst (ps_tasks s') = map fst (ps_tasks s)" for t ok
    by (auto simp: ends_def given split: if_splits)
  assume "proc_step e s = Some s'"
  then show ?thesis
    by (cases e) (auto simp: superviseBackground_def given split: if_splits option.splits task_state.splits dest: fail ending)
qed

lemma run_tasks: "proc_run es s = Some s' \<Longrightarrow> length (ps_tasks s') = length (ps_tasks s)"
proof (induction es arbitrary: s)
  case (Cons e es)
  then obtain s1 where "proc_step e s = Some s1" and r: "proc_run es s1 = Some s'" by (auto split: option.splits)
  from step_tasks [OF this(1)] have "length (ps_tasks s1) = length (ps_tasks s)" by (metis length_map)
  with Cons.IH [OF r] show ?case by simp
qed simp

lemma run_append: "proc_run (es @ fs) s = (case proc_run es s of None \<Rightarrow> None | Some s' \<Rightarrow> proc_run fs s')"
  by (induction es arbitrary: s) (auto split: option.splits)

text \<open>A cancelled context leads to the end of the trigger in at most two steps.\<close>

lemma trigger_over:
  assumes "proc_ok s" and "ps_ctx s"
  shows "\<exists>es s'. list_all on_its_own es \<and> length es \<le> 2 \<and> proc_run es s = Some s' \<and> ps_once s' = OnceOver"
proof -
  have over: "\<exists>s'. proc_step StopTimeout x = Some s' \<and> ps_once s' = OnceOver" if "ps_once x \<in> {OnceInternal, OncePublic}" for x
    using that by simp
  consider "ps_once s = OnceIdle" | "ps_once s \<in> {OnceInternal, OncePublic}" | "ps_once s = OnceOver" by (cases "ps_once s") auto
  then show ?thesis
  proof cases
    case 1
    obtain w where w: "task_is s ShutdownWaiter w" using assms(1) by (auto simp: proc_ok_def tasks_ok_def task_is_def)
    with assms(1) 1 have "w = Running" by (cases w) (auto simp: proc_ok_def waiter_ok_def)
    with w assms(2) have step: "proc_step WaiterWakes s = Some (set_task ShutdownWaiter (InTrigger None) (triggerShutdown s))"
      by simp
    have "ps_once (set_task ShutdownWaiter (InTrigger None) (triggerShutdown s)) \<in> {OnceInternal, OncePublic}" using 1 by simp
    from over [OF this] obtain s' where "proc_step StopTimeout (set_task ShutdownWaiter (InTrigger None) (triggerShutdown s))
        = Some s'" and "ps_once s' = OnceOver" by blast
    with step show ?thesis by (intro exI [of _ "[WaiterWakes, StopTimeout]"] exI [of _ s']) (simp add: on_its_own_def del: proc_step.simps)
  next
    case 2
    from over [OF this] obtain s' where "proc_step StopTimeout s = Some s'" and "ps_once s' = OnceOver" by blast
    then show ?thesis by (intro exI [of _ "[StopTimeout]"] exI [of _ s']) (simp add: on_its_own_def del: proc_step.simps)
  next
    case 3
    then show ?thesis by (intro exI [of _ "[]"] exI [of _ s]) simp
  qed
qed

subsection \<open>Properties\<close>

text \<open>C22: No server stops before readiness is off, the shutdown goes through its stages once, and the process ends in order: when all tasks have
  returned, both servers are stopped, no call is open, the diagnostic listener is closed, and an end without
  an error is the answer to a signal.\<close>
theorem exit_clean:
  assumes "distinct workers" and "proc_run es (start_tasks workers diag) = Some s"
  shows "(ps_internal s \<noteq> Accepting \<or> ps_public s \<noteq> Accepting \<longrightarrow> ps_shutting s \<and> ps_ctx s)
    \<and> (\<forall>es' s'. proc_run es' s = Some s' \<longrightarrow> ps_once s \<le> ps_once s')
    \<and> (exited s \<longrightarrow> ps_internal s = Stopped \<and> ps_public s = Stopped
         \<and> ps_internal_calls s = 0 \<and> ps_public_calls s = 0 \<and> \<not> ps_diag_open s
         \<and> (ps_first s = None \<longrightarrow> ps_signalled s))"
proof (intro conjI impI)
  have ok: "proc_ok s" using run_ok [OF start_ok [OF assms(1)] assms(2)] .
  then have servers: "servers_ok s" by (simp add: proc_ok_def)
  show "ps_shutting s" "ps_ctx s" if "ps_internal s \<noteq> Accepting \<or> ps_public s \<noteq> Accepting"
    using servers that by (auto simp: servers_ok_def)
  show "\<forall>es' s'. proc_run es' s = Some s' \<longrightarrow> ps_once s \<le> ps_once s'" using run_forward by blast
  assume ex: "exited s"
  obtain w where w: "task_is s ShutdownWaiter w" using ok by (auto simp: proc_ok_def tasks_ok_def task_is_def)
  have all: "\<exists>r. x = Returned r" if "task_is s t x" for t x
    using ex that by (auto simp: exited_def task_is_def list_all_iff split: task_state.splits)
  from all [OF w] w ok have over: "ps_once s = OnceOver" and diag: "\<not> ps_diag_open s"
    by (auto simp: proc_ok_def waiter_ok_def)
  with servers show "ps_internal s = Stopped" "ps_public s = Stopped" "ps_internal_calls s = 0" "ps_public_calls s = 0"
    by (auto simp: servers_ok_def)
  show "\<not> ps_diag_open s" by (rule diag)
  assume "ps_first s = None"
  with ok over all show "ps_signalled s"
    by (auto simp: proc_ok_def servers_ok_def cause_ok_def)
qed

text \<open>C23: A shutdown that has begun ends without the help of the clients: from every reachable state whose context is
  cancelled the process gets to its end by at most two steps and two for each of its tasks, with the calls
  that are still open cut off by the deadline.\<close>
theorem shutdown_terminates:
  assumes "distinct workers" and "proc_run es (start_tasks workers diag) = Some s" and "ps_ctx s"
  shows "\<exists>es' s'. list_all on_its_own es' \<and> length es' \<le> 2 + 2 * (length workers + 4)
    \<and> proc_run es' s = Some s' \<and> exited s'"
proof -
  have ok: "proc_ok s" using run_ok [OF start_ok [OF assms(1)] assms(2)] .
  from trigger_over [OF this assms(3)] obtain es1 s1 where one: "list_all on_its_own es1" "length es1 \<le> 2"
    "proc_run es1 s = Some s1" "ps_once s1 = OnceOver" by blast
  from all_return [OF run_ok [OF ok one(3)] one(4)] obtain es2 s2 where two: "list_all on_its_own es2"
    "length es2 \<le> left_over s1" "proc_run es2 s1 = Some s2" "exited s2" by blast
  have "length (ps_tasks (start_tasks workers diag)) \<le> length workers + 4" by (simp add: start_tasks_def)
  with run_tasks [OF assms(2)] run_tasks [OF one(3)] left_over_bound [of s1]
  have "left_over s1 \<le> 2 * (length workers + 4)" by simp
  with one two show ?thesis by (intro exI [of _ "es1 @ es2"] exI [of _ s2]) (simp add: run_append)
qed

text \<open>A worker that dies: the process ends with its error; a signal with an open subscription: it ends without one.\<close>

definition dying_run :: "proc_event list" where
  "dying_run = [WorkerReturns ''target-drain'' None, InternalStopped, PublicStopped, TriggerReturns (Worker ''target-drain''),
     WaiterWakes, InternalEnds, PublicEnds, TriggerReturns ShutdownWaiter, DiagnosticEnds]"

theorem exit_clean_witness:
  "\<exists>s. proc_run dying_run (start_tasks [''target-drain''] True) = Some s \<and> exited s \<and> ps_public s = Stopped
     \<and> ps_first s = Some (OtherErr ''target-drain exited unexpectedly'')"
proof -
  let ?r = "proc_run dying_run (start_tasks [''target-drain''] True)"
  have r: "?r \<noteq> None" "exited (the ?r)" "ps_first (the ?r) = Some (OtherErr ''target-drain exited unexpectedly'')"
    by code_simp+
  then obtain s where s: "?r = Some s" by blast
  have "distinct [''target-drain'']" by simp
  from exit_clean [OF this s] r s show ?thesis by auto
qed

definition open_subscription :: "proc_event list" where
  "open_subscription = [CallArrives False, Signal, WaiterWakes, CallArrives True]"

theorem shutdown_terminates_witness:
  "\<exists>s es' s'. proc_run open_subscription (start_tasks [''target-drain''] True) = Some s
     \<and> ps_internal_calls s = 1 \<and> ps_public s = Accepting \<and> ps_shutting s
     \<and> proc_run es' s = Some s' \<and> exited s' \<and> length es' \<le> 12"
proof -
  let ?r = "proc_run open_subscription (start_tasks [''target-drain''] True)"
  have r: "?r \<noteq> None" "ps_internal_calls (the ?r) = 1" "ps_public (the ?r) = Accepting" "ps_shutting (the ?r)" "ps_ctx (the ?r)"
    by code_simp+
  then obtain s where s: "?r = Some s" by blast
  have "distinct [''target-drain'']" "ps_ctx s" using r s by simp_all
  from shutdown_terminates [OF this(1) s this(2)] r s show ?thesis by auto
qed

end
