(* ===== verification/Lifecycle_Stream.thy ===== *)
theory Lifecycle_Stream
  imports Listing
begin

text \<open>
  The stream of life-cycle events (\<^verbatim>\<open>api/internal_lifecycle/handler.go\<close>) over the outbox
  (\<^verbatim>\<open>repo/kacho/pg/lifecycle_feed.go\<close>). The environment of a stream is what happens to it: what each
  query sees of the outbox (other transactions commit in between), how each wait ends, whether
  each message can be sent; when it has no more to say the stream is cancelled.
\<close>

subsection \<open>Events\<close>

fun kind_text :: "resource_kind \<Rightarrow> string" where
  "kind_text OutboxLoadBalancer = ''nlb_load_balancer''"
| "kind_text OutboxListener = ''nlb_listener''"
| "kind_text OutboxTargetGroup = ''nlb_target_group''"

definition allowedKinds :: "string list" where
  "allowedKinds = [''nlb_load_balancer'', ''nlb_listener'', ''nlb_target_group'']"

fun action_text :: "outbox_action \<Rightarrow> string" where
  "action_text ActionCreated = ''CREATED''"
| "action_text ActionUpdated = ''UPDATED''"
| "action_text ActionDeleted = ''DELETED''"
| "action_text ActionMoved = ''MOVED''"
| "action_text ActionFailed = ''FAILED''"

definition mapActionToOp :: "string \<Rightarrow> string" where
  "mapActionToOp action =
     (if action = ''CREATED'' then ''Create'' else if action = ''UPDATED'' then ''Update''
      else if action = ''DELETED'' then ''Delete'' else if action = ''MOVED'' then ''Move''
      else if action = ''FAILED'' then ''Failed'' else action)"

record lifecycle_event =
  le_id :: string
  le_kind :: string
  le_resource :: string
  le_op :: string
  le_project :: string
  le_parent :: string
  le_old_project :: string
  le_at :: int

definition extractPayloadFields :: "payload option \<Rightarrow> string \<times> string" where
  "extractPayloadFields raw = (case ParseLifecyclePayload raw of
       None \<Rightarrow> ('''', '''') | Some p \<Rightarrow> (lp_parent p, lp_old_project p))"

definition event_of :: "outbox_row \<Rightarrow> lifecycle_event" where
  "event_of r = (case extractPayloadFields (Some (ob_payload r)) of (parent, old) \<Rightarrow>
     \<lparr> le_id = show_nat (ob_seq r), le_kind = kind_text (ob_kind r), le_resource = ob_resource r,
       le_op = mapActionToOp (action_text (ob_action r)), le_project = ob_project r, le_parent = parent,
       le_old_project = old, le_at = ob_at r \<rparr>)"

subsection \<open>The position to resume from\<close>

text \<open>\<^verbatim>\<open>strconv.ParseInt(s, 10, 64)\<close>: an optional sign, digits, in range.\<close>

fun digits_value :: "nat \<Rightarrow> string \<Rightarrow> nat option" where
  "digits_value n [] = Some n"
| "digits_value n (c # cs) = (if digit c then digits_value (10 * n + (code_of c - 48)) cs else None)"

definition ParseInt64 :: "string \<Rightarrow> int option" where
  "ParseInt64 s =
     (let neg = (s \<noteq> [] \<and> hd s = CHR ''-''); ds = (if s \<noteq> [] \<and> hd s \<in> {CHR ''+'', CHR ''-''} then tl s else s) in
      if ds = [] then None
      else case digits_value 0 ds of
        None \<Rightarrow> None
      | Some n \<Rightarrow> if neg then (if n \<le> 2 ^ 63 then Some (- int n) else None)
                  else (if n < 2 ^ 63 then Some (int n) else None))"

definition parseEventID :: "string \<Rightarrow> int option" where
  "parseEventID raw =
     (if raw = '''' then Some 0
      else case ParseInt64 raw of None \<Rightarrow> None | Some v \<Rightarrow> if v < 0 then None else Some v)"

subsection \<open>Slots\<close>

record semaphore =
  sm_cap :: nat
  sm_held :: nat

definition TryAcquire :: "semaphore \<Rightarrow> semaphore option" where
  "TryAcquire s = (if sm_held s < sm_cap s then Some (s \<lparr> sm_held := sm_held s + 1 \<rparr>) else None)"

definition Release :: "semaphore \<Rightarrow> semaphore" where
  "Release s = s \<lparr> sm_held := sm_held s - 1 \<rparr>"

subsection \<open>Reading and sending\<close>

definition catchupBatchSize :: nat where "catchupBatchSize = 100"

definition event_rows :: "string list \<Rightarrow> int \<Rightarrow> outbox_row list \<Rightarrow> outbox_row list" where
  "event_rows kinds cur t = isort (\<lambda>a b. \<not> ob_seq b < ob_seq a)
     (filter (\<lambda>r. int (ob_seq r) > cur \<and> (kinds = [] \<or> kind_text (ob_kind r) \<in> set kinds)) t)"

definition EventsSince :: "int \<Rightarrow> string list \<Rightarrow> nat \<Rightarrow> outbox_row list \<Rightarrow> outbox_row list" where
  "EventsSince cur kinds limit t = take limit (event_rows kinds cur t)"

datatype query = Sees "outbox_row list" | QueryFails err
datatype wait = Notified | IdleTimeout | WaitCanceled | WaitLost

text \<open>Sending a batch: the new position, the error of the call that failed, what was sent, the rest of the script.\<close>

fun send_all ::
  "int \<Rightarrow> outbox_row list \<Rightarrow> err option list \<Rightarrow> int \<times> err option \<times> lifecycle_event list \<times> err option list" where
  "send_all cur [] sends = (cur, None, [], sends)"
| "send_all cur (r # rs) sends =
     (case sends of
        Some e # rest \<Rightarrow> (cur, Some e, [], rest)
      | _ \<Rightarrow> (case send_all (int (ob_seq r)) rs (drop 1 sends) of
                (cur', oe, sent, rest) \<Rightarrow> (cur', oe, event_of r # sent, rest)))"

fun streamSince ::
  "string list \<Rightarrow> int \<Rightarrow> query list \<Rightarrow> err option list \<Rightarrow>
   (int \<times> err option) \<times> lifecycle_event list \<times> query list \<times> err option list" where
  "streamSince kinds cur [] sends = ((cur, None), [], [], sends)"
| "streamSince kinds cur (QueryFails e # qs) sends =
     ((cur, if e = CtxCanceled then None else Some (Status CodeInternal ''lifecycle query failed'')), [], qs, sends)"
| "streamSince kinds cur (Sees t # qs) sends =
     (let events = EventsSince cur kinds catchupBatchSize t in
      case send_all cur events sends of
        (cur', Some e, sent, sends') \<Rightarrow> ((cur', Some e), sent, qs, sends')
      | (cur', None, sent, sends') \<Rightarrow>
          if length events < catchupBatchSize then ((cur', None), sent, qs, sends')
          else (case streamSince kinds cur' qs sends' of (r, later, rest) \<Rightarrow> (r, sent @ later, rest)))"

text \<open>The loop: a notification or the idle timeout is followed by another read.\<close>

fun wait_loop ::
  "string list \<Rightarrow> int \<Rightarrow> wait list \<Rightarrow> query list \<Rightarrow> err option list \<Rightarrow> err option \<times> lifecycle_event list" where
  "wait_loop kinds cur [] qs sends = (None, [])"
| "wait_loop kinds cur (w # ws) qs sends =
     (case w of
        WaitCanceled \<Rightarrow> (None, [])
      | WaitLost \<Rightarrow> (Some (Status CodeUnavailable ''lifecycle notification stream lost''), [])
      | _ \<Rightarrow>
          (case streamSince kinds cur qs sends of
             ((cur', Some e), sent, qs', sends') \<Rightarrow> (Some e, sent)
           | ((cur', None), sent, qs', sends') \<Rightarrow>
               (case wait_loop kinds cur' ws qs' sends' of (r, later) \<Rightarrow> (r, sent @ later))))"

record stream_env =
  se_open :: "err option"
  se_waits :: "wait list"
  se_queries :: "query list"
  se_sends :: "err option list"

definition run_stream :: "string list \<Rightarrow> int \<Rightarrow> stream_env \<Rightarrow> err option \<times> lifecycle_event list" where
  "run_stream kinds cur env =
     (case se_open env of
        Some e \<Rightarrow> (Some (Status CodeUnavailable ''lifecycle backend unavailable''), [])
      | None \<Rightarrow>
          (case streamSince kinds cur (se_queries env) (se_sends env) of
             ((cur', Some e), sent, qs, sends) \<Rightarrow> (Some e, sent)
           | ((cur', None), sent, qs, sends) \<Rightarrow>
               (case wait_loop kinds cur' (se_waits env) qs sends of (r, later) \<Rightarrow> (r, sent @ later))))"

definition Subscribe ::
  "string list \<Rightarrow> string \<Rightarrow> stream_env \<Rightarrow> semaphore \<Rightarrow> err option \<times> lifecycle_event list \<times> semaphore" where
  "Subscribe kinds resume env sem =
     (case find (\<lambda>k. k \<notin> set allowedKinds) kinds of
        Some k \<Rightarrow> (Some (Status CodeInvalidArgument (''unknown kind '' @ go_quote k @
                    '' (allowed: nlb_load_balancer, nlb_listener, nlb_target_group)'')), [], sem)
      | None \<Rightarrow>
         (case parseEventID resume of
            None \<Rightarrow> (Some (Status CodeInvalidArgument (''invalid resume_from_event_id '' @ go_quote resume @
                       '': must be decimal sequence_no'')), [], sem)
          | Some cur \<Rightarrow>
             (case TryAcquire sem of
                None \<Rightarrow> (Some (Status CodeResourceExhausted (''max concurrent lifecycle streams reached ('' @
                           show_nat (sm_cap sem) @ ''); retry later'')), [], sem)
              | Some sem' \<Rightarrow> (case run_stream kinds cur env of (r, sent) \<Rightarrow> (r, sent, Release sem')))))"

subsection \<open>What a stream sends\<close>

interpretation seqs: position_order "(<) :: nat \<Rightarrow> nat \<Rightarrow> bool"
  by unfold_locales auto

text \<open>The outbox as a statement sees it is an initial segment of another one: nothing below what it holds is missing.\<close>

definition segment :: "outbox_row list \<Rightarrow> outbox_row list \<Rightarrow> bool" where
  "segment t full \<longleftrightarrow> distinct (map ob_seq t) \<and> set t \<subseteq> set full
     \<and> (\<forall>r \<in> set t. \<forall>s \<in> set full. ob_seq s \<le> ob_seq r \<longrightarrow> s \<in> set t)"

lemma segment_refl: "distinct (map ob_seq t) \<Longrightarrow> segment t t"
  by (simp add: segment_def)

lemma event_rows_sorted:
  assumes "distinct (map ob_seq t)"
  shows "sorted_wrt (\<lambda>a b. ob_seq a < ob_seq b) (event_rows kinds cur t)"
    and "set (event_rows kinds cur t) = {r \<in> set t. int (ob_seq r) > cur \<and> (kinds = [] \<or> kind_text (ob_kind r) \<in> set kinds)}"
  using seqs.sorted_isort [OF distinct_map_filter [OF assms]] by (simp_all add: event_rows_def)

text \<open>Everything wanted up to a position was sent, and nothing else.\<close>

definition sent_upto :: "string list \<Rightarrow> int \<Rightarrow> outbox_row list \<Rightarrow> int \<Rightarrow> lifecycle_event list \<Rightarrow> bool" where
  "sent_upto kinds c0 full cur sent \<longleftrightarrow> c0 \<le> cur
     \<and> sent = map event_of (filter (\<lambda>r. int (ob_seq r) \<le> cur) (event_rows kinds c0 full))"

lemma sent_upto_start: "distinct (map ob_seq full) \<Longrightarrow> sent_upto kinds c0 full c0 []"
  using event_rows_sorted(2) [of full kinds c0] by (auto simp: sent_upto_def filter_empty_conv)

lemma sent_upto_batch:
  assumes "segment t full" and "distinct (map ob_seq full)" and "sent_upto kinds c0 full cur sent"
    and "pre @ [r] = take j (event_rows kinds cur t)"
  shows "sent_upto kinds c0 full (int (ob_seq r)) (sent @ map event_of (pre @ [r]))"
proof -
  let ?W = "event_rows kinds c0 full" and ?X = "event_rows kinds cur t"
  have t: "distinct (map ob_seq t)" using assms(1) by (simp add: segment_def)
  note X = event_rows_sorted [OF t, of kinds cur] and W = event_rows_sorted [OF assms(2), of kinds c0]
  have cur: "c0 \<le> cur" and sent: "sent = map event_of (filter (\<lambda>r. int (ob_seq r) \<le> cur) ?W)"
    using assms(3) by (simp_all add: sent_upto_def)
  have pre: "sorted_wrt (\<lambda>a b. ob_seq a < ob_seq b) (pre @ [r])"
    unfolding assms(4) using X(1) by (metis append_take_drop_id sorted_wrt_append)
  have split: "?X = (pre @ [r]) @ drop j ?X" by (simp add: assms(4))
  then have sp: "sorted_wrt (\<lambda>a b. ob_seq a < ob_seq b) ((pre @ [r]) @ drop j ?X)" using X(1) by metis
  then have mem: "s \<in> set (pre @ [r]) \<longleftrightarrow> s \<in> set ?X \<and> ob_seq s \<le> ob_seq r" for s
    by (subst split) (auto simp: sorted_wrt_append)
  have r: "r \<in> set ?X" using mem [of r] by simp
  with X(2) have rt: "r \<in> set t" and rc: "cur < int (ob_seq r)" by auto
  have "filter (\<lambda>s. int (ob_seq s) \<le> int (ob_seq r)) ?W = filter (\<lambda>s. int (ob_seq s) \<le> cur) ?W @ pre @ [r]"
  proof (rule seqs.sorted_unique [where key = ob_seq])
    show "sorted_wrt (\<lambda>a b. ob_seq a < ob_seq b) (filter (\<lambda>s. int (ob_seq s) \<le> int (ob_seq r)) ?W)"
      by (rule sorted_wrt_filter [OF W(1)])
    show "sorted_wrt (\<lambda>a b. ob_seq a < ob_seq b) (filter (\<lambda>s. int (ob_seq s) \<le> cur) ?W @ pre @ [r])"
      using pre sorted_wrt_filter [OF W(1)] mem X(2) by (subst sorted_wrt_append) auto
    show "set (filter (\<lambda>s. int (ob_seq s) \<le> int (ob_seq r)) ?W) = set (filter (\<lambda>s. int (ob_seq s) \<le> cur) ?W @ pre @ [r])"
    proof (rule set_eqI)
      fix s
      have "s \<in> set full \<Longrightarrow> ob_seq s \<le> ob_seq r \<Longrightarrow> s \<in> set t" and "s \<in> set t \<Longrightarrow> s \<in> set full"
        using assms(1) rt by (auto simp: segment_def)
      then show "s \<in> set (filter (\<lambda>s. int (ob_seq s) \<le> int (ob_seq r)) ?W)
          \<longleftrightarrow> s \<in> set (filter (\<lambda>s. int (ob_seq s) \<le> cur) ?W @ pre @ [r])"
        using mem [of s] cur rc by (auto simp: W(2) X(2))
    qed
  qed
  with cur rc sent show ?thesis by (simp add: sent_upto_def)
qed

lemma send_all_prefix:
  "send_all cur rs sends = (cur', oe, out, rest) \<Longrightarrow>
   \<exists>n. out = map event_of (take n rs) \<and> n \<le> length rs \<and> cur' = (if n = 0 then cur else int (ob_seq (rs ! (n - 1))))
     \<and> (oe = None \<longrightarrow> n = length rs)"
proof (induction rs arbitrary: cur sends cur' oe out rest)
  case (Cons r rs)
  show ?case
  proof (cases "\<exists>e more. sends = Some e # more")
    case True
    with Cons.prems show ?thesis by (intro exI [of _ 0]) auto
  next
    case False
    then obtain out1 where s: "send_all (int (ob_seq r)) rs (drop 1 sends) = (cur', oe, out1, rest)" "out = event_of r # out1"
      using Cons.prems by (cases sends) (auto split: option.splits prod.splits)
    from Cons.IH [OF s(1)] obtain n where "out1 = map event_of (take n rs) \<and> n \<le> length rs
      \<and> cur' = (if n = 0 then int (ob_seq r) else int (ob_seq (rs ! (n - 1)))) \<and> (oe = None \<longrightarrow> n = length rs)" by blast
    with s(2) show ?thesis by (intro exI [of _ "Suc n"]) (auto simp: nth_Cons')
  qed
qed auto

lemma sent_upto_send:
  assumes "segment t full" and "distinct (map ob_seq full)" and "sent_upto kinds c0 full cur sent"
    and "send_all cur (EventsSince cur kinds k t) sends = (cur', oe, out, rest)"
  shows "sent_upto kinds c0 full cur' (sent @ out)"
proof -
  let ?E = "EventsSince cur kinds k t"
  from send_all_prefix [OF assms(4)] obtain n where n: "out = map event_of (take n ?E)" "n \<le> length ?E"
    "cur' = (if n = 0 then cur else int (ob_seq (?E ! (n - 1))))" by blast
  show ?thesis
  proof (cases n)
    case 0
    with n assms(3) show ?thesis by simp
  next
    case (Suc m)
    then have "take m ?E @ [?E ! m] = take (min k n) (event_rows kinds cur t)"
      using n(2) take_Suc_conv_app_nth [of m ?E] by (simp add: EventsSince_def min.commute)
    from sent_upto_batch [OF assms(1-3) this] n Suc take_Suc_conv_app_nth [of m ?E] show ?thesis by simp
  qed
qed

definition sees :: "outbox_row list \<Rightarrow> query list \<Rightarrow> bool" where
  "sees full qs \<longleftrightarrow> (\<forall>t. Sees t \<in> set qs \<longrightarrow> segment t full)"

lemma streamSince_upto:
  assumes "distinct (map ob_seq full)"
  shows "streamSince kinds cur qs sends = ((cur', oe), out, qs', sends') \<Longrightarrow> sees full qs \<Longrightarrow> sent_upto kinds c0 full cur sent \<Longrightarrow>
    sent_upto kinds c0 full cur' (sent @ out) \<and> sees full qs'"
proof (induction qs arbitrary: cur sends sent cur' oe out qs' sends')
  case (Cons q qs)
  show ?case
  proof (cases q)
    case (Sees t)
    let ?E = "EventsSince cur kinds catchupBatchSize t"
    obtain c1 oe1 o1 s1 where s: "send_all cur ?E sends = (c1, oe1, o1, s1)"
      by (metis prod_cases4)
    have seg: "segment t full" and qs: "sees full qs" using Cons.prems(2) Sees by (simp_all add: sees_def)
    from sent_upto_send [OF seg assms Cons.prems(3) s] have u: "sent_upto kinds c0 full c1 (sent @ o1)" .
    show ?thesis
    proof (cases "oe1 = None \<and> \<not> length ?E < catchupBatchSize")
      case True
      obtain c2 oe2 l q2 z where n: "streamSince kinds c1 qs s1 = ((c2, oe2), l, q2, z)" by (metis prod_cases4 prod.collapse)
      from Cons.IH [OF n qs u] True Cons.prems(1) s n Sees show ?thesis by auto
    next
      case False
      with Cons.prems(1) s u qs Sees show ?thesis by (auto simp: Let_def split: option.splits if_splits)
    qed
  qed (use Cons.prems in \<open>auto simp: sees_def\<close>)
qed auto

lemma wait_loop_upto:
  assumes "distinct (map ob_seq full)"
  shows "wait_loop kinds cur ws qs sends = (oe, out) \<Longrightarrow> sees full qs \<Longrightarrow> sent_upto kinds c0 full cur sent \<Longrightarrow>
    \<exists>cur'. sent_upto kinds c0 full cur' (sent @ out)"
proof (induction ws arbitrary: cur qs sends oe out sent)
  case (Cons w ws)
  obtain c1 oe1 o1 q1 s1 where s: "streamSince kinds cur qs sends = ((c1, oe1), o1, q1, s1)" by (metis prod_cases4 prod.collapse)
  from streamSince_upto [OF assms s Cons.prems(2,3)] have u: "sent_upto kinds c0 full c1 (sent @ o1)" "sees full q1" by auto
  obtain r l where n: "wait_loop kinds c1 ws q1 s1 = (r, l)" by fastforce
  from Cons.IH [OF n u(2,1)] u s n Cons.prems show ?case by (cases w; cases oe1) auto
qed auto

lemma sent_prefix: "distinct (map ob_seq full) \<Longrightarrow> sent_upto kinds c0 full cur sent \<Longrightarrow>
  \<exists>n. sent = take n (map event_of (event_rows kinds c0 full))"
proof -
  assume d: "distinct (map ob_seq full)" and u: "sent_upto kinds c0 full cur sent"
  have "\<exists>n. filter (\<lambda>r. int (ob_seq r) \<le> cur) xs = take n xs" if "sorted_wrt (\<lambda>a b. ob_seq a < ob_seq b) xs" for xs
    using that
  proof (induction xs)
    case (Cons x xs)
    then obtain n where n: "filter (\<lambda>r. int (ob_seq r) \<le> cur) xs = take n xs" by auto
    show ?case
    proof (cases "int (ob_seq x) \<le> cur")
      case True
      with n show ?thesis by (intro exI [of _ "Suc n"]) simp
    next
      case False
      with Cons.prems have "filter (\<lambda>r. int (ob_seq r) \<le> cur) xs = []" by (fastforce simp: filter_empty_conv)
      with False show ?thesis by (intro exI [of _ 0]) simp
    qed
  qed simp
  from this [OF event_rows_sorted(1) [OF d, of kinds c0]] obtain n where
    "filter (\<lambda>r. int (ob_seq r) \<le> cur) (event_rows kinds c0 full) = take n (event_rows kinds c0 full)" by blast
  with u show ?thesis by (intro exI [of _ n]) (simp add: sent_upto_def take_map)
qed

text \<open>C11: as long as every statement of a stream sees an initial segment of the outbox, the subscriber gets the
  events of its kinds after its position without a gap, without a repetition and in their order, however the
  stream is interrupted: by a failed query, a lost notification, a message that cannot be sent.\<close>

theorem stream_gapless:
  assumes "distinct (map ob_seq full)" and "sees full (se_queries env)"
    and "Subscribe kinds resume env sem = (oe, sent, sem')" and "parseEventID resume = Some c0"
  shows "\<exists>n. sent = take n (map event_of (event_rows kinds c0 full))"
proof (cases "sent = []")
  case True
  then show ?thesis by (intro exI [of _ 0]) simp
next
  case False
  with assms(3,4) have run: "run_stream kinds c0 env = (oe, sent)" and op: "se_open env = None"
    by (auto simp: Subscribe_def run_stream_def split: option.splits prod.splits)
  obtain c1 oe1 o1 q1 s1 where s: "streamSince kinds c0 (se_queries env) (se_sends env) = ((c1, oe1), o1, q1, s1)"
    by (metis prod_cases4 prod.collapse)
  from streamSince_upto [OF assms(1) s assms(2) sent_upto_start [OF assms(1)]]
  have u: "sent_upto kinds c0 full c1 o1" "sees full q1" by auto
  obtain r l where w: "wait_loop kinds c1 (se_waits env) q1 s1 = (r, l)" by fastforce
  from wait_loop_upto [OF assms(1) w u(2,1)] sent_prefix [OF assms(1)] u(1) run op s w show ?thesis
    by (auto simp: run_stream_def split: option.splits)
qed

definition sample_event_row :: "nat \<Rightarrow> outbox_row" where
  "sample_event_row n = \<lparr> ob_seq = n, ob_kind = OutboxListener, ob_resource = ''lst1'', ob_project = ''p1'',
     ob_action = ActionCreated, ob_payload = [(''parent_resource_id'', JString ''nlb1'')], ob_at = 7 \<rparr>"

definition demo_stream :: "query list \<Rightarrow> stream_env" where
  "demo_stream qs = \<lparr> se_open = None, se_waits = [Notified, WaitLost], se_queries = qs, se_sends = [] \<rparr>"

definition sample_slots :: semaphore where "sample_slots = \<lparr> sm_cap = 1, sm_held = 0 \<rparr>"

theorem stream_gapless_witness:
  "\<exists>n. [event_of (sample_event_row 1), event_of (sample_event_row 2)]
     = take n (map event_of (event_rows [] 0 [sample_event_row 1, sample_event_row 2]))"
proof -
  let ?full = "[sample_event_row 1, sample_event_row 2]"
  let ?env = "demo_stream [Sees [sample_event_row 1], Sees ?full]"
  have run: "Subscribe [] '''' ?env sample_slots
      = (Some (Status CodeUnavailable ''lifecycle notification stream lost''),
         [event_of (sample_event_row 1), event_of (sample_event_row 2)], sample_slots)"
    by code_simp
  have p: "parseEventID '''' = Some 0" by (simp add: parseEventID_def)
  show ?thesis
    by (rule stream_gapless [OF _ _ run p]) (auto simp: sees_def segment_def demo_stream_def sample_event_row_def)
qed

subsection \<open>Draining and resuming\<close>

lemma event_rows_next:
  assumes "distinct (map ob_seq t)" and "i < length (event_rows kinds cur t)"
  shows "event_rows kinds (int (ob_seq (event_rows kinds cur t ! i))) t = drop (Suc i) (event_rows kinds cur t)"
proof -
  let ?S = "event_rows kinds cur t"
  let ?P = "\<lambda>cur r. int (ob_seq r) > cur \<and> (kinds = [] \<or> kind_text (ob_kind r) \<in> set kinds)"
  let ?c = "ob_seq (?S ! i)"
  have "?S ! i \<in> set ?S" using assms(2) by simp
  then have "cur < int ?c" using event_rows_sorted(2) [OF assms(1), of kinds cur] by blast
  then have "filter (?P (int ?c)) t = filter (\<lambda>r. ?c < ob_seq r) (filter (?P cur) t)"
    by (simp, intro filter_cong) auto
  then have "event_rows kinds (int ?c) t = filter (\<lambda>r. ?c < ob_seq r) ?S"
    using seqs.filter_isort [OF distinct_map_filter [OF assms(1)], of "\<lambda>r. ?c < ob_seq r" "?P cur"]
    by (simp add: event_rows_def)
  also have "\<dots> = drop (Suc i) ?S"
    by (rule seqs.filter_after_nth [OF event_rows_sorted(1) [OF assms(1)] assms(2)])
  finally show ?thesis .
qed

lemma send_all_ok: "send_all cur rs [] = (if rs = [] then cur else int (ob_seq (last rs)), None, map event_of rs, [])"
  by (induction rs arbitrary: cur) auto

text \<open>C18: a stream that is not interrupted sends everything: on an outbox that does not change, reading batch after
  batch ends with every wanted event sent, whatever their number.\<close>

theorem stream_drains:
  assumes "distinct (map ob_seq t)"
  shows "length (event_rows kinds cur t) < 100 * k \<Longrightarrow>
    \<exists>c qs. streamSince kinds cur (replicate k (Sees t)) [] = ((c, None), map event_of (event_rows kinds cur t), qs, [])"
proof (induction k arbitrary: cur)
  case (Suc k)
  let ?S = "event_rows kinds cur t" and ?E = "EventsSince cur kinds catchupBatchSize t"
  have E: "?E = take 100 ?S" by (simp add: EventsSince_def catchupBatchSize_def)
  show ?case
  proof (cases "length ?S < 100")
    case True
    then have "?E = ?S" by (simp add: E)
    moreover have "length ?S < catchupBatchSize" using True by (simp add: catchupBatchSize_def)
    ultimately show ?thesis by (simp add: send_all_ok Let_def)
  next
    case False
    let ?c = "int (ob_seq (?S ! 99))"
    have ne: "?E \<noteq> []" using False by (auto simp: E)
    then have last: "?E \<noteq> []" "last ?E = ?S ! 99" using False by (simp_all add: last_conv_nth) (simp add: E)
    have next_rows: "event_rows kinds ?c t = drop 100 ?S" using event_rows_next [OF assms, of 99 kinds cur] False by simp
    with Suc.prems False have "length (event_rows kinds ?c t) < 100 * k" by simp
    from Suc.IH [OF this] obtain c qs where
      "streamSince kinds ?c (replicate k (Sees t)) [] = ((c, None), map event_of (drop 100 ?S), qs, [])"
      unfolding next_rows by blast
    moreover have "\<not> length ?E < catchupBatchSize" using False by (simp add: E) (simp add: catchupBatchSize_def)
    moreover have "?E @ drop 100 ?S = ?S" by (simp add: E)
    ultimately show ?thesis using last by (simp add: send_all_ok Let_def flip: map_append)
  qed
qed simp

theorem stream_drains_witness:
  "\<exists>c qs. streamSince [] 0 (replicate 1 (Sees [sample_event_row 1])) []
     = ((c, None), map event_of (event_rows [] 0 [sample_event_row 1]), qs, [])"
  by (rule stream_drains) (simp_all add: event_rows_def)

lemma digits_value_append:
  "digits_value n (s @ [c]) = (case digits_value n s of None \<Rightarrow> None
     | Some m \<Rightarrow> if digit c then Some (10 * m + (code_of c - 48)) else None)"
  by (induction s arbitrary: n) auto

lemma digit_char: "n < 10 \<Longrightarrow> digit (char_of (48 + n)) \<and> code_of (char_of (48 + n) :: char) - 48 = n"
  by (simp add: digit_def code_of_def)

lemma digits_value_show: "digits_value 0 (show_nat n) = Some n"
proof (induction n rule: show_nat.induct)
  case (1 n)
  show ?case
  proof (cases "n < 10")
    case True
    with digit_char [of n] show ?thesis by (subst show_nat.simps) simp
  next
    case False
    with 1 digit_char [of "n mod 10"] show ?thesis by (subst show_nat.simps) (simp add: digits_value_append)
  qed
qed

lemma show_nat_hd: "\<exists>c cs. show_nat n = c # cs \<and> digit c"
proof (induction n rule: show_nat.induct)
  case (1 n)
  show ?case
  proof (cases "n < 10")
    case True
    with digit_char [of n] show ?thesis by (subst show_nat.simps) simp
  next
    case False
    with 1 obtain c cs where "show_nat (n div 10) = c # cs \<and> digit c" by blast
    with False show ?thesis by (subst show_nat.simps) simp
  qed
qed

lemma parse_show_nat: "n < 2 ^ 63 \<Longrightarrow> parseEventID (show_nat n) = Some (int n)"
proof -
  assume n: "n < 2 ^ 63"
  obtain c cs where s: "show_nat n = c # cs" "digit c" using show_nat_hd by blast
  then have "c \<noteq> CHR ''+'' \<and> c \<noteq> CHR ''-''" by (auto simp: digit_def code_of_def)
  with s digits_value_show [of n] n show ?thesis by (simp add: parseEventID_def ParseInt64_def Let_def)
qed


text \<open>The identifier of an event is a position to resume from: it parses back to the event's number, and the
  events after it are exactly those the subscriber has not had.\<close>

theorem resume_continues:
  assumes "distinct (map ob_seq t)" and "i < length (event_rows kinds c0 t)"
    and "ob_seq (event_rows kinds c0 t ! i) < 2 ^ 63"
  shows "\<exists>c. parseEventID (le_id (event_of (event_rows kinds c0 t ! i))) = Some c
    \<and> event_rows kinds c t = drop (Suc i) (event_rows kinds c0 t)"
  using parse_show_nat [OF assms(3)] event_rows_next [OF assms(1,2)]
  by (auto simp: event_of_def split: prod.split)

theorem resume_continues_witness:
  "\<exists>c. parseEventID (le_id (event_of (sample_event_row 1))) = Some c
    \<and> event_rows [] c [sample_event_row 2, sample_event_row 1] = [sample_event_row 2]"
proof -
  let ?t = "[sample_event_row 2, sample_event_row 1]"
  have rows: "event_rows [] 0 ?t = [sample_event_row 1, sample_event_row 2]"
    by (simp add: event_rows_def isort_def sample_event_row_def)
  have "distinct (map ob_seq ?t)" by (simp add: sample_event_row_def)
  from resume_continues [OF this, of 0 "[]" 0, unfolded rows] show ?thesis
    by (simp add: sample_event_row_def [of "Suc 0"] sample_event_row_def [of 1])
qed

text \<open>A stream gives its slot back however it ends.\<close>

lemma slot_returned: "Subscribe kinds resume env sem = (oe, sent, sem') \<Longrightarrow> sem' = sem"
  by (auto simp: Subscribe_def TryAcquire_def Release_def split: option.splits prod.splits if_splits)

end
