(* ===== verification/Migrator.thy ===== *)
theory Migrator
  imports Composition Lifecycle_Stream
begin

text \<open>
  The program that migrates the schema (\<^verbatim>\<open>cmd/migrator/main.go\<close>, \<^verbatim>\<open>internal/apps/migrator\<close>): where the
  connection string comes from, the checks of the runner, the target version and the call of the
  migration library each command makes. The library, the driver and the files are parameters; so is the
  parsing of the command line, whose result is the options.
\<close>

subsection \<open>Dialects\<close>

record dialect_spec =
  ds_name :: string
  ds_goose :: string
  ds_driver :: string

definition SpecPostgres :: dialect_spec where
  "SpecPostgres = \<lparr> ds_name = ''postgres'', ds_goose = ''postgres'', ds_driver = ''pgx'' \<rparr>"

datatype migrator_error = Plain err | ConfigLoad "config_error list"

definition ResolveDialect :: "string \<Rightarrow> migrator_error + dialect_spec" where
  "ResolveDialect name =
     (if name \<noteq> ds_name SpecPostgres
      then Inl (Plain (OtherErr (''unknown dialect '' @ go_quote name @ '' (supported: '' @ ds_name SpecPostgres @ '')'')))
      else Inr SpecPostgres)"

subsection \<open>The target version\<close>

text \<open>
  \<^verbatim>\<open>fmt.Sscanf(s, "%d", &v)\<close>: blanks are skipped, but not the end of a line, then a sign and as many digits as
  there are; what follows them is not looked at. The value must fit.
\<close>

definition blank :: "char \<Rightarrow> bool" where
  "blank c \<longleftrightarrow> is_space c \<and> of_char c \<noteq> (10 :: nat)"

definition Sscanf_d :: "string \<Rightarrow> int option" where
  "Sscanf_d s =
     (let s = dropWhile blank s;
          sign = (if s \<noteq> [] \<and> hd s \<in> {CHR ''+'', CHR ''-''} then [hd s] else []);
          digits = takeWhile digit (drop (length sign) s) in
      ParseInt64 (sign @ digits))"

definition parseTargetVersion :: "string \<Rightarrow> migrator_error + int" where
  "parseTargetVersion s =
     (case Sscanf_d s of
        None \<Rightarrow> Inl (Plain (OtherErr (''parse target version '' @ go_quote s)))
      | Some v \<Rightarrow> if v < 0 then Inl (Plain (OtherErr ''target version must be non-negative'')) else Inr v)"

subsection \<open>The migration library\<close>

datatype goose_call =
  GooseUp string string
| GooseUpTo string string int
| GooseDown string string
| GooseDownTo string string int
| GooseStatus string string
| GooseCreate string string string

record goose =
  go_open :: "string \<Rightarrow> string \<Rightarrow> err option"
  go_set_dialect :: "string \<Rightarrow> err option"
  go_call :: "goose_call \<Rightarrow> err option"

text \<open>What a command asked of the library, and how it ended.\<close>

type_synonym outcome = "goose_call list \<times> migrator_error option"

definition openPgxDB :: "goose \<Rightarrow> string \<Rightarrow> dialect_spec \<Rightarrow> migrator_error + unit" where
  "openPgxDB g dsn sp =
     (case go_open g (ds_driver sp) dsn of
        Some e \<Rightarrow> Inl (Plain (OtherErr (''open db (driver='' @ ds_driver sp @ ''): '' @ error_text e)))
      | None \<Rightarrow> Inr ())"

definition setupGoose :: "goose \<Rightarrow> dialect_spec \<Rightarrow> migrator_error + unit" where
  "setupGoose g sp =
     (case go_set_dialect g (ds_goose sp) of
        Some e \<Rightarrow> Inl (Plain (OtherErr (''goose set dialect '' @ go_quote (ds_goose sp) @ '': '' @ error_text e)))
      | None \<Rightarrow> Inr ())"

definition call_goose :: "goose \<Rightarrow> goose_call \<Rightarrow> outcome" where
  "call_goose g c = ([c], map_option Plain (go_call g c))"

definition refuse :: "migrator_error + 'a \<Rightarrow> ('a \<Rightarrow> outcome) \<Rightarrow> outcome" where
  "refuse r k = (case r of Inl e \<Rightarrow> ([], Some e) | Inr x \<Rightarrow> k x)"

definition dialect_Up :: "goose \<Rightarrow> dialect_spec \<Rightarrow> string \<Rightarrow> string \<Rightarrow> string \<Rightarrow> outcome" where
  "dialect_Up g sp dsn dir target =
     refuse (openPgxDB g dsn sp) (\<lambda>_. refuse (setupGoose g sp) (\<lambda>_.
       if target = '''' then call_goose g (GooseUp dsn dir)
       else refuse (parseTargetVersion target) (\<lambda>v. call_goose g (GooseUpTo dsn dir v))))"

definition dialect_Down :: "goose \<Rightarrow> dialect_spec \<Rightarrow> string \<Rightarrow> string \<Rightarrow> string \<Rightarrow> outcome" where
  "dialect_Down g sp dsn dir target =
     refuse (openPgxDB g dsn sp) (\<lambda>_. refuse (setupGoose g sp) (\<lambda>_.
       if target = '''' then call_goose g (GooseDown dsn dir)
       else refuse (parseTargetVersion target) (\<lambda>v. call_goose g (GooseDownTo dsn dir v))))"

definition dialect_Status :: "goose \<Rightarrow> dialect_spec \<Rightarrow> string \<Rightarrow> string \<Rightarrow> outcome" where
  "dialect_Status g sp dsn dir =
     refuse (openPgxDB g dsn sp) (\<lambda>_. refuse (setupGoose g sp) (\<lambda>_. call_goose g (GooseStatus dsn dir)))"

definition dialect_Create :: "goose \<Rightarrow> dialect_spec \<Rightarrow> string \<Rightarrow> string \<Rightarrow> outcome" where
  "dialect_Create g sp physDir name =
     (if name = '''' then ([], Some (Plain (OtherErr ''migration name is empty'')))
      else if physDir = '''' then ([], Some (Plain (OtherErr ''physical migrations directory is empty (--dir)'')))
      else refuse (setupGoose g sp) (\<lambda>_. call_goose g (GooseCreate physDir name ''sql'')))"

subsection \<open>The runner\<close>

record migrator_config =
  mc_dialect :: "dialect_spec option"
  mc_dsn :: string
  mc_fs :: bool
  mc_dir :: string

definition migrator_Validate :: "migrator_config \<Rightarrow> err option" where
  "migrator_Validate c =
     (case mc_dialect c of
        None \<Rightarrow> Some (OtherErr ''dialect is not set'')
      | Some sp \<Rightarrow>
          if ds_name sp = '''' then Some (OtherErr ''dialect spec.Name is empty'')
          else if mc_dsn c = ''''
          then Some (OtherErr ''dsn is empty (set --dsn / KACHO_NLB_REPOSITORY__POSTGRES__URL / config repository.postgres.url)'')
          else if \<not> mc_fs c then Some (OtherErr ''migrations FS is nil'')
          else if mc_dir c = '''' then Some (OtherErr ''migrations dir is empty'')
          else None)"

text \<open>A runner is a configuration that passed the checks, with its dialect.\<close>

definition migrator_New :: "migrator_config \<Rightarrow> migrator_error + migrator_config" where
  "migrator_New c = (case migrator_Validate c of Some e \<Rightarrow> Inl (Plain e) | None \<Rightarrow> Inr c)"

definition runner_dialect :: "migrator_config \<Rightarrow> dialect_spec" where
  "runner_dialect c = the (mc_dialect c)"

definition runner_Up :: "goose \<Rightarrow> migrator_config \<Rightarrow> string \<Rightarrow> outcome" where
  "runner_Up g c target = dialect_Up g (runner_dialect c) (mc_dsn c) (mc_dir c) target"

definition runner_Down :: "goose \<Rightarrow> migrator_config \<Rightarrow> string \<Rightarrow> outcome" where
  "runner_Down g c target = dialect_Down g (runner_dialect c) (mc_dsn c) (mc_dir c) target"

definition runner_Status :: "goose \<Rightarrow> migrator_config \<Rightarrow> outcome" where
  "runner_Status g c = dialect_Status g (runner_dialect c) (mc_dsn c) (mc_dir c)"

definition runner_Create :: "goose \<Rightarrow> migrator_config \<Rightarrow> string \<Rightarrow> string \<Rightarrow> outcome" where
  "runner_Create g c physDir name = dialect_Create g (runner_dialect c) physDir name"

subsection \<open>The commands\<close>

record root_options =
  ro_dialect :: string
  ro_dsn :: string
  ro_config :: string

definition defaultMigrationsDir :: string where "defaultMigrationsDir = ''.''"
definition defaultPhysDir :: string where "defaultPhysDir = ''internal/migrations''"

text \<open>\<open>load\<close> is \<^verbatim>\<open>config.Load\<close> in the environment of the process.\<close>

definition buildRunner ::
  "(string \<Rightarrow> config_error list + config) \<Rightarrow> root_options \<Rightarrow> bool \<Rightarrow> migrator_error + migrator_config" where
  "buildRunner load ops fs =
     (case ResolveDialect (ro_dialect ops) of
        Inl e \<Rightarrow> Inl e
      | Inr sp \<Rightarrow>
          let new = (\<lambda>dsn. migrator_New \<lparr> mc_dialect = Some sp, mc_dsn = dsn, mc_fs = fs, mc_dir = defaultMigrationsDir \<rparr>);
              dsn = TrimSpace (ro_dsn ops) in
          if dsn \<noteq> '''' then new dsn
          else case load (ro_config ops) of
              Inl es \<Rightarrow> Inl (ConfigLoad es)
            | Inr c \<Rightarrow>
                let dsn = TrimSpace (pg_url (rp_postgres (cf_repository c))) in
                if dsn = ''''
                then Inl (Plain (OtherErr ''dsn unset: --dsn / KACHO_NLB_REPOSITORY__POSTGRES__URL / repository.postgres.url all empty''))
                else new dsn)"

datatype migrator_command = CmdUp string | CmdDown string | CmdStatus | CmdCreate string string

fun run_command ::
  "goose \<Rightarrow> (string \<Rightarrow> config_error list + config) \<Rightarrow> root_options \<Rightarrow> bool \<Rightarrow> migrator_command \<Rightarrow> outcome" where
  "run_command g load ops fs (CmdUp target) = refuse (buildRunner load ops fs) (\<lambda>r. runner_Up g r target)"
| "run_command g load ops fs (CmdDown target) = refuse (buildRunner load ops fs) (\<lambda>r. runner_Down g r target)"
| "run_command g load ops fs CmdStatus = refuse (buildRunner load ops fs) (\<lambda>r. runner_Status g r)"
| "run_command g load ops fs (CmdCreate name dir) = refuse (buildRunner load ops fs) (\<lambda>r. runner_Create g r dir name)"

subsection \<open>Facts\<close>

text \<open>Every number reads back, with zeros in front and whatever follows it.\<close>

lemma digits_value_zeros: "digits_value 0 (replicate k (CHR ''0'') @ s) = digits_value 0 s"
  by (induction k) (simp_all add: digit_def code_of_def)

lemma digits_value_digits: "digits_value m s = Some n \<Longrightarrow> list_all digit s"
  by (induction s arbitrary: m) (auto split: if_splits)

lemma parseTargetVersion_number:
  assumes "n < 2 ^ 63" and "rest = [] \<or> \<not> digit (hd rest)"
  shows "parseTargetVersion (replicate k (CHR ''0'') @ show_nat n @ rest) = Inr (int n)"
proof -
  let ?ds = "replicate k (CHR ''0'') @ show_nat n"
  have val: "digits_value 0 ?ds = Some n" by (simp add: digits_value_zeros digits_value_show)
  then have all: "\<And>c. c \<in> set ?ds \<Longrightarrow> digit c" by (auto dest!: digits_value_digits simp: list_all_iff)
  obtain c cs where c: "?ds = c # cs" using show_nat_hd [of n] by (cases ?ds) auto
  then have d: "digit c" using all by auto
  then have sign: "c \<noteq> CHR ''+''" "c \<noteq> CHR ''-''" by (auto simp: digit_def code_of_def)
  have "\<not> blank c" using d by (auto simp: blank_def is_space_def digit_def code_of_def)
  then have skip: "dropWhile blank (?ds @ rest) = ?ds @ rest" by (simp add: c)
  have "takeWhile digit (?ds @ rest) = ?ds @ takeWhile digit rest"
    by (rule takeWhile_append2) (rule all)
  then have take: "takeWhile digit (?ds @ rest) = ?ds" using assms(2) by (cases rest) simp_all
  have "Sscanf_d (?ds @ rest) = ParseInt64 ?ds"
    unfolding Sscanf_d_def Let_def skip using sign take by (simp add: c del: append.simps) (simp add: c)
  also have "\<dots> = Some (int n)" using val sign assms(1) by (simp add: ParseInt64_def Let_def c)
  finally show ?thesis by (simp add: parseTargetVersion_def)
qed

text \<open>At most one call reaches the library, and it is the one the command names.\<close>

definition asks :: "migrator_command \<Rightarrow> goose_call \<Rightarrow> bool" where
  "asks c q \<longleftrightarrow>
     (case (c, q) of
        (CmdUp t, GooseUp dsn dir) \<Rightarrow> t = ''''
      | (CmdUp t, GooseUpTo dsn dir v) \<Rightarrow> parseTargetVersion t = Inr v \<and> 0 \<le> v \<and> t \<noteq> ''''
      | (CmdDown t, GooseDown dsn dir) \<Rightarrow> t = ''''
      | (CmdDown t, GooseDownTo dsn dir v) \<Rightarrow> parseTargetVersion t = Inr v \<and> 0 \<le> v \<and> t \<noteq> ''''
      | (CmdStatus, GooseStatus dsn dir) \<Rightarrow> True
      | (CmdCreate n d, GooseCreate d' n' ext) \<Rightarrow> d' = d \<and> n' = n \<and> n \<noteq> '''' \<and> d \<noteq> ''''
      | _ \<Rightarrow> False)"

lemma refuse_calls: "q \<in> set (fst (refuse r k)) \<longleftrightarrow> (\<exists>x. r = Inr x \<and> q \<in> set (fst (k x)))"
  by (simp add: refuse_def split: sum.splits)

lemma parseTargetVersion_nonneg: "parseTargetVersion t = Inr v \<Longrightarrow> 0 \<le> v"
  by (auto simp: parseTargetVersion_def split: option.splits if_splits)

lemma run_command_calls: "q \<in> set (fst (run_command g load ops fs c)) \<Longrightarrow> asks c q"
  by (cases c) (auto simp: refuse_calls call_goose_def asks_def runner_Up_def runner_Down_def runner_Status_def
      runner_Create_def dialect_Up_def dialect_Down_def dialect_Status_def dialect_Create_def
      parseTargetVersion_nonneg split: if_splits)

text \<open>The defaults are those of a production process without certificates: they never validate by themselves.\<close>

definition env_only :: "string \<Rightarrow> config" where
  "env_only url = RegisterDefaults \<lparr> cf_repository := cf_repository RegisterDefaults
     \<lparr> rp_postgres := (rp_postgres (cf_repository RegisterDefaults)) \<lparr> pg_url := url \<rparr> \<rparr> \<rparr>"

lemma env_only_invalid: "InsecureServer \<in> set (Validate (env_only url))"
proof -
  have "Mode (env_only url) = Some ModeProduction"
  proof -
    have "Mode (env_only url) = Mode RegisterDefaults" by (simp add: Mode_def env_only_def)
    also have "\<dots> = Some ModeProduction" by code_simp
    finally show ?thesis .
  qed
  moreover have "\<not> ml_server (cf_mtls (env_only url))" by (simp add: env_only_def RegisterDefaults_def)
  ultimately show ?thesis by (simp add: Validate_def validate_production_def Let_def complain_def)
qed

lemma env_only_password: "expandPasswordFromEnv getenv (env_only url) = env_only url"
  by (simp add: expandPasswordFromEnv_def env_only_def RegisterDefaults_def TrimSpace_def Let_def)


definition plain_options :: root_options where
  "plain_options = \<lparr> ro_dialect = ''postgres'', ro_dsn = ''postgres://db/nlb'', ro_config = '''' \<rparr>"

definition idle_goose :: goose where
  "idle_goose = \<lparr> go_open = (\<lambda>d s. None), go_set_dialect = (\<lambda>d. None), go_call = (\<lambda>c. None) \<rparr>"


end
