(* ===== verification/Spec2Isabelle.thy ===== *)
theory Spec2Isabelle
  imports Service Vpc_Client Listing Confinement Lro_Recovery Reads Announce Shutdown Migrator
begin

text \<open>
  A model of the control plane of a network load balancer (the Go service under \<^verbatim>\<open>src/\<close>), with the theorems
  that make it correct. The definitions are translated from the source and carry its names; they compute,
  so they can be evaluated on concrete inputs.

  \<^bold>\<open>The program.\<close> A call of the public API is checked (authorization, request, other services), inserts the
  row of an operation and answers with it; a worker then does the work as a sequence of database
  transactions and calls of the network service, which owns the addresses. Every transaction that changes a
  resource also writes what the outside must be told: an event for the subscribers of the life-cycle stream
  and an intent for the relay of owner tuples. Background runners finish what a dead worker left, delete
  drained targets, resolve orphaned operations and backfill the origin of old listeners. The data plane
  reports what it announces on an internal listener. Safety across concurrent calls rests on the database:
  its constraints, a trigger, compare-and-swap on the status, and row versions.

  \<^bold>\<open>The theories, and what they model.\<close>

    \<^item> Shared: \<^theory_text>\<open>Prelude\<close> (fallible computations, tables as lists of rows), \<^theory_text>\<open>Errors\<close> (sentinels,
      SQLSTATEs and gRPC statuses: \<^verbatim>\<open>domain/errors.go\<close>, \<^verbatim>\<open>api/shared\<close>, \<^verbatim>\<open>repo/kacho/pg/errors.go\<close>).
    \<^item> The domain (\<^verbatim>\<open>internal/domain\<close>): \<^theory_text>\<open>Domain_Types\<close>, \<^theory_text>\<open>Net_Addr\<close> and \<^theory_text>\<open>Net_Prefix\<close> (what the code
      uses of \<^verbatim>\<open>net/netip\<close>), \<^theory_text>\<open>Domain_Entities\<close>, \<^theory_text>\<open>Intents\<close>. Integers of the wire and of the rows are
      words of their width, read with \<open>sint\<close>.
    \<^item> The database (\<^verbatim>\<open>internal/migrations\<close>, \<^verbatim>\<open>internal/repo/kacho/pg\<close>): \<^theory_text>\<open>Schema\<close> (tables, constraints, the
      status trigger, outboxes), \<^theory_text>\<open>Row_Contracts\<close> (the locales of compare-and-swap and of versions, which
      every repository interprets), \<^theory_text>\<open>Repo_Load_Balancers\<close>, \<^theory_text>\<open>Repo_Listeners\<close>, \<^theory_text>\<open>Repo_Target_Groups\<close>.
    \<^item> The use-cases (\<^verbatim>\<open>internal/apps/kacho/api\<close>): \<^theory_text>\<open>Sagas\<close> and \<^theory_text>\<open>Usecase_Steps\<close> (the world a worker runs
      in), \<^theory_text>\<open>Lb_Vip_Source\<close>, \<^theory_text>\<open>Lb_Create\<close>, \<^theory_text>\<open>Lb_Delete\<close>, \<^theory_text>\<open>Lb_Lifecycle\<close>, \<^theory_text>\<open>Listener_Usecases\<close>,
      \<^theory_text>\<open>Target_Group_Usecases\<close>, \<^theory_text>\<open>Handlers\<close>; \<^theory_text>\<open>Views\<close> (messages and JSON columns: \<^verbatim>\<open>internal/dto\<close>,
      \<^verbatim>\<open>pg/dto\<close>), \<^theory_text>\<open>Reads\<close> (reads and operations), \<^theory_text>\<open>Authz_Filter\<close> and \<^theory_text>\<open>Listing\<close> (lists),
      \<^theory_text>\<open>Lifecycle_Stream\<close> (the event stream), \<^theory_text>\<open>Announce\<close> (the data plane's reports).
    \<^item> The other services (\<^verbatim>\<open>internal/clients\<close>): \<^theory_text>\<open>Peer_Clients\<close>, \<^theory_text>\<open>Vpc_Client\<close>.
    \<^item> Behind the calls: \<^theory_text>\<open>Jobs\<close> (\<^verbatim>\<open>internal/apps/kacho/jobs\<close>), \<^theory_text>\<open>Lro_Recovery\<close> (\<^verbatim>\<open>internal/operationresolver\<close>),
      \<^theory_text>\<open>Readiness\<close> (workers, backfill, health checks).
    \<^item> The process (\<^verbatim>\<open>cmd/kacho-loadbalancer\<close>, \<^verbatim>\<open>internal/apps/kacho/config\<close>, \<^verbatim>\<open>internal/check\<close>): \<^theory_text>\<open>Go_Text\<close>,
      \<^theory_text>\<open>Config\<close>, \<^theory_text>\<open>Permissions\<close>, \<^theory_text>\<open>Composition\<close> (from a configuration to the servers), \<^theory_text>\<open>Shutdown\<close> (the
      tasks of the running process and its end); \<^theory_text>\<open>Migrator\<close> (\<^verbatim>\<open>cmd/migrator\<close>).
    \<^item> The system: \<^theory_text>\<open>Db_Invariants\<close>, \<^theory_text>\<open>System\<close> (a step is a committed transaction), \<^theory_text>\<open>Lb_Life\<close> (the abstract
      life cycle), \<^theory_text>\<open>World_Invariants\<close> (the locale of what workers keep), \<^theory_text>\<open>Service\<close> (calls and ticks),
      \<^theory_text>\<open>Confinement\<close> (how far a call reaches).

  \<^bold>\<open>What the groups of lemmas show.\<close> A repository method meets its contract and keeps the invariants; a worker,
  whatever the others do between its transactions and whatever fails, only makes steps of the system; hence
  every reachable database satisfies the invariants and every visible status follows the abstract life
  cycle. A creation that fails gives back what it took, a deletion marks before it releases, a runner
  releases before it deletes and clears every backlog when the network service cooperates, which the client
  of that service is shown to do over a healthy one. Lists are complete and leak nothing, the stream is
  gapless, recovery tells the truth, a call changes only what its caller may write to, an operation is its
  owner's. A production process protects its connections, a ready one has its dependencies and its backfill,
  and one that is told to stop stops. Some theorems state what goes wrong: events that are lost when
  transactions commit out of order, a recovered creation that vanishes, a migrator that the environment alone
  cannot configure.

  \<^bold>\<open>Assumptions.\<close> A writer transaction runs alone on the state the others left; each statement of a reader sees a
  state of its own (slots of the world: what the others did, and whether the transaction fails before, in or
  after its commit). New identifiers, visit orders of maps, clocks and locks are arguments. The shared library
  (identifier check, interceptor, \<open>StaticExtractor\<close>, repository of operations, boot gate, drainer), generated
  stubs, \<^verbatim>\<open>retry.OnUnavailable\<close>, the reader of configuration files and the migration library are parameters, with
  their documented behaviour as named hypotheses where a theorem needs it. Case and white space are those of
  ASCII; the text of a page token is opaque.

  \<^bold>\<open>Bounds.\<close> A tick of the runner takes at most 100 rows, a group has at most 100 targets, a page at most 1000
  rows, a read of the stream at most 100 events, and a wait for an operation of the network service ends within
  301 rounds, one every 50 milliseconds until the deadline of 15 seconds; that loop and the walk over the pages
  of zones are partial functions, whose value says that they returned. The end of the process takes at most two
  steps and two for each task. The other loops are recursions on what they go through: a list, a bound of the code, or the script of the environment.

  \<^bold>\<open>Not modelled.\<close> Metrics and logs; interfaces and one-line delegates; the transport under a server; the tickers
  that repeat a tick; the loops of the shared library; the wait for running operations at shutdown; the numeric rendering of row versions; NOTIFY.
\<close>

end
